(* ===== verification/Py_Prelude.thy ===== *)
theory Py_Prelude
  imports Complex_Main "HOL-Library.Char_ord" "HOL-Library.List_Lexorder" "HOL-Library.Sublist"
    "HOL-Library.AList"
begin

text \<open>
  Python strings and dictionaries, as far as the server uses them.

  A Python \<open>str\<close> is a list of characters, one per code point; the model covers code points
  0 to 255.  White space, lower case, digits and upper case are Python's on that range, except
  that the micro sign (181) and y with diaeresis (255), whose upper-case forms lie
  beyond 255, are left as they are.  A dictionary is an association list in insertion order;
  assignment is \<open>AList.update\<close>, which overwrites in place or appends at the end, as
  \<open>d[k] = v\<close> does.
\<close>

named_theorems py_str \<open>rewrite rules for the string operations\<close>
named_theorems py_def \<open>definitions unfolded when a closed term is evaluated\<close>

section \<open>Characters\<close>

definition is_space :: "char \<Rightarrow> bool" where
  "is_space c = (let n = (of_char c :: nat)
     in (9 \<le> n \<and> n \<le> 13) \<or> (28 \<le> n \<and> n \<le> 32) \<or> n = 133 \<or> n = 160)"

definition lower_char :: "char \<Rightarrow> char" where
  "lower_char c = (let n = (of_char c :: nat)
     in if (65 \<le> n \<and> n \<le> 90) \<or> (192 \<le> n \<and> n \<le> 222 \<and> n \<noteq> 215)
        then char_of (n + 32) else c)"

definition upper_chars :: "char \<Rightarrow> string" where
  "upper_chars c = (let n = (of_char c :: nat)
     in if (97 \<le> n \<and> n \<le> 122) \<or> (224 \<le> n \<and> n \<le> 254 \<and> n \<noteq> 247)
        then [char_of (n - 32)]
        else if n = 223 then ''SS'' else [c])"

definition is_dec :: "char \<Rightarrow> bool" where
  "is_dec c = (let n = (of_char c :: nat) in 48 \<le> n \<and> n \<le> 57)"

text \<open>\<open>str.isdigit\<close> also holds of the superscripts two, three and one, which \<open>int\<close> rejects.\<close>

definition is_digit_char :: "char \<Rightarrow> bool" where
  "is_digit_char c = (is_dec c \<or> (let n = (of_char c :: nat) in n = 178 \<or> n = 179 \<or> n = 185))"

definition dec_val :: "char \<Rightarrow> nat" where
  "dec_val c = (of_char c :: nat) - 48"

lemmas char_defs [py_def] =
  is_space_def lower_char_def upper_chars_def is_dec_def is_digit_char_def dec_val_def

lemma of_char_lt_256: "(of_char c :: nat) < 256"
  by (metis nat_of_char_less_256)

lemma of_char_lower_char:
  "(of_char (lower_char c) :: nat) =
     (let n = (of_char c :: nat) in
      if (65 \<le> n \<and> n \<le> 90) \<or> (192 \<le> n \<and> n \<le> 222 \<and> n \<noteq> 215) then n + 32 else n)"
  by (auto simp: lower_char_def Let_def)

lemma lower_char_idem [simp]: "lower_char (lower_char c) = lower_char c"
proof -
  have "(of_char (lower_char (lower_char c)) :: nat) = of_char (lower_char c)"
    by (auto simp: of_char_lower_char Let_def)
  then show ?thesis by simp
qed

lemma is_space_lower_char [simp]: "is_space (lower_char c) = is_space c"
  by (auto simp: is_space_def Let_def of_char_lower_char)

text \<open>Lower case neither makes nor removes a character outside its own range.\<close>

lemma lower_char_eq_iff:
  assumes "(of_char d :: nat) < 97" "lower_char d = d"
  shows "(lower_char c = d) = (c = d)"
proof -
  have "(of_char (lower_char c) = (of_char d :: nat)) = (of_char c = (of_char d :: nat))"
    using assms of_char_lower_char [of d] by (auto simp: of_char_lower_char Let_def split: if_splits)
  then show ?thesis by simp
qed

text \<open>Characters that a string literal of the theory cannot contain.\<close>

definition newline :: char where "newline = CHR 0x0A"
definition backslash :: char where "backslash = CHR 0x5C"
definition squote :: char where "squote = CHR 0x27"
definition dquote :: char where "dquote = CHR 0x22"

section \<open>Strings\<close>

definition py_lower :: "string \<Rightarrow> string" where
  "py_lower s = map lower_char s"

definition py_upper :: "string \<Rightarrow> string" where
  "py_upper s = concat (map upper_chars s)"

definition strip_by :: "('a \<Rightarrow> bool) \<Rightarrow> 'a list \<Rightarrow> 'a list" where
  "strip_by P xs = rev (dropWhile P (rev (dropWhile P xs)))"

definition rstrip_by :: "('a \<Rightarrow> bool) \<Rightarrow> 'a list \<Rightarrow> 'a list" where
  "rstrip_by P xs = rev (dropWhile P (rev xs))"

definition py_strip :: "string \<Rightarrow> string" where
  "py_strip s = strip_by is_space s"

fun split_on :: "'a \<Rightarrow> 'a list \<Rightarrow> 'a list list" where
  "split_on c [] = [[]]"
| "split_on c (x # xs) =
     (if x = c then [] # split_on c xs
      else case split_on c xs of [] \<Rightarrow> [[x]] | y # ys \<Rightarrow> (x # y) # ys)"

fun join_with :: "'a list \<Rightarrow> 'a list list \<Rightarrow> 'a list" where
  "join_with sep [] = []"
| "join_with sep [x] = x"
| "join_with sep (x # y # ys) = x @ sep @ join_with sep (y # ys)"

text \<open>\<open>s.replace(c, "")\<close> for a one-character pattern.\<close>

definition remove_char :: "'a \<Rightarrow> 'a list \<Rightarrow> 'a list" where
  "remove_char c s = filter (\<lambda>x. x \<noteq> c) s"

text \<open>\<open>s.split(None, 1)[0]\<close> of a stripped, non-empty string; \<open>""\<close> of the empty one.\<close>

definition first_token :: "string \<Rightarrow> string" where
  "first_token s = takeWhile (\<lambda>c. \<not> is_space c) s"

text \<open>\<open>s.split(" ")\<close>, \<open>s.split(",")\<close> with the items stripped and the blank ones dropped.\<close>

definition split_strip :: "char \<Rightarrow> string \<Rightarrow> string list" where
  "split_strip c s = filter (\<lambda>x. x \<noteq> []) (map py_strip (split_on c s))"

lemmas string_defs [py_def] =
  py_lower_def py_upper_def strip_by_def rstrip_by_def py_strip_def remove_char_def
  first_token_def split_strip_def

lemma py_lower_Nil [simp]: "py_lower [] = []"
  by (simp add: py_lower_def)

lemma py_lower_append [py_str]: "py_lower (xs @ ys) = py_lower xs @ py_lower ys"
  by (simp add: py_lower_def)

lemma py_lower_idem [simp]: "py_lower (py_lower s) = py_lower s"
  by (simp add: py_lower_def)

lemma length_py_lower [simp]: "length (py_lower s) = length s"
  by (simp add: py_lower_def)

lemma strip_by_Nil [simp]: "strip_by P [] = []"
  by (simp add: strip_by_def)

lemma py_strip_Nil [simp]: "py_strip [] = []"
  by (simp add: py_strip_def)

lemma strip_by_eq_Nil: "(strip_by P xs = []) = (\<forall>x \<in> set xs. P x)"
proof -
  have "dropWhile P xs = []" if "\<forall>x \<in> set (dropWhile P xs). P x"
    using that by (metis hd_dropWhile hd_in_set)
  then show ?thesis
    unfolding strip_by_def rev_is_Nil_conv dropWhile_eq_Nil_conv
    by (metis dropWhile_eq_Nil_conv set_dropWhileD set_rev)
qed

lemma set_strip_by: "set (strip_by P xs) \<subseteq> set xs"
  unfolding strip_by_def by (auto dest!: set_dropWhileD)

lemma hd_strip_by: "strip_by P xs \<noteq> [] \<Longrightarrow> \<not> P (hd (strip_by P xs))"
proof -
  assume ne: "strip_by P xs \<noteq> []"
  define ys where "ys = dropWhile P xs"
  have ne': "ys \<noteq> []" using ne unfolding strip_by_def ys_def [symmetric] by auto
  then have ys: "ys \<noteq> []" "\<not> P (hd ys)"
    unfolding ys_def by (simp_all add: hd_dropWhile)
  then have eq: "rev (dropWhile P (rev ys)) @ rev (takeWhile P (rev ys)) = ys"
    by (metis rev_append rev_rev_ident takeWhile_dropWhile_id)
  have "hd (strip_by P xs) = hd ys"
    using ne eq by (metis hd_append2 strip_by_def ys_def)
  with ys(2) show ?thesis by simp
qed

lemma last_strip_by: "strip_by P xs \<noteq> [] \<Longrightarrow> \<not> P (last (strip_by P xs))"
  unfolding strip_by_def by (simp add: last_rev hd_dropWhile)

lemma strip_by_id: "xs = [] \<or> (\<not> P (hd xs) \<and> \<not> P (last xs)) \<Longrightarrow> strip_by P xs = xs"
proof (cases xs)
  case (Cons x ys)
  assume "xs = [] \<or> (\<not> P (hd xs) \<and> \<not> P (last xs))"
  with Cons have h: "\<not> P (hd xs)" "\<not> P (last xs)" "xs \<noteq> []" by auto
  then have "dropWhile P xs = xs" by (cases xs) auto
  moreover have "dropWhile P (rev xs) = rev xs"
    using h by (metis dropWhile.simps(2) hd_Cons_tl hd_rev rev_is_Nil_conv)
  ultimately show ?thesis by (simp add: strip_by_def)
qed simp

lemma strip_by_idem [simp]: "strip_by P (strip_by P xs) = strip_by P xs"
  by (rule strip_by_id) (use hd_strip_by last_strip_by in blast)

lemma py_strip_idem [simp]: "py_strip (py_strip s) = py_strip s"
  by (simp add: py_strip_def)

lemma strip_by_map:
  assumes "\<And>x. P (f x) = P x"
  shows "strip_by P (map f xs) = map f (strip_by P xs)"
proof -
  have "P \<circ> f = P" using assms by auto
  then show ?thesis by (simp add: strip_by_def dropWhile_map rev_map)
qed

lemma py_strip_lower [py_str]: "py_strip (py_lower s) = py_lower (py_strip s)"
  by (simp add: py_strip_def py_lower_def strip_by_map)

text \<open>Leading white space is dropped; a kept last character protects everything before it.\<close>

lemma strip_by_append_last:
  assumes "ys \<noteq> []" "\<not> P (last ys)"
  shows "strip_by P (xs @ ys) = dropWhile P (xs @ ys)"
proof -
  have "dropWhile P (xs @ ys) \<noteq> []"
    using assms by (auto simp: dropWhile_eq_Nil_conv)
  moreover have "last (dropWhile P (xs @ ys)) = last ys"
    using assms calculation
    by (metis append_is_Nil_conv last_appendR takeWhile_dropWhile_id)
  ultimately have h: "dropWhile P (xs @ ys) \<noteq> []" "\<not> P (hd (rev (dropWhile P (xs @ ys))))"
    using assms by (simp_all only: hd_rev not_False_eq_True)
  define zs where "zs = rev (dropWhile P (xs @ ys))"
  have "dropWhile P zs = zs"
    using h unfolding zs_def [symmetric] by (cases zs) auto
  then show ?thesis by (simp add: strip_by_def zs_def)
qed

lemma split_on_not_Nil [simp]: "split_on c xs \<noteq> []"
  by (induction xs) (auto split: list.splits)

lemma split_on_append:
  "split_on c (xs @ c # ys) = split_on c xs @ split_on c ys"
proof (induction xs)
  case Nil
  then show ?case by simp
next
  case (Cons x xs)
  then show ?case by (cases "split_on c xs") (auto split: list.splits)
qed

lemma split_on_notin: "c \<notin> set xs \<Longrightarrow> split_on c xs = [xs]"
  by (induction xs) auto

lemma split_on_parts: "p \<in> set (split_on c xs) \<Longrightarrow> c \<notin> set p \<and> set p \<subseteq> set xs"
proof (induction xs arbitrary: p)
  case (Cons x xs)
  then show ?case
    by (cases "split_on c xs") (fastforce split: if_splits)+
qed simp

lemma join_split_on: "join_with [c] (split_on c xs) = xs"
proof (induction xs)
  case (Cons x xs)
  then show ?case
    by (cases "split_on c xs"; cases "tl (split_on c xs)") auto
qed simp

lemma split_on_map:
  assumes "\<And>x. (f x = c) = (x = c)"
  shows "split_on c (map f xs) = map (map f) (split_on c xs)"
  by (induction xs) (auto simp: assms split: list.splits)

section \<open>Decimal numerals\<close>

fun nat_str :: "nat \<Rightarrow> string" where
  "nat_str n = (if n < 10 then [char_of (48 + n)] else nat_str (n div 10) @ [char_of (48 + n mod 10)])"

declare nat_str.simps [simp del]

definition int_str :: "int \<Rightarrow> string" where
  "int_str i = (if i < 0 then CHR ''-'' # nat_str (nat (- i)) else nat_str (nat i))"

definition digits_val :: "string \<Rightarrow> nat" where
  "digits_val s = foldl (\<lambda>n c. 10 * n + dec_val c) 0 s"

lemma digits_val_snoc: "digits_val (s @ [c]) = 10 * digits_val s + dec_val c"
  by (simp add: digits_val_def)

lemma of_char_digit: "(n::nat) < 10 \<Longrightarrow> (of_char (char_of (48 + n) :: char) :: nat) = 48 + n"
  by simp

lemma is_dec_digit: "(n::nat) < 10 \<Longrightarrow> is_dec (char_of (48 + n))"
  by (simp add: is_dec_def Let_def)

lemma dec_val_digit: "n < 10 \<Longrightarrow> dec_val (char_of (48 + n)) = n"
  by (simp add: dec_val_def)

lemma nat_str_not_Nil [simp]: "nat_str n \<noteq> []"
  by (subst nat_str.simps) simp

lemma nat_str_digits: "\<forall>c \<in> set (nat_str n). is_dec c"
proof (induction n rule: nat_str.induct)
  case (1 n)
  show ?case
    by (subst nat_str.simps) (use 1 in \<open>auto simp: is_dec_digit\<close>)
qed

lemma digits_val_nat_str [simp]: "digits_val (nat_str n) = n"
proof (induction n rule: nat_str.induct)
  case (1 n)
  show ?case
  proof (cases "n < 10")
    case True
    then show ?thesis by (subst nat_str.simps) (simp add: digits_val_def dec_val_digit)
  next
    case False
    with 1 have "digits_val (nat_str (n div 10)) = n div 10" by simp
    with False show ?thesis
      by (subst nat_str.simps) (simp add: digits_val_snoc dec_val_digit)
  qed
qed

lemma nat_str_inject [simp]: "(nat_str m = nat_str n) = (m = n)"
  by (metis digits_val_nat_str)

lemma int_str_no_semicolon: "CHR '';'' \<notin> set (int_str i)"
proof -
  have "\<not> is_dec (CHR '';'')" by code_simp
  then have "CHR '';'' \<notin> set (nat_str n)" for n using nat_str_digits by blast
  then show ?thesis by (simp add: int_str_def)
qed

text \<open>
  \<open>int(s)\<close>: surrounding white space, an optional sign, digits with single underscores between.
  \<open>None\<close> stands for \<open>ValueError\<close>.
\<close>

fun parse_digits :: "string \<Rightarrow> nat option" where
  "parse_digits s =
     (if list_all (\<lambda>p. p \<noteq> [] \<and> list_all is_dec p) (split_on (CHR ''_'') s)
      then Some (digits_val (concat (split_on (CHR ''_'') s))) else None)"

definition parse_int :: "string \<Rightarrow> int option" where
  "parse_int s = (case py_strip s of
       [] \<Rightarrow> None
     | c # cs \<Rightarrow>
         if c = CHR ''-'' then map_option (\<lambda>n. - int n) (parse_digits cs)
         else if c = CHR ''+'' then map_option int (parse_digits cs)
         else map_option int (parse_digits (c # cs)))"

section \<open>Dictionaries\<close>

type_synonym 'v dict = "(string \<times> 'v) list"

abbreviation dict_set :: "'k \<Rightarrow> 'v \<Rightarrow> ('k \<times> 'v) list \<Rightarrow> ('k \<times> 'v) list" where
  "dict_set \<equiv> AList.update"

definition dict_get :: "('k \<times> 'v) list \<Rightarrow> 'k \<Rightarrow> 'v \<Rightarrow> 'v" where
  "dict_get d k v = (case map_of d k of Some x \<Rightarrow> x | None \<Rightarrow> v)"

definition dict_keys :: "('k \<times> 'v) list \<Rightarrow> 'k set" where
  "dict_keys d = fst ` set d"

lemma map_of_dict_set [simp]: "map_of (dict_set k v d) = (map_of d)(k \<mapsto> v)"
  by (simp add: update_conv')

lemma distinct_dict_set [simp]:
  "distinct (map fst d) \<Longrightarrow> distinct (map fst (dict_set k v d))"
  by (rule distinct_update)

lemma set_dict_set: "x \<in> set (dict_set k v d) \<Longrightarrow> x = (k, v) \<or> x \<in> set d"
  by (induction d) (auto split: if_splits)

lemma fst_comp_values [simp]: "fst \<circ> (\<lambda>(k, v). (k, f k v)) = fst"
  by auto

lemma dict_set_keys: "fst ` set (dict_set k v d) = insert k (fst ` set d)"
  by (induction d) auto

lemma map_of_filter_key:
  assumes "distinct (map fst d)"
  shows "map_of (filter (\<lambda>(k, v). P k v) d) k
         = (case map_of d k of Some v \<Rightarrow> if P k v then Some v else None | None \<Rightarrow> None)"
  using assms
proof (induction d)
  case (Cons kv d)
  obtain a b where kv: "kv = (a, b)" by force
  have "map_of (filter (\<lambda>(k, v). P k v) d) a = None" if "a = k"
    using Cons.prems kv by (auto simp: map_of_eq_None_iff image_iff)
  with Cons kv show ?case by (auto split: option.splits)
qed simp

lemma map_of_filter_val:
  "distinct (map fst d) \<Longrightarrow> map_of d k = Some w \<Longrightarrow> P w \<Longrightarrow>
   map_of (filter (\<lambda>(k, v). P v) d) k = Some w"
  using map_of_filter_key [of d "\<lambda>_. P" k] by simp

lemma map_of_remove_key:
  "map_of (filter (\<lambda>(k, v). k \<noteq> x) d) = (map_of d)(x := None)"
  by (induction d) auto

lemma sum_list_dict_set:
  fixes f :: "'v \<Rightarrow> nat"
  assumes "distinct (map fst d)"
  shows "sum_list (map (f \<circ> snd) (dict_set k v d))
           + (case map_of d k of Some w \<Rightarrow> f w | None \<Rightarrow> 0)
         = sum_list (map (f \<circ> snd) d) + f v"
  using assms
proof (induction d)
  case (Cons kv d)
  have "map_of d (fst kv) = None"
    using Cons.prems by (simp add: map_of_eq_None_iff)
  with Cons show ?case by (cases kv) (auto split: option.splits)
qed simp

end
