(* ===== verification/Py_Values.thy ===== *)
theory Py_Values
  imports Py_Prelude
begin

text \<open>
  The dynamically typed values the server handles (database cells, JWT claims, metadata) and
  the exceptions it raises.

  \<open>VFloat r s\<close> is a float or a Decimal: its exact value and the text \<open>str\<close> gives for it.
  \<open>VObj c s\<close> is any other object (a datetime, bytes): its class name and its \<open>str\<close>; the
  program copies such values and never looks into them.

  An exception carries what the handlers of the program read: which built-in class the
  \<open>except\<close> clauses see, the class name, \<open>args\<close> and the text \<open>str(exc)\<close>.  A function that may
  raise returns \<open>pyexc + 'a\<close>.
\<close>

datatype pyval =
    VNone
  | VBool bool
  | VInt int
  | VFloat real string
  | VStr string
  | VList "pyval list"
  | VDict "(string \<times> pyval) list"
  | VObj string string

type_synonym row = "pyval dict"

datatype exc_kind =
    PermissionErr | ValueErr | TypeErr | KeyErr | TimeoutErr | RuntimeErr | OtherErr

record pyexc =
  exc_kind :: exc_kind
  exc_name :: string
  exc_args :: "pyval list"
  exc_text :: string

type_synonym 'a result = "pyexc + 'a"

text \<open>\<open>raise C("msg")\<close>: one positional argument, whose text is \<open>str(exc)\<close>.\<close>

definition mk_exc :: "exc_kind \<Rightarrow> string \<Rightarrow> string \<Rightarrow> pyexc" where
  "mk_exc k nm msg = \<lparr>exc_kind = k, exc_name = nm, exc_args = [VStr msg], exc_text = msg\<rparr>"

definition permission_error :: "string \<Rightarrow> pyexc" where
  "permission_error msg = mk_exc PermissionErr ''PermissionError'' msg"

definition value_error :: "string \<Rightarrow> pyexc" where
  "value_error msg = mk_exc ValueErr ''ValueError'' msg"

definition type_error :: "string \<Rightarrow> pyexc" where
  "type_error msg = mk_exc TypeErr ''TypeError'' msg"

definition timeout_error :: "string \<Rightarrow> pyexc" where
  "timeout_error msg = mk_exc TimeoutErr ''TimeoutError'' msg"

definition runtime_error :: "string \<Rightarrow> pyexc" where
  "runtime_error msg = mk_exc RuntimeErr ''RuntimeError'' msg"

lemma exc_fields [simp]:
  "exc_kind (permission_error m) = PermissionErr" "exc_text (permission_error m) = m"
  "exc_kind (value_error m) = ValueErr" "exc_text (value_error m) = m"
  "exc_kind (type_error m) = TypeErr" "exc_text (type_error m) = m"
  "exc_kind (timeout_error m) = TimeoutErr" "exc_text (timeout_error m) = m"
  "exc_kind (runtime_error m) = RuntimeErr" "exc_text (runtime_error m) = m"
  by (simp_all add: permission_error_def value_error_def type_error_def timeout_error_def
      runtime_error_def mk_exc_def)

lemma exc_args_simps [simp]:
  "exc_args (permission_error m) = [VStr m]" "exc_args (value_error m) = [VStr m]"
  "exc_args (type_error m) = [VStr m]" "exc_args (timeout_error m) = [VStr m]"
  "exc_args (runtime_error m) = [VStr m]"
  by (simp_all add: permission_error_def value_error_def type_error_def timeout_error_def
      runtime_error_def mk_exc_def)

definition bind_res :: "'e + 'a \<Rightarrow> ('a \<Rightarrow> 'e + 'b) \<Rightarrow> 'e + 'b" where
  "bind_res r f = (case r of Inl e \<Rightarrow> Inl e | Inr x \<Rightarrow> f x)"

lemma bind_res_simps [simp]:
  "bind_res (Inl e) f = Inl e" "bind_res (Inr x) f = f x"
  by (simp_all add: bind_res_def)

lemma bind_res_Inr: "(bind_res r f = Inr y) = (\<exists>x. r = Inr x \<and> f x = Inr y)"
  by (cases r) auto

definition is_ok :: "'e + 'a \<Rightarrow> bool" where
  "is_ok r = (case r of Inl _ \<Rightarrow> False | Inr _ \<Rightarrow> True)"

lemma is_ok_simps [simp]: "is_ok (Inl e) = False" "is_ok (Inr x) = True"
  by (simp_all add: is_ok_def)

text \<open>List comprehensions whose element or condition may raise.\<close>

fun map_res :: "('a \<Rightarrow> 'b result) \<Rightarrow> 'a list \<Rightarrow> 'b list result" where
  "map_res f [] = Inr []"
| "map_res f (x # xs) = bind_res (f x) (\<lambda>y. bind_res (map_res f xs) (\<lambda>ys. Inr (y # ys)))"

fun filter_res :: "('a \<Rightarrow> bool result) \<Rightarrow> 'a list \<Rightarrow> 'a list result" where
  "filter_res p [] = Inr []"
| "filter_res p (x # xs) = bind_res (p x) (\<lambda>b. bind_res (filter_res p xs) (\<lambda>ys. Inr (if b then x # ys else ys)))"

lemma map_res_Inr: "map_res f xs = Inr ys \<longleftrightarrow> list_all2 (\<lambda>x y. f x = Inr y) xs ys"
  by (induction xs arbitrary: ys) (auto simp: bind_res_Inr list_all2_Cons1)

lemma filter_res_Inr:
  "filter_res p xs = Inr ys \<longleftrightarrow> (\<forall>x \<in> set xs. is_ok (p x)) \<and> ys = filter (\<lambda>x. p x = Inr True) xs"
proof (induction xs arbitrary: ys)
  case (Cons x xs)
  show ?case by (cases "p x") (auto simp: Cons bind_res_Inr)
qed auto

section \<open>Truth, text and integers\<close>

definition truthy :: "pyval \<Rightarrow> bool" where
  "truthy v = (case v of VNone \<Rightarrow> False | VBool b \<Rightarrow> b | VInt i \<Rightarrow> i \<noteq> 0 | VFloat r _ \<Rightarrow> r \<noteq> 0
     | VStr s \<Rightarrow> s \<noteq> [] | VList xs \<Rightarrow> xs \<noteq> [] | VDict d \<Rightarrow> d \<noteq> [] | VObj _ _ \<Rightarrow> True)"

text \<open>\<open>a or b\<close>\<close>

definition py_or :: "pyval \<Rightarrow> pyval \<Rightarrow> pyval" where
  "py_or a b = (if truthy a then a else b)"

text \<open>
  \<open>repr\<close> of a string: single quotes unless the text has a single and no double quote; the
  quote, the backslash and the non-printing characters of the range are escaped.
\<close>

definition hex_digit :: "nat \<Rightarrow> char" where
  "hex_digit n = (if n < 10 then char_of (48 + n) else char_of (87 + n))"

definition repr_char :: "char \<Rightarrow> char \<Rightarrow> string" where
  "repr_char q c = (let n = (of_char c :: nat) in
     if c = q \<or> n = 92 then [char_of (92::nat), c]
     else if n = 9 then [char_of (92::nat), CHR ''t'']
     else if n = 10 then [char_of (92::nat), CHR ''n'']
     else if n = 13 then [char_of (92::nat), CHR ''r'']
     else if n < 32 \<or> (127 \<le> n \<and> n \<le> 160) \<or> n = 173
       then [char_of (92::nat), CHR ''x'', hex_digit (n div 16), hex_digit (n mod 16)]
     else [c])"

definition str_repr :: "string \<Rightarrow> string" where
  "str_repr s = (let q = (if squote \<in> set s \<and> dquote \<notin> set s then dquote else squote)
     in q # concat (map (repr_char q) s) @ [q])"

fun py_repr :: "pyval \<Rightarrow> string" where
  "py_repr VNone = ''None''"
| "py_repr (VBool b) = (if b then ''True'' else ''False'')"
| "py_repr (VInt i) = int_str i"
| "py_repr (VFloat _ s) = s"
| "py_repr (VStr s) = str_repr s"
| "py_repr (VList xs) = ''['' @ join_with '', '' (map py_repr xs) @ '']''"
| "py_repr (VDict d) = ''{'' @ join_with '', '' (map (\<lambda>(k, v). str_repr k @ '': '' @ py_repr v) d) @ ''}''"
| "py_repr (VObj c s) = s"

definition py_str :: "pyval \<Rightarrow> string" where
  "py_str v = (case v of VStr s \<Rightarrow> s | _ \<Rightarrow> py_repr v)"

text \<open>
  \<open>int(v)\<close>: booleans and integers as they are, floats truncated towards zero, strings parsed;
  \<open>TypeError\<close> for everything else, \<open>ValueError\<close> for text that is no numeral.
\<close>

definition trunc_real :: "real \<Rightarrow> int" where
  "trunc_real r = (if r < 0 then - floor (- r) else floor r)"

definition py_int :: "pyval \<Rightarrow> int result" where
  "py_int v = (case v of
       VBool b \<Rightarrow> Inr (if b then 1 else 0)
     | VInt i \<Rightarrow> Inr i
     | VFloat r _ \<Rightarrow> Inr (trunc_real r)
     | VStr s \<Rightarrow> (case parse_int s of
           Some i \<Rightarrow> Inr i
         | None \<Rightarrow> Inl (value_error (''invalid literal for int() with base 10: '' @ str_repr s)))
     | _ \<Rightarrow> Inl (type_error ''int() argument must be a string, a bytes-like object or a real number''))"

definition row_get :: "row \<Rightarrow> string \<Rightarrow> pyval" where
  "row_get r k = dict_get r k VNone"

definition row_get_or :: "row \<Rightarrow> string \<Rightarrow> pyval \<Rightarrow> pyval" where
  "row_get_or r k d = dict_get r k d"

lemmas value_defs [py_def] =
  truthy_def py_or_def py_str_def py_int_def row_get_def row_get_or_def dict_get_def
  trunc_real_def

end
