(* ===== verification/Input_Validation.thy ===== *)
theory Input_Validation
  imports Py_Values
begin

text \<open>
  \<open>src/tools/input_validation.py\<close>: the checks on the arguments of the tools.  Each returns the
  value the tool goes on with, or raises \<open>ValueError\<close>.
\<close>

definition unsafe_name :: "string \<Rightarrow> bool" where
  "unsafe_name s = (CHR '';'' \<in> set s \<or> sublist ''--'' s)"

definition validate_database_name :: "string \<Rightarrow> string result" where
  "validate_database_name database_name =
     (let value = py_strip database_name in
      if value = [] then Inl (value_error ''INVALID_INPUT: database_name is required'')
      else if CHR '';'' \<in> set value \<or> sublist ''--'' value
        then Inl (value_error ''INVALID_INPUT: database_name contains invalid characters'')
      else Inr value)"

definition validate_identifier :: "string \<Rightarrow> string \<Rightarrow> string result" where
  "validate_identifier name field_name =
     (let value = py_strip name in
      if value = [] then Inl (value_error (''INVALID_INPUT: '' @ field_name @ '' cannot be blank''))
      else if CHR '';'' \<in> set value \<or> sublist ''--'' value
        then Inl (value_error (''INVALID_INPUT: '' @ field_name @ '' contains invalid characters''))
      else Inr value)"

definition validate_positive_int :: "int \<Rightarrow> string \<Rightarrow> int \<Rightarrow> int \<Rightarrow> int result" where
  "validate_positive_int value field_name minimum maximum =
     (if value < minimum \<or> value > maximum
      then Inl (value_error (''INVALID_INPUT: '' @ field_name @ '' must be between '' @
             int_str minimum @ '' and '' @ int_str maximum))
      else Inr value)"

definition validate_view_mode :: "string \<Rightarrow> string result" where
  "validate_view_mode value =
     (let normalized = py_upper (py_strip value) in
      if normalized \<notin> {''FULL'', ''COMPACT''}
      then Inl (value_error ''INVALID_INPUT: view_mode must be FULL or COMPACT'')
      else Inr normalized)"

lemma validate_database_name_Inr:
  "(validate_database_name s = Inr v) =
     (v = py_strip s \<and> v \<noteq> [] \<and> \<not> unsafe_name v)"
  by (auto simp: validate_database_name_def unsafe_name_def Let_def)

lemma validate_identifier_Inr:
  "(validate_identifier s f = Inr v) = (v = py_strip s \<and> v \<noteq> [] \<and> \<not> unsafe_name v)"
  by (auto simp: validate_identifier_def unsafe_name_def Let_def)

lemma validate_positive_int_Inr:
  "(validate_positive_int n f lo hi = Inr m) = (m = n \<and> lo \<le> n \<and> n \<le> hi)"
  by (auto simp: validate_positive_int_def)

lemma validate_errors_are_ValueError:
  "validate_database_name s = Inl e \<Longrightarrow> exc_kind e = ValueErr"
  "validate_identifier s f = Inl e \<Longrightarrow> exc_kind e = ValueErr"
  "validate_positive_int n f lo hi = Inl e \<Longrightarrow> exc_kind e = ValueErr"
  "validate_view_mode s = Inl e \<Longrightarrow> exc_kind e = ValueErr"
  by (auto simp: validate_database_name_def validate_identifier_def validate_positive_int_def
      validate_view_mode_def Let_def split: if_splits)

text \<open>
  Whatever text a tool is given, a database name that passes validation is non-empty, is
  free of surrounding white space, of semicolons and of comment dashes, and passes again
  unchanged; so a validated name can never end the \<open>DATABASE=...;\<close> field of the connection
  string it is put into.
\<close>

theorem validated_database_name_safe:
  assumes "validate_database_name raw = Inr db"
  shows "db \<noteq> [] \<and> CHR '';'' \<notin> set db \<and> \<not> sublist ''--'' db \<and> py_strip db = db
         \<and> validate_database_name db = Inr db"
  using assms by (auto simp: validate_database_name_Inr unsafe_name_def)

theorem validated_database_name_safe_witness:
  "validate_database_name '' sales '' = Inr ''sales'' \<and> validate_database_name ''sales'' = Inr ''sales''"
proof -
  have h: "validate_database_name '' sales '' = Inr ''sales''"
    by (simp add: validate_database_name_def py_def Let_def sublist_Cons_right)
  show ?thesis using h validated_database_name_safe [OF h] by simp
qed

end
