(* ===== verification/Config_Models.thy ===== *)
theory Config_Models
  imports Input_Validation
begin

text \<open>
  \<open>src/models.py\<close> (the configuration the components are built from), \<open>src/tools/tool_flags.py\<close>
  and \<open>src/tools/tool_registry.py\<close> (which tools exist for an instance and which are enabled).
\<close>

section \<open>Configuration records\<close>

record sql_instance_config =
  inst_id :: string
  inst_host :: string
  inst_port :: int
  inst_database :: string
  auth_secret_ref :: string
  inst_encrypt :: bool
  trust_server_certificate :: bool
  connect_timeout_sec :: int
  command_timeout_sec :: int
  pool_min :: int
  pool_max :: int
  pool_enabled :: bool
  pool_idle_timeout_sec :: int
  pool_acquire_timeout_sec :: int
  inst_enabled :: bool

record runtime_policy =
  write_mode_default :: string
  allowed_write_tools :: "string list"
  procedure_name_match_mode :: string
  procedure_default_schema :: string
  blocked_sql_patterns :: "string list"
  max_result_rows :: int
  max_query_duration_ms :: int
  instance_enable_flags :: "bool dict"
  tool_enable_flags :: "bool dict"
  instance_tool_enable_flags :: "bool dict dict"
  allowed_tools :: "string list dict dict"

definition default_policy :: runtime_policy where
  "default_policy = \<lparr>write_mode_default = ''deny'', allowed_write_tools = [],
     procedure_name_match_mode = ''default_schema_expand'', procedure_default_schema = ''dbo'',
     blocked_sql_patterns = [], max_result_rows = 5000, max_query_duration_ms = 15000,
     instance_enable_flags = [], tool_enable_flags = [], instance_tool_enable_flags = [],
     allowed_tools = []\<rparr>"

record auth_config =
  auth_mode :: string
  azure_auth_enabled :: bool
  azure_group_authorization_enabled :: bool
  azure_tenant_id :: "string option"
  azure_client_id :: "string option"
  azure_client_secret_ref :: "string option"
  azure_required_scopes :: "string list"
  azure_base_url :: "string option"
  azure_identifier_uri :: "string option"
  azure_group_claim_name :: string
  azure_read_groups :: "string list"
  azure_write_groups :: "string list"
  pool_max_connections :: int
  pool_max_keepalive_connections :: int
  pool_timeout_seconds :: int

definition default_auth :: auth_config where
  "default_auth = \<lparr>auth_mode = ''disabled'', azure_auth_enabled = False,
     azure_group_authorization_enabled = False, azure_tenant_id = None, azure_client_id = None,
     azure_client_secret_ref = None, azure_required_scopes = [], azure_base_url = None,
     azure_identifier_uri = None, azure_group_claim_name = ''groups'', azure_read_groups = [],
     azure_write_groups = [], pool_max_connections = 10, pool_max_keepalive_connections = 10,
     pool_timeout_seconds = 10\<rparr>"

record rate_limit_section =
  rate_rpm :: int
  rate_burst :: int

record session_limits =
  lim_concurrent :: int
  lim_ttl_minutes :: int
  lim_inactivity_minutes :: int

definition default_session_limits :: session_limits where
  "default_session_limits =
     \<lparr>lim_concurrent = 10, lim_ttl_minutes = 60, lim_inactivity_minutes = 15\<rparr>"

record rate_limit_config =
  rate_global :: rate_limit_section
  rate_actor :: rate_limit_section
  rate_session :: session_limits

section \<open>Tool flags\<close>

text \<open>An instance for concrete examples.\<close>

definition example_instance :: sql_instance_config where
  "example_instance = \<lparr>inst_id = ''primary'', inst_host = ''h'', inst_port = 1433, inst_database = ''master'',
     auth_secret_ref = ''ref'', inst_encrypt = False, trust_server_certificate = True,
     connect_timeout_sec = 5, command_timeout_sec = 15, pool_min = 1, pool_max = 1,
     pool_enabled = True, pool_idle_timeout_sec = 300, pool_acquire_timeout_sec = 5,
     inst_enabled = True\<rparr>"

definition is_tool_enabled :: "runtime_policy \<Rightarrow> string \<Rightarrow> string \<Rightarrow> bool" where
  "is_tool_enabled policy instance_name toolname =
     (let per_instance = dict_get (instance_tool_enable_flags policy) instance_name [] in
      case map_of per_instance toolname of
        Some b \<Rightarrow> b
      | None \<Rightarrow> (case map_of (tool_enable_flags policy) toolname of Some b \<Rightarrow> b | None \<Rightarrow> True))"

section \<open>Tool registry\<close>

record tool_spec =
  spec_instance :: string
  spec_toolname :: string

definition full_name :: "tool_spec \<Rightarrow> string" where
  "full_name s = ''db_'' @ spec_instance s @ ''_sql2019_'' @ spec_toolname s"

definition spec_toolnames :: "string list" where
  "spec_toolnames = [''select'', ''exec_proc'', ''latency_report'', ''block_report'',
     ''top_queries_report'', ''active_sessions_report'', ''index_health_report'',
     ''analyze_tab_health'', ''analyze_db_data_model'', ''analyze_sec_config'',
     ''sessions_dashboard'', ''top_statements'']"

fun generate_tool_specs :: "string list \<Rightarrow> tool_spec list" where
  "generate_tool_specs [] = []"
| "generate_tool_specs (i # is) =
     map (\<lambda>t. \<lparr>spec_instance = i, spec_toolname = t\<rparr>) spec_toolnames @ generate_tool_specs is"

lemma generate_tool_specs_set:
  "s \<in> set (generate_tool_specs is) \<longleftrightarrow>
     spec_instance s \<in> set is \<and> spec_toolname s \<in> set spec_toolnames"
proof (induction "is")
  case (Cons i "is")
  have "(\<exists>t \<in> set spec_toolnames. s = \<lparr>spec_instance = i, spec_toolname = t\<rparr>) \<longleftrightarrow>
     spec_instance s = i \<and> spec_toolname s \<in> set spec_toolnames"
    by (cases s) auto
  with Cons show ?case by (auto simp: image_iff)
qed simp

text \<open>
  The two instance names the configuration admits (\<open>^(primary|secondary)$\<close>) never produce the
  same tool name twice.
\<close>

lemma distinct_full_names:
  "distinct (map full_name (generate_tool_specs [''primary'', ''secondary'']))"
  by (simp add: full_name_def spec_toolnames_def)

text \<open>
  The enablement flag of a tool is resolved in the documented order: an entry of the
  instance's own map decides, else an entry of the global map, else the tool is enabled; so
  switching a tool off for one instance leaves it as it was for every other instance.
\<close>

theorem instance_flag_is_local:
  assumes "j \<noteq> i"
  shows "let p' = p\<lparr>instance_tool_enable_flags :=
              dict_set i (dict_set t b (dict_get (instance_tool_enable_flags p) i []))
                (instance_tool_enable_flags p)\<rparr>
         in is_tool_enabled p' i t = b \<and> is_tool_enabled p' j u = is_tool_enabled p j u
            \<and> (u = t \<or> is_tool_enabled p' i u = is_tool_enabled p i u)"
  using assms by (simp add: is_tool_enabled_def dict_get_def Let_def split: option.splits)

theorem instance_flag_is_local_witness:
  "\<not> is_tool_enabled (default_policy\<lparr>instance_tool_enable_flags := [(''primary'', [(''select'', False)])]\<rparr>)
      ''primary'' ''select''
   \<and> is_tool_enabled (default_policy\<lparr>instance_tool_enable_flags := [(''primary'', [(''select'', False)])]\<rparr>)
      ''secondary'' ''select''"
proof -
  have h: "''secondary'' \<noteq> ''primary''" by simp
  show ?thesis
    using instance_flag_is_local [OF h, where p = default_policy and t = "''select''" and b = False
        and u = "''select''"]
    by (simp add: default_policy_def dict_get_def is_tool_enabled_def)
qed

end
