(* ===== verification/Connection_Pool.thy ===== *)
theory Connection_Pool
  imports Config_Models "HOL-Library.Multiset"
begin

text \<open>
  The connection pool of one SQL instance in \<open>src/db/connection_manager.py\<close>:
  \<open>_acquire_connection\<close>, \<open>_release_connection\<close>, \<open>_remove_in_use_connection\<close>,
  \<open>get_pool_diagnostics\<close> and \<open>close_all_pools\<close>, run by several threads.

  A connection is a number, its object identity; \<open>pyodbc.connect\<close> returns one that is not in use.
  Each \<open>with self._pool_condition\<close> block is a function on the pool state and one atomic step;
  what a thread does between two blocks (probing a connection, opening one, waiting, the caller's
  own work) is its phase.  A wait may end at any moment: by a notification or by its timeout.
  Pooled acquisition only: with a database override or \<open>pool_enabled\<close> off a connection is
  private to its caller and the pool state is not touched.
\<close>

section \<open>The critical sections\<close>

record pool_state =
  available :: "nat list"
  in_use :: "nat list"
  created_total :: nat
  reused_total :: nat
  discarded_total :: nat

definition empty_pool :: pool_state where
  "empty_pool = \<lparr>available = [], in_use = [], created_total = 0, reused_total = 0,
     discarded_total = 0\<rparr>"

definition pool_size :: "pool_state \<Rightarrow> nat" where
  "pool_size state = length (available state) + length (in_use state)"

definition pool_cap :: "sql_instance_config \<Rightarrow> nat" where
  "pool_cap inst = nat (max 1 (pool_max inst))"

definition remove_in_use_connection :: "pool_state \<Rightarrow> nat \<Rightarrow> pool_state" where
  "remove_in_use_connection state conn = state\<lparr>in_use := remove1 conn (in_use state)\<rparr>"

datatype acquire_outcome = Reuse nat | CreateNew | WaitFor real | PoolTimeout

definition acquire_section ::
  "sql_instance_config \<Rightarrow> real \<Rightarrow> real \<Rightarrow> pool_state \<Rightarrow> pool_state \<times> acquire_outcome" where
  "acquire_section inst deadline now state =
     (if available state \<noteq> [] then
        let conn = last (available state)
        in (state\<lparr>available := butlast (available state), in_use := in_use state @ [conn],
                  reused_total := reused_total state + 1\<rparr>, Reuse conn)
      else if pool_size state < pool_cap inst then (state, CreateNew)
      else let remaining = deadline - now
           in (state, if remaining \<le> 0 then PoolTimeout else WaitFor remaining))"

definition discard_section :: "nat \<Rightarrow> pool_state \<Rightarrow> pool_state" where
  "discard_section conn state =
     (let state = remove_in_use_connection state conn
      in state\<lparr>discarded_total := discarded_total state + 1\<rparr>)"

definition created_section :: "nat \<Rightarrow> pool_state \<Rightarrow> pool_state" where
  "created_section conn state =
     state\<lparr>in_use := in_use state @ [conn], created_total := created_total state + 1\<rparr>"

text \<open>The locked part of \<open>_release_connection\<close>, with \<open>close_now\<close>.\<close>

definition release_section ::
  "sql_instance_config \<Rightarrow> nat \<Rightarrow> bool \<Rightarrow> bool \<Rightarrow> pool_state \<Rightarrow> pool_state \<times> bool" where
  "release_section inst conn should_discard autocommit_ok state =
     (let state = remove_in_use_connection state conn in
      if should_discard \<or> \<not> autocommit_ok
      then (state\<lparr>discarded_total := discarded_total state + 1\<rparr>, True)
      else if length (available state) < pool_cap inst
      then (state\<lparr>available := available state @ [conn]\<rparr>, False)
      else (state\<lparr>discarded_total := discarded_total state + 1\<rparr>, True))"

text \<open>\<open>close_all_pools\<close>, with the connections it closes.\<close>

definition close_all_pools :: "pool_state \<Rightarrow> pool_state \<times> nat list" where
  "close_all_pools state =
     (state\<lparr>available := [], in_use := []\<rparr>, available state @ in_use state)"

record pool_diagnostics =
  diag_enabled :: bool
  diag_pool_max :: int
  diag_pool_size :: nat
  diag_in_use :: nat
  diag_available :: nat
  diag_created :: nat
  diag_reused :: nat
  diag_discarded :: nat

definition get_pool_diagnostics :: "sql_instance_config \<Rightarrow> pool_state \<Rightarrow> pool_diagnostics" where
  "get_pool_diagnostics inst state =
     \<lparr>diag_enabled = pool_enabled inst, diag_pool_max = pool_max inst,
      diag_pool_size = length (available state) + length (in_use state),
      diag_in_use = length (in_use state), diag_available = length (available state),
      diag_created = created_total state, diag_reused = reused_total state,
      diag_discarded = discarded_total state\<rparr>"

section \<open>Threads\<close>

datatype phase =
    Idle
  | Acquiring real
  | Waiting real
  | Probing real nat
  | Creating real
  | Holding nat
  | Releasing nat bool

record pool_system =
  pool :: pool_state
  phases :: "phase list"
  clock :: real
  next_conn :: nat

definition start_system :: "nat \<Rightarrow> real \<Rightarrow> pool_system" where
  "start_system threads t =
     \<lparr>pool = empty_pool, phases = replicate threads Idle, clock = t, next_conn = 0\<rparr>"

definition after_acquire :: "real \<Rightarrow> acquire_outcome \<Rightarrow> phase" where
  "after_acquire deadline out = (case out of
       Reuse conn \<Rightarrow> Probing deadline conn
     | CreateNew \<Rightarrow> Creating deadline
     | WaitFor _ \<Rightarrow> Waiting deadline
     | PoolTimeout \<Rightarrow> Idle)"

definition move :: "nat \<Rightarrow> phase \<Rightarrow> pool_state \<Rightarrow> pool_system \<Rightarrow> pool_system" where
  "move i ph st s = s\<lparr>pool := st, phases := (phases s)[i := ph]\<rparr>"

text \<open>One step of thread \<open>i\<close>, or of the clock.\<close>

inductive pool_step :: "sql_instance_config \<Rightarrow> pool_system \<Rightarrow> pool_system \<Rightarrow> bool"
  for inst where
  step_call: "i < length (phases s) \<Longrightarrow> phases s ! i = Idle \<Longrightarrow>
    pool_step inst s
      (move i (Acquiring (clock s + of_int (max 0 (pool_acquire_timeout_sec inst)))) (pool s) s)"
| step_acquire: "i < length (phases s) \<Longrightarrow> phases s ! i = Acquiring d \<Longrightarrow>
    acquire_section inst d (clock s) (pool s) = (st, out) \<Longrightarrow>
    pool_step inst s (move i (after_acquire d out) st s)"
| step_wake: "i < length (phases s) \<Longrightarrow> phases s ! i = Waiting d \<Longrightarrow>
    pool_step inst s (move i (Acquiring d) (pool s) s)"
| step_usable: "i < length (phases s) \<Longrightarrow> phases s ! i = Probing d c \<Longrightarrow>
    pool_step inst s (move i (Holding c) (pool s) s)"
| step_unusable: "i < length (phases s) \<Longrightarrow> phases s ! i = Probing d c \<Longrightarrow>
    pool_step inst s (move i (Acquiring d) (discard_section c (pool s)) s)"
| step_created: "i < length (phases s) \<Longrightarrow> phases s ! i = Creating d \<Longrightarrow>
    pool_step inst s ((move i (Holding (next_conn s)) (created_section (next_conn s) (pool s)) s)
      \<lparr>next_conn := Suc (next_conn s)\<rparr>)"
| step_create_fails: "i < length (phases s) \<Longrightarrow> phases s ! i = Creating d \<Longrightarrow>
    pool_step inst s (move i Idle (pool s) s)"
| step_leave: "i < length (phases s) \<Longrightarrow> phases s ! i = Holding c \<Longrightarrow>
    pool_step inst s (move i (Releasing c should_discard) (pool s) s)"
| step_release: "i < length (phases s) \<Longrightarrow> phases s ! i = Releasing c should_discard \<Longrightarrow>
    release_section inst c should_discard ok (pool s) = (st, close_now) \<Longrightarrow>
    pool_step inst s (move i Idle st s)"
| step_clock: "clock s \<le> t \<Longrightarrow> pool_step inst s (s\<lparr>clock := t\<rparr>)"

text \<open>
  The reachable states of \<open>n\<close> threads; the flag says whether \<open>close_all_pools\<close> may run.
\<close>

inductive pool_reach :: "sql_instance_config \<Rightarrow> nat \<Rightarrow> bool \<Rightarrow> pool_system \<Rightarrow> bool"
  for inst n closing where
  reach_start: "pool_reach inst n closing (start_system n t)"
| reach_step: "pool_reach inst n closing s \<Longrightarrow> pool_step inst s s' \<Longrightarrow> pool_reach inst n closing s'"
| reach_close: "pool_reach inst n closing s \<Longrightarrow> closing \<Longrightarrow>
    pool_reach inst n closing (s\<lparr>pool := fst (close_all_pools (pool s))\<rparr>)"

section \<open>Exclusive use\<close>

fun owner :: "phase \<Rightarrow> nat option" where
  "owner (Probing d c) = Some c"
| "owner (Holding c) = Some c"
| "owner (Releasing c b) = Some c"
| "owner _ = None"

text \<open>How often a connection is available, in use, and held by a thread.\<close>

definition avail_count :: "pool_system \<Rightarrow> nat \<Rightarrow> nat" where
  "avail_count s c = count (mset (available (pool s))) c"

definition used_count :: "pool_system \<Rightarrow> nat \<Rightarrow> nat" where
  "used_count s c = count (mset (in_use (pool s))) c"

definition held_count :: "pool_system \<Rightarrow> nat \<Rightarrow> nat" where
  "held_count s c = count (mset (map owner (phases s))) (Some c)"

lemmas pool_counts = avail_count_def used_count_def held_count_def

definition exclusive :: "pool_system \<Rightarrow> bool" where
  "exclusive s \<longleftrightarrow> (\<forall>c. avail_count s c + held_count s c \<le> 1 \<and> used_count s c \<le> held_count s c
     \<and> (next_conn s \<le> c \<longrightarrow> avail_count s c + held_count s c = 0))"

lemma held_count_move:
  assumes "i < length (phases s)"
  shows "held_count (move i ph st s) c
    = held_count s c - (if owner (phases s ! i) = Some c then 1 else 0) + (if owner ph = Some c then 1 else 0)"
  using assms by (simp add: held_count_def move_def map_update mset_update)

lemma held_count_pos:
  assumes "i < length (phases s)" "owner (phases s ! i) = Some c"
  shows "0 < held_count s c"
proof -
  have "Some c \<in> set (map owner (phases s))" using assms by (metis length_map nth_map nth_mem)
  then show ?thesis by (simp add: held_count_def count_greater_zero_iff)
qed

lemma held_count_next [simp]: "held_count (s\<lparr>next_conn := k\<rparr>) c = held_count s c"
  by (simp add: held_count_def)

lemma pool_move [simp]: "pool (move i ph st s) = st"
  by (simp add: move_def)

lemma length_phases_move [simp]: "length (phases (move i ph st s)) = length (phases s)"
  by (simp add: move_def)

lemma counts_pool:
  "avail_count (move i ph st s) c = count (mset (available st)) c"
  "used_count (move i ph st s) c = count (mset (in_use st)) c"
  "next_conn (move i ph st s) = next_conn s"
  by (simp_all add: pool_counts move_def)

lemma last_butlast_count:
  assumes "xs \<noteq> []"
  shows "count (mset xs) c = count (mset (butlast xs)) c + (if last xs = c then 1 else 0)"
proof -
  have "mset xs = mset (butlast xs @ [last xs])" using assms by simp
  then show ?thesis by simp
qed

lemma acquire_section_cases:
  assumes "acquire_section inst d now st = (st', out)"
  obtains (reuse) "available st \<noteq> []" "out = Reuse (last (available st))"
      "available st' = butlast (available st)" "in_use st' = in_use st @ [last (available st)]"
      "created_total st' = created_total st" "discarded_total st' = discarded_total st"
    | (create) "available st = []" "pool_size st < pool_cap inst" "out = CreateNew" "st' = st"
    | (full) "available st = []" "st' = st" "owner (after_acquire d out) = None" "out \<noteq> CreateNew"
  using assms by (auto simp: acquire_section_def after_acquire_def Let_def split: if_splits)

lemma release_section_cases:
  assumes "release_section inst c b ok st = (st', close_now)"
  obtains (keep) "length (available st) < pool_cap inst" "available st' = available st @ [c]"
      "in_use st' = remove1 c (in_use st)" "created_total st' = created_total st"
      "discarded_total st' = discarded_total st"
    | (discard) "available st' = available st" "in_use st' = remove1 c (in_use st)"
      "created_total st' = created_total st" "discarded_total st' = Suc (discarded_total st)"
  using assms
  by (auto simp: release_section_def Let_def remove_in_use_connection_def split: if_splits)

lemma release_section_in_use:
  "release_section inst c b ok st = (st', close_now) \<Longrightarrow> in_use st' = remove1 c (in_use st)"
  by (auto simp: release_section_def Let_def remove_in_use_connection_def split: if_splits)

lemma exclusive_start: "exclusive (start_system n t)"
  by (auto simp: exclusive_def start_system_def empty_pool_def pool_counts)

lemma exclusive_close: "exclusive s \<Longrightarrow> exclusive (s\<lparr>pool := fst (close_all_pools (pool s))\<rparr>)"
  unfolding exclusive_def close_all_pools_def pool_counts
  by simp (metis add_leD2 le_add2 add_is_0)

lemma exclusiveD:
  assumes "exclusive s"
  shows "avail_count s c + held_count s c \<le> 1" "used_count s c \<le> held_count s c"
    "next_conn s \<le> c \<Longrightarrow> avail_count s c + held_count s c = 0"
  using assms by (auto simp: exclusive_def)

lemma exclusiveI:
  assumes "\<And>c. avail_count s c + held_count s c \<le> 1" "\<And>c. used_count s c \<le> held_count s c"
    and "\<And>c. next_conn s \<le> c \<Longrightarrow> avail_count s c + held_count s c = 0"
  shows "exclusive s"
  using assms by (simp add: exclusive_def)

lemma exclusive_held:
  assumes "exclusive s" "i < length (phases s)" "owner (phases s ! i) = Some c"
  shows "c \<notin> set (available (pool s))" "0 < held_count s c" "c < next_conn s"
proof -
  show pos: "0 < held_count s c" by (rule held_count_pos [OF assms(2,3)])
  show "c < next_conn s" using exclusiveD(3) [OF assms(1), of c] pos by (cases "next_conn s \<le> c") auto
  have "avail_count s c = 0" using exclusiveD(1) [OF assms(1), of c] pos by simp
  then show "c \<notin> set (available (pool s))" by (simp add: avail_count_def)
qed

lemma held_count_same:
  assumes "i < length (phases s)" "owner ph = owner (phases s ! i)"
  shows "held_count (move i ph st s) c = held_count s c"
  using assms held_count_pos [OF assms(1), of c] by (simp add: held_count_move)

lemma exclusive_keep:
  assumes "exclusive s" "i < length (phases s)" "owner ph = owner (phases s ! i)"
  shows "exclusive (move i ph (pool s) s)"
proof -
  have "avail_count (move i ph (pool s) s) c = avail_count s c"
    "used_count (move i ph (pool s) s) c = used_count s c" for c
    by (simp_all add: avail_count_def used_count_def)
  then show ?thesis
    using exclusiveD [OF assms(1)]
    by (intro exclusiveI) (simp_all add: held_count_same [OF assms(2,3)] counts_pool(3))
qed

text \<open>The counts of a step determine whether the use stays exclusive.\<close>

lemma exclusive_counts:
  assumes "exclusive s"
    and "\<And>c. avail_count s' c + held_count s' c \<le> avail_count s c + held_count s c + (if Q c then 1 else 0)"
    and "\<And>c. used_count s c \<le> held_count s c \<Longrightarrow> used_count s' c \<le> held_count s' c"
    and "\<And>c. Q c \<Longrightarrow> next_conn s \<le> c \<and> c < next_conn s'" "next_conn s \<le> next_conn s'"
  shows "exclusive s'"
proof (rule exclusiveI)
  fix c
  note I = exclusiveD [OF assms(1), of c] assms(2) [of c]
  show "avail_count s' c + held_count s' c \<le> 1"
    using I assms(4) [of c] by (cases "Q c") auto
  show "used_count s' c \<le> held_count s' c" using I(2) by (rule assms(3))
  show "avail_count s' c + held_count s' c = 0" if "next_conn s' \<le> c"
    using I assms(4) [of c] assms(5) that by (cases "Q c") auto
qed

lemma exclusive_step:
  assumes "pool_step inst s s'" "exclusive s"
  shows "exclusive s'"
  using assms(1)
proof cases
  case (step_acquire i d st out)
  note st = this
  from step_acquire(4) show ?thesis
  proof (cases rule: acquire_section_cases)
    case reuse
    let ?k = "last (available (pool s))"
    have counts: "avail_count s c = avail_count s' c + (if ?k = c then 1 else 0)"
      "used_count s' c = used_count s c + (if ?k = c then 1 else 0)"
      "held_count s' c = held_count s c + (if ?k = c then 1 else 0)" for c
      using last_butlast_count [OF reuse(1), of c] st reuse
      by (simp_all add: counts_pool held_count_move after_acquire_def avail_count_def used_count_def)
    show ?thesis
      by (rule exclusive_counts [OF assms(2), where Q = "\<lambda>_. False"])
        (use counts st(1) in \<open>simp_all add: counts_pool(3)\<close>)
  next
    case create
    with st assms(2) show ?thesis by (auto intro: exclusive_keep simp: after_acquire_def)
  next
    case full
    with st assms(2) show ?thesis by (auto intro: exclusive_keep)
  qed
next
  case (step_unusable i d k)
  note h = exclusive_held [OF assms(2) step_unusable(2), of k]
  have counts: "avail_count s' c = avail_count s c"
    "used_count s' c = used_count s c - (if k = c then 1 else 0)"
    "held_count s' c = held_count s c - (if k = c then 1 else 0)" for c
    using step_unusable
    by (simp_all add: counts_pool held_count_move discard_section_def remove_in_use_connection_def Let_def
        avail_count_def used_count_def)
  show ?thesis
    by (rule exclusive_counts [OF assms(2), where Q = "\<lambda>_. False"])
      (use counts step_unusable(1) in \<open>auto simp: counts_pool(3)\<close>)
next
  case (step_created i d)
  have counts: "avail_count s' c = avail_count s c"
    "used_count s' c = used_count s c + (if next_conn s = c then 1 else 0)"
    "held_count s' c = held_count s c + (if next_conn s = c then 1 else 0)" for c
    using step_created
    by (simp_all add: held_count_move created_section_def avail_count_def used_count_def)
  show ?thesis
    by (rule exclusive_counts [OF assms(2), where Q = "\<lambda>c. c = next_conn s"])
      (use counts step_created(1) in \<open>auto simp: counts_pool(3)\<close>)
next
  case (step_release i k b ok st close_now)
  note st = this
  have own: "owner (phases s ! i) = Some k" using st by simp
  have u: "used_count s' c = used_count s c - (if k = c then 1 else 0)"
    and h: "held_count s' c = held_count s c - (if k = c then 1 else 0)" for c
    using st release_section_in_use [OF st(4)] by (simp_all add: held_count_move used_count_def)
  from st(4) show ?thesis
  proof (cases rule: release_section_cases)
    case keep
    then have a: "avail_count s' c = avail_count s c + (if k = c then 1 else 0)" for c
      using st by (simp add: counts_pool avail_count_def)
    have "avail_count s' c + held_count s' c = avail_count s c + held_count s c" for c
      using exclusive_held(2) [OF assms(2) st(2) own] unfolding a h by auto
    with u h st(1) show ?thesis
      by (intro exclusive_counts [OF assms(2), where Q = "\<lambda>_. False"]) (auto simp: counts_pool(3))
  next
    case discard
    then have "avail_count s' c = avail_count s c" for c
      using st by (simp add: counts_pool avail_count_def)
    with u h st(1) show ?thesis
      by (intro exclusive_counts [OF assms(2), where Q = "\<lambda>_. False"]) (auto simp: counts_pool(3))
  qed
next
  case step_clock
  with assms(2) show ?thesis by (simp add: exclusive_def pool_counts)
qed (auto intro!: exclusive_keep [OF assms(2)])

lemma exclusive_reach: "pool_reach inst n closing s \<Longrightarrow> exclusive s"
  by (induction rule: pool_reach.induct) (auto intro: exclusive_start exclusive_step exclusive_close)

lemma length_phases_reach: "pool_reach inst n closing s \<Longrightarrow> length (phases s) = n"
proof (induction rule: pool_reach.induct)
  case (reach_step s s')
  then show ?case by (auto elim!: pool_step.cases)
qed (simp_all add: start_system_def)

lemma count_card: "count (mset xs) x = card {k. k < length xs \<and> xs ! k = x}"
proof -
  have "count (mset xs) x = length (filter (\<lambda>y. y = x) xs)"
    by (induction xs) auto
  then show ?thesis by (simp only: length_filter_conv_card)
qed

lemma held_once:
  assumes "held_count s c \<le> 1" "i < length (phases s)" "j < length (phases s)"
    and "owner (phases s ! i) = Some c" "owner (phases s ! j) = Some c"
  shows "i = j"
proof (rule ccontr)
  assume "i \<noteq> j"
  let ?os = "map owner (phases s)"
  have "card {i, j} \<le> card {k. k < length ?os \<and> ?os ! k = Some c}"
    by (rule card_mono) (use assms in auto)
  also have "\<dots> = held_count s c"
    unfolding held_count_def by (rule count_card [symmetric])
  finally show False using assms(1) \<open>i \<noteq> j\<close> by simp
qed

text \<open>
  C13: whatever the interleaving of the threads, and even if \<open>close_all_pools\<close> runs in between,
  no connection is held by two threads, none is available while a thread holds it, and the two
  lists of the pool have no duplicates and no common element.
\<close>

theorem pool_use_exclusive:
  assumes "pool_reach inst n closing s"
  shows "(\<forall>i < n. \<forall>j < n. \<forall>c. owner (phases s ! i) = Some c \<and> owner (phases s ! j) = Some c \<longrightarrow> i = j)
    \<and> (\<forall>i < n. \<forall>c. owner (phases s ! i) = Some c \<longrightarrow> c \<notin> set (available (pool s)))
    \<and> distinct (available (pool s)) \<and> distinct (in_use (pool s))
    \<and> set (available (pool s)) \<inter> set (in_use (pool s)) = {}"
proof -
  have ex: "exclusive s" and n: "length (phases s) = n"
    using assms exclusive_reach length_phases_reach by blast+
  have le1: "avail_count s c \<le> 1" "used_count s c \<le> 1" "held_count s c \<le> 1" for c
    using exclusiveD [OF ex, of c] by auto
  have disj: "avail_count s c = 0 \<or> used_count s c = 0" for c
    using exclusiveD [OF ex, of c] by auto
  have "c \<notin> set (available (pool s))" if "i < n" "owner (phases s ! i) = Some c" for i c
    using exclusive_held(1) [OF ex, of i c] that n by simp
  moreover have "distinct xs" if "\<And>c. count (mset xs) c \<le> 1" for xs :: "nat list"
    unfolding distinct_count_atmost_1
    using that by (metis count_greater_zero_iff le_antisym less_one not_le set_mset_mset count_eq_zero_iff)
  moreover have "set (available (pool s)) \<inter> set (in_use (pool s)) = {}"
    using disj by (auto simp: avail_count_def used_count_def)
  ultimately show ?thesis
    using held_once [OF le1(3)] n le1 unfolding avail_count_def used_count_def by blast
qed

section \<open>The size of the pool\<close>

fun is_creating :: "phase \<Rightarrow> bool" where
  "is_creating (Creating d) = True"
| "is_creating _ = False"

definition busy :: "phase \<Rightarrow> bool" where
  "busy ph \<longleftrightarrow> owner ph \<noteq> None"

text \<open>How many threads are in a phase of a kind.\<close>

definition phase_count :: "(phase \<Rightarrow> bool) \<Rightarrow> pool_system \<Rightarrow> nat" where
  "phase_count P s = count (mset (map P (phases s))) True"

definition accounted :: "sql_instance_config \<Rightarrow> nat \<Rightarrow> pool_system \<Rightarrow> bool" where
  "accounted inst n s \<longleftrightarrow>
     length (phases s) = n \<and> (\<forall>c. used_count s c = held_count s c)
     \<and> pool_size (pool s) + discarded_total (pool s) = created_total (pool s)
     \<and> length (available (pool s)) \<le> pool_cap inst
     \<and> length (in_use (pool s)) = phase_count busy s
     \<and> pool_size (pool s) + phase_count is_creating s \<le> n"

lemma phase_count_move:
  assumes "i < length (phases s)"
  shows "phase_count P (move i ph st s) = phase_count P s
    - (if P (phases s ! i) then 1 else 0) + (if P ph then 1 else 0)"
  using assms by (simp add: phase_count_def move_def map_update mset_update)

lemma phase_count_next [simp]: "phase_count P (s\<lparr>next_conn := k\<rparr>) = phase_count P s"
  by (simp add: phase_count_def)

lemma phase_count_pos:
  assumes "i < length (phases s)" "P (phases s ! i)"
  shows "0 < phase_count P s"
proof -
  let ?bs = "map P (phases s)"
  have "?bs ! i = True" using assms by simp
  then have "True \<in> set ?bs" using assms(1) by (metis length_map nth_mem)
  then have "count (mset ?bs) True \<noteq> 0" by (metis count_eq_zero_iff set_mset_mset)
  then show ?thesis unfolding phase_count_def by simp
qed

lemma phase_count_same:
  assumes "i < length (phases s)" "P ph = P (phases s ! i)"
  shows "phase_count P (move i ph st s) = phase_count P s"
  using assms phase_count_pos [OF assms(1), of P] by (simp add: phase_count_move)

lemma phase_count_two:
  assumes "i < length (phases s)" "\<not> P (phases s ! i)" "\<not> Q (phases s ! i)" "\<And>ph. \<not> (P ph \<and> Q ph)"
  shows "phase_count P s + phase_count Q s < length (phases s)"
proof -
  have sum: "count (mset (map P xs)) True + count (mset (map Q xs)) True \<le> length xs" for xs
    using assms(4) by (induction xs) (auto simp: le_Suc_eq)
  have "phases s = take i (phases s) @ phases s ! i # drop (Suc i) (phases s)"
    using assms(1) by (simp add: id_take_nth_drop)
  then obtain us vs where "phases s = us @ phases s ! i # vs" by blast
  then obtain x where "phases s = us @ x # vs" "\<not> P x" "\<not> Q x" using assms(2,3) by blast
  with sum [of us] sum [of vs] show ?thesis
    unfolding phase_count_def by simp
qed

lemma accounted_start: "accounted inst n (start_system n t)"
  by (auto simp: accounted_def start_system_def empty_pool_def pool_counts pool_size_def
      phase_count_def busy_def)

lemma accounted_in_use:
  assumes "accounted inst n s" "exclusive s" "i < length (phases s)" "owner (phases s ! i) = Some c"
  shows "c \<in> set (in_use (pool s))"
proof -
  have "used_count s c \<noteq> 0"
    using exclusive_held(2) [OF assms(2-4)] assms(1) by (simp add: accounted_def)
  then show ?thesis unfolding used_count_def by (metis count_eq_zero_iff set_mset_mset)
qed

lemma accounted_keep:
  assumes "accounted inst n s" "i < length (phases s)" "owner ph = owner (phases s ! i)"
    and "\<not> is_creating ph"
  shows "accounted inst n (move i ph (pool s) s)"
proof -
  have "phase_count busy (move i ph (pool s) s) = phase_count busy s"
    by (rule phase_count_same [OF assms(2)]) (simp add: busy_def assms(3))
  then show ?thesis
    using assms(1,4) unfolding accounted_def
    by (auto simp: held_count_same [OF assms(2,3)] phase_count_move [OF assms(2), of is_creating] used_count_def)
qed

lemma length_remove1_in: "x \<in> set xs \<Longrightarrow> length xs = Suc (length (remove1 x xs))"
  by (induction xs) auto

lemma accounted_acquire:
  assumes "accounted inst n s" "i < length (phases s)" "phases s ! i = Acquiring d"
    and "acquire_section inst d (clock s) (pool s) = (st, out)"
  shows "accounted inst n (move i (after_acquire d out) st s)"
  using assms(4)
proof (cases rule: acquire_section_cases)
  case reuse
  obtain m where m: "length (available (pool s)) = Suc m" using reuse(1) by (cases "available (pool s)") auto
  moreover have "\<not> is_creating (after_acquire d out)" "busy (after_acquire d out)"
    "owner (after_acquire d out) = Some (last (available (pool s)))"
    using reuse(2) by (simp_all add: after_acquire_def busy_def)
  ultimately show ?thesis
    using assms(1-3) reuse
    by (auto simp: accounted_def held_count_move phase_count_move used_count_def pool_size_def busy_def)
next
  case create
  have "phase_count busy s + phase_count is_creating s < length (phases s)"
    by (rule phase_count_two [OF assms(2)])
      (auto simp: assms(3) busy_def elim: is_creating.elims)
  then show ?thesis
    using assms(1-3) create
    by (auto simp: accounted_def held_count_move phase_count_move used_count_def pool_size_def
        busy_def after_acquire_def)
next
  case full
  have "\<not> is_creating (after_acquire d out)"
    using full(4) by (simp add: after_acquire_def split: acquire_outcome.splits)
  then show ?thesis using assms full accounted_keep [OF assms(1,2)] by simp
qed

lemma accounted_drop:
  assumes "accounted inst n s" "exclusive s" "i < length (phases s)" "owner (phases s ! i) = Some k"
    and "owner ph = None" "\<not> is_creating ph" "\<not> is_creating (phases s ! i)"
    and "in_use st = remove1 k (in_use (pool s))" "created_total st = created_total (pool s)"
    and "(available st = available (pool s) \<and> discarded_total st = Suc (discarded_total (pool s)))
      \<or> (length (available (pool s)) < pool_cap inst \<and> available st = available (pool s) @ [k]
          \<and> discarded_total st = discarded_total (pool s))"
  shows "accounted inst n (move i ph st s)"
proof -
  have k: "length (in_use (pool s)) = Suc (length (remove1 k (in_use (pool s))))"
    by (rule length_remove1_in [OF accounted_in_use [OF assms(1-4)]])
  have "held_count (move i ph st s) c = used_count (move i ph st s) c" for c
    using assms(1,3-5,8) by (simp add: held_count_move used_count_def accounted_def)
  moreover have "phase_count busy (move i ph st s) = length (remove1 k (in_use (pool s)))"
    using assms(1,3-5) k by (simp add: phase_count_move busy_def accounted_def) linarith
  moreover have "phase_count is_creating (move i ph st s) = phase_count is_creating s"
    by (rule phase_count_same [OF assms(3)]) (simp add: assms)
  ultimately show ?thesis
    using assms(1,8-10) k by (auto simp: accounted_def pool_size_def)
qed

lemma accounted_step:
  assumes "pool_step inst s s'" "exclusive s" "accounted inst n s"
  shows "accounted inst n s'"
  using assms(1)
proof cases
  case (step_acquire i d st out)
  then show ?thesis using accounted_acquire [OF assms(3)] by simp
next
  case (step_unusable i d k)
  then show ?thesis
    by (auto intro!: accounted_drop [OF assms(3,2), where k = k]
        simp: discard_section_def remove_in_use_connection_def Let_def)
next
  case (step_created i d)
  have "phase_count is_creating s \<noteq> 0" using phase_count_pos [of i s is_creating] step_created by simp
  then show ?thesis
    using assms(3) step_created
    by (auto simp: accounted_def created_section_def held_count_move used_count_def phase_count_move
        pool_size_def busy_def)
next
  case (step_release i k b ok st close_now)
  note st = this
  from st(4) show ?thesis
    by (cases rule: release_section_cases)
      (use st in \<open>auto intro!: accounted_drop [OF assms(3,2), where k = k]\<close>)
next
  case step_clock
  with assms(3) show ?thesis by (simp add: accounted_def pool_counts phase_count_def)
qed (auto intro!: accounted_keep [OF assms(3)])

lemma accounted_reach: "pool_reach inst n closing s \<Longrightarrow> \<not> closing \<Longrightarrow> accounted inst n s"
  by (induction rule: pool_reach.induct)
    (auto intro: accounted_start accounted_step exclusive_reach)

text \<open>
  C14: as long as the pools are not closed, the counters balance: every connection created is
  available, in use or discarded; the connections in use are exactly those the threads hold; at
  most \<open>pool_max\<close> (at least one) are available; and with \<open>n\<close> threads the pool never has more
  than \<open>n\<close> connections.
\<close>

theorem pool_counters_balance:
  assumes "pool_reach inst n False s"
  shows "diag_pool_size (get_pool_diagnostics inst (pool s))
           + diag_discarded (get_pool_diagnostics inst (pool s))
         = diag_created (get_pool_diagnostics inst (pool s))
    \<and> set (in_use (pool s)) = {c. \<exists>i < n. owner (phases s ! i) = Some c}
    \<and> int (diag_available (get_pool_diagnostics inst (pool s))) \<le> max 1 (pool_max inst)
    \<and> diag_pool_size (get_pool_diagnostics inst (pool s)) \<le> n"
proof -
  have acc: "accounted inst n s" and ex: "exclusive s"
    using assms accounted_reach exclusive_reach by blast+
  have len: "length (phases s) = n" using acc by (simp add: accounted_def)
  have "c \<in> set (in_use (pool s)) \<longleftrightarrow> (\<exists>i < n. owner (phases s ! i) = Some c)" for c
  proof
    assume "c \<in> set (in_use (pool s))"
    then have "used_count s c \<noteq> 0" by (simp add: used_count_def)
    then have "held_count s c \<noteq> 0" using acc by (simp add: accounted_def)
    then have "Some c \<in> set (map owner (phases s))"
      unfolding held_count_def by (metis count_eq_zero_iff set_mset_mset)
    then show "\<exists>i < n. owner (phases s ! i) = Some c" using len by (auto simp: in_set_conv_nth)
  qed (use accounted_in_use [OF acc ex] len in blast)
  then show ?thesis
    using acc by (auto simp: accounted_def get_pool_diagnostics_def pool_size_def pool_cap_def)
qed

section \<open>The cap under contention\<close>

definition crowd :: "phase list \<Rightarrow> pool_state \<Rightarrow> nat \<Rightarrow> pool_system" where
  "crowd phs st k = \<lparr>pool = st, phases = phs, clock = 0, next_conn = k\<rparr>"

definition filled :: "nat \<Rightarrow> pool_state" where
  "filled k = \<lparr>available = [], in_use = [0..<k], created_total = k, reused_total = 0, discarded_total = 0\<rparr>"

lemma split_replicate:
  assumes "k < n"
  shows "(xs @ replicate (n - k) x)[length xs := y] = (xs @ [y]) @ replicate (n - Suc k) x"
proof -
  have "replicate (n - k) x = x # replicate (n - Suc k) x"
    using assms by (metis Suc_diff_Suc replicate_Suc)
  then show ?thesis by (simp add: list_update_append)
qed

lemma nth_replicate_tail: "k < n \<Longrightarrow> (xs @ replicate (n - k) x) ! length xs = x"
  by (simp add: nth_append)

lemma crowd_calls:
  fixes inst defines "d \<equiv> of_int (max 0 (pool_acquire_timeout_sec inst))"
  assumes "k \<le> n"
  shows "pool_reach inst n False
    (crowd (replicate k (Acquiring d) @ replicate (n - k) Idle) (filled 0) 0)"
  using assms(2)
proof (induction k)
  case 0
  have "crowd (replicate 0 (Acquiring d) @ replicate (n - 0) Idle) (filled 0) 0 = start_system n 0"
    by (simp add: crowd_def start_system_def filled_def empty_pool_def)
  then show ?case using reach_start by simp
next
  case (Suc k)
  let ?xs = "replicate k (Acquiring d)"
  let ?s = "crowd (?xs @ replicate (n - k) Idle) (filled 0) 0"
  have "phases ?s ! k = Idle" "k < length (phases ?s)"
    using Suc.prems nth_replicate_tail [of k n ?xs] by (simp_all add: crowd_def)
  then have "pool_step inst ?s (move k (Acquiring (clock ?s + d)) (pool ?s) ?s)"
    unfolding d_def by (intro step_call)
  moreover have "move k (Acquiring (clock ?s + d)) (pool ?s) ?s
      = crowd (replicate (Suc k) (Acquiring d) @ replicate (n - Suc k) Idle) (filled 0) 0"
    using Suc.prems split_replicate [of k n ?xs Idle]
    by (simp add: crowd_def move_def replicate_append_same)
  ultimately show ?case using Suc by (auto intro: reach_step)
qed

lemma crowd_acquires:
  fixes inst defines "d \<equiv> of_int (max 0 (pool_acquire_timeout_sec inst))"
  assumes "k \<le> n"
  shows "pool_reach inst n False
    (crowd (replicate k (Creating d) @ replicate (n - k) (Acquiring d)) (filled 0) 0)"
  using assms(2)
proof (induction k)
  case 0
  show ?case using crowd_calls [of n n inst] by (simp add: d_def)
next
  case (Suc k)
  let ?xs = "replicate k (Creating d)"
  let ?s = "crowd (?xs @ replicate (n - k) (Acquiring d)) (filled 0) 0"
  have "phases ?s ! k = Acquiring d" "k < length (phases ?s)"
    using Suc.prems nth_replicate_tail [of k n ?xs] by (simp_all add: crowd_def)
  moreover have "acquire_section inst d (clock ?s) (pool ?s) = (filled 0, CreateNew)"
    by (simp add: acquire_section_def crowd_def filled_def pool_size_def pool_cap_def)
  ultimately have "pool_step inst ?s (move k (after_acquire d CreateNew) (filled 0) ?s)"
    by (intro step_acquire)
  moreover have "move k (after_acquire d CreateNew) (filled 0) ?s
      = crowd (replicate (Suc k) (Creating d) @ replicate (n - Suc k) (Acquiring d)) (filled 0) 0"
    using Suc.prems split_replicate [of k n ?xs "Acquiring d"]
    by (simp add: crowd_def move_def after_acquire_def replicate_append_same)
  ultimately show ?case using Suc by (auto intro: reach_step)
qed

lemma crowd_creates:
  fixes inst defines "d \<equiv> of_int (max 0 (pool_acquire_timeout_sec inst))"
  assumes "k \<le> n"
  shows "pool_reach inst n False
    (crowd (map Holding [0..<k] @ replicate (n - k) (Creating d)) (filled k) k)"
  using assms(2)
proof (induction k)
  case 0
  show ?case using crowd_acquires [of n n inst] by (simp add: d_def)
next
  case (Suc k)
  let ?xs = "map Holding [0..<k]"
  let ?s = "crowd (?xs @ replicate (n - k) (Creating d)) (filled k) k"
  have "phases ?s ! k = Creating d" "k < length (phases ?s)"
    using Suc.prems nth_replicate_tail [of k n ?xs] by (simp_all add: crowd_def)
  then have "pool_step inst ?s ((move k (Holding (next_conn ?s))
      (created_section (next_conn ?s) (pool ?s)) ?s)\<lparr>next_conn := Suc (next_conn ?s)\<rparr>)"
    by (rule step_created [rotated])
  moreover have "(move k (Holding (next_conn ?s))
      (created_section (next_conn ?s) (pool ?s)) ?s)\<lparr>next_conn := Suc (next_conn ?s)\<rparr>
      = crowd (map Holding [0..<Suc k] @ replicate (n - Suc k) (Creating d)) (filled (Suc k)) (Suc k)"
    using Suc.prems split_replicate [of k n ?xs "Creating d"]
    by (simp add: crowd_def move_def created_section_def filled_def)
  ultimately show ?case using Suc by (auto intro: reach_step)
qed

text \<open>
  The cap does not bound the pool under contention: \<open>n\<close> threads that pass the size check
  before any of them has stored its new connection leave the pool with \<open>n\<close> connections, whatever
  \<open>pool_max\<close> is.
\<close>

theorem pool_cap_not_enforced:
  "\<exists>s. pool_reach inst n False s \<and> diag_pool_size (get_pool_diagnostics inst (pool s)) = n"
proof -
  let ?s = "crowd (map Holding [0..<n]) (filled n) n"
  have "pool_reach inst n False ?s" using crowd_creates [of n n inst] by simp
  moreover have "diag_pool_size (get_pool_diagnostics inst (pool ?s)) = n"
    by (simp add: crowd_def filled_def get_pool_diagnostics_def)
  ultimately show ?thesis by blast
qed

theorem pool_counters_balance_witness:
  "set (in_use (filled 2)) = {c. \<exists>i < 2. owner (map Holding [0..<2] ! i) = Some c}"
proof -
  have r: "pool_reach example_instance 2 False (crowd (map Holding [0..<2]) (filled 2) 2)"
    using crowd_creates [of 2 2 example_instance] by simp
  show ?thesis using pool_counters_balance [OF r] by (simp add: crowd_def)
qed

theorem pool_use_exclusive_witness:
  "distinct (in_use (filled 2))"
proof -
  have r: "pool_reach example_instance 2 False (crowd (map Holding [0..<2]) (filled 2) 2)"
    using crowd_creates [of 2 2 example_instance] by simp
  show ?thesis using pool_use_exclusive [OF r] by (simp add: crowd_def)
qed

end
