(* ===== verification/Write_Guard.thy ===== *)
theory Write_Guard
  imports Config_Models
begin

text \<open>
  \<open>src/middleware/write_guard.py\<close>: the SQL denylist, the detection of write statements by
  their first word, and the allow-list of stored procedures.

  The denylist patterns come from the configuration and are compiled by Python's \<open>re\<close>; a
  compiled pattern is represented by its \<open>search\<close> predicate, and the compiler is a parameter.
  The two regular expressions the source itself writes are translated: \<open>/\*.*?\*/\<close> with
  \<open>DOTALL\<close> is \<open>strip_block\<close> and \<open>--.*?$\<close> with \<open>MULTILINE\<close> is \<open>strip_line\<close>.
\<close>

section \<open>Comment removal\<close>

text \<open>The text after the first \<open>*/\<close>, if there is one.\<close>

fun after_close :: "string \<Rightarrow> string option" where
  "after_close [] = None"
| "after_close [c] = None"
| "after_close (c # d # s) =
     (if c = CHR ''*'' \<and> d = CHR ''/'' then Some s else after_close (d # s))"

lemma after_close_length: "after_close s = Some r \<Longrightarrow> length r < length s"
  by (induction s rule: after_close.induct) (auto split: if_splits)

function strip_block :: "string \<Rightarrow> string" where
  "strip_block [] = []"
| "strip_block [c] = [c]"
| "strip_block (c # d # s) =
     (if c = CHR ''/'' \<and> d = CHR ''*'' then
        (case after_close s of Some r \<Rightarrow> strip_block r | None \<Rightarrow> c # strip_block (d # s))
      else c # strip_block (d # s))"
  by pat_completeness auto
termination
  by (relation "measure length") (auto dest: after_close_length)

fun drop_line :: "string \<Rightarrow> string" where
  "drop_line [] = []"
| "drop_line (c # s) = (if c = newline then c # s else drop_line s)"

lemma length_drop_line: "length (drop_line s) \<le> length s"
  by (induction s) auto

function strip_line :: "string \<Rightarrow> string" where
  "strip_line [] = []"
| "strip_line [c] = [c]"
| "strip_line (c # d # s) =
     (if c = CHR ''-'' \<and> d = CHR ''-'' then strip_line (drop_line s) else c # strip_line (d # s))"
  by pat_completeness auto
termination
  by (relation "measure length") (auto simp: le_imp_less_Suc length_drop_line le_SucI)

definition first_verb :: "string \<Rightarrow> string" where
  "first_verb sql =
     (let trimmed = py_strip (strip_line (strip_block sql));
          token = (if trimmed \<noteq> [] then first_token trimmed else [])
      in py_upper token)"

section \<open>The guard\<close>

record write_guard =
  wg_policy :: runtime_policy
  wg_blocked :: "(string \<Rightarrow> bool) list"

definition write_guard_init :: "(string \<Rightarrow> string \<Rightarrow> bool) \<Rightarrow> runtime_policy \<Rightarrow> write_guard" where
  "write_guard_init re_compile policy =
     \<lparr>wg_policy = policy, wg_blocked = map re_compile (blocked_sql_patterns policy)\<rparr>"

definition write_verbs :: "string set" where
  "write_verbs = {''INSERT'', ''UPDATE'', ''DELETE'', ''MERGE'', ''EXEC'', ''EXECUTE'',
     ''CREATE'', ''ALTER'', ''DROP'', ''TRUNCATE''}"

definition enforce :: "write_guard \<Rightarrow> string \<Rightarrow> string \<Rightarrow> unit result" where
  "enforce wg tool_name sql =
     (if \<exists>p \<in> set (wg_blocked wg). p sql
      then Inl (permission_error ''SQL blocked by denylist policy'')
      else
        let verb = first_verb sql; is_write = (verb \<in> write_verbs) in
        if write_mode_default (wg_policy wg) = ''deny'' \<and> is_write
           \<and> tool_name \<notin> set (allowed_write_tools (wg_policy wg))
        then Inl (permission_error (''Write blocked by policy for tool '' @ tool_name))
        else Inr ())"

definition normalize_proc_name :: "string \<Rightarrow> string \<Rightarrow> string \<Rightarrow> string" where
  "normalize_proc_name name mode default_schema =
     (let normalized = remove_char (CHR '']'') (remove_char (CHR ''['') (py_lower (py_strip name)));
          parts = filter (\<lambda>p. p \<noteq> []) (split_on (CHR ''.'') normalized)
      in if parts = [] then []
         else if 2 \<le> length parts then last (butlast parts) @ ''.'' @ last parts
         else if mode = ''default_schema_expand'' then default_schema @ ''.'' @ hd parts
         else hd parts)"

definition policy_match_mode :: "runtime_policy \<Rightarrow> string" where
  "policy_match_mode policy =
     (let m = py_lower (py_strip (if procedure_name_match_mode policy = []
                then ''default_schema_expand'' else procedure_name_match_mode policy))
      in if m \<notin> {''strict'', ''default_schema_expand''} then ''default_schema_expand'' else m)"

definition policy_default_schema :: "runtime_policy \<Rightarrow> string" where
  "policy_default_schema policy =
     py_lower (py_strip (if procedure_default_schema policy = [] then ''dbo''
        else procedure_default_schema policy))"

definition validate_procedure :: "write_guard \<Rightarrow> string \<Rightarrow> string \<Rightarrow> unit result" where
  "validate_procedure wg tool_name proc_name =
     (case map_of (allowed_tools (wg_policy wg)) tool_name of
        None \<Rightarrow> Inl (permission_error (''Procedure execution not configured for tool '' @ tool_name))
      | Some tool_config \<Rightarrow>
          let allowed_procedures = dict_get tool_config ''allowed_procedures'' [];
              mode = policy_match_mode (wg_policy wg);
              default_schema = policy_default_schema (wg_policy wg);
              normalized_proc = normalize_proc_name proc_name mode default_schema;
              normalized_allowed =
                map (\<lambda>p. normalize_proc_name p mode default_schema) allowed_procedures;
              tool_allowlist = dict_get tool_config ''allowlist'' [];
              normalized_allowlist =
                map (\<lambda>p. normalize_proc_name p mode default_schema) tool_allowlist
          in if normalized_proc \<notin> set normalized_allowed
                \<and> normalized_proc \<notin> set normalized_allowlist
             then Inl (permission_error (''Procedure '' @ proc_name @
                    '' is not in the allowed procedures list for tool '' @ tool_name))
             else Inr ())"

lemmas guard_defs [py_def] =
  enforce_def first_verb_def newline_def write_verbs_def

section \<open>The first word of a statement\<close>

lemma strip_block_Cons: "c \<noteq> CHR ''/'' \<Longrightarrow> strip_block (c # s) = c # strip_block s"
  by (cases s) auto

lemma strip_line_Cons: "c \<noteq> CHR ''-'' \<Longrightarrow> strip_line (c # s) = c # strip_line s"
  by (cases s) auto

lemma strip_block_word:
  "CHR ''/'' \<notin> set v \<Longrightarrow> strip_block (v @ s) = v @ strip_block s"
  by (induction v) (auto simp: strip_block_Cons)

lemma strip_line_word:
  "CHR ''-'' \<notin> set v \<Longrightarrow> strip_line (v @ s) = v @ strip_line s"
  by (induction v) (auto simp: strip_line_Cons)

lemma strip_block_unopened:
  "\<not> sublist ''/*'' c \<Longrightarrow> d \<noteq> CHR ''*'' \<Longrightarrow> strip_block (c @ d # s) = c @ strip_block (d # s)"
proof (induction c)
  case (Cons a c)
  then have "\<not> sublist ''/*'' c" by (simp add: sublist_Cons_right)
  with Cons show ?case
    by (cases c) (auto simp: sublist_Cons_right)
qed simp

lemma after_close_comment:
  "\<not> sublist ''*/'' c \<Longrightarrow> after_close (c @ CHR ''*'' # CHR ''/'' # s) = Some s"
proof (induction c)
  case (Cons a c)
  then have "\<not> sublist ''*/'' c" by (simp add: sublist_Cons_right)
  with Cons show ?case
    by (cases c) (auto simp: sublist_Cons_right)
qed simp

lemma drop_line_comment: "newline \<notin> set c \<Longrightarrow> drop_line (c @ newline # s) = newline # s"
  by (induction c) auto

lemma space_newline [simp]: "is_space newline"
  by (simp add: is_space_def newline_def)

lemma space_not_comment:
  "is_space c \<Longrightarrow> c \<noteq> CHR ''/'' \<and> c \<noteq> CHR ''-'' \<and> c \<noteq> CHR ''*''"
  by (auto simp: is_space_def)

text \<open>What may stand in front of a statement without changing it: white space and comments.\<close>

inductive trivia :: "string \<Rightarrow> bool" where
  trivia_empty: "trivia []"
| trivia_space: "is_space c \<Longrightarrow> trivia t \<Longrightarrow> trivia (c # t)"
| trivia_block: "\<not> sublist ''*/'' c \<Longrightarrow> trivia t \<Longrightarrow> trivia (''/*'' @ c @ ''*/'' @ t)"
| trivia_line: "newline \<notin> set c \<Longrightarrow> \<not> sublist ''/*'' c \<Longrightarrow> trivia t \<Longrightarrow>
     trivia (''--'' @ c @ newline # t)"

definition uncomment :: "string \<Rightarrow> string" where
  "uncomment s = dropWhile is_space (strip_line (strip_block s))"

lemma uncomment_trivia: "trivia t \<Longrightarrow> uncomment (t @ s) = uncomment s"
proof (induction rule: trivia.induct)
  case (trivia_space c t)
  then show ?case
    using space_not_comment [OF trivia_space.hyps(1)]
    by (simp add: uncomment_def strip_block_Cons strip_line_Cons)
next
  case (trivia_block c t)
  then show ?case by (simp add: uncomment_def after_close_comment)
next
  case (trivia_line c t)
  have nl: "newline \<noteq> CHR ''*''" "newline \<noteq> CHR ''/''" "newline \<noteq> CHR ''-''"
    using space_not_comment [OF space_newline] by auto
  with trivia_line show ?case
    by (simp add: uncomment_def strip_block_Cons strip_block_unopened drop_line_comment
        strip_line_Cons)
qed simp

lemma takeWhile_rstrip:
  "takeWhile (\<lambda>c. \<not> P c) (rev (dropWhile P (rev ys))) = takeWhile (\<lambda>c. \<not> P c) ys"
proof -
  define zs where "zs = rev (dropWhile P (rev ys))"
  define ts where "ts = rev (takeWhile P (rev ys))"
  have ys: "ys = zs @ ts"
    unfolding zs_def ts_def by (metis rev_append rev_rev_ident takeWhile_dropWhile_id)
  have "\<forall>c \<in> set ts. P c" by (auto simp: ts_def dest: set_takeWhileD)
  then have "takeWhile (\<lambda>c. \<not> P c) ts = []" by (cases ts) auto
  then have "takeWhile (\<lambda>c. \<not> P c) (zs @ ts) = takeWhile (\<lambda>c. \<not> P c) zs"
    by (simp add: takeWhile_append) (metis takeWhile_eq_all_conv)
  with ys show ?thesis by (simp add: zs_def)
qed

lemma first_token_strip: "first_token (py_strip s) = first_token (dropWhile is_space s)"
  unfolding first_token_def py_strip_def strip_by_def by (rule takeWhile_rstrip)

lemma first_verb_uncomment:
  "first_verb sql = py_upper (first_token (uncomment sql))"
proof -
  have e: "(if s \<noteq> [] then first_token s else []) = first_token s" for s
    by (simp add: first_token_def)
  show ?thesis
    unfolding first_verb_def Let_def uncomment_def e first_token_strip by (rule refl)
qed

definition plain_word :: "string \<Rightarrow> bool" where
  "plain_word v \<longleftrightarrow> v \<noteq> [] \<and> (\<forall>c \<in> set v. \<not> is_space c \<and> c \<noteq> CHR ''/'' \<and> c \<noteq> CHR ''-'')"

lemma uncomment_word:
  assumes "plain_word v"
  shows "uncomment (v @ s) = v @ strip_line (strip_block s)"
proof -
  have v: "v \<noteq> []" "CHR ''/'' \<notin> set v" "CHR ''-'' \<notin> set v" "\<not> is_space (hd v)"
    using assms by (auto simp: plain_word_def)
  then have "dropWhile is_space (v @ w) = v @ w" for w
    by (cases v) auto
  with v show ?thesis by (simp add: uncomment_def strip_block_word strip_line_word)
qed

lemma first_verb_word:
  assumes "trivia t" "plain_word v" "rest = [] \<or> is_space (hd rest)"
  shows "first_verb (t @ v @ rest) = py_upper v"
proof -
  have "strip_line (strip_block rest) = [] \<or> is_space (hd (strip_line (strip_block rest)))"
    using assms(3) space_not_comment by (cases rest) (auto simp: strip_block_Cons strip_line_Cons)
  moreover have "\<forall>c \<in> set v. \<not> is_space c" using assms(2) by (simp add: plain_word_def)
  ultimately have "takeWhile (\<lambda>c. \<not> is_space c) (v @ strip_line (strip_block rest)) = v"
    by (cases "strip_line (strip_block rest)") (auto simp: takeWhile_append)
  with assms show ?thesis
    by (simp add: first_verb_uncomment uncomment_trivia uncomment_word first_token_def)
qed

lemma upper_chars_fixed:
  "is_space c \<or> c = CHR ''/'' \<or> c = CHR ''-'' \<Longrightarrow> upper_chars c = [c]"
  by (auto simp: is_space_def upper_chars_def Let_def)

lemma set_py_upper: "c \<in> set v \<Longrightarrow> set (upper_chars c) \<subseteq> set (py_upper v)"
  by (auto simp: py_upper_def)

lemma write_verb_chars:
  "w \<in> write_verbs \<Longrightarrow> w \<noteq> [] \<and> (\<forall>c \<in> set w. \<not> is_space c \<and> c \<noteq> CHR ''/'' \<and> c \<noteq> CHR ''-'')"
  by (auto simp: write_verbs_def is_space_def)

lemma write_verb_plain: "py_upper v \<in> write_verbs \<Longrightarrow> plain_word v"
  using write_verb_chars [of "py_upper v"] set_py_upper [of _ v] upper_chars_fixed
  unfolding plain_word_def
  by (metis list.set_intros(1) py_upper_def concat.simps(1) list.map(1) subsetD)

section \<open>Procedure names\<close>

definition plain_ident :: "string \<Rightarrow> bool" where
  "plain_ident s \<longleftrightarrow> s \<noteq> [] \<and>
     (\<forall>c \<in> set s. \<not> is_space c \<and> c \<noteq> CHR ''.'' \<and> c \<noteq> CHR ''['' \<and> c \<noteq> CHR '']'')"

lemma lower_char_punct:
  "lower_char c = CHR ''.'' \<longleftrightarrow> c = CHR ''.''"
  "lower_char c = CHR ''['' \<longleftrightarrow> c = CHR ''[''"
  "lower_char c = CHR '']'' \<longleftrightarrow> c = CHR '']''"
  by (rule lower_char_eq_iff; simp add: lower_char_def)+

lemma remove_char_lower:
  "remove_char (CHR ''['') (py_lower s) = py_lower (remove_char (CHR ''['') s)"
  "remove_char (CHR '']'') (py_lower s) = py_lower (remove_char (CHR '']'') s)"
  by (induction s) (auto simp: remove_char_def py_lower_def lower_char_punct)

lemma remove_char_append:
  "remove_char c (xs @ ys) = remove_char c xs @ remove_char c ys"
  by (simp add: remove_char_def)

definition clean_name :: "string \<Rightarrow> string" where
  "clean_name s = remove_char (CHR '']'') (remove_char (CHR ''['') (py_lower s))"

lemma clean_name_append: "clean_name (xs @ ys) = clean_name xs @ clean_name ys"
  by (simp add: clean_name_def py_lower_append remove_char_append)

lemma clean_name_dot: "clean_name (CHR ''.'' # s) = CHR ''.'' # clean_name s"
  by (simp add: clean_name_def py_lower_def lower_char_def remove_char_def)

lemma clean_name_ident: "plain_ident s \<Longrightarrow> clean_name s = py_lower s"
  unfolding clean_name_def remove_char_def py_lower_def plain_ident_def
  by (auto simp: filter_id_conv lower_char_punct)

definition name_parts :: "string \<Rightarrow> string list" where
  "name_parts name = filter (\<lambda>p. p \<noteq> []) (split_on (CHR ''.'') (clean_name (py_strip name)))"

lemma normalize_name_parts:
  "normalize_proc_name name mode ds =
     (let parts = name_parts name in
      if parts = [] then []
      else if 2 \<le> length parts then last (butlast parts) @ ''.'' @ last parts
      else if mode = ''default_schema_expand'' then ds @ ''.'' @ hd parts else hd parts)"
  by (simp only: normalize_proc_name_def name_parts_def clean_name_def Let_def)

lemma dot_not_space [simp]: "\<not> is_space (CHR ''.'')"
  by (simp add: is_space_def)

lemma dropWhile_keep: "\<not> P x \<Longrightarrow> dropWhile P (q @ x # r) = dropWhile P q @ x # r"
  by (induction q) auto

lemma plain_ident_ends:
  assumes "plain_ident s"
  shows "s \<noteq> []" "\<not> is_space (last s)" "\<not> is_space (hd s)" "CHR ''.'' \<notin> set s"
  using assms unfolding plain_ident_def by simp_all blast

lemma dot_in_py_lower: "CHR ''.'' \<in> set (py_lower s) \<longleftrightarrow> CHR ''.'' \<in> set s"
  by (induction s) (auto simp: py_lower_def lower_char_punct eq_commute [of "CHR ''.''"])

lemma plain_ident_lower:
  assumes "plain_ident s"
  shows "py_lower s \<noteq> []" "CHR ''.'' \<notin> set (py_lower s)" "s \<noteq> []" "\<not> is_space (last s)"
    "\<not> is_space (hd s)"
  using plain_ident_ends [OF assms] by (simp_all add: dot_in_py_lower) (simp add: py_lower_def)

lemma strip_qualified:
  assumes "plain_ident n"
  shows "py_strip (q @ CHR ''.'' # s @ CHR ''.'' # n)
         = dropWhile is_space q @ CHR ''.'' # s @ CHR ''.'' # n"
proof -
  have "py_strip (q @ (CHR ''.'' # s @ CHR ''.'' # n))
        = dropWhile is_space (q @ (CHR ''.'' # s @ CHR ''.'' # n))"
    unfolding py_strip_def
    by (rule strip_by_append_last) (use plain_ident_lower [OF assms] in simp_all)
  then show ?thesis by (simp add: dropWhile_keep)
qed

text \<open>The parts of a name that ends in \<open>schema.procedure\<close>.\<close>

lemma name_parts_qualified:
  assumes "plain_ident s" "plain_ident n"
  shows "\<exists>ps. name_parts (q @ CHR ''.'' # s @ CHR ''.'' # n) = ps @ [py_lower s, py_lower n]"
proof -
  have "clean_name (py_strip (q @ CHR ''.'' # s @ CHR ''.'' # n)) =
     clean_name (dropWhile is_space q) @ CHR ''.'' # py_lower s @ CHR ''.'' # py_lower n"
    by (simp add: strip_qualified [OF assms(2)] clean_name_append clean_name_dot
        clean_name_ident [OF assms(1)] clean_name_ident [OF assms(2)])
  then show ?thesis
    using plain_ident_lower(1,2) [OF assms(1)] plain_ident_lower(1,2) [OF assms(2)]
    by (simp add: name_parts_def split_on_append split_on_notin)
qed

lemma normalize_qualified:
  assumes "plain_ident s" "plain_ident n"
  shows "normalize_proc_name (q @ CHR ''.'' # s @ CHR ''.'' # n) mode ds
         = py_lower s @ ''.'' @ py_lower n"
proof -
  obtain ps where "name_parts (q @ CHR ''.'' # s @ CHR ''.'' # n) = ps @ [py_lower s, py_lower n]"
    using name_parts_qualified [OF assms] by blast
  then show ?thesis by (simp add: normalize_name_parts butlast_append)
qed

lemma normalize_two_part:
  assumes "plain_ident s" "plain_ident n"
  shows "normalize_proc_name (s @ CHR ''.'' # n) mode ds = py_lower s @ ''.'' @ py_lower n"
proof -
  have "py_strip (s @ CHR ''.'' # n) = s @ CHR ''.'' # n"
    unfolding py_strip_def
    by (rule strip_by_id) (use plain_ident_lower [OF assms(1)] plain_ident_lower [OF assms(2)] in simp)
  then have "name_parts (s @ CHR ''.'' # n) = [py_lower s, py_lower n]"
    using plain_ident_lower(1,2) [OF assms(1)] plain_ident_lower(1,2) [OF assms(2)]
    by (simp add: name_parts_def clean_name_append clean_name_dot clean_name_ident assms
        split_on_append split_on_notin)
  then show ?thesis by (simp add: normalize_name_parts)
qed

lemma validate_procedure_ok:
  "is_ok (validate_procedure wg tool p) =
     (case map_of (allowed_tools (wg_policy wg)) tool of None \<Rightarrow> False
      | Some cfg \<Rightarrow>
          let norm = (\<lambda>x. normalize_proc_name x (policy_match_mode (wg_policy wg))
                      (policy_default_schema (wg_policy wg)))
          in norm p \<in> norm ` (set (dict_get cfg ''allowed_procedures'' []) \<union> set (dict_get cfg ''allowlist'' [])))"
  by (auto simp: validate_procedure_def Let_def split: option.splits)

lemma qualified_inject:
  "CHR ''.'' \<notin> set a \<Longrightarrow> CHR ''.'' \<notin> set c \<Longrightarrow>
   (a @ CHR ''.'' # b = c @ CHR ''.'' # d) = (a = c \<and> b = d)"
proof (induction a arbitrary: c)
  case Nil
  then show ?case by (cases c) auto
next
  case (Cons x a)
  then show ?case by (cases c) auto
qed

lemma normalize_unqualified:
  assumes "plain_ident n"
  shows "normalize_proc_name n ''default_schema_expand'' ds = ds @ ''.'' @ py_lower n"
proof -
  have "py_strip n = n"
    unfolding py_strip_def by (rule strip_by_id) (use plain_ident_ends [OF assms] in simp)
  then have "name_parts n = [py_lower n]"
    using plain_ident_lower(1,2) [OF assms]
    by (simp add: name_parts_def clean_name_ident assms split_on_notin)
  then show ?thesis by (simp add: normalize_name_parts)
qed

definition dotted :: "string \<times> string \<Rightarrow> string" where
  "dotted p = fst p @ CHR ''.'' # snd p"

lemma enforce_write_verb:
  assumes "write_mode_default (wg_policy wg) = ''deny''" "tool \<notin> set (allowed_write_tools (wg_policy wg))"
    and "trivia t" "py_upper v \<in> write_verbs" "rest = [] \<or> is_space (hd rest)"
  shows "\<exists>e. enforce wg tool (t @ v @ rest) = Inl e \<and> exc_kind e = PermissionErr"
proof -
  have "first_verb (t @ v @ rest) = py_upper v"
    using assms(3) write_verb_plain [OF assms(4)] assms(5) by (rule first_verb_word)
  with assms(1,2,4) show ?thesis by (auto simp: enforce_def Let_def)
qed

section \<open>Properties\<close>

text \<open>
  Under \<open>write_mode_default = deny\<close>, a statement whose first word is one of the ten write
  verbs, in any mixture of cases and after any white space, block comments and line comments,
  is refused with \<open>PermissionError\<close> for every tool outside \<open>allowed_write_tools\<close>.
\<close>

theorem write_verb_refused:
  assumes "write_mode_default (wg_policy wg) = ''deny''"
    and "tool \<notin> set (allowed_write_tools (wg_policy wg))"
    and "trivia t" and "py_upper v \<in> write_verbs" and "rest = [] \<or> is_space (hd rest)"
  shows "\<exists>e. enforce wg tool (t @ v @ rest) = Inl e \<and> exc_kind e = PermissionErr"
  using assms by (rule enforce_write_verb)

theorem write_verb_refused_witness:
  "\<exists>e. enforce \<lparr>wg_policy = default_policy, wg_blocked = []\<rparr> ''db_primary_sql2019_select''
         (''/*x*/ '' @ ''dElEtE'' @ '' FROM t'') = Inl e \<and> exc_kind e = PermissionErr"
proof -
  have t: "trivia (''/*'' @ ''x'' @ ''*/'' @ '' '')"
    by (rule trivia.trivia_block, simp add: sublist_Cons_right)
      (rule trivia.trivia_space, simp add: is_space_def, rule trivia.trivia_empty)
  have v: "py_upper ''dElEtE'' \<in> write_verbs"
    by code_simp
  show ?thesis
    using write_verb_refused [OF _ _ t v, where wg = "\<lparr>wg_policy = default_policy, wg_blocked = []\<rparr>"
        and tool = "''db_primary_sql2019_select''" and rest = "'' FROM t''"]
    by (simp add: default_policy_def is_space_def)
qed

text \<open>
  The guard looks at the first word only.  Whatever text follows, a statement that starts
  with \<open>SELECT 1;\<close>, and a statement that starts with \<open>EXEC(\<close>, is admitted for every tool and
  policy unless a denylist pattern matches it; so write protection against stacked statements
  and dynamic \<open>EXEC(...)\<close> rests on the configured patterns alone.
\<close>

theorem stacked_statements_admitted:
  assumes "\<forall>p \<in> set (wg_blocked wg). \<not> p sql"
    and "sql = ''SELECT 1;'' @ payload \<or> sql = ''EXEC('' @ payload"
  shows "enforce wg tool sql = Inr ()"
proof -
  have "first_verb sql \<notin> write_verbs"
    using assms(2)
  proof
    assume "sql = ''SELECT 1;'' @ payload"
    then have "sql = [] @ ''SELECT'' @ ('' 1;'' @ payload)" by simp
    moreover have "plain_word ''SELECT''" by (simp add: plain_word_def is_space_def)
    ultimately have "first_verb sql = py_upper ''SELECT''"
      using first_verb_word [OF trivia_empty, of "''SELECT''" "'' 1;'' @ payload"]
      by (simp add: is_space_def)
    then show ?thesis by (simp add: write_verbs_def py_upper_def upper_chars_def)
  next
    assume sql: "sql = ''EXEC('' @ payload"
    have "plain_word ''EXEC(''" by (simp add: plain_word_def is_space_def)
    then have "uncomment sql = ''EXEC('' @ strip_line (strip_block payload)"
      unfolding sql by (rule uncomment_word)
    then have "\<exists>r. first_verb sql = ''EXEC('' @ r"
      by (simp add: first_verb_uncomment first_token_def py_upper_def upper_chars_def is_space_def)
    then show ?thesis by (auto simp: write_verbs_def)
  qed
  with assms(1) show ?thesis by (auto simp: enforce_def Let_def)
qed

theorem stacked_statements_admitted_witness:
  "enforce \<lparr>wg_policy = default_policy, wg_blocked = []\<rparr> ''db_primary_sql2019_select''
     (''SELECT 1;'' @ '' DROP TABLE t'') = Inr ()"
  by (rule stacked_statements_admitted [where payload = "'' DROP TABLE t''"]) simp_all

text \<open>
  Comments hide a write verb from the guard: a comment glued to the verb (the words on both sides
  join), a nested comment (the guard ends it at the first end mark), and a line comment with an
  opening mark (the guard removes block comments first, and with them the statement).  SQL Server
  reads all three as \<open>DELETE FROM t\<close>; no tool and no policy stops them unless a deny pattern does.
\<close>

theorem comments_hide_verb:
  assumes "\<forall>p \<in> set (wg_blocked wg). \<not> p sql"
    and "sql \<in> {''DELETE/**/FROM t'', ''/* /* */ */ DELETE FROM t'',
           ''-- /*'' @ newline # ''DELETE FROM t --*/''}"
  shows "enforce wg tool sql = Inr ()"
proof -
  have "first_verb ''DELETE/**/FROM t'' \<notin> write_verbs" by code_simp
  moreover have "first_verb ''/* /* */ */ DELETE FROM t'' \<notin> write_verbs" by code_simp
  moreover have "first_verb (''-- /*'' @ newline # ''DELETE FROM t --*/'') \<notin> write_verbs" by code_simp
  ultimately have "first_verb sql \<notin> write_verbs" using assms(2) by blast
  with assms(1) show ?thesis by (auto simp: enforce_def Let_def)
qed

theorem comments_hide_verb_witness:
  "enforce \<lparr>wg_policy = default_policy, wg_blocked = []\<rparr> ''db_primary_sql2019_select'' ''DELETE/**/FROM t'' = Inr ()"
  by (rule comments_hide_verb) simp_all

text \<open>
  C11: when the allow-list of a tool holds \<open>schema.procedure\<close> entries and the matching mode is
  \<open>default_schema_expand\<close>, a two-part name is accepted exactly if the list holds the same
  schema and procedure up to case, and an unqualified name exactly if the list holds it under
  the default schema.
\<close>

theorem procedure_allowlist_exact:
  assumes cfg: "map_of (allowed_tools (wg_policy wg)) tool = Some [(''allowed_procedures'', map dotted es)]"
    and es: "\<forall>(a, b) \<in> set es. plain_ident a \<and> plain_ident b"
    and mode: "policy_match_mode (wg_policy wg) = ''default_schema_expand''"
    and ds: "CHR ''.'' \<notin> set (policy_default_schema (wg_policy wg))"
    and sn: "plain_ident s" "plain_ident n"
  shows "is_ok (validate_procedure wg tool (dotted (s, n))) =
           ((py_lower s, py_lower n) \<in> (\<lambda>(a, b). (py_lower a, py_lower b)) ` set es)
         \<and> is_ok (validate_procedure wg tool n) =
           ((policy_default_schema (wg_policy wg), py_lower n)
              \<in> (\<lambda>(a, b). (py_lower a, py_lower b)) ` set es)"
proof -
  let ?ds = "policy_default_schema (wg_policy wg)"
  let ?norm = "\<lambda>x. normalize_proc_name x ''default_schema_expand'' ?ds"
  have norm_es: "?norm ` set (map dotted es) =
      (\<lambda>(a, b). py_lower a @ CHR ''.'' # py_lower b) ` set es"
    using es by (force simp: image_iff dotted_def normalize_two_part)
  have nodot: "\<forall>(a, b) \<in> set es. CHR ''.'' \<notin> set (py_lower a)"
    using es plain_ident_lower(2) by blast
  have mem: "(x @ CHR ''.'' # y \<in> (\<lambda>(a, b). py_lower a @ CHR ''.'' # py_lower b) ` set es)
      = ((x, y) \<in> (\<lambda>(a, b). (py_lower a, py_lower b)) ` set es)" if "CHR ''.'' \<notin> set x" for x y
    using nodot that by (force simp: image_iff qualified_inject)
  have ok: "is_ok (validate_procedure wg tool p) = (?norm p \<in> ?norm ` set (map dotted es))" for p
    by (simp add: validate_procedure_ok cfg mode dict_get_def)
  show ?thesis
    unfolding ok norm_es
    using mem [of "py_lower s" "py_lower n"] mem [OF ds, of "py_lower n"] plain_ident_lower(2) [OF sn(1)]
    by (simp add: dotted_def normalize_two_part sn normalize_unqualified)
qed

text \<open>
  Only the last two parts of a procedure name are compared, and nothing restricts what
  stands before them: for every text \<open>q\<close>, \<open>q.schema.procedure\<close> is accepted exactly when
  \<open>schema.procedure\<close> is.
\<close>

theorem allowlist_ignores_prefix:
  assumes "plain_ident s" "plain_ident n"
  shows "is_ok (validate_procedure wg tool (q @ CHR ''.'' # s @ CHR ''.'' # n))
         = is_ok (validate_procedure wg tool (s @ CHR ''.'' # n))"
  by (simp add: validate_procedure_ok normalize_qualified [OF assms] normalize_two_part [OF assms]
      Let_def split: option.split)

definition example_guard :: write_guard where
  "example_guard = \<lparr>wg_policy = default_policy\<lparr>allowed_tools :=
     [(''exec'', [(''allowed_procedures'', [''dbo.usp_X''])])]\<rparr>, wg_blocked = []\<rparr>"

lemma example_guard_mode:
  "policy_match_mode (wg_policy example_guard) = ''default_schema_expand''"
  "policy_default_schema (wg_policy example_guard) = ''dbo''"
  by (simp_all add: policy_match_mode_def policy_default_schema_def example_guard_def
      default_policy_def py_def)

lemma example_idents: "plain_ident ''dbo''" "plain_ident ''usp_X''" "plain_ident ''USP_x''"
  by (simp_all add: plain_ident_def is_space_def)

lemma example_lower:
  "py_lower ''dbo'' = ''dbo''" "py_lower ''USP_x'' = ''usp_x''" "py_lower ''usp_X'' = ''usp_x''"
  by code_simp+

theorem procedure_allowlist_exact_witness:
  "is_ok (validate_procedure example_guard ''exec'' (dotted (''dbo'', ''USP_x'')))
   \<and> is_ok (validate_procedure example_guard ''exec'' ''USP_x'')"
proof -
  have c: "map_of (allowed_tools (wg_policy example_guard)) ''exec''
      = Some [(''allowed_procedures'', map dotted [(''dbo'', ''usp_X'')])]"
    by (simp add: example_guard_def dotted_def)
  have e: "\<forall>(a, b) \<in> set [(''dbo'', ''usp_X'')]. plain_ident a \<and> plain_ident b"
    by (simp add: example_idents)
  have d: "CHR ''.'' \<notin> set (policy_default_schema (wg_policy example_guard))"
    by (simp add: example_guard_mode)
  show ?thesis
    using procedure_allowlist_exact [OF c e example_guard_mode(1) d example_idents(1,3)]
    by (simp add: example_guard_mode example_lower)
qed

theorem allowlist_ignores_prefix_witness:
  "is_ok (validate_procedure example_guard ''exec'' ''other; DROP TABLE t; EXEC x.dbo.USP_x'')"
proof -
  have "is_ok (validate_procedure example_guard ''exec'' (''dbo'' @ CHR ''.'' # ''USP_x''))"
    by code_simp
  then show ?thesis
    using allowlist_ignores_prefix [OF example_idents(1,3), of example_guard "''exec''"
        "''other; DROP TABLE t; EXEC x''"]
    by simp
qed

end
