(* ===== verification/Privilege_Mapper.thy ===== *)
theory Privilege_Mapper
  imports Config_Models
begin

text \<open>
  \<open>src/security/privilege_mapper.py\<close>: the privilege level of a caller, from the group claim of
  its token and the configured group lists.  A set of names is a list whose order is never
  observed (the results are sorted).
\<close>

definition py_type_name :: "pyval \<Rightarrow> string" where
  "py_type_name v = (case v of VNone \<Rightarrow> ''NoneType'' | VBool _ \<Rightarrow> ''bool'' | VInt _ \<Rightarrow> ''int''
     | VFloat _ _ \<Rightarrow> ''float'' | VStr _ \<Rightarrow> ''str'' | VList _ \<Rightarrow> ''list'' | VDict _ \<Rightarrow> ''dict''
     | VObj c _ \<Rightarrow> c)"

definition normalize_groups :: "pyval \<Rightarrow> string list result" where
  "normalize_groups raw = (case raw of
       VNone \<Rightarrow> Inr []
     | VStr s \<Rightarrow> Inr (map py_lower (split_strip (CHR '','') s))
     | VList xs \<Rightarrow> Inr (map py_lower (filter (\<lambda>s. s \<noteq> []) (map (\<lambda>v. py_strip (py_str v)) xs)))
     | _ \<Rightarrow> Inl (type_error (''Expected str, list, set, or tuple; got '' @ py_type_name raw)))"

definition normalize_config_groups :: "string list \<Rightarrow> string list" where
  "normalize_config_groups gs = map (\<lambda>g. py_lower (py_strip g)) (filter (\<lambda>g. py_strip g \<noteq> []) gs)"

record group_match =
  gm_enabled :: bool
  gm_matched_read :: "string list"
  gm_matched_write :: "string list"

definition sorted_intersection :: "string list \<Rightarrow> string list \<Rightarrow> string list" where
  "sorted_intersection xs ys = sort (remdups (filter (\<lambda>x. x \<in> set ys) xs))"

definition resolve_group_privilege ::
  "pyval \<Rightarrow> string list \<Rightarrow> string list \<Rightarrow> bool \<Rightarrow> (string \<times> group_match) result" where
  "resolve_group_privilege principal_groups read_groups write_groups group_authorization_enabled =
     (if \<not> group_authorization_enabled
      then Inr (''write'', \<lparr>gm_enabled = False, gm_matched_read = [], gm_matched_write = []\<rparr>)
      else bind_res (normalize_groups principal_groups) (\<lambda>principal.
        let read_set = normalize_config_groups read_groups;
            write_set = normalize_config_groups write_groups;
            matched_read = sorted_intersection principal read_set;
            matched_write = sorted_intersection principal write_set;
            privilege = (if matched_write \<noteq> [] then ''write''
                         else if matched_read \<noteq> [] then ''read'' else ''none'')
        in Inr (privilege, \<lparr>gm_enabled = True, gm_matched_read = matched_read,
                  gm_matched_write = matched_write\<rparr>)))"

section \<open>Properties\<close>

lemma set_sorted_intersection [simp]: "set (sorted_intersection xs ys) = set xs \<inter> set ys"
  by (auto simp: sorted_intersection_def)

lemma sorted_intersection_Nil: "(sorted_intersection xs ys = []) = (set xs \<inter> set ys = {})"
  by (metis list.set(1) set_empty set_sorted_intersection)

text \<open>The name a group is compared under.\<close>

definition group_key :: "string \<Rightarrow> string" where
  "group_key g = py_lower (py_strip g)"

lemma set_config_groups:
  "set (normalize_config_groups gs) = group_key ` {g \<in> set gs. py_strip g \<noteq> []}"
  by (auto simp: normalize_config_groups_def group_key_def)

definition claim_keys :: "pyval list \<Rightarrow> string set" where
  "claim_keys xs = group_key ` {s \<in> py_str ` set xs. py_strip s \<noteq> []}"

lemma set_normalize_groups_VList:
  "\<exists>p. normalize_groups (VList xs) = Inr p \<and> set p = claim_keys xs"
  by (force simp: normalize_groups_def claim_keys_def group_key_def)

text \<open>
  C40: with group authorization on, a caller whose claim lists its groups gets \<open>write\<close> exactly
  if some non-blank group of the claim equals a configured write group up to case and
  surrounding white space, \<open>read\<close> exactly if none does but some equals a read group, and \<open>none\<close>
  otherwise; the reported matches are those groups.
\<close>

theorem group_privilege_exact:
  "\<exists>priv m. resolve_group_privilege (VList claim) rs ws True = Inr (priv, m)
     \<and> set (gm_matched_write m) = claim_keys claim \<inter> group_key ` {g \<in> set ws. py_strip g \<noteq> []}
     \<and> set (gm_matched_read m) = claim_keys claim \<inter> group_key ` {g \<in> set rs. py_strip g \<noteq> []}
     \<and> priv = (if gm_matched_write m \<noteq> [] then ''write''
               else if gm_matched_read m \<noteq> [] then ''read'' else ''none'')
     \<and> sorted (gm_matched_write m) \<and> sorted (gm_matched_read m)"
proof -
  obtain p where p: "normalize_groups (VList claim) = Inr p" "set p = claim_keys claim"
    using set_normalize_groups_VList by blast
  show ?thesis
    by (simp add: resolve_group_privilege_def p Let_def set_config_groups)
      (simp add: sorted_intersection_def)
qed

text \<open>
  With group authorization off every caller resolves to \<open>write\<close>, whatever its claim holds
  (the deployment template says such callers get read-only access).
\<close>

theorem group_authorization_off_grants_write:
  "\<exists>m. resolve_group_privilege claim rs ws False = Inr (''write'', m) \<and> \<not> gm_enabled m"
  by (simp add: resolve_group_privilege_def)

end
