(* ===== verification/Admission.thy ===== *)
theory Admission
  imports Py_Values
begin

text \<open>
  The contract that the session manager and the rate limiter share: a request is admitted or
  refused with \<open>PermissionError\<close>, and the load that a key puts on the component never passes
  the component's cap.  Both are asked by every tool before it touches the database.
\<close>

locale admission_control =
  fixes admit :: "'q \<Rightarrow> 's \<Rightarrow> unit result \<times> 's"
    and load :: "'k \<Rightarrow> 's \<Rightarrow> nat"
    and cap :: "'k \<Rightarrow> 's \<Rightarrow> int"
    and wf :: "'s \<Rightarrow> bool"
  assumes admit_wf: "wf s \<Longrightarrow> wf (snd (admit q s))"
    and admit_cap: "cap k (snd (admit q s)) = cap k s"
    and admit_bounded: "wf s \<Longrightarrow> int (load k s) \<le> max 0 (cap k s) \<Longrightarrow>
      int (load k (snd (admit q s))) \<le> max 0 (cap k s)"
    and refused: "fst (admit q s) = Inl e \<Longrightarrow> exc_kind e = PermissionErr"
begin

fun admit_all :: "'q list \<Rightarrow> 's \<Rightarrow> 's" where
  "admit_all [] s = s"
| "admit_all (q # qs) s = admit_all qs (snd (admit q s))"

lemma admit_all_wf: "wf s \<Longrightarrow> wf (admit_all qs s)"
  by (induction qs arbitrary: s) (auto intro: admit_wf)

lemma admit_all_cap: "cap k (admit_all qs s) = cap k s"
  by (induction qs arbitrary: s) (auto simp: admit_cap)

lemma admit_all_bounded:
  "wf s \<Longrightarrow> int (load k s) \<le> max 0 (cap k s) \<Longrightarrow> int (load k (admit_all qs s)) \<le> max 0 (cap k s)"
proof (induction qs arbitrary: s)
  case (Cons q qs)
  then show ?case
    using Cons.IH [of "snd (admit q s)"] admit_bounded [OF Cons.prems] admit_wf [OF Cons.prems(1)]
    by (simp add: admit_cap)
qed simp

lemma empty_bounded:
  "wf s \<Longrightarrow> load k s = 0 \<Longrightarrow> int (load k (admit_all qs s)) \<le> max 0 (cap k s)"
  using admit_all_bounded by simp

end

end
