(* ===== verification/Session_Manager.thy ===== *)
theory Session_Manager
  imports Admission
begin

text \<open>
  \<open>src/security/session_manager.py\<close>: a dictionary from actors to a dictionary from session keys
  to the time of the last touch, in seconds.  \<open>touch\<close> reads the clock twice, once on entry and
  once inside \<open>_cleanup\<close>; both readings are arguments.
\<close>

record session_manager =
  sm_ttl :: real
  sm_idle :: real
  sm_limit :: int
  sm_sessions :: "(string \<times> (string \<times> real) list) list"

definition session_manager_init :: "int \<Rightarrow> int \<Rightarrow> int \<Rightarrow> session_manager" where
  "session_manager_init session_ttl_minutes inactivity_timeout_minutes concurrent_sessions_limit =
     \<lparr>sm_ttl = of_int (session_ttl_minutes * 60), sm_idle = of_int (inactivity_timeout_minutes * 60),
      sm_limit = concurrent_sessions_limit, sm_sessions = []\<rparr>"

definition live :: "session_manager \<Rightarrow> real \<Rightarrow> real \<Rightarrow> bool" where
  "live sm now stamp = (let started = stamp; last_seen = stamp in
     \<not> (now - started > sm_ttl sm \<or> now - last_seen > sm_idle sm))"

definition cleanup :: "real \<Rightarrow> session_manager \<Rightarrow> session_manager" where
  "cleanup now sm = sm\<lparr>sm_sessions :=
     filter (\<lambda>(actor, sessions). sessions \<noteq> [])
       (map (\<lambda>(actor, sessions). (actor, filter (\<lambda>(sid, stamp). live sm now stamp) sessions))
         (sm_sessions sm))\<rparr>"

definition sessions_of :: "string \<Rightarrow> session_manager \<Rightarrow> (string \<times> real) list" where
  "sessions_of actor sm = dict_get (sm_sessions sm) actor []"

record touch_request =
  tr_actor :: string
  tr_request_id :: string
  tr_mcp_session_id :: "string option"
  tr_now :: real
  tr_cleanup_now :: real

definition session_key :: "touch_request \<Rightarrow> string" where
  "session_key q = (case tr_mcp_session_id q of
       Some sid \<Rightarrow> if sid \<noteq> [] then sid else tr_request_id q
     | None \<Rightarrow> tr_request_id q)"

definition touch :: "touch_request \<Rightarrow> session_manager \<Rightarrow> unit result \<times> session_manager" where
  "touch q sm =
     (let now = tr_now q; actor = tr_actor q;
          sm1 = cleanup (tr_cleanup_now q) sm;
          key = session_key q;
          actor_sessions = sessions_of actor sm1;
          sm2 = sm1\<lparr>sm_sessions := dict_set actor actor_sessions (sm_sessions sm1)\<rparr>
      in if map_of actor_sessions key = None \<and> int (length actor_sessions) \<ge> sm_limit sm
         then (Inl (permission_error ''SESSION_LIMIT_EXCEEDED''), sm2)
         else (Inr (), sm1\<lparr>sm_sessions :=
                 dict_set actor (dict_set key now actor_sessions) (sm_sessions sm1)\<rparr>))"

definition active_count :: "string option \<Rightarrow> real \<Rightarrow> session_manager \<Rightarrow> nat \<times> session_manager" where
  "active_count actor now sm =
     (let sm1 = cleanup now sm in
      (case actor of None \<Rightarrow> sum_list (map (length \<circ> snd) (sm_sessions sm1))
        | Some a \<Rightarrow> length (sessions_of a sm1), sm1))"

section \<open>Well-formedness\<close>

definition sm_wf :: "session_manager \<Rightarrow> bool" where
  "sm_wf sm \<longleftrightarrow> distinct (map fst (sm_sessions sm))
     \<and> (\<forall>(a, ss) \<in> set (sm_sessions sm). distinct (map fst ss))"

lemma sm_wf_init: "sm_wf (session_manager_init t i l)"
  by (simp add: sm_wf_def session_manager_init_def)

lemma cleanup_fields [simp]:
  "sm_ttl (cleanup now sm) = sm_ttl sm" "sm_idle (cleanup now sm) = sm_idle sm"
  "sm_limit (cleanup now sm) = sm_limit sm"
  by (simp_all add: cleanup_def)

lemma map_of_filter_values:
  "distinct (map fst d) \<Longrightarrow> map_of (filter (\<lambda>(k, v). v \<noteq> []) (map (\<lambda>(k, v). (k, f v)) d)) k
     = (case map_of d k of Some v \<Rightarrow> if f v \<noteq> [] then Some (f v) else None | None \<Rightarrow> None)"
proof -
  assume d: "distinct (map fst d)"
  have "map fst (map (\<lambda>(k, v). (k, f v)) d) = map fst d" by simp
  moreover have "map_of (map (\<lambda>(k, v). (k, f v)) d) k = map_option f (map_of d k)"
    by (induction d) auto
  ultimately show ?thesis
    using d by (subst map_of_filter_key) (auto split: option.splits)
qed

lemma sessions_of_cleanup:
  "sm_wf sm \<Longrightarrow> sessions_of a (cleanup now sm)
     = filter (\<lambda>(sid, stamp). live sm now stamp) (sessions_of a sm)"
  unfolding sessions_of_def cleanup_def dict_get_def sm_wf_def
  by (auto simp: map_of_filter_values split: option.splits)

lemma distinct_fst_filter: "distinct (map fst d) \<Longrightarrow> distinct (map fst (filter P d))"
  by (rule distinct_map_filter)

lemma sm_wf_cleanup: "sm_wf sm \<Longrightarrow> sm_wf (cleanup now sm)"
proof -
  assume wf: "sm_wf sm"
  let ?m = "map (\<lambda>(actor, sessions). (actor, filter (\<lambda>(sid, stamp). live sm now stamp) sessions))
         (sm_sessions sm)"
  have "map fst ?m = map fst (sm_sessions sm)" by simp
  then have "distinct (map fst ?m)" using wf by (simp add: sm_wf_def)
  then show ?thesis
    using wf by (auto simp: sm_wf_def cleanup_def intro!: distinct_fst_filter)
qed

lemma sm_wf_set:
  assumes "sm_wf sm" "distinct (map fst ss)"
  shows "sm_wf (sm\<lparr>sm_sessions := dict_set a ss (sm_sessions sm)\<rparr>)"
  using assms by (auto simp: sm_wf_def dest!: set_dict_set)

lemma sm_wf_sessions_of: "sm_wf sm \<Longrightarrow> distinct (map fst (sessions_of a sm))"
  by (auto simp: sm_wf_def sessions_of_def dict_get_def split: option.splits dest: map_of_SomeD)

lemma sessions_of_set [simp]:
  "sessions_of b (sm\<lparr>sm_sessions := dict_set a ss d\<rparr>) =
     (if b = a then ss else dict_get d b [])"
  by (simp add: sessions_of_def dict_get_def)

lemma length_dict_set:
  "length (dict_set k v d) = (if map_of d k = None then Suc (length d) else length d)"
  by (induction d) auto

text \<open>What one touch does, in terms of the sessions that are still live.\<close>

lemma touch_cases:
  fixes q :: touch_request and sm :: session_manager
  assumes "sm_wf sm"
  defines "ss \<equiv> filter (\<lambda>(sid, stamp). live sm (tr_cleanup_now q) stamp) (sessions_of (tr_actor q) sm)"
  shows "fst (touch q sm) = (if map_of ss (session_key q) = None \<and> int (length ss) \<ge> sm_limit sm
             then Inl (permission_error ''SESSION_LIMIT_EXCEEDED'') else Inr ())"
    and "sessions_of a (snd (touch q sm)) =
           (if a = tr_actor q
            then if map_of ss (session_key q) = None \<and> int (length ss) \<ge> sm_limit sm then ss
                 else dict_set (session_key q) (tr_now q) ss
            else filter (\<lambda>(sid, stamp). live sm (tr_cleanup_now q) stamp) (sessions_of a sm))"
    and "sm_wf (snd (touch q sm))"
    and "sm_limit (snd (touch q sm)) = sm_limit sm" "sm_ttl (snd (touch q sm)) = sm_ttl sm"
      "sm_idle (snd (touch q sm)) = sm_idle sm"
proof -
  have eq: "sessions_of b (cleanup (tr_cleanup_now q) sm)
      = filter (\<lambda>(sid, stamp). live sm (tr_cleanup_now q) stamp) (sessions_of b sm)" for b
    by (rule sessions_of_cleanup [OF assms(1)])
  have d: "dict_get (sm_sessions (cleanup (tr_cleanup_now q) sm)) b []
      = sessions_of b (cleanup (tr_cleanup_now q) sm)" for b
    by (simp add: sessions_of_def)
  show "fst (touch q sm) = (if map_of ss (session_key q) = None \<and> int (length ss) \<ge> sm_limit sm
             then Inl (permission_error ''SESSION_LIMIT_EXCEEDED'') else Inr ())"
    unfolding touch_def Let_def eq ss_def by simp
  show "sessions_of a (snd (touch q sm)) =
           (if a = tr_actor q
            then if map_of ss (session_key q) = None \<and> int (length ss) \<ge> sm_limit sm then ss
                 else dict_set (session_key q) (tr_now q) ss
            else filter (\<lambda>(sid, stamp). live sm (tr_cleanup_now q) stamp) (sessions_of a sm))"
    unfolding touch_def Let_def eq ss_def by (simp add: d eq)
  have dss: "distinct (map fst ss)"
    unfolding ss_def by (rule distinct_fst_filter) (rule sm_wf_sessions_of [OF assms(1)])
  show "sm_wf (snd (touch q sm))"
    unfolding touch_def Let_def eq ss_def [symmetric]
    by (auto intro!: sm_wf_set sm_wf_cleanup assms(1) dss distinct_dict_set)
  show "sm_limit (snd (touch q sm)) = sm_limit sm" "sm_ttl (snd (touch q sm)) = sm_ttl sm"
      "sm_idle (snd (touch q sm)) = sm_idle sm"
    by (simp_all add: touch_def Let_def)
qed

section \<open>The session limit\<close>

interpretation sessions: admission_control touch "\<lambda>a sm. length (sessions_of a sm)"
  "\<lambda>a sm. sm_limit sm" sm_wf
proof unfold_locales
  fix q :: touch_request and k :: string and s :: session_manager
  assume wf: "sm_wf s" and b: "int (length (sessions_of k s)) \<le> max 0 (sm_limit s)"
  have "length (filter (\<lambda>(sid, stamp). live s (tr_cleanup_now q) stamp) (sessions_of k s))
      \<le> length (sessions_of k s)" by simp
  with b have "int (length (filter (\<lambda>(sid, stamp). live s (tr_cleanup_now q) stamp) (sessions_of k s)))
      \<le> max 0 (sm_limit s)" by linarith
  then show "int (length (sessions_of k (snd (touch q s)))) \<le> max 0 (sm_limit s)"
    unfolding touch_cases(2) [OF wf] by (auto simp: length_dict_set)
next
  fix q :: touch_request and s :: session_manager
  assume "sm_wf s"
  then show "sm_wf (snd (touch q s))" by (rule touch_cases(3))
next
  fix q :: touch_request and s :: session_manager and k :: string and e
  show "sm_limit (snd (touch q s)) = sm_limit s" by (simp add: touch_def Let_def)
  show "fst (touch q s) = Inl e \<Longrightarrow> exc_kind e = PermissionErr"
    by (auto simp: touch_def Let_def split: if_splits)
qed

text \<open>
  From the start of the server, over any sequence of touches at any clock readings, no actor
  ever has more sessions registered than \<open>concurrent_sessions_limit\<close>, and no session key is
  registered twice for one actor.
\<close>

theorem session_limit_never_exceeded:
  "int (length (sessions_of a (sessions.admit_all qs (session_manager_init ttl idle limit)))) \<le> max 0 limit
   \<and> distinct (map fst (sessions_of a (sessions.admit_all qs (session_manager_init ttl idle limit))))"
proof -
  have e: "length (sessions_of a (session_manager_init ttl idle limit)) = 0"
    "sm_limit (session_manager_init ttl idle limit) = limit"
    by (simp_all add: sessions_of_def session_manager_init_def dict_get_def)
  show ?thesis
    using sessions.empty_bounded [OF sm_wf_init e(1), of qs]
      sm_wf_sessions_of [OF sessions.admit_all_wf [OF sm_wf_init]] e(2) by simp
qed

text \<open>
  A touch is refused exactly if its session is not among the actor's live ones and these
  already fill the limit: an open session is never refused, and sessions of other actors have
  no influence.
\<close>

theorem touch_refused_exactly:
  assumes "sm_wf sm"
  shows "is_ok (fst (touch q sm)) \<longleftrightarrow>
     (\<exists>stamp. (session_key q, stamp) \<in> set (sessions_of (tr_actor q) sm) \<and> live sm (tr_cleanup_now q) stamp)
     \<or> int (length (filter (\<lambda>(sid, stamp). live sm (tr_cleanup_now q) stamp) (sessions_of (tr_actor q) sm)))
         < sm_limit sm"
proof -
  let ?ss = "filter (\<lambda>(sid, stamp). live sm (tr_cleanup_now q) stamp) (sessions_of (tr_actor q) sm)"
  have "(map_of ?ss (session_key q) = None) =
      (\<nexists>stamp. (session_key q, stamp) \<in> set (sessions_of (tr_actor q) sm) \<and> live sm (tr_cleanup_now q) stamp)"
    by (auto simp: map_of_eq_None_iff image_iff)
  then show ?thesis by (auto simp: touch_cases(1) [OF assms])
qed

theorem touch_refused_exactly_witness:
  "\<not> is_ok (fst (touch \<lparr>tr_actor = ''bob'', tr_request_id = ''r2'', tr_mcp_session_id = None,
      tr_now = 10, tr_cleanup_now = 10\<rparr>
     \<lparr>sm_ttl = 60, sm_idle = 60, sm_limit = 1, sm_sessions = [(''bob'', [(''r1'', 5)])]\<rparr>))"
  using touch_refused_exactly [of "\<lparr>sm_ttl = 60, sm_idle = 60, sm_limit = 1,
      sm_sessions = [(''bob'', [(''r1'', 5)])]\<rparr>" "\<lparr>tr_actor = ''bob'', tr_request_id = ''r2'',
      tr_mcp_session_id = None, tr_now = 10, tr_cleanup_now = 10\<rparr>"]
  by (simp add: sm_wf_def sessions_of_def dict_get_def session_key_def live_def)

definition periodic_touch :: "string \<Rightarrow> string \<Rightarrow> real \<Rightarrow> real \<Rightarrow> nat \<Rightarrow> touch_request" where
  "periodic_touch a sid t0 d n = \<lparr>tr_actor = a, tr_request_id = ''r'', tr_mcp_session_id = Some sid,
     tr_now = t0 + real n * d, tr_cleanup_now = t0 + real n * d\<rparr>"

lemma sessions_admit_snoc:
  "sessions.admit_all (qs @ [q]) s = snd (touch q (sessions.admit_all qs s))"
  by (induction qs arbitrary: s) auto

lemma admit_all_fields:
  assumes "sm_wf s"
  shows "sm_ttl (sessions.admit_all qs s) = sm_ttl s \<and> sm_idle (sessions.admit_all qs s) = sm_idle s"
  using assms by (induction qs arbitrary: s) (auto simp: touch_cases)

text \<open>
  The time to live does not bound the age of a session.  Only the last touch is recorded,
  so a session that is touched at intervals of at most the smaller of the two timeouts stays
  registered, and is never refused, for any number of touches, however far its age exceeds
  \<open>session_ttl_minutes\<close>.
\<close>

theorem session_outlives_ttl:
  assumes "0 \<le> d" "d \<le> real_of_int (ttl * 60)" "d \<le> real_of_int (idle * 60)" "1 \<le> limit" "sid \<noteq> []"
  shows "map_of (sessions_of a (sessions.admit_all (map (periodic_touch a sid t0 d) [0..<Suc n])
           (session_manager_init ttl idle limit))) sid = Some (t0 + real n * d)"
proof (induction n)
  case 0
  have "0 \<le> real_of_int (ttl * 60)" using assms(1,2) by linarith
  have e: "sessions_of a (session_manager_init ttl idle limit) = []"
    "sm_limit (session_manager_init ttl idle limit) = limit"
    by (simp_all add: sessions_of_def session_manager_init_def dict_get_def)
  show ?case
    using assms(4,5) by (simp add: touch_cases(2) [OF sm_wf_init] e periodic_touch_def session_key_def)
next
  case (Suc n)
  let ?s = "sessions.admit_all (map (periodic_touch a sid t0 d) [0..<Suc n]) (session_manager_init ttl idle limit)"
  let ?q = "periodic_touch a sid t0 d (Suc n)"
  have wf: "sm_wf ?s" by (rule sessions.admit_all_wf) (rule sm_wf_init)
  have f: "sm_ttl ?s = real_of_int (ttl * 60)" "sm_idle ?s = real_of_int (idle * 60)"
    using admit_all_fields [OF sm_wf_init] by (simp_all only:) (simp_all add: session_manager_init_def)
  have age: "tr_cleanup_now ?q - (t0 + real n * d) = d"
    by (simp add: periodic_touch_def algebra_simps)
  have "live ?s (tr_cleanup_now ?q) (t0 + real n * d)"
    unfolding live_def Let_def f age using assms(2,3) by linarith
  then have "map_of (filter (\<lambda>(sid, stamp). live ?s (tr_cleanup_now ?q) stamp) (sessions_of a ?s)) sid
      = Some (t0 + real n * d)"
    by (rule map_of_filter_val [OF sm_wf_sessions_of [OF wf] Suc])
  moreover have "session_key ?q = sid" "tr_actor ?q = a" "tr_now ?q = t0 + real (Suc n) * d"
    using assms(5) by (simp_all add: session_key_def periodic_touch_def)
  ultimately have "map_of (sessions_of a (snd (touch ?q ?s))) sid = Some (t0 + real (Suc n) * d)"
    by (simp add: touch_cases(2) [OF wf] del: upt_Suc)
  moreover have "sessions.admit_all (map (periodic_touch a sid t0 d) [0..<Suc (Suc n)])
      (session_manager_init ttl idle limit) = snd (touch ?q ?s)"
    using sessions_admit_snoc [of "map (periodic_touch a sid t0 d) [0..<Suc n]" ?q] by simp
  ultimately show ?case by simp
qed

theorem session_outlives_ttl_witness:
  "map_of (sessions_of ''bob'' (sessions.admit_all (map (periodic_touch ''bob'' ''s1'' 0 60) [0..<Suc 1000])
     (session_manager_init 60 15 1))) ''s1'' = Some (0 + real 1000 * 60)"
  by (rule session_outlives_ttl) simp_all

end
