(* ===== verification/Rate_Limiter.thy ===== *)
theory Rate_Limiter
  imports Admission
begin

text \<open>
  \<open>src/middleware/rate_limiter.py\<close>: the in-process sliding-window limiter.  A deque is a list,
  oldest first; clock readings are real numbers of seconds.  The abstract specification is the
  history of admitted calls: a call is admitted if fewer than the limit were admitted in the
  last 60 seconds.
\<close>

record rate_limiter =
  rl_actor_rpm :: int
  rl_actor_burst :: int
  rl_global_rpm :: int
  rl_global_burst :: int
  rl_actor_events :: "(string \<times> real list) list"
  rl_global_events :: "real list"

definition rate_limiter_init :: "int \<Rightarrow> int \<Rightarrow> int \<Rightarrow> int \<Rightarrow> rate_limiter" where
  "rate_limiter_init actor_rpm actor_burst global_rpm global_burst =
     \<lparr>rl_actor_rpm = actor_rpm, rl_actor_burst = actor_burst, rl_global_rpm = global_rpm,
      rl_global_burst = global_burst, rl_actor_events = [], rl_global_events = []\<rparr>"

text \<open>\<open>while bucket and bucket[0] < cutoff: bucket.popleft()\<close>\<close>

fun popleft_while :: "real \<Rightarrow> real list \<Rightarrow> real list" where
  "popleft_while cutoff [] = []"
| "popleft_while cutoff (t # bucket) =
     (if t < cutoff then popleft_while cutoff bucket else t # bucket)"

definition prune :: "real list \<Rightarrow> real \<Rightarrow> real list" where
  "prune bucket now = (let cutoff = now - 60 in popleft_while cutoff bucket)"

definition bucket_of :: "string \<Rightarrow> rate_limiter \<Rightarrow> real list" where
  "bucket_of actor rl = dict_get (rl_actor_events rl) actor []"

type_synonym rate_call = "string \<times> real"

definition allow :: "rate_call \<Rightarrow> rate_limiter \<Rightarrow> unit result \<times> rate_limiter" where
  "allow q rl =
     (let actor = fst q; now = snd q;
          actor_bucket = prune (bucket_of actor rl) now;
          global_events = prune (rl_global_events rl) now;
          rl1 = rl\<lparr>rl_actor_events := dict_set actor actor_bucket (rl_actor_events rl),
                   rl_global_events := global_events\<rparr>
      in if int (length actor_bucket) \<ge> rl_actor_rpm rl + rl_actor_burst rl
         then (Inl (permission_error ''RATE_LIMIT_EXCEEDED: actor quota exceeded''), rl1)
         else if int (length global_events) \<ge> rl_global_rpm rl + rl_global_burst rl
         then (Inl (permission_error ''RATE_LIMIT_EXCEEDED: global quota exceeded''), rl1)
         else (Inr (), rl1\<lparr>rl_actor_events :=
                  dict_set actor (actor_bucket @ [now]) (rl_actor_events rl),
                rl_global_events := global_events @ [now]\<rparr>))"

definition actor_limit :: "rate_limiter \<Rightarrow> int" where
  "actor_limit rl = rl_actor_rpm rl + rl_actor_burst rl"

definition global_limit :: "rate_limiter \<Rightarrow> int" where
  "global_limit rl = rl_global_rpm rl + rl_global_burst rl"

lemma allow_fst:
  "fst (allow q rl) =
     (if int (length (prune (bucket_of (fst q) rl) (snd q))) \<ge> actor_limit rl
      then Inl (permission_error ''RATE_LIMIT_EXCEEDED: actor quota exceeded'')
      else if int (length (prune (rl_global_events rl) (snd q))) \<ge> global_limit rl
      then Inl (permission_error ''RATE_LIMIT_EXCEEDED: global quota exceeded'')
      else Inr ())"
  by (simp add: allow_def Let_def actor_limit_def global_limit_def)

lemma allow_bucket:
  "bucket_of a (snd (allow q rl)) =
     (if a \<noteq> fst q then bucket_of a rl
      else prune (bucket_of a rl) (snd q) @ (if is_ok (fst (allow q rl)) then [snd q] else []))"
  by (simp add: allow_def Let_def bucket_of_def dict_get_def)

lemma allow_global:
  "rl_global_events (snd (allow q rl)) =
     prune (rl_global_events rl) (snd q) @ (if is_ok (fst (allow q rl)) then [snd q] else [])"
  by (simp add: allow_def Let_def)

lemma allow_limits [simp]:
  "actor_limit (snd (allow q rl)) = actor_limit rl" "global_limit (snd (allow q rl)) = global_limit rl"
  by (simp_all add: allow_def Let_def actor_limit_def global_limit_def)

lemma length_popleft_while: "length (popleft_while c b) \<le> length b"
  by (induction b) auto

lemma length_prune: "length (prune b now) \<le> length b"
  by (simp add: prune_def length_popleft_while)

lemma prune_sorted: "sorted b \<Longrightarrow> prune b now = filter (\<lambda>u. now - 60 \<le> u) b"
proof -
  have "sorted b \<Longrightarrow> popleft_while c b = filter (\<lambda>u. c \<le> u) b" for c
  proof (induction b)
    case (Cons t b)
    then show ?case by (auto simp: filter_id_conv intro!: filter_True [symmetric])
  qed simp
  then show "sorted b \<Longrightarrow> ?thesis" by (simp add: prune_def)
qed

section \<open>The quotas as admission control\<close>

interpretation actor_quota: admission_control allow "\<lambda>a rl. length (bucket_of a rl)"
  "\<lambda>a. actor_limit" "\<lambda>_. True"
proof unfold_locales
  fix q :: rate_call and k :: string and s :: rate_limiter
  assume "int (length (bucket_of k s)) \<le> max 0 (actor_limit s)"
  moreover have "length (prune (bucket_of k s) (snd q)) \<le> length (bucket_of k s)"
    by (rule length_prune)
  ultimately show "int (length (bucket_of k (snd (allow q s)))) \<le> max 0 (actor_limit s)"
    by (auto simp: allow_bucket allow_fst split: if_splits)
qed (auto simp: allow_fst split: if_splits)

interpretation global_quota: admission_control allow "\<lambda>(_ :: unit) rl. length (rl_global_events rl)"
  "\<lambda>_. global_limit" "\<lambda>_. True"
proof unfold_locales
  fix q :: rate_call and s :: rate_limiter
  assume "int (length (rl_global_events s)) \<le> max 0 (global_limit s)"
  moreover have "length (prune (rl_global_events s) (snd q)) \<le> length (rl_global_events s)"
    by (rule length_prune)
  ultimately show "int (length (rl_global_events (snd (allow q s)))) \<le> max 0 (global_limit s)"
    by (auto simp: allow_global allow_fst split: if_splits)
qed (auto simp: allow_fst split: if_splits)

text \<open>
  Over any sequence of calls, at any clock readings, the deque of every actor holds at most
  \<open>actor_rpm + actor_burst\<close> entries and the global deque at most \<open>global_rpm + global_burst\<close>.
\<close>

theorem rate_buckets_bounded:
  "int (length (bucket_of a (actor_quota.admit_all qs (rate_limiter_init ar ab gr gb)))) \<le> max 0 (ar + ab)
   \<and> int (length (rl_global_events (global_quota.admit_all qs (rate_limiter_init ar ab gr gb))))
       \<le> max 0 (gr + gb)"
  using actor_quota.empty_bounded [where s = "rate_limiter_init ar ab gr gb" and k = a and qs = qs]
    global_quota.empty_bounded [where s = "rate_limiter_init ar ab gr gb" and qs = qs]
  by (simp add: rate_limiter_init_def bucket_of_def dict_get_def actor_limit_def global_limit_def)

section \<open>Refinement of the window specification\<close>

text \<open>A run of the code: the decisions, the log of admitted calls and the final state.\<close>

fun run_calls :: "rate_call list \<Rightarrow> rate_limiter \<Rightarrow> rate_call list \<times> rate_limiter" where
  "run_calls [] rl = ([], rl)"
| "run_calls (q # qs) rl =
     (let (r, rl') = allow q rl; (hist, rl'') = run_calls qs rl'
      in (if is_ok r then q # hist else hist, rl''))"

text \<open>The specification decides from the log alone.\<close>

definition recent :: "real \<Rightarrow> rate_call list \<Rightarrow> rate_call list" where
  "recent now hist = filter (\<lambda>(_, u). now - 60 \<le> u) hist"

definition spec_admits :: "int \<Rightarrow> int \<Rightarrow> rate_call \<Rightarrow> rate_call list \<Rightarrow> bool" where
  "spec_admits al gl q hist \<longleftrightarrow>
     int (length (filter (\<lambda>(a, _). a = fst q) (recent (snd q) hist))) < al
     \<and> int (length (recent (snd q) hist)) < gl"

fun spec_run :: "int \<Rightarrow> int \<Rightarrow> rate_call list \<Rightarrow> rate_call list \<Rightarrow> rate_call list" where
  "spec_run al gl [] hist = hist"
| "spec_run al gl (q # qs) hist =
     spec_run al gl qs (if spec_admits al gl q hist then hist @ [q] else hist)"

text \<open>The abstraction: every deque is the part of the log that some past call has kept.\<close>

definition stamps_of :: "string \<Rightarrow> rate_call list \<Rightarrow> real list" where
  "stamps_of a hist = map snd (filter (\<lambda>(b, _). b = a) hist)"

definition kept :: "real \<Rightarrow> real list \<Rightarrow> real list \<Rightarrow> bool" where
  "kept now b xs \<longleftrightarrow> (\<exists>c \<le> now - 60. b = filter (\<lambda>u. c \<le> u) xs)"

definition window_rel :: "real \<Rightarrow> rate_limiter \<Rightarrow> rate_call list \<Rightarrow> bool" where
  "window_rel now rl hist \<longleftrightarrow> sorted (map snd hist) \<and> (\<forall>u \<in> set (map snd hist). u \<le> now)
     \<and> (\<forall>a. kept now (bucket_of a rl) (stamps_of a hist))
     \<and> kept now (rl_global_events rl) (map snd hist)"

lemma sorted_stamps: "sorted (map snd hist) \<Longrightarrow> sorted (stamps_of a hist)"
  unfolding stamps_of_def by (induction hist) (auto simp: sorted_wrt_map)

lemma kept_prune:
  assumes "kept now b xs" "now \<le> now'" "sorted xs"
  shows "prune b now' = filter (\<lambda>u. now' - 60 \<le> u) xs"
proof -
  obtain c where c: "c \<le> now - 60" "b = filter (\<lambda>u. c \<le> u) xs"
    using assms(1) by (auto simp: kept_def)
  then have "sorted b" using assms(3) by (simp add: sorted_wrt_filter)
  then have "prune b now' = filter (\<lambda>u. now' - 60 \<le> u) (filter (\<lambda>u. c \<le> u) xs)"
    by (simp add: prune_sorted c(2))
  also have "\<dots> = filter (\<lambda>u. now' - 60 \<le> u) xs"
    using c(1) assms(2) by (auto simp: filter_filter intro!: filter_cong)
  finally show ?thesis .
qed

lemma length_stamps_filter:
  "length (filter (\<lambda>u. now - 60 \<le> u) (stamps_of a hist)) = length (filter (\<lambda>(b, _). b = a) (recent now hist))"
  by (induction hist) (auto simp: stamps_of_def recent_def)

lemma length_snd_filter:
  "length (filter (\<lambda>u. now - 60 \<le> u) (map snd hist)) = length (recent now hist)"
  by (induction hist) (auto simp: recent_def)

lemma kept_mono: "kept now b xs \<Longrightarrow> now \<le> now' \<Longrightarrow> kept now' b xs"
  unfolding kept_def by (elim exE conjE) (rule exI, rule conjI, erule order_trans, simp_all)

lemma kept_filter: "kept now (filter (\<lambda>u. now - 60 \<le> u) xs) xs"
  unfolding kept_def by (rule exI [of _ "now - 60"]) (rule conjI [OF order_refl refl])

lemma window_step:
  assumes rel: "window_rel now rl hist" and le: "now \<le> snd q"
  shows "is_ok (fst (allow q rl)) = spec_admits (actor_limit rl) (global_limit rl) q hist"
    and "window_rel (snd q) (snd (allow q rl))
           (if spec_admits (actor_limit rl) (global_limit rl) q hist then hist @ [q] else hist)"
proof -
  obtain a t where q: "q = (a, t)" by force
  have s: "sorted (map snd hist)" "sorted (stamps_of a hist)" "\<forall>u \<in> set (map snd hist). u \<le> t"
    using rel le sorted_stamps by (auto simp: window_rel_def q)
  have pa: "prune (bucket_of a rl) t = filter (\<lambda>u. t - 60 \<le> u) (stamps_of a hist)"
    using rel le s by (intro kept_prune [of now]) (auto simp: window_rel_def q)
  have pg: "prune (rl_global_events rl) t = filter (\<lambda>u. t - 60 \<le> u) (map snd hist)"
    using rel le s by (intro kept_prune [of now]) (auto simp: window_rel_def q)
  have la: "length (prune (bucket_of a rl) t) = length (filter (\<lambda>(b, _). b = a) (recent t hist))"
    unfolding pa by (rule length_stamps_filter)
  have lg: "length (prune (rl_global_events rl) t) = length (recent t hist)"
    unfolding pg by (rule length_snd_filter)
  show dec: "is_ok (fst (allow q rl)) = spec_admits (actor_limit rl) (global_limit rl) q hist"
    by (simp add: allow_fst spec_admits_def q la lg not_le)
  let ?hist' = "if spec_admits (actor_limit rl) (global_limit rl) q hist then hist @ [q] else hist"
  have other: "kept t (bucket_of b (snd (allow q rl))) (stamps_of b ?hist')" if "b \<noteq> a" for b
  proof -
    have "stamps_of b ?hist' = stamps_of b hist" using that by (simp add: stamps_of_def q)
    moreover have "kept t (bucket_of b rl) (stamps_of b hist)"
      by (rule kept_mono [of now]) (use rel le in \<open>simp_all add: window_rel_def q\<close>)
    ultimately show ?thesis using that by (simp add: allow_bucket q)
  qed
  have st: "stamps_of a ?hist' = stamps_of a hist @ (if is_ok (fst (allow q rl)) then [t] else [])"
    unfolding dec by (simp add: stamps_of_def q)
  have same: "bucket_of a (snd (allow q rl)) = filter (\<lambda>u. t - 60 \<le> u) (stamps_of a ?hist')"
    unfolding st filter_append allow_bucket by (simp add: q pa)
  have gl: "map snd ?hist' = map snd hist @ (if is_ok (fst (allow q rl)) then [t] else [])"
    unfolding dec by (simp add: q)
  have glob: "rl_global_events (snd (allow q rl)) = filter (\<lambda>u. t - 60 \<le> u) (map snd ?hist')"
    unfolding gl filter_append allow_global by (simp add: q pg)
  have buckets: "kept t (bucket_of b (snd (allow q rl))) (stamps_of b ?hist')" for b
  proof (cases "b = a")
    case True
    show ?thesis unfolding True same by (rule kept_filter)
  qed (rule other)
  have "kept t (rl_global_events (snd (allow q rl))) (map snd ?hist')"
    unfolding glob by (rule kept_filter)
  moreover have "sorted (map snd ?hist')" "\<forall>u \<in> set (map snd ?hist'). u \<le> t"
    using s by (simp_all add: q sorted_append)
  ultimately show "window_rel (snd q) (snd (allow q rl)) ?hist'"
    using buckets unfolding window_rel_def q snd_conv by blast
qed

lemma window_run:
  assumes "window_rel now rl hist" "sorted (now # map snd qs)"
  shows "hist @ fst (run_calls qs rl) = spec_run (actor_limit rl) (global_limit rl) qs hist"
  using assms
proof (induction qs arbitrary: now rl hist)
  case (Cons q qs)
  have le: "now \<le> snd q" and rest: "sorted (snd q # map snd qs)"
    using Cons.prems(2) by simp_all
  note step = window_step [OF Cons.prems(1) le]
  have "(if is_ok (fst (allow q rl)) then hist @ [q] else hist) @ fst (run_calls qs (snd (allow q rl)))
      = spec_run (actor_limit rl) (global_limit rl) (q # qs) hist"
    using Cons.IH [OF step(2) rest] step(1) by simp
  then show ?case by (auto simp: Let_def split_beta)
qed simp

lemma window_rel_init: "window_rel now (rate_limiter_init ar ab gr gb) []"
  by (auto simp: window_rel_def kept_def rate_limiter_init_def bucket_of_def dict_get_def
      stamps_of_def intro: exI [of _ "now - 60"])

lemma run_calls_spec:
  assumes "sorted (map snd qs)"
  shows "fst (run_calls qs (rate_limiter_init ar ab gr gb)) = spec_run (ar + ab) (gr + gb) qs []"
proof (cases qs)
  case (Cons q qs')
  have "sorted (snd q # map snd qs)" using assms Cons by auto
  from window_run [OF window_rel_init this] show ?thesis
    by (simp add: rate_limiter_init_def actor_limit_def global_limit_def)
qed simp

text \<open>
  C16: on every sequence of calls whose clock readings do not decrease, the deque implementation
  admits exactly the calls the window specification admits: those for which fewer than the
  actor's limit were admitted for that actor, and fewer than the global limit overall, in the
  60 seconds up to the call.
\<close>

theorem limiter_refines_window_spec:
  assumes "sorted (map snd qs)"
  shows "fst (run_calls qs (rate_limiter_init ar ab gr gb)) = spec_run (ar + ab) (gr + gb) qs []"
  using assms by (rule run_calls_spec)

theorem limiter_refines_window_spec_witness:
  "fst (run_calls [(''a'', 0), (''a'', 1), (''a'', 61)] (rate_limiter_init 1 0 5 0))
     = spec_run (1 + 0) (5 + 0) [(''a'', 0), (''a'', 1), (''a'', 61)] []"
  by (rule limiter_refines_window_spec) simp

section \<open>No window holds more than the limit\<close>

lemma recent_append: "recent t (xs @ ys) = recent t xs @ recent t ys"
  by (simp add: recent_def)

definition in_window :: "real \<Rightarrow> rate_call list \<Rightarrow> rate_call list" where
  "in_window x hist = filter (\<lambda>(_, u). x \<le> u \<and> u \<le> x + 60) hist"

lemma in_window_recent:
  "x \<le> t \<Longrightarrow> t \<le> x + 60 \<Longrightarrow> length (filter P (in_window x hist)) \<le> length (filter P (recent t hist))"
  by (induction hist) (auto simp: in_window_def recent_def)

lemma spec_run_snoc:
  "spec_run al gl (qs @ [q]) hist =
     (let h = spec_run al gl qs hist in if spec_admits al gl q h then h @ [q] else h)"
  by (induction qs arbitrary: hist) (simp_all add: Let_def)

lemma spec_run_window:
  "int (length (filter (\<lambda>(b, _). b = a) (in_window x (spec_run al gl qs [])))) \<le> max 0 al
   \<and> int (length (in_window x (spec_run al gl qs []))) \<le> max 0 gl"
proof (induction qs rule: rev_induct)
  case Nil
  then show ?case by (simp add: in_window_def)
next
  case (snoc q qs)
  define h where "h = spec_run al gl qs []"
  obtain b t where q: "q = (b, t)" by force
  show ?case
  proof (cases "spec_admits al gl q h \<and> x \<le> t \<and> t \<le> x + 60")
    case True
    then have w: "in_window x (h @ [(b, t)]) = in_window x h @ [(b, t)]"
      by (simp add: in_window_def)
    have "length (filter (\<lambda>(c, _). c = b) (in_window x h)) \<le> length (filter (\<lambda>(c, _). c = b) (recent t h))"
      "length (in_window x h) \<le> length (recent t h)"
      using True in_window_recent [of x t _ h] in_window_recent [of x t "\<lambda>_. True" h] by simp_all
    with True have "int (length (filter (\<lambda>(c, _). c = b) (in_window x h))) < al"
      "int (length (in_window x h)) < gl"
      by (auto simp: spec_admits_def q)
    moreover have "int (length (filter (\<lambda>(c, _). c = a) (in_window x h))) \<le> max 0 al"
      using snoc by (simp add: h_def)
    ultimately show ?thesis
      using True by (cases "a = b") (auto simp: spec_run_snoc h_def [symmetric] Let_def w q)
  next
    case False
    then have "in_window x (if spec_admits al gl q h then h @ [q] else h) = in_window x h"
      by (auto simp: in_window_def q)
    then show ?thesis using snoc by (simp add: spec_run_snoc h_def [symmetric] Let_def)
  qed
qed

text \<open>
  Whenever a window of 60 seconds starts, the limiter has admitted in it at most
  \<open>actor_rpm + actor_burst\<close> calls of any one actor and at most \<open>global_rpm + global_burst\<close> calls
  in all.
\<close>

theorem sliding_window_limit:
  assumes "sorted (map snd qs)"
  shows "int (length (filter (\<lambda>(b, _). b = a)
            (in_window x (fst (run_calls qs (rate_limiter_init ar ab gr gb)))))) \<le> max 0 (ar + ab)
         \<and> int (length (in_window x (fst (run_calls qs (rate_limiter_init ar ab gr gb))))) \<le> max 0 (gr + gb)"
  using spec_run_window [of a x "ar + ab" "gr + gb" qs] by (simp add: run_calls_spec [OF assms])

theorem sliding_window_limit_witness:
  "int (length (in_window 0 (fst (run_calls [(''a'', 0), (''b'', 1), (''a'', 61)]
     (rate_limiter_init 1 0 1 0))))) \<le> max 0 (1 + 0)"
  using sliding_window_limit [of "[(''a'', 0), (''b'', 1), (''a'', 61)]" "''a''" 0 1 0 1 0] by simp

section \<open>A refused caller recovers\<close>

lemma popleft_all: "\<forall>u \<in> set b. u < c \<Longrightarrow> popleft_while c b = []"
  by (induction b) auto

lemma set_prune: "set (prune b now) \<subseteq> set b"
proof -
  have "set (popleft_while c b) \<subseteq> set b" for c by (induction b) auto
  then show ?thesis by (simp add: prune_def)
qed

lemma run_stamps:
  "set (bucket_of a (snd (run_calls qs rl))) \<subseteq> set (bucket_of a rl) \<union> snd ` set qs
   \<and> set (rl_global_events (snd (run_calls qs rl))) \<subseteq> set (rl_global_events rl) \<union> snd ` set qs
   \<and> actor_limit (snd (run_calls qs rl)) = actor_limit rl \<and> global_limit (snd (run_calls qs rl)) = global_limit rl"
proof (induction qs arbitrary: rl)
  case (Cons q qs)
  have "set (bucket_of a (snd (allow q rl))) \<subseteq> set (bucket_of a rl) \<union> {snd q}"
    "set (rl_global_events (snd (allow q rl))) \<subseteq> set (rl_global_events rl) \<union> {snd q}"
    using set_prune by (auto simp: allow_bucket allow_global)
  with Cons.IH [of "snd (allow q rl)"] show ?case by (auto simp: Let_def split_beta)
qed simp

text \<open>
  C17: nobody is locked out for good: whatever calls were made before, admitted or refused and in
  whatever order their clock readings came, a call more than a minute after all of them is admitted,
  as soon as the quotas allow any call at all.
\<close>

theorem quota_recovers:
  assumes "\<forall>q \<in> set qs. snd q < t - 60" "0 < ar + ab" "0 < gr + gb"
  shows "fst (allow (a, t) (snd (run_calls qs (rate_limiter_init ar ab gr gb)))) = Inr ()"
proof -
  let ?rl = "snd (run_calls qs (rate_limiter_init ar ab gr gb))"
  note run = run_stamps [of a qs "rate_limiter_init ar ab gr gb"]
  have "set (bucket_of a ?rl) \<subseteq> snd ` set qs" "set (rl_global_events ?rl) \<subseteq> snd ` set qs"
    using run by (simp_all add: rate_limiter_init_def bucket_of_def dict_get_def)
  then have "prune (bucket_of a ?rl) t = []" "prune (rl_global_events ?rl) t = []"
    using assms(1) by (auto simp: prune_def intro!: popleft_all)
  moreover have "actor_limit ?rl = ar + ab" "global_limit ?rl = gr + gb"
    using run by (simp_all add: rate_limiter_init_def actor_limit_def global_limit_def)
  ultimately show ?thesis using assms(2,3) by (simp add: allow_fst)
qed

text \<open>Two calls within the quota of one, the second refused; a later third.\<close>

theorem quota_recovers_witness:
  "fst (allow (''a'', 100) (snd (run_calls [(''a'', 0), (''a'', 1)] (rate_limiter_init 1 0 5 0)))) = Inr ()"
  by (rule quota_recovers) simp_all

end
