(* ===== verification/Column_Names.thy ===== *)
theory Column_Names
  imports Py_Values
begin

text \<open>
  \<open>ConnectionManager._normalize_column_names\<close> (\<open>src/db/connection_manager.py\<close>): the keys of the
  result rows.  Unnamed columns get \<open>col_<position>\<close>, repeated names get a numeric suffix, and a
  loop moves on until the name is new.  The loop is a recursive function whose termination is
  proved; \<open>int\<close> of a suffix of superscript digits raises \<open>ValueError\<close>.
\<close>

text \<open>\<open>s.rsplit("_", 1)\<close> of a text with an underscore.\<close>

definition rsplit_us :: "string \<Rightarrow> string \<times> string" where
  "rsplit_us s =
     (let suffix = rev (takeWhile (\<lambda>c. c \<noteq> CHR ''_'') (rev s))
      in (take (length s - length suffix - 1) s, suffix))"

definition is_digit_text :: "string \<Rightarrow> bool" where
  "is_digit_text s \<longleftrightarrow> s \<noteq> [] \<and> list_all is_digit_char s"

definition bump_name :: "string \<Rightarrow> string result" where
  "bump_name normalized_name =
     (if CHR ''_'' \<in> set normalized_name then
        (let (base, suffix) = rsplit_us normalized_name in
         if is_digit_text suffix
         then (if list_all is_dec suffix
               then Inr (base @ ''_'' @ nat_str (digits_val suffix + 1))
               else Inl (value_error (''invalid literal for int() with base 10: '' @ str_repr suffix)))
         else Inr (normalized_name @ ''_1''))
      else Inr (normalized_name @ ''_1''))"

lemma rsplit_us_join: "CHR ''_'' \<notin> set x \<Longrightarrow> rsplit_us (b @ CHR ''_'' # x) = (b, x)"
  by (simp add: rsplit_us_def takeWhile_append takeWhile_eq_all_conv [THEN iffD2])

lemma underscore_split:
  assumes "CHR ''_'' \<in> set s"
  obtains b x where "s = b @ CHR ''_'' # x" "CHR ''_'' \<notin> set x"
  using assms by (metis split_list_last)

lemma dec_not_underscore: "is_dec c \<Longrightarrow> c \<noteq> CHR ''_''"
  by (auto simp: is_dec_def)

lemma nat_str_no_underscore: "CHR ''_'' \<notin> set (nat_str n)"
  using nat_str_digits dec_not_underscore by blast

lemma dec_is_digit: "is_dec c \<Longrightarrow> is_digit_char c"
  by (simp add: is_digit_char_def)

text \<open>After one step of the loop the name is a base, an underscore and a decimal numeral.\<close>

definition numbered :: "string \<Rightarrow> nat \<Rightarrow> string" where
  "numbered b n = b @ CHR ''_'' # nat_str n"

lemma numbered_inject [simp]: "(numbered b m = numbered b n) = (m = n)"
  by (simp add: numbered_def)

lemma numbered_inject2: "(numbered b m = numbered c n) = (b = c \<and> m = n)"
proof
  assume "numbered b m = numbered c n"
  then have "rsplit_us (numbered b m) = rsplit_us (numbered c n)" by simp
  then show "b = c \<and> m = n"
    by (simp add: numbered_def rsplit_us_join nat_str_no_underscore)
qed simp

lemma bump_numbered: "bump_name (numbered b n) = Inr (numbered b (Suc n))"
  using nat_str_digits [of n] dec_is_digit
  by (simp add: bump_name_def numbered_def rsplit_us_join nat_str_no_underscore is_digit_text_def list_all_iff)

lemma nat_str_1: "nat_str 1 = ''1''"
  by code_simp

lemma bump_is_numbered:
  assumes "bump_name s = Inr t"
  shows "\<exists>b n. t = numbered b n"
proof (cases "CHR ''_'' \<in> set s \<and> is_digit_text (snd (rsplit_us s))")
  case True
  with assms show ?thesis
    by (auto simp: bump_name_def numbered_def split_beta split: if_splits)
next
  case False
  with assms have "t = numbered s 1"
    by (auto simp: bump_name_def numbered_def nat_str_1 [unfolded One_nat_def] split_beta split: if_splits)
  then show ?thesis by blast
qed

text \<open>The rank decreases in every step of the loop.\<close>

definition name_rank :: "string list \<Rightarrow> string \<Rightarrow> nat" where
  "name_rank final s =
     (if \<exists>b n. s = numbered b n
      then card {t \<in> set final. \<exists>b n m. s = numbered b n \<and> n \<le> m \<and> t = numbered b m}
      else Suc (card (set final)))"

lemma name_rank_numbered:
  "name_rank final (numbered b n) = card {t \<in> set final. \<exists>m \<ge> n. t = numbered b m}"
  unfolding name_rank_def by (auto simp: numbered_inject2 intro!: arg_cong [where f = card])

lemma name_rank_step:
  assumes "s \<in> set final" "bump_name s = Inr t"
  shows "name_rank final t < name_rank final s"
proof (cases "\<exists>b n. s = numbered b n")
  case True
  then obtain b n where s: "s = numbered b n" by blast
  then have t: "t = numbered b (Suc n)" using assms(2) by (simp add: bump_numbered)
  have "{u \<in> set final. \<exists>m \<ge> Suc n. u = numbered b m} \<subset> {u \<in> set final. \<exists>m \<ge> n. u = numbered b m}"
  proof
    show "{u \<in> set final. \<exists>m \<ge> Suc n. u = numbered b m} \<subseteq> {u \<in> set final. \<exists>m \<ge> n. u = numbered b m}"
      using Suc_leD by blast
    have "numbered b n \<in> {u \<in> set final. \<exists>m \<ge> n. u = numbered b m}" using assms(1) s by blast
    moreover have "numbered b n \<notin> {u \<in> set final. \<exists>m \<ge> Suc n. u = numbered b m}" by auto
    ultimately show "{u \<in> set final. \<exists>m \<ge> Suc n. u = numbered b m}
        \<noteq> {u \<in> set final. \<exists>m \<ge> n. u = numbered b m}" by blast
  qed
  then show ?thesis unfolding s t name_rank_numbered by (intro psubset_card_mono) auto
next
  case False
  obtain b n where t: "t = numbered b n" using bump_is_numbered [OF assms(2)] by blast
  have "card {u \<in> set final. \<exists>m \<ge> n. u = numbered b m} \<le> card (set final)"
    by (rule card_mono) auto
  then show ?thesis using False unfolding t name_rank_numbered by (simp add: name_rank_def)
qed

function uniquify :: "string list \<Rightarrow> string \<Rightarrow> string result" where
  "uniquify final_names normalized_name =
     (if normalized_name \<in> set final_names
      then (case bump_name normalized_name of
              Inl e \<Rightarrow> Inl e
            | Inr next_name \<Rightarrow> uniquify final_names next_name)
      else Inr normalized_name)"
  by pat_completeness auto
termination
  by (relation "measure (\<lambda>(final, s). name_rank final s)") (auto intro: name_rank_step)

declare uniquify.simps [simp del]

definition column_base_name :: "nat \<Rightarrow> pyval \<Rightarrow> string" where
  "column_base_name idx value =
     (let name = (if value \<noteq> VNone then py_strip (py_str value) else [])
      in if name = [] then ''col_'' @ nat_str idx else name)"

fun normalize_loop ::
  "nat \<Rightarrow> pyval list \<Rightarrow> nat dict \<Rightarrow> string list \<Rightarrow> string list result" where
  "normalize_loop idx [] seen final_names = Inr []"
| "normalize_loop idx (value # raw_columns) seen final_names =
     (let name = column_base_name idx value;
          seen1 = dict_set name (dict_get seen name 0 + 1) seen;
          count = dict_get seen1 name 0;
          normalized_name = (if count > 1 then name @ ''_'' @ nat_str count else name)
      in bind_res (uniquify final_names normalized_name) (\<lambda>nm.
           bind_res (normalize_loop (Suc idx) raw_columns seen1 (nm # final_names)) (\<lambda>nms.
             Inr (nm # nms))))"

definition normalize_column_names :: "pyval list \<Rightarrow> string list result" where
  "normalize_column_names raw_columns = normalize_loop 1 raw_columns [] []"

text \<open>\<open>dict(zip(columns, row, strict=False))\<close>\<close>

definition row_dict :: "string list \<Rightarrow> pyval list \<Rightarrow> row" where
  "row_dict columns values = foldl (\<lambda>d (k, v). dict_set k v d) [] (zip columns values)"

section \<open>Properties\<close>

lemma uniquify_fresh: "uniquify final s = Inr t \<Longrightarrow> t \<notin> set final"
proof (induction final s rule: uniquify.induct)
  case (1 final s)
  then show ?case
    by (subst (asm) uniquify.simps) (auto split: if_splits sum.splits)
qed

lemma bump_not_Nil: "bump_name s = Inr t \<Longrightarrow> t \<noteq> []"
  using bump_is_numbered by (fastforce simp: numbered_def)

lemma uniquify_not_Nil: "uniquify final s = Inr t \<Longrightarrow> s \<noteq> [] \<Longrightarrow> t \<noteq> []"
proof (induction final s rule: uniquify.induct)
  case (1 final s)
  show ?case
  proof (cases "s \<in> set final")
    case True
    with "1.prems" obtain u where u: "bump_name s = Inr u" "uniquify final u = Inr t"
      by (subst (asm) uniquify.simps) (auto split: sum.splits)
    show ?thesis by (rule "1.IH" [OF True u(1) u(2)]) (rule bump_not_Nil [OF u(1)])
  next
    case False
    with "1.prems" show ?thesis by (subst (asm) uniquify.simps) simp
  qed
qed

lemma uniquify_new [simp]: "s \<notin> set final \<Longrightarrow> uniquify final s = Inr s"
  by (simp add: uniquify.simps)

lemma column_base_name_not_Nil [simp]: "column_base_name idx v \<noteq> []"
  by (simp add: column_base_name_def Let_def)

lemma normalize_loop_spec:
  "normalize_loop idx raw seen final = Inr names \<Longrightarrow>
   length names = length raw \<and> distinct names \<and> set names \<inter> set final = {} \<and> [] \<notin> set names"
proof (induction raw arbitrary: idx seen final names)
  case (Cons v raw)
  then obtain s nm nms seen1 where
    u: "uniquify final s = Inr nm" "s \<noteq> []" and
    l: "normalize_loop (Suc idx) raw seen1 (nm # final) = Inr nms" and n: "names = nm # nms"
    by (auto simp: Let_def bind_res_Inr split: if_splits)
  have "nm \<noteq> []" by (rule uniquify_not_Nil [OF u])
  with Cons.IH [OF l] uniquify_fresh [OF u(1)] n show ?case by auto
qed simp

lemma row_dict_distinct:
  assumes "distinct columns"
  shows "row_dict columns values = zip columns values"
proof -
  have update_new: "k \<notin> fst ` set d \<Longrightarrow> dict_set k v d = d @ [(k, v)]" for k v and d :: row
    by (induction d) auto
  have "distinct (map fst (d @ kvs)) \<Longrightarrow> foldl (\<lambda>d (k, v). dict_set k v d) d kvs = d @ kvs"
    for d kvs :: row
    by (induction kvs arbitrary: d) (auto simp: update_new)
  from this [of "[]" "zip columns values"] show ?thesis
    using assms by (simp add: row_dict_def map_fst_zip_take)
qed

text \<open>
  C37: the normalised names are as many as the columns, pairwise distinct and never empty; so the
  dictionary built from a row of values keeps every value, in column order.
\<close>

theorem column_names_unique:
  assumes "normalize_column_names raw = Inr names"
  shows "length names = length raw \<and> distinct names \<and> [] \<notin> set names
         \<and> row_dict names values = zip names values"
  using normalize_loop_spec [OF assms [unfolded normalize_column_names_def]]
  by (simp add: row_dict_distinct)

theorem column_names_unique_witness:
  "distinct [''a'', ''col_2'', ''a_2'', ''a_3'']"
proof -
  have h: "normalize_column_names [VStr ''a'', VNone, VStr '' a'', VStr ''a_2'']
      = Inr [''a'', ''col_2'', ''a_2'', ''a_3'']"
    by code_simp
  show ?thesis using column_names_unique [OF h, of "[]"] by simp
qed

end
