(* ===== verification/Query_Execution.thy ===== *)
theory Query_Execution
  imports Config_Models Column_Names Input_Validation
begin

text \<open>
  The statements \<open>ConnectionManager\<close> (\<open>src/db/connection_manager.py\<close>) sends: the connection
  string, the retry of reads, and the operations the tools call.

  The driver and the server are a parameter \<open>db\<close>: the answer to an event as a function of all
  events before it.  An operation takes the history and returns the history it leaves with its
  result or exception, so what was sent, in which order and on which connection string can be
  stated.  \<open>DbConnect\<close> stands for \<open>_acquire_connection\<close> (a new or a pooled connection, and the
  \<open>SELECT 1\<close> probes of the pool); closing a connection is no event.  Latencies are not part of the
  results.
\<close>

section \<open>Events\<close>

datatype db_event =
    DbConnect string
  | DbExec string string "pyval list"
  | DbCommit string
  | DbRollback string

record cursor =
  cur_description :: "pyval list"
  cur_rows :: "pyval list list"
  cur_rowcount :: int

type_synonym history = "db_event list"
type_synonym database = "history \<Rightarrow> db_event \<Rightarrow> cursor result"
type_synonym 'a db_op = "history \<Rightarrow> history \<times> 'a result"

definition db_do :: "database \<Rightarrow> db_event \<Rightarrow> cursor db_op" where
  "db_do db ev h = (h @ [ev], db h ev)"

definition db_return :: "'a result \<Rightarrow> 'a db_op" where
  "db_return r h = (h, r)"

definition db_bind :: "'a db_op \<Rightarrow> ('a \<Rightarrow> 'b db_op) \<Rightarrow> 'b db_op" where
  "db_bind m f h = (case m h of (h', Inl e) \<Rightarrow> (h', Inl e) | (h', Inr x) \<Rightarrow> f x h')"

section \<open>Instances and connection strings\<close>

record connection_manager =
  cm_instances :: "sql_instance_config dict"
  cm_secret_resolver :: "string \<Rightarrow> row result"
  cm_odbc_driver :: string

definition connection_manager_init ::
  "sql_instance_config list \<Rightarrow> (string \<Rightarrow> row result) \<Rightarrow> string \<Rightarrow> connection_manager" where
  "connection_manager_init instances secret_resolver odbc_driver =
     \<lparr>cm_instances = foldl (\<lambda>d item. if inst_enabled item then dict_set (inst_id item) item d else d)
        [] instances,
      cm_secret_resolver = secret_resolver, cm_odbc_driver = odbc_driver\<rparr>"

definition list_enabled_instances :: "connection_manager \<Rightarrow> string list" where
  "list_enabled_instances cm = map fst (cm_instances cm)"

definition key_error :: "string \<Rightarrow> pyexc" where
  "key_error k = \<lparr>exc_kind = KeyErr, exc_name = ''KeyError'', exc_args = [VStr k], exc_text = str_repr k\<rparr>"

definition connection_string ::
  "connection_manager \<Rightarrow> sql_instance_config \<Rightarrow> string option \<Rightarrow> string result" where
  "connection_string cm inst database_override =
     bind_res (cm_secret_resolver cm (auth_secret_ref inst)) (\<lambda>creds.
       let user = row_get creds ''username'';
           password = row_get creds ''password'';
           database_name = (case database_override of
               Some d \<Rightarrow> if d \<noteq> [] then d else inst_database inst
             | None \<Rightarrow> inst_database inst)
       in Inr (''DRIVER={'' @ cm_odbc_driver cm @ ''};'' @
            ''SERVER='' @ inst_host inst @ '','' @ int_str (inst_port inst) @ '';'' @
            ''DATABASE='' @ database_name @ '';'' @
            ''UID='' @ py_str user @ '';PWD={'' @ py_str password @ ''};'' @
            ''Encrypt=no;TrustServerCertificate=yes;''))"

section \<open>Connections and retries\<close>

text \<open>\<open>with self.connect(instance_id, database_override=...) as conn: body\<close>\<close>

definition with_connection ::
  "connection_manager \<Rightarrow> database \<Rightarrow> string \<Rightarrow> string option \<Rightarrow> (string \<Rightarrow> 'a db_op) \<Rightarrow> 'a db_op" where
  "with_connection cm db instance_id database_override body h =
     (case map_of (cm_instances cm) instance_id of
        None \<Rightarrow> (h, Inl (key_error instance_id))
      | Some inst \<Rightarrow>
          (case connection_string cm inst database_override of
             Inl e \<Rightarrow> (h, Inl e)
           | Inr conn \<Rightarrow>
               (case db_do db (DbConnect conn) h of
                  (h1, Inl e) \<Rightarrow> (h1, Inl e)
                | (h1, Inr _) \<Rightarrow>
                    (case body conn h1 of
                       (h2, Inl e) \<Rightarrow> (fst (db_do db (DbRollback conn) h2), Inl e)
                     | (h2, Inr x) \<Rightarrow> (h2, Inr x)))))"

definition is_transient_read_error :: "pyexc \<Rightarrow> bool" where
  "is_transient_read_error exc =
     (let args = exc_args exc;
          sqlstate = (if args \<noteq> [] then py_upper (py_strip (py_str (hd args))) else []);
          message = (if args \<noteq> [] then py_lower (join_with '' '' (map py_str args))
                     else py_lower (exc_text exc))
      in sqlstate \<in> set [''08S01'', ''08001'', ''HYT00'', ''HYT01'']
         \<or> sublist ''tcp provider'' message \<or> sublist ''communication link failure'' message)"

definition read_retry_attempts :: nat where "read_retry_attempts = 2"

fun read_attempts :: "nat \<Rightarrow> 'a db_op \<Rightarrow> 'a db_op" where
  "read_attempts 0 op h = (h, Inl (runtime_error ''Read operation failed unexpectedly''))"
| "read_attempts (Suc remaining) op h =
     (case op h of
        (h', Inr x) \<Rightarrow> (h', Inr x)
      | (h', Inl exc) \<Rightarrow>
          if 0 < remaining \<and> is_transient_read_error exc then read_attempts remaining op h'
          else (h', Inl exc))"

definition run_read_operation ::
  "connection_manager \<Rightarrow> database \<Rightarrow> string \<Rightarrow> (string \<Rightarrow> 'a db_op) \<Rightarrow> string option \<Rightarrow> 'a db_op" where
  "run_read_operation cm db instance_id operation database_override =
     read_attempts read_retry_attempts
       (with_connection cm db instance_id database_override operation)"

section \<open>Operations\<close>

text \<open>\<open>cur.fetchmany(max_rows)\<close>: no row for a count that is not positive.\<close>

definition fetch_table :: "(pyval list list \<Rightarrow> pyval list list) \<Rightarrow> cursor \<Rightarrow> (string list \<times> row list) result" where
  "fetch_table fetch cur =
     bind_res (normalize_column_names (cur_description cur)) (\<lambda>columns.
       Inr (columns, map (row_dict columns) (fetch (cur_rows cur))))"

definition fetch_many :: "int \<Rightarrow> cursor \<Rightarrow> (string list \<times> row list) result" where
  "fetch_many max_rows = fetch_table (take (nat max_rows))"

definition execute_read ::
  "connection_manager \<Rightarrow> database \<Rightarrow> string \<Rightarrow> string \<Rightarrow> int \<Rightarrow> row list db_op" where
  "execute_read cm db instance_id sql max_rows =
     run_read_operation cm db instance_id
       (\<lambda>conn. db_bind (db_do db (DbExec conn sql [])) (\<lambda>cur.
          db_bind (db_return (fetch_many max_rows cur)) (\<lambda>(_, rows). db_return (Inr rows))))
       None"

record catalog_result =
  cat_columns :: "string list"
  cat_rows :: "row list"
  cat_row_count :: nat

definition execute_read_in_database ::
  "connection_manager \<Rightarrow> database \<Rightarrow> string \<Rightarrow> string \<Rightarrow> string \<Rightarrow> int \<Rightarrow> (string list \<times> row list) db_op" where
  "execute_read_in_database cm db instance_id database_name sql max_rows =
     run_read_operation cm db instance_id
       (\<lambda>conn. db_bind (db_do db (DbExec conn sql [])) (\<lambda>cur. db_return (fetch_many max_rows cur)))
       (Some database_name)"

definition execute_catalog_query ::
  "connection_manager \<Rightarrow> database \<Rightarrow> string \<Rightarrow> string \<Rightarrow> string \<Rightarrow> int \<Rightarrow> catalog_result db_op" where
  "execute_catalog_query cm db instance_id database_name sql max_rows =
     db_bind (execute_read_in_database cm db instance_id database_name sql max_rows)
       (\<lambda>(columns, rows). db_return (Inr
          \<lparr>cat_columns = columns, cat_rows = rows, cat_row_count = length rows\<rparr>))"

definition fetch_single_row_in_database ::
  "connection_manager \<Rightarrow> database \<Rightarrow> string \<Rightarrow> string \<Rightarrow> string \<Rightarrow> row db_op" where
  "fetch_single_row_in_database cm db instance_id database_name sql =
     run_read_operation cm db instance_id
       (\<lambda>conn. db_bind (db_do db (DbExec conn sql [])) (\<lambda>cur.
          db_bind (db_return (fetch_table (take 1) cur)) (\<lambda>(_, rows).
            db_return (Inr (case rows of [] \<Rightarrow> [] | r # _ \<Rightarrow> r)))))
       (Some database_name)"

definition object_type_map :: "string dict" where
  "object_type_map = [(''table'', ''U''), (''view'', ''V''), (''procedure'', ''P''),
     (''function'', ''FN''), (''synonym'', ''SN'')]"

definition list_objects_sql :: "int \<Rightarrow> string" where
  "list_objects_sql max_rows =
     ''SELECT TOP '' @ int_str max_rows @ '' o.name AS object_name, s.name AS schema_name, o.type_desc AS object_type, '' @
     ''DB_NAME() AS owning_database '' @
     ''FROM sys.objects o '' @
     ''JOIN sys.schemas s ON s.schema_id = o.schema_id '' @
     ''WHERE o.type = ? '' @
     ''ORDER BY s.name, o.name''"

definition list_objects ::
  "connection_manager \<Rightarrow> database \<Rightarrow> string \<Rightarrow> string \<Rightarrow> string \<Rightarrow> int \<Rightarrow> row list db_op" where
  "list_objects cm db instance_id database_name object_type max_rows =
     (case map_of object_type_map (py_strip (py_lower object_type)) of
        None \<Rightarrow> db_return (Inl (value_error
          ''INVALID_INPUT: object_type must be one of table, view, procedure, function, synonym''))
      | Some code \<Rightarrow>
          run_read_operation cm db instance_id
            (\<lambda>conn. db_bind (db_do db (DbExec conn (list_objects_sql max_rows) [VStr code])) (\<lambda>cur.
               db_bind (db_return (fetch_table id cur)) (\<lambda>(_, rows). db_return (Inr rows))))
            (Some database_name))"

text \<open>
  \<open>explain_query\<close>: \<open>SHOWPLAN_ALL\<close> is switched off in a \<open>finally\<close> block, whose own exception
  replaces the pending one.  The result has the accessed objects and the costs that are summed
  (values \<open>float\<close> accepts); the floating-point sum itself is not computed.
\<close>

record plan_summary =
  plan_cost_items :: "pyval list"
  plan_accessed_objects :: "string list"

definition float_ok :: "(string \<Rightarrow> bool) \<Rightarrow> pyval \<Rightarrow> bool" where
  "float_ok float_text v = (case v of VBool _ \<Rightarrow> True | VInt _ \<Rightarrow> True | VFloat _ _ \<Rightarrow> True
     | VStr s \<Rightarrow> float_text s | _ \<Rightarrow> False)"

definition showplan_op :: "database \<Rightarrow> string \<Rightarrow> string \<Rightarrow> (string list \<times> row list) db_op" where
  "showplan_op db sql conn =
     db_bind (db_do db (DbExec conn ''SET SHOWPLAN_ALL ON'' [])) (\<lambda>_ h.
       (case db_bind (db_do db (DbExec conn sql [])) (\<lambda>cur. db_return (fetch_table id cur)) h of
          (h1, r) \<Rightarrow>
            (case db_do db (DbExec conn ''SET SHOWPLAN_ALL OFF'' []) h1 of
               (h2, Inl e) \<Rightarrow> (h2, Inl e)
             | (h2, Inr _) \<Rightarrow> (h2, r))))"

definition explain_query ::
  "(string \<Rightarrow> bool) \<Rightarrow> connection_manager \<Rightarrow> database \<Rightarrow> string \<Rightarrow> string \<Rightarrow> string \<Rightarrow> plan_summary db_op" where
  "explain_query float_text cm db instance_id database_name sql =
     db_bind (run_read_operation cm db instance_id (showplan_op db sql) (Some database_name))
       (\<lambda>(columns, row_dicts).
          let objects = filter truthy (map (\<lambda>item. row_get item ''Object'') row_dicts);
              costs = filter (float_ok float_text) (map (\<lambda>item. row_get item ''TotalSubtreeCost'') row_dicts)
          in db_return (Inr \<lparr>plan_cost_items = costs,
               plan_accessed_objects = sort (remdups (map py_str objects))\<rparr>))"

record proc_result =
  proc_procedure :: string
  proc_rowcount :: int
  proc_has_result_set :: bool
  proc_columns :: "string list"
  proc_rows :: "row list"

definition proc_statement :: "string \<Rightarrow> pyval list \<Rightarrow> string" where
  "proc_statement proc_name params =
     (let placeholders = join_with '', '' (replicate (length params) ''?'')
      in py_strip (''EXEC '' @ proc_name @ '' '' @ placeholders))"

definition execute_proc ::
  "connection_manager \<Rightarrow> database \<Rightarrow> string \<Rightarrow> string \<Rightarrow> pyval list \<Rightarrow> string option \<Rightarrow> proc_result db_op" where
  "execute_proc cm db instance_id proc_name params database_override =
     with_connection cm db instance_id database_override (\<lambda>conn.
       db_bind (db_do db (DbExec conn (proc_statement proc_name params) params)) (\<lambda>cur.
         let has_result_set = cur_description cur \<noteq> [] in
         db_bind (db_return (if has_result_set then fetch_table id cur else Inr ([], []))) (\<lambda>(columns, rows).
           db_bind (db_do db (DbCommit conn)) (\<lambda>_.
             db_return (Inr \<lparr>proc_procedure = proc_name, proc_rowcount = cur_rowcount cur,
               proc_has_result_set = has_result_set, proc_columns = columns, proc_rows = rows\<rparr>)))))"

section \<open>What the operations send\<close>

text \<open>\<open>sends op B\<close>: every run appends events that satisfy \<open>B\<close> with the outcome.\<close>

definition sends :: "'a db_op \<Rightarrow> (db_event list \<Rightarrow> 'a result \<Rightarrow> bool) \<Rightarrow> bool" where
  "sends op B \<longleftrightarrow> (\<forall>h h' r. op h = (h', r) \<longrightarrow> (\<exists>evs. h' = h @ evs \<and> B evs r))"

lemma sendsD: "sends op B \<Longrightarrow> op h = (h', r) \<Longrightarrow> \<exists>evs. h' = h @ evs \<and> B evs r"
  by (auto simp: sends_def)

lemma sends_mono: "sends op B \<Longrightarrow> (\<And>evs r. B evs r \<Longrightarrow> C evs r) \<Longrightarrow> sends op C"
  unfolding sends_def by blast

lemma sends_return [simp]: "sends (db_return r) (\<lambda>evs r'. evs = [] \<and> r' = r)"
  by (simp add: sends_def db_return_def)

lemma sends_do [simp]: "sends (db_do db ev) (\<lambda>evs r. evs = [ev])"
  by (simp add: sends_def db_do_def)

lemma sends_bind:
  assumes "sends m B" "\<And>x. sends (f x) (C x)"
  shows "sends (db_bind m f) (\<lambda>evs r. (\<exists>e. r = Inl e \<and> B evs (Inl e))
     \<or> (\<exists>es x cs. evs = es @ cs \<and> B es (Inr x) \<and> C x cs r))"
  unfolding sends_def
proof (intro allI impI)
  fix h h' r assume h: "db_bind m f h = (h', r)"
  obtain h1 r1 where m: "m h = (h1, r1)" by force
  then obtain es where es: "h1 = h @ es" "B es r1" using sendsD [OF assms(1)] by blast
  show "\<exists>evs. h' = h @ evs \<and> ((\<exists>e. r = Inl e \<and> B evs (Inl e))
      \<or> (\<exists>es x cs. evs = es @ cs \<and> B es (Inr x) \<and> C x cs r))"
  proof (cases r1)
    case (Inl e)
    with h m es show ?thesis by (auto simp: db_bind_def)
  next
    case (Inr x)
    with h m have "f x h1 = (h', r)" by (simp add: db_bind_def)
    then obtain cs where "h' = h1 @ cs" "C x cs r" using sendsD [OF assms(2)] by blast
    with es Inr have "h' = h @ (es @ cs) \<and> (\<exists>e y d. es @ cs = e @ d \<and> B e (Inr y) \<and> C y d r)" by auto
    then show ?thesis by blast
  qed
qed

text \<open>The events of one connection: a failed body is rolled back.\<close>

definition session ::
  "(string \<Rightarrow> db_event list \<Rightarrow> 'a result \<Rightarrow> bool) \<Rightarrow> db_event list \<Rightarrow> 'a result \<Rightarrow> bool" where
  "session B evs r \<longleftrightarrow>
     (evs = [] \<or> (\<exists>conn. evs = [DbConnect conn])) \<and> \<not> is_ok r
     \<or> (\<exists>conn bs. B conn bs r \<and> evs = DbConnect conn # bs @ (if is_ok r then [] else [DbRollback conn]))"

lemma sends_connection:
  assumes "\<And>conn. sends (body conn) (B conn)"
  shows "sends (with_connection cm db iid ov body) (session B)"
  unfolding sends_def
proof (intro allI impI)
  fix h h' r assume run: "with_connection cm db iid ov body h = (h', r)"
  show "\<exists>evs. h' = h @ evs \<and> session B evs r"
  proof (cases "map_of (cm_instances cm) iid")
    case None
    with run show ?thesis by (auto simp: with_connection_def session_def)
  next
    case inst: (Some inst)
    show ?thesis
    proof (cases "connection_string cm inst ov")
      case (Inl e)
      with run inst show ?thesis by (auto simp: with_connection_def session_def)
    next
      case conn: (Inr conn)
      show ?thesis
      proof (cases "db h (DbConnect conn)")
        case (Inl e)
        with run inst conn show ?thesis by (auto simp: with_connection_def db_do_def session_def)
      next
        case (Inr cur)
        obtain h2 r2 where b: "body conn (h @ [DbConnect conn]) = (h2, r2)" by force
        then obtain bs where bs: "h2 = (h @ [DbConnect conn]) @ bs" "B conn bs r2"
          using sendsD [OF assms] by blast
        have r: "r = r2" "h' = h @ DbConnect conn # bs @ (if is_ok r2 then [] else [DbRollback conn])"
          using run inst conn Inr b bs(1)
          by (auto simp: with_connection_def db_do_def split: sum.splits)
        with bs(2) show ?thesis unfolding session_def by blast
      qed
    qed
  qed
qed

text \<open>A read is one session, or a failed one with a transient error and a second one.\<close>

definition retried :: "(db_event list \<Rightarrow> 'a result \<Rightarrow> bool) \<Rightarrow> db_event list \<Rightarrow> 'a result \<Rightarrow> bool" where
  "retried S evs r \<longleftrightarrow>
     S evs r \<or> (\<exists>es e cs. S es (Inl e) \<and> is_transient_read_error e \<and> S cs r \<and> evs = es @ cs)"

lemma sends_read_operation:
  assumes "\<And>conn. sends (body conn) (B conn)"
  shows "sends (run_read_operation cm db iid body ov) (retried (session B))"
  unfolding sends_def
proof (intro allI impI)
  fix h h' r assume run: "run_read_operation cm db iid body ov h = (h', r)"
  let ?op = "with_connection cm db iid ov body"
  note S = sendsD [OF sends_connection [OF assms, where cm = cm and db = db and iid = iid and ov = ov]]
  obtain h1 r1 where a: "?op h = (h1, r1)" by force
  obtain h2 r2 where b: "?op h1 = (h2, r2)" by force
  obtain es where es: "h1 = h @ es" "session B es r1" using S [OF a] by blast
  obtain cs where cs: "h2 = h1 @ cs" "session B cs r2" using S [OF b] by blast
  have "(h', r) = (h1, r1) \<or> (\<exists>e. r1 = Inl e \<and> is_transient_read_error e \<and> (h', r) = (h2, r2))"
    using run a b
    by (auto simp: run_read_operation_def read_retry_attempts_def numeral_2_eq_2 split: sum.splits if_splits)
  with es cs show "\<exists>evs. h' = h @ evs \<and> retried (session B) evs r"
    unfolding retried_def by auto
qed

lemma session_mono:
  "session B evs r \<Longrightarrow> (\<And>conn bs. B conn bs r \<Longrightarrow> C conn bs r) \<Longrightarrow> session C evs r"
  unfolding session_def by blast

lemma fetch_table_Inr:
  assumes "fetch_table f cur = Inr (cols, rows)"
  shows "normalize_column_names (cur_description cur) = Inr cols
    \<and> rows = map (zip cols) (f (cur_rows cur))"
proof -
  have n: "normalize_column_names (cur_description cur) = Inr cols"
    and rows: "rows = map (row_dict cols) (f (cur_rows cur))"
    using assms by (auto simp: fetch_table_def bind_res_Inr)
  have "distinct cols"
    using normalize_loop_spec n unfolding normalize_column_names_def by blast
  then have "row_dict cols = zip cols" by (intro ext row_dict_distinct)
  with n rows show ?thesis by simp
qed

text \<open>A table: distinct names, and rows that pair names with values in order.\<close>

definition table_ok :: "nat \<Rightarrow> (string list \<times> row list) result \<Rightarrow> bool" where
  "table_ok n r \<longleftrightarrow> (\<forall>cols rows. r = Inr (cols, rows) \<longrightarrow>
     distinct cols \<and> length rows \<le> n \<and> (\<forall>row \<in> set rows. \<exists>vals. row = zip cols vals))"

lemma fetch_many_ok: "table_ok (nat m) (fetch_many m cur)"
proof -
  have "distinct cols" if "normalize_column_names raw = Inr cols" for raw cols
    using normalize_loop_spec that unfolding normalize_column_names_def by blast
  then show ?thesis
    unfolding table_ok_def fetch_many_def using fetch_table_Inr by fastforce
qed

lemma read_body_sends:
  "sends (db_bind (db_do db (DbExec conn sql ps)) (\<lambda>cur. db_return (fetch_many m cur)))
     (\<lambda>evs r. evs = [DbExec conn sql ps] \<and> table_ok (nat m) r)"
  by (rule sends_mono [OF sends_bind [OF sends_do sends_return]])
    (auto simp: table_ok_def fetch_many_ok [unfolded table_ok_def])

definition connects :: "db_event list \<Rightarrow> nat" where
  "connects evs = length (filter (\<lambda>e. \<exists>c. e = DbConnect c) evs)"

definition rollbacks :: "db_event list \<Rightarrow> nat" where
  "rollbacks evs = length (filter (\<lambda>e. \<exists>c. e = DbRollback c) evs)"

definition execs :: "db_event list \<Rightarrow> nat" where
  "execs evs = length (filter (\<lambda>e. \<exists>c s ps. e = DbExec c s ps) evs)"

definition commits :: "db_event list \<Rightarrow> nat" where
  "commits evs = length (filter (\<lambda>e. \<exists>c. e = DbCommit c) evs)"

lemmas event_counts = connects_def rollbacks_def execs_def commits_def

text \<open>
  One attempt of a read from the history \<open>h\<close>: what it sends (\<open>es\<close>) and its result.  Without a
  connection string nothing is sent; a failed connection sends nothing more; the statement goes out
  alone, without parameters; and unless it gave a table, the connection is rolled back.
\<close>

definition read_attempt ::
  "connection_manager \<Rightarrow> database \<Rightarrow> string \<Rightarrow> string \<Rightarrow> string \<Rightarrow> int \<Rightarrow> history \<Rightarrow> db_event list
     \<Rightarrow> (string list \<times> row list) result \<Rightarrow> bool" where
  "read_attempt cm db iid name sql m h es r \<longleftrightarrow>
     (\<forall>inst. map_of (cm_instances cm) iid = Some inst \<longrightarrow> \<not> is_ok (connection_string cm inst (Some name)))
       \<and> es = [] \<and> \<not> is_ok r
     \<or> (\<exists>inst conn. map_of (cm_instances cm) iid = Some inst
         \<and> connection_string cm inst (Some name) = Inr conn
         \<and> (case db h (DbConnect conn) of
              Inl e \<Rightarrow> es = [DbConnect conn] \<and> r = Inl e
            | Inr _ \<Rightarrow>
                (case db (h @ [DbConnect conn]) (DbExec conn sql []) of
                   Inl e \<Rightarrow> es = [DbConnect conn, DbExec conn sql [], DbRollback conn] \<and> r = Inl e
                 | Inr cur \<Rightarrow>
                     (case normalize_column_names (cur_description cur) of
                        Inl e \<Rightarrow> es = [DbConnect conn, DbExec conn sql [], DbRollback conn] \<and> r = Inl e
                      | Inr cols \<Rightarrow> es = [DbConnect conn, DbExec conn sql []] \<and> distinct cols
                          \<and> r = Inr (cols, map (zip cols) (take (nat m) (cur_rows cur)))))))"

lemma read_attempt_exact:
  assumes "with_connection cm db iid (Some name)
     (\<lambda>conn. db_bind (db_do db (DbExec conn sql [])) (\<lambda>cur. db_return (fetch_many m cur))) h = (h', r)"
  shows "\<exists>es. h' = h @ es \<and> read_attempt cm db iid name sql m h es r"
proof (cases "map_of (cm_instances cm) iid")
  case None
  with assms show ?thesis by (auto simp: with_connection_def read_attempt_def)
next
  case inst: (Some inst)
  show ?thesis
  proof (cases "connection_string cm inst (Some name)")
    case (Inl e)
    with assms inst show ?thesis by (auto simp: with_connection_def read_attempt_def)
  next
    case conn: (Inr conn)
    note run = assms inst conn
    show ?thesis
    proof (cases "db h (DbConnect conn)")
      case (Inl e)
      with run show ?thesis by (auto simp: with_connection_def read_attempt_def db_do_def)
    next
      case c: (Inr c)
      show ?thesis
      proof (cases "db (h @ [DbConnect conn]) (DbExec conn sql [])")
        case (Inl e)
        with run c show ?thesis by (auto simp: with_connection_def read_attempt_def db_do_def db_bind_def)
      next
        case cur: (Inr cur)
        show ?thesis
        proof (cases "normalize_column_names (cur_description cur)")
          case (Inl e)
          then have "fetch_many m cur = Inl e" by (simp add: fetch_many_def fetch_table_def bind_res_def)
          with run c cur Inl show ?thesis
            by (auto simp: with_connection_def read_attempt_def db_do_def db_bind_def db_return_def)
        next
          case cols: (Inr cols)
          then have f: "fetch_many m cur = Inr (cols, map (zip cols) (take (nat m) (cur_rows cur)))" "distinct cols"
            using fetch_table_Inr [of "take (nat m)" cur cols] normalize_loop_spec
            by (auto simp: fetch_many_def fetch_table_def bind_res_def normalize_column_names_def)
          with run c cur cols show ?thesis
            by (auto simp: with_connection_def read_attempt_def db_do_def db_bind_def db_return_def)
        qed
      qed
    qed
  qed
qed

lemma read_attempt_counts:
  assumes "read_attempt cm db iid name sql m h es r"
  shows "commits es = 0 \<and> connects es \<le> 1 \<and> execs es \<le> connects es
      \<and> (\<forall>c s ps. DbExec c s ps \<in> set es \<longrightarrow> s = sql \<and> ps = [] \<and> DbConnect c \<in> set es)
      \<and> execs es = rollbacks es + (if is_ok r then 1 else 0)"
proof -
  have "(es = [] \<or> (\<exists>c. es = [DbConnect c] \<or> es = [DbConnect c, DbExec c sql [], DbRollback c])) \<and> \<not> is_ok r
      \<or> (\<exists>c. es = [DbConnect c, DbExec c sql []]) \<and> is_ok r"
    using assms unfolding read_attempt_def by (elim disjE exE conjE; simp split: sum.split_asm)
  then show ?thesis by (auto simp: event_counts)
qed

text \<open>
  C25: a read in a database is one attempt, or two if the first failed with a transient error, and
  then only two; an attempt connects, sends the given statement alone and without parameters, never
  commits, and rolls back a connection on which the statement gave no table.  A table that is
  returned is the one the server answered the last attempt with: its first rows, at most as many as
  requested, each the normalized column names paired in order with the row's values.
\<close>

theorem read_is_bounded_and_uncommitted:
  assumes "execute_read_in_database cm db iid name sql m h = (h', r)"
  shows "\<exists>evs. h' = h @ evs \<and> commits evs = 0 \<and> connects evs \<le> 2 \<and> execs evs \<le> connects evs
    \<and> (\<forall>c s ps. DbExec c s ps \<in> set evs \<longrightarrow> s = sql \<and> ps = [] \<and> DbConnect c \<in> set evs)
    \<and> execs evs = rollbacks evs + (if is_ok r then 1 else 0)
    \<and> (read_attempt cm db iid name sql m h evs r \<and> (\<forall>e. r = Inl e \<longrightarrow> \<not> is_transient_read_error e)
       \<or> (\<exists>es e cs. evs = es @ cs \<and> read_attempt cm db iid name sql m h es (Inl e)
            \<and> is_transient_read_error e \<and> read_attempt cm db iid name sql m (h @ es) cs r))"
proof -
  let ?op = "with_connection cm db iid (Some name)
     (\<lambda>conn. db_bind (db_do db (DbExec conn sql [])) (\<lambda>cur. db_return (fetch_many m cur)))"
  obtain h1 r1 where a: "?op h = (h1, r1)" by force
  obtain h2 r2 where b: "?op h1 = (h2, r2)" by force
  obtain es where es: "h1 = h @ es" "read_attempt cm db iid name sql m h es r1"
    using read_attempt_exact [OF a] by blast
  obtain cs where cs: "h2 = h1 @ cs" "read_attempt cm db iid name sql m (h @ es) cs r2"
    using read_attempt_exact [OF b] unfolding es(1) by blast
  have "(h', r) = (h1, r1) \<and> (\<forall>e. r1 = Inl e \<longrightarrow> \<not> is_transient_read_error e)
      \<or> (\<exists>e. r1 = Inl e \<and> is_transient_read_error e \<and> (h', r) = (h2, r2))"
    using assms a b
    by (auto simp: execute_read_in_database_def run_read_operation_def read_retry_attempts_def numeral_2_eq_2
        split: sum.splits if_splits)
  then show ?thesis
  proof
    assume "(h', r) = (h1, r1) \<and> (\<forall>e. r1 = Inl e \<longrightarrow> \<not> is_transient_read_error e)"
    with es read_attempt_counts [OF es(2)] show ?thesis
      by (intro exI [of _ es] conjI disjI1) simp_all
  next
    assume "\<exists>e. r1 = Inl e \<and> is_transient_read_error e \<and> (h', r) = (h2, r2)"
    then obtain e where e: "r1 = Inl e" "is_transient_read_error e" "h' = h2" "r = r2" by blast
    have add: "commits (xs @ ys) = commits xs + commits ys" "connects (xs @ ys) = connects xs + connects ys"
      "execs (xs @ ys) = execs xs + execs ys" "rollbacks (xs @ ys) = rollbacks xs + rollbacks ys" for xs ys
      by (simp_all add: event_counts)
    note one = read_attempt_counts [OF es(2) [unfolded e(1)]] and two = read_attempt_counts [OF cs(2)]
    have "\<exists>xs e ys. es @ cs = xs @ ys \<and> read_attempt cm db iid name sql m h xs (Inl e)
        \<and> is_transient_read_error e \<and> read_attempt cm db iid name sql m (h @ xs) ys r"
      using es(2) cs(2) e by blast
    moreover have "\<forall>c s ps. DbExec c s ps \<in> set (es @ cs) \<longrightarrow> s = sql \<and> ps = [] \<and> DbConnect c \<in> set (es @ cs)"
      using one two by auto
    moreover have "commits (es @ cs) = 0" "connects (es @ cs) \<le> 2" "execs (es @ cs) \<le> connects (es @ cs)"
      "execs (es @ cs) = rollbacks (es @ cs) + (if is_ok r then 1 else 0)" "h' = h @ (es @ cs)"
      using one two e cs(1) es(1) by (simp_all add: add)
    ultimately show ?thesis by blast
  qed
qed

definition example_cm :: connection_manager where
  "example_cm = connection_manager_init [example_instance]
     (\<lambda>_. Inr [(''username'', VStr ''u''), (''password'', VStr ''p'')]) ''drv''"

definition example_cursor :: cursor where
  "example_cursor = \<lparr>cur_description = [VStr ''a'', VNone], cur_rows = [[VInt 1, VInt 2], [VInt 3, VInt 4]],
     cur_rowcount = 2\<rparr>"

text \<open>A server whose first statement fails with a lost connection.\<close>

definition flaky_db :: database where
  "flaky_db h ev = (if execs (h @ [ev]) = 1 \<and> (\<exists>c s ps. ev = DbExec c s ps)
     then Inl \<lparr>exc_kind = OtherErr, exc_name = ''OperationalError'',
       exc_args = [VStr ''08S01'', VStr ''link''], exc_text = ''link''\<rparr>
     else Inr example_cursor)"

text \<open>The second attempt answers: the first row of the cursor, under distinct names.\<close>

theorem read_is_bounded_and_uncommitted_witness:
  "\<exists>evs cols. execute_read_in_database example_cm flaky_db ''primary'' ''db'' ''SELECT 1'' 1 []
      = (evs, Inr (cols, [zip cols [VInt 1, VInt 2]]))
    \<and> commits evs = 0 \<and> connects evs = 2 \<and> rollbacks evs = 1 \<and> distinct cols"
proof -
  obtain h' r where run: "execute_read_in_database example_cm flaky_db ''primary'' ''db'' ''SELECT 1'' 1 [] = (h', r)"
    by force
  let ?c = "''DRIVER={drv};SERVER=h,1433;DATABASE=db;UID=u;PWD={p};Encrypt=no;TrustServerCertificate=yes;''"
  have conn: "map_of (cm_instances example_cm) ''primary'' = Some example_instance"
    "connection_string example_cm example_instance (Some ''db'') = Inr ?c" by code_simp+
  have "is_ok (normalize_column_names [VStr ''a'', VNone])" by code_simp
  then obtain cols where cols: "normalize_column_names [VStr ''a'', VNone] = Inr cols"
    by (cases "normalize_column_names [VStr ''a'', VNone]") simp_all
  have "execs (h @ [DbConnect ?c, DbExec ?c ''SELECT 1'' []]) = Suc (execs h)" for h
    by (simp add: execs_def)
  then have db: "flaky_db h (DbConnect ?c) = Inr example_cursor"
    "is_ok (flaky_db (h @ [DbConnect ?c]) (DbExec ?c ''SELECT 1'' [])) \<longleftrightarrow> execs h \<noteq> 0"
    "flaky_db (h @ [DbConnect ?c]) (DbExec ?c ''SELECT 1'' []) = Inl e \<Longrightarrow> is_transient_read_error e"
    "flaky_db (h @ [DbConnect ?c]) (DbExec ?c ''SELECT 1'' []) = Inr cur \<Longrightarrow> cur = example_cursor" for h e cur
    by (auto simp: flaky_db_def is_transient_read_error_def Let_def py_def split: if_splits)
  have attempt: "if execs h = 0 then es = [DbConnect ?c, DbExec ?c ''SELECT 1'' [], DbRollback ?c]
          \<and> (\<exists>e. r = Inl e \<and> is_transient_read_error e)
      else es = [DbConnect ?c, DbExec ?c ''SELECT 1'' []] \<and> distinct cols
          \<and> r = Inr (cols, [zip cols [VInt 1, VInt 2]])"
    if "read_attempt example_cm flaky_db ''primary'' ''db'' ''SELECT 1'' 1 h es r" for h es r
  proof (cases "flaky_db (h @ [DbConnect ?c]) (DbExec ?c ''SELECT 1'' [])")
    case (Inl e)
    with db(2,3) [of h] that conn db(1) show ?thesis by (simp add: read_attempt_def)
  next
    case (Inr cur)
    with db(2,4) [of h] that conn db(1) cols show ?thesis
      by (auto simp: read_attempt_def example_cursor_def)
  qed
  obtain evs where evs: "h' = evs"
    and split: "read_attempt example_cm flaky_db ''primary'' ''db'' ''SELECT 1'' 1 [] evs r
          \<and> (\<forall>e. r = Inl e \<longrightarrow> \<not> is_transient_read_error e)
       \<or> (\<exists>es e cs. evs = es @ cs \<and> read_attempt example_cm flaky_db ''primary'' ''db'' ''SELECT 1'' 1 [] es (Inl e)
            \<and> is_transient_read_error e \<and> read_attempt example_cm flaky_db ''primary'' ''db'' ''SELECT 1'' 1 ([] @ es) cs r)"
    using read_is_bounded_and_uncommitted [OF run] by auto
  have none: "execs [] = 0" by (simp add: execs_def)
  from split show ?thesis
  proof (elim disjE exE conjE)
    fix es e cs
    assume parts: "evs = es @ cs" "read_attempt example_cm flaky_db ''primary'' ''db'' ''SELECT 1'' 1 [] es (Inl e)"
      "read_attempt example_cm flaky_db ''primary'' ''db'' ''SELECT 1'' 1 ([] @ es) cs r"
    have es: "es = [DbConnect ?c, DbExec ?c ''SELECT 1'' [], DbRollback ?c]"
      using attempt [OF parts(2)] none by simp
    then have "execs ([] @ es) \<noteq> 0" by (simp add: execs_def)
    then have "cs = [DbConnect ?c, DbExec ?c ''SELECT 1'' []] \<and> distinct cols
        \<and> r = Inr (cols, [zip cols [VInt 1, VInt 2]])"
      using attempt [OF parts(3)] by simp
    with run evs parts(1) es show ?thesis by (auto simp: event_counts)
  next
    assume "read_attempt example_cm flaky_db ''primary'' ''db'' ''SELECT 1'' 1 [] evs r"
      "\<forall>e. r = Inl e \<longrightarrow> \<not> is_transient_read_error e"
    then show ?thesis using attempt [of "[]" evs r] none by auto
  qed
qed

lemma example_connection_string:
  "connection_string example_cm example_instance (Some ''sales'') = Inr
     ''DRIVER={drv};SERVER=h,1433;DATABASE=sales;UID=u;PWD={p};Encrypt=no;TrustServerCertificate=yes;''"
  by code_simp

section \<open>Procedures\<close>

lemma proc_body_sends:
  "sends (db_bind (db_do db (DbExec conn (proc_statement p ps) ps)) (\<lambda>cur.
      let has = cur_description cur \<noteq> [] in
      db_bind (db_return (if has then fetch_table id cur else Inr ([], []))) (\<lambda>(columns, rows).
        db_bind (db_do db (DbCommit conn)) (\<lambda>_.
          db_return (Inr \<lparr>proc_procedure = p, proc_rowcount = cur_rowcount cur,
            proc_has_result_set = has, proc_columns = columns, proc_rows = rows\<rparr>)))))
    (\<lambda>evs r. evs = [DbExec conn (proc_statement p ps) ps, DbCommit conn]
       \<or> evs = [DbExec conn (proc_statement p ps) ps] \<and> \<not> is_ok r)"
  unfolding sends_def
proof (intro allI impI, goal_cases)
  case (1 h h' r)
  let ?ev = "DbExec conn (proc_statement p ps) ps"
  show ?case
  proof (cases "db h ?ev")
    case (Inl e)
    with 1 show ?thesis by (auto simp: db_bind_def db_do_def)
  next
    case (Inr cur)
    let ?t = "if cur_description cur \<noteq> [] then fetch_table id cur else Inr ([], [])"
    show ?thesis
    proof (cases ?t)
      case (Inl e)
      with 1 Inr show ?thesis by (auto simp: db_bind_def db_do_def db_return_def Let_def split: if_splits)
    next
      case t: (Inr cr)
      obtain columns rows where cr: "cr = (columns, rows)" by force
      with 1 Inr t show ?thesis
        by (cases "db (h @ [?ev]) (DbCommit conn)")
          (auto simp: db_bind_def db_do_def db_return_def Let_def split: if_splits)
    qed
  qed
qed

lemma count_list_strip_by:
  assumes "\<not> P c"
  shows "count_list (strip_by P s) c = count_list s c"
proof -
  have "count_list (dropWhile P xs) c = count_list xs c" for xs using assms by (induction xs) auto
  then show ?thesis by (simp add: strip_by_def)
qed

lemma count_placeholders:
  "c \<notin> set sep \<Longrightarrow> count_list (join_with sep (replicate n [c])) c = n"
proof (induction n)
  case (Suc n)
  then show ?case by (cases n) simp_all
qed simp

text \<open>
  C27: a procedure call sends at most one statement and is never retried; the statement is \<open>EXEC\<close>,
  the procedure's name and as many placeholders as there are parameters, separated by commas, and
  the values travel beside it in their order; it is committed before a result is returned, and a
  call that raises after sending it rolls back.
\<close>

theorem procedure_sent_once:
  assumes "execute_proc cm db iid proc ps ov h = (h', r)"
  shows "\<exists>evs stmt. h' = h @ evs \<and> execs evs \<le> 1 \<and> connects evs \<le> 1
    \<and> stmt = py_strip (''EXEC '' @ proc @ '' '' @ join_with '', '' (replicate (length ps) ''?''))
    \<and> count_list stmt (CHR ''?'') = count_list proc (CHR ''?'') + length ps
    \<and> (\<forall>c s qs. DbExec c s qs \<in> set evs \<longrightarrow> s = stmt \<and> qs = ps)
    \<and> (is_ok r \<longrightarrow> (\<exists>c. evs = [DbConnect c, DbExec c stmt ps, DbCommit c]))
    \<and> (\<not> is_ok r \<longrightarrow> execs evs = rollbacks evs)"
proof -
  obtain evs where evs: "h' = h @ evs" "session (\<lambda>conn evs r.
      evs = [DbExec conn (proc_statement proc ps) ps, DbCommit conn]
       \<or> evs = [DbExec conn (proc_statement proc ps) ps] \<and> \<not> is_ok r) evs r"
    using sendsD [OF sends_connection [OF proc_body_sends] assms [unfolded execute_proc_def]] by blast
  have "\<not> is_space (CHR ''?'')" by code_simp
  then have "count_list (proc_statement proc ps) (CHR ''?'') = count_list proc (CHR ''?'') + length ps"
    by (simp add: proc_statement_def py_strip_def count_list_strip_by count_placeholders)
  moreover from evs(2) have "execs evs \<le> 1 \<and> connects evs \<le> 1
    \<and> (\<forall>c s qs. DbExec c s qs \<in> set evs \<longrightarrow> s = proc_statement proc ps \<and> qs = ps)
    \<and> (is_ok r \<longrightarrow> (\<exists>c. evs = [DbConnect c, DbExec c (proc_statement proc ps) ps, DbCommit c]))
    \<and> (\<not> is_ok r \<longrightarrow> execs evs = rollbacks evs)"
    unfolding session_def by (cases "is_ok r") (auto simp: event_counts)
  moreover have "proc_statement proc ps
      = py_strip (''EXEC '' @ proc @ '' '' @ join_with '', '' (replicate (length ps) ''?''))"
    by (simp add: proc_statement_def)
  ultimately show ?thesis using evs(1) by blast
qed

theorem procedure_sent_once_witness:
  "\<exists>evs stmt. fst (execute_proc example_cm flaky_db ''primary'' ''dbo.usp_x'' [VInt 1, VNone] None []) = evs
    \<and> stmt = py_strip ''EXEC dbo.usp_x ?, ?'' \<and> count_list stmt (CHR ''?'') = 2
    \<and> (\<forall>c s qs. DbExec c s qs \<in> set evs \<longrightarrow> s = stmt \<and> qs = [VInt 1, VNone])"
proof -
  obtain h' r where run: "execute_proc example_cm flaky_db ''primary'' ''dbo.usp_x'' [VInt 1, VNone] None [] = (h', r)"
    by force
  have "''EXEC '' @ ''dbo.usp_x'' @ '' '' @ join_with '', '' (replicate (length [VInt 1, VNone]) ''?'')
      = ''EXEC dbo.usp_x ?, ?''"
    "count_list ''dbo.usp_x'' (CHR ''?'') + length [VInt 1, VNone] = 2"
    by (simp_all add: numeral_2_eq_2)
  then show ?thesis using procedure_sent_once [OF run] run by (simp only: append_Nil fst_conv) blast
qed

section \<open>Plans\<close>

definition plan_on :: "string \<Rightarrow> db_event" where
  "plan_on conn = DbExec conn ''SET SHOWPLAN_ALL ON'' []"

definition plan_off :: "string \<Rightarrow> db_event" where
  "plan_off conn = DbExec conn ''SET SHOWPLAN_ALL OFF'' []"

lemma showplan_sends:
  "sends (showplan_op db sql conn) (\<lambda>evs r.
     evs = [plan_on conn] \<and> \<not> is_ok r \<or> evs = [plan_on conn, DbExec conn sql [], plan_off conn])"
  unfolding sends_def
proof (intro allI impI, goal_cases)
  case (1 h h' r)
  show ?case
  proof (cases "db h (plan_on conn)")
    case (Inl e)
    with 1 show ?thesis by (auto simp: showplan_op_def db_bind_def db_do_def plan_on_def)
  next
    case (Inr cur)
    with 1 show ?thesis
      by (auto simp: showplan_op_def db_bind_def db_do_def db_return_def plan_on_def plan_off_def
          split: sum.splits)
  qed
qed

text \<open>The events of one attempt to explain a statement.\<close>

definition explain_events :: "string \<Rightarrow> db_event list \<Rightarrow> bool" where
  "explain_events sql evs \<longleftrightarrow> evs = [] \<or> (\<exists>c. evs = [DbConnect c]
     \<or> evs = [DbConnect c, plan_on c, DbRollback c]
     \<or> evs = [DbConnect c, plan_on c, DbExec c sql [], plan_off c]
     \<or> evs = [DbConnect c, plan_on c, DbExec c sql [], plan_off c, DbRollback c])"

lemma showplan_session:
  fixes q :: "(string list \<times> row list) result"
  assumes "session (\<lambda>conn evs (r :: (string list \<times> row list) result).
     evs = [plan_on conn] \<and> \<not> is_ok r \<or> evs = [plan_on conn, DbExec conn sql [], plan_off conn]) es q"
  shows "explain_events sql es"
  using assms unfolding session_def explain_events_def by (cases "is_ok q") auto

text \<open>
  An explained statement is only ever sent while \<open>SHOWPLAN_ALL\<close> is on, so it is planned
  and not executed, and \<open>SHOWPLAN_ALL\<close> is switched off again on the same connection, errors
  included; there are at most two attempts.
\<close>

theorem explain_never_executes:
  assumes "explain_query float_text cm db iid name sql h = (h', r)"
  shows "\<exists>evs1 evs2. h' = h @ evs1 @ evs2 \<and> explain_events sql evs1 \<and> explain_events sql evs2"
proof -
  obtain h1 r1 where run: "run_read_operation cm db iid (showplan_op db sql) (Some name) h = (h1, r1)"
    by force
  have "h' = h1"
    using assms run by (auto simp: explain_query_def db_bind_def db_return_def Let_def split: sum.splits)
  moreover obtain evs where evs: "h1 = h @ evs" "retried (session (\<lambda>conn evs (r :: (string list \<times> row list) result).
     evs = [plan_on conn] \<and> \<not> is_ok r \<or> evs = [plan_on conn, DbExec conn sql [], plan_off conn])) evs r1"
    using sendsD [OF sends_read_operation [OF showplan_sends] run] by blast
  moreover have "\<exists>a b. evs = a @ b \<and> explain_events sql a \<and> explain_events sql b"
    using evs(2) unfolding retried_def
  proof
    assume "session (\<lambda>conn evs (r :: (string list \<times> row list) result).
       evs = [plan_on conn] \<and> \<not> is_ok r \<or> evs = [plan_on conn, DbExec conn sql [], plan_off conn]) evs r1"
    then have "evs = evs @ [] \<and> explain_events sql evs \<and> explain_events sql []"
      using showplan_session by (simp add: explain_events_def [of sql "[]"])
    then show ?thesis by blast
  qed (use showplan_session in blast)
  ultimately show ?thesis by auto
qed

theorem explain_never_executes_witness:
  "\<exists>evs1 evs2. fst (explain_query (\<lambda>_. False) example_cm flaky_db ''primary'' ''db'' ''SELECT 1'' [])
     = evs1 @ evs2 \<and> explain_events ''SELECT 1'' evs1 \<and> explain_events ''SELECT 1'' evs2"
proof -
  obtain h' r where run: "explain_query (\<lambda>_. False) example_cm flaky_db ''primary'' ''db'' ''SELECT 1'' [] = (h', r)"
    by force
  show ?thesis using explain_never_executes [OF run] run by simp
qed

section \<open>Connection strings\<close>

lemma split_on_fields:
  "\<forall>x \<in> set xs. c \<notin> set x \<Longrightarrow> split_on c (concat (map (\<lambda>x. x @ [c]) xs)) = xs @ [[]]"
proof (induction xs)
  case (Cons x xs)
  have "split_on c (x @ c # concat (map (\<lambda>x. x @ [c]) xs)) = x # split_on c (concat (map (\<lambda>x. x @ [c]) xs))"
    using Cons.prems by (simp add: split_on_append split_on_notin)
  with Cons show ?case by simp
qed simp

text \<open>
  With a validated database name, and configured fields without semicolons, the connection
  string has exactly the seven fields the code writes, the database among them unchanged: the
  caller's name cannot add or alter a field.
\<close>

theorem connection_string_fields:
  assumes "validate_database_name raw = Inr name"
    and "cm_secret_resolver cm (auth_secret_ref inst) = Inr creds"
    and "\<forall>s \<in> {cm_odbc_driver cm, inst_host inst, py_str (row_get creds ''username''),
           py_str (row_get creds ''password'')}. CHR '';'' \<notin> set s"
  shows "\<exists>cs. connection_string cm inst (Some name) = Inr cs \<and>
    split_on (CHR '';'') cs =
      [''DRIVER={'' @ cm_odbc_driver cm @ ''}'', ''SERVER='' @ inst_host inst @ '','' @ int_str (inst_port inst),
       ''DATABASE='' @ name, ''UID='' @ py_str (row_get creds ''username''),
       ''PWD={'' @ py_str (row_get creds ''password'') @ ''}'', ''Encrypt=no'',
       ''TrustServerCertificate=yes'', []]"
proof -
  have name: "name \<noteq> []" "CHR '';'' \<notin> set name"
    using assms(1) by (auto simp: validate_database_name_def Let_def split: if_splits)
  let ?fields = "[''DRIVER={'' @ cm_odbc_driver cm @ ''}'', ''SERVER='' @ inst_host inst @ '','' @ int_str (inst_port inst),
       ''DATABASE='' @ name, ''UID='' @ py_str (row_get creds ''username''),
       ''PWD={'' @ py_str (row_get creds ''password'') @ ''}'', ''Encrypt=no'',
       ''TrustServerCertificate=yes'']"
  have "connection_string cm inst (Some name) = Inr (concat (map (\<lambda>x. x @ '';'') ?fields))"
    using assms(2) name(1) by (simp add: connection_string_def Let_def)
  moreover have "split_on (CHR '';'') (concat (map (\<lambda>x. x @ [CHR '';'']) ?fields)) = ?fields @ [[]]"
    by (rule split_on_fields) (use assms(3) name(2) int_str_no_semicolon in simp)
  ultimately show ?thesis by simp
qed

theorem connection_string_fields_witness:
  "split_on (CHR '';'') ''DRIVER={drv};SERVER=h,1433;DATABASE=sales;UID=u;PWD={p};Encrypt=no;TrustServerCertificate=yes;''
     ! 2 = ''DATABASE=sales''"
proof -
  have v: "validate_database_name '' sales'' = Inr ''sales''" by code_simp
  have c: "cm_secret_resolver example_cm (auth_secret_ref example_instance)
      = Inr [(''username'', VStr ''u''), (''password'', VStr ''p'')]"
    by (simp add: example_cm_def connection_manager_init_def)
  have f: "\<forall>s \<in> {cm_odbc_driver example_cm, inst_host example_instance,
        py_str (row_get [(''username'', VStr ''u''), (''password'', VStr ''p'')] ''username''),
        py_str (row_get [(''username'', VStr ''u''), (''password'', VStr ''p'')] ''password'')}.
      CHR '';'' \<notin> set s"
    by (simp add: example_cm_def connection_manager_init_def example_instance_def py_def)
  show ?thesis
    using connection_string_fields [OF v c f] example_connection_string
    by (simp only: sum.inject) (elim exE conjE, simp del: split_on.simps)
qed

end
