(* ===== verification/Tool_Execution.thy ===== *)
theory Tool_Execution
  imports Write_Guard Privilege_Mapper Session_Manager Rate_Limiter Query_Execution
begin

text \<open>
  How a tool call runs (\<open>src/tools/sql_tools.py\<close>, the closures of \<open>register_sql_tools\<close>):
  authorization, session, rate limit, write guard, database, and the \<open>except\<close> and \<open>finally\<close>
  clauses that count denials, metrics and write the audit event.

  The mutable state of the server is the record \<open>server_state\<close>.  A call context carries what one
  call reads from outside: request and MCP session id, the verified access token (its claims), the
  clock readings.  The \<open>try\<close> body of a handler is a function on a \<open>tool_run\<close>: the server state and
  the local variables the \<open>finally\<close> clause reads (\<open>actor\<close>, \<open>_auth_ctx\<close>, \<open>rows\<close>).  Messages to the
  MCP client (\<open>ctx.debug\<close> and so on) and to the log have no effect here, and writing the audit event
  succeeds.
\<close>

section \<open>State\<close>

record server_config =
  sc_auth :: "auth_config option"
  sc_policy :: runtime_policy
  sc_guard :: write_guard
  sc_cm :: connection_manager

record auth_ctx =
  ax_mode :: string
  ax_subject :: pyval
  ax_privilege :: string
  ax_groups :: "group_match option"

record audit_event =
  ae_request_id :: string
  ae_actor :: string
  ae_tool :: string
  ae_instance :: string
  ae_sql :: string
  ae_decision :: string
  ae_rows :: nat
  ae_error_code :: "string option"
  ae_auth :: "auth_ctx option"

record server_state =
  ss_sessions :: session_manager
  ss_rate :: rate_limiter
  ss_denied :: nat
  ss_history :: history
  ss_audit :: "audit_event list"
  ss_requests :: "(string \<times> string \<times> string) list"

record call_context =
  cc_request_id :: string
  cc_session_id :: "string option"
  cc_token :: "row option"
  cc_touch_now :: real
  cc_cleanup_now :: real
  cc_rate_now :: real
  cc_utc_now :: string

record tool_run =
  tr_state :: server_state
  run_actor :: string
  run_auth :: "auth_ctx option"
  run_rows :: nat

type_synonym 'a tool_op = "tool_run \<Rightarrow> tool_run \<times> 'a result"

definition tool_bind :: "'a tool_op \<Rightarrow> ('a \<Rightarrow> 'b tool_op) \<Rightarrow> 'b tool_op" where
  "tool_bind m f t = (case m t of (t', Inl e) \<Rightarrow> (t', Inl e) | (t', Inr x) \<Rightarrow> f x t')"

definition tool_return :: "'a result \<Rightarrow> 'a tool_op" where
  "tool_return r t = (t, r)"

section \<open>Authorization\<close>

definition auth_enforced :: "auth_config option \<Rightarrow> bool" where
  "auth_enforced auth_cfg = (case auth_cfg of None \<Rightarrow> False
     | Some cfg \<Rightarrow> azure_auth_enabled cfg \<or> auth_mode cfg = ''azure_token_verifier'')"

definition resolve_actor_and_authorize ::
  "auth_config option \<Rightarrow> row option \<Rightarrow> string \<Rightarrow> string \<Rightarrow> (string \<times> auth_ctx) result" where
  "resolve_actor_and_authorize auth_cfg token actor required_privilege =
     (case auth_cfg of
        None \<Rightarrow> Inr (actor, \<lparr>ax_mode = ''disabled'', ax_subject = VNone, ax_privilege = ''none'',
                   ax_groups = None\<rparr>)
      | Some cfg \<Rightarrow>
          if \<not> auth_enforced auth_cfg
          then Inr (actor, \<lparr>ax_mode = ''disabled'', ax_subject = VNone, ax_privilege = ''none'',
                   ax_groups = None\<rparr>)
          else (case token of
             None \<Rightarrow> Inl (permission_error ''AUTH_FAILED: missing or invalid bearer token'')
           | Some claims \<Rightarrow>
               let subject = py_or (row_get claims ''preferred_username'')
                     (py_or (row_get claims ''oid'') (py_or (row_get claims ''sub'') (row_get claims ''upn'')));
                   principal_groups = row_get_or claims (azure_group_claim_name cfg) (VList [])
               in bind_res (resolve_group_privilege principal_groups (azure_read_groups cfg)
                      (azure_write_groups cfg) (azure_group_authorization_enabled cfg))
                    (\<lambda>(privilege_level, group_match_result).
                      if required_privilege = ''write'' \<and> privilege_level \<noteq> ''write''
                      then Inl (permission_error ''AUTH_FAILED: write privilege required'')
                      else if required_privilege = ''read'' \<and> privilege_level = ''none''
                      then Inl (permission_error ''AUTH_FAILED: read privilege required'')
                      else
                        let resolved_actor = (case subject of
                              VStr s \<Rightarrow> if actor \<in> {''system'',
                                ''unknown''} \<and> s \<noteq> [] then s else actor
                            | _ \<Rightarrow> actor)
                        in Inr (resolved_actor, \<lparr>ax_mode = auth_mode cfg, ax_subject = subject,
                             ax_privilege = privilege_level, ax_groups = Some group_match_result\<rparr>))))"

section \<open>The steps of a handler\<close>

text \<open>\<open>actor, _auth_ctx = await _resolve_actor_and_authorize(...)\<close>\<close>

definition step_authorize :: "server_config \<Rightarrow> call_context \<Rightarrow> string \<Rightarrow> unit tool_op" where
  "step_authorize cfg cc required_privilege t =
     (case resolve_actor_and_authorize (sc_auth cfg) (cc_token cc) (run_actor t) required_privilege of
        Inl e \<Rightarrow> (t, Inl e)
      | Inr (actor, ctx) \<Rightarrow> (t\<lparr>run_actor := actor, run_auth := Some ctx\<rparr>, Inr ()))"

text \<open>\<open>state.session_manager.touch(actor, request_id, mcp_session_id=...)\<close>\<close>

definition step_touch :: "call_context \<Rightarrow> unit tool_op" where
  "step_touch cc t =
     (let (r, sm) = touch \<lparr>tr_actor = run_actor t, tr_request_id = cc_request_id cc,
            tr_mcp_session_id = cc_session_id cc, tr_now = cc_touch_now cc,
            tr_cleanup_now = cc_cleanup_now cc\<rparr> (ss_sessions (tr_state t))
      in (t\<lparr>tr_state := (tr_state t)\<lparr>ss_sessions := sm\<rparr>\<rparr>, r))"

text \<open>\<open>state.rate_limiter.allow(actor)\<close>\<close>

definition step_rate :: "call_context \<Rightarrow> unit tool_op" where
  "step_rate cc t =
     (let (r, rl) = allow (run_actor t, cc_rate_now cc) (ss_rate (tr_state t))
      in (t\<lparr>tr_state := (tr_state t)\<lparr>ss_rate := rl\<rparr>\<rparr>, r))"

definition step_db :: "'a db_op \<Rightarrow> 'a tool_op" where
  "step_db op t =
     (let (h, r) = op (ss_history (tr_state t))
      in (t\<lparr>tr_state := (tr_state t)\<lparr>ss_history := h\<rparr>\<rparr>, r))"

definition set_rows :: "nat \<Rightarrow> unit tool_op" where
  "set_rows n t = (t\<lparr>run_rows := n\<rparr>, Inr ())"

text \<open>Authorization, session and rate limit, in this order in every handler.\<close>

definition admit_call :: "server_config \<Rightarrow> call_context \<Rightarrow> string \<Rightarrow> unit tool_op" where
  "admit_call cfg cc required_privilege =
     tool_bind (step_authorize cfg cc required_privilege) (\<lambda>_.
       tool_bind (step_touch cc) (\<lambda>_. step_rate cc))"

section \<open>Error codes\<close>

record sql_error =
  se_code :: string
  se_sqlstate :: string
  se_message :: string
  se_number :: "nat option"
  se_description :: string

definition sqlstate_descriptions :: "string dict" where
  "sqlstate_descriptions =
     [(''42S02'',
       ''Invalid object name. The table, view, or function referenced does not exist (check '' @
        ''typos, database context, object permissions, and whether the view/DMV exists on '' @
        ''this SQL Server build).''),
      (''42S22'',
        ''Invalid column name. One or more columns referenced in the query do not exist on '' @
        ''the target object.''),
      (''42000'', ''Syntax error or access violation in the SQL statement.''),
      (''42S01'', ''Object already exists. A CREATE operation conflicts with an existing object.''),
      (''08001'', ''Unable to connect to the SQL Server data source.''),
      (''28000'', ''Invalid authorization specification. Check login credentials or permissions.''),
      (''08S01'', ''Communication link failure. The connection to SQL Server was lost.''),
      (''HYT00'', ''Query timeout expired.''),
      (''HY000'', ''General ODBC error. Check error details for more information.'')]"

text \<open>
  The first token between closing parentheses that is all digits; \<open>int\<close> of superscript digits
  raises, and the enclosing \<open>except\<close> then returns \<open>None\<close>.
\<close>

fun first_number :: "string list \<Rightarrow> nat option option" where
  "first_number [] = Some None"
| "first_number (token # tokens) =
     (let token = strip_by (\<lambda>c. c = CHR ''('' \<or> c = CHR '' '') token in
      if is_digit_text token
      then (if list_all is_dec token then Some (Some (digits_val token)) else None)
      else first_number tokens)"

definition extract_sql_error :: "pyexc \<Rightarrow> sql_error option" where
  "extract_sql_error exc =
     (let raw = exc_args exc;
          sqlstate = (case raw of a # b # _ \<Rightarrow> py_strip (py_str a) | [a] \<Rightarrow> ''HY000'' | [] \<Rightarrow> []);
          message = (case raw of a # b # _ \<Rightarrow> py_strip (py_str b) | [a] \<Rightarrow> py_strip (py_str a)
                     | [] \<Rightarrow> exc_text exc)
      in if sqlstate = [] then None
         else
           let description = dict_get sqlstate_descriptions sqlstate
                 ''An unexpected SQL error occurred. Review the error details.''
           in map_option (\<lambda>n. \<lparr>se_code = ''SQL_ERROR_'' @ sqlstate, se_sqlstate = sqlstate,
                se_message = message, se_number = n, se_description = description\<rparr>)
              (first_number (split_on (CHR '')'') message)))"

text \<open>
  What an \<open>except\<close> clause does: whether it counts a denied request, the error code of the audit
  event, and the exception it raises or the value it returns.
\<close>

type_synonym 'a on_error = "pyexc \<Rightarrow> bool \<times> string \<times> 'a result"

text \<open>\<open>except PermissionError\<close> and \<open>except Exception\<close> of the statement and report tools.\<close>

definition reraise_errors :: "'a on_error" where
  "reraise_errors exc =
     (if exc_kind exc = PermissionErr then (True, exc_text exc, Inl exc)
      else (False, (case extract_sql_error exc of
                Some sql_err \<Rightarrow> se_code sql_err
              | None \<Rightarrow> ''NON_SQL_ERROR:'' @ exc_name exc), Inl exc))"

definition execution_code :: "pyexc \<Rightarrow> string" where
  "execution_code exc =
     (case extract_sql_error exc of
        Some sql_err \<Rightarrow> se_code sql_err @ '': '' @ se_message sql_err
      | None \<Rightarrow> ''SQL_EXECUTION_ERROR: '' @ exc_text exc)"

text \<open>\<open>raise RuntimeError(error_code) from exc\<close>, with the kinds that are raised again as they are.\<close>

definition wrap_errors :: "exc_kind set \<Rightarrow> 'a on_error" where
  "wrap_errors passed exc =
     (if exc_kind exc \<in> passed then (True, exc_text exc, Inl exc)
      else (True, execution_code exc, Inl (runtime_error (execution_code exc))))"

section \<open>Running a handler\<close>

definition log_audit_event ::
  "call_context \<Rightarrow> string \<Rightarrow> string \<Rightarrow> string \<Rightarrow> string \<Rightarrow> string option \<Rightarrow> tool_run \<Rightarrow> audit_event" where
  "log_audit_event cc tool inst sql decision error_code t =
     \<lparr>ae_request_id = cc_request_id cc, ae_actor = run_actor t, ae_tool = tool, ae_instance = inst,
      ae_sql = sql, ae_decision = decision, ae_rows = run_rows t, ae_error_code = error_code,
      ae_auth = run_auth t\<rparr>"

text \<open>The \<open>finally\<close> clause.\<close>

definition finish ::
  "call_context \<Rightarrow> string \<Rightarrow> string \<Rightarrow> string \<Rightarrow> string \<Rightarrow> string option \<Rightarrow> tool_run \<Rightarrow> server_state" where
  "finish cc tool inst sql decision error_code t =
     (tr_state t)\<lparr>ss_requests := ss_requests (tr_state t) @ [(tool, inst, decision)],
        ss_audit := ss_audit (tr_state t) @ [log_audit_event cc tool inst sql decision error_code t]\<rparr>"

definition run_tool ::
  "'a on_error \<Rightarrow> call_context \<Rightarrow> string \<Rightarrow> string \<Rightarrow> string \<Rightarrow> string \<Rightarrow> 'a tool_op
     \<Rightarrow> server_state \<Rightarrow> server_state \<times> 'a result" where
  "run_tool on_error cc tool inst sql actor body s =
     (case body \<lparr>tr_state = s, run_actor = actor, run_auth = None, run_rows = 0\<rparr> of
        (t, Inr x) \<Rightarrow> (finish cc tool inst sql ''allow'' None t, Inr x)
      | (t, Inl exc) \<Rightarrow>
          let (counted, error_code, result) = on_error exc;
              t1 = (if counted
                    then t\<lparr>tr_state := (tr_state t)\<lparr>ss_denied := ss_denied (tr_state t) + 1\<rparr>\<rparr> else t)
          in (finish cc tool inst sql ''deny'' (Some error_code) t1, result))"

definition rows_value :: "row list \<Rightarrow> pyval" where
  "rows_value rows = VList (map VDict rows)"

section \<open>Read tools\<close>

text \<open>Reading with or without a database: the private or the pooled connection.\<close>

definition read_rows ::
  "server_config \<Rightarrow> database \<Rightarrow> string \<Rightarrow> string \<Rightarrow> int \<Rightarrow> string option \<Rightarrow> row list tool_op" where
  "read_rows cfg db inst sql max_rows database_name =
     (case database_name of
        Some d \<Rightarrow> if d \<noteq> [] then
            tool_bind (tool_return (validate_database_name d)) (\<lambda>db_name.
              tool_bind (step_db (execute_catalog_query (sc_cm cfg) db inst db_name sql max_rows))
                (\<lambda>res. tool_return (Inr (cat_rows res))))
          else step_db (execute_read (sc_cm cfg) db inst sql max_rows)
      | None \<Rightarrow> step_db (execute_read (sc_cm cfg) db inst sql max_rows))"

definition read_body ::
  "server_config \<Rightarrow> database \<Rightarrow> call_context \<Rightarrow> string \<Rightarrow> string \<Rightarrow> string \<Rightarrow> int \<Rightarrow> string option
     \<Rightarrow> row tool_op" where
  "read_body cfg db cc sql tool inst max_rows database_name =
     tool_bind (admit_call cfg cc ''read'') (\<lambda>_.
       tool_bind (tool_return (enforce (sc_guard cfg) tool sql)) (\<lambda>_.
         tool_bind (read_rows cfg db inst sql max_rows database_name) (\<lambda>result.
           tool_bind (set_rows (length result)) (\<lambda>_.
             tool_return (Inr ([(''instance'', VStr inst), (''tool'', VStr tool),
               (''row_count'', VInt (int (length result))), (''rows'', rows_value result)]
               @ (case database_name of
                    Some d \<Rightarrow> if d \<noteq> [] then [(''database_name'', VStr d)] else []
                  | None \<Rightarrow> [])))))))"

definition run_read_tool ::
  "server_config \<Rightarrow> database \<Rightarrow> call_context \<Rightarrow> string \<Rightarrow> string \<Rightarrow> string \<Rightarrow> string \<Rightarrow> int
     \<Rightarrow> string option \<Rightarrow> server_state \<Rightarrow> server_state \<times> row result" where
  "run_read_tool cfg db cc sql tool inst actor max_rows database_name =
     run_tool reraise_errors cc tool inst sql actor
       (read_body cfg db cc sql tool inst max_rows database_name)"

definition or_none :: "string \<Rightarrow> string option" where
  "or_none s = (if s \<noteq> [] then Some s else None)"

text \<open>\<open>_select\<close> once the call is admitted.\<close>

definition select_rest ::
  "server_config \<Rightarrow> database \<Rightarrow> string \<Rightarrow> string \<Rightarrow> string \<Rightarrow> string \<Rightarrow> row tool_op" where
  "select_rest cfg db tool inst sql database_name =
     tool_bind (tool_return (enforce (sc_guard cfg) tool sql)) (\<lambda>_.
       tool_bind
         (if database_name \<noteq> [] then
            tool_bind (tool_return (validate_database_name database_name)) (\<lambda>db_name.
              tool_bind (step_db (execute_read_in_database (sc_cm cfg) db inst db_name sql
                  (max_result_rows (sc_policy cfg))))
                (\<lambda>(columns, rows). tool_return (Inr rows)))
          else step_db (execute_read (sc_cm cfg) db inst sql (max_result_rows (sc_policy cfg))))
         (\<lambda>result. tool_bind (set_rows (length result)) (\<lambda>_.
           tool_return (Inr [(''instance'', VStr inst), (''rows'', rows_value result),
             (''row_count'', VInt (int (length result)))]))))"

definition select_body ::
  "server_config \<Rightarrow> database \<Rightarrow> call_context \<Rightarrow> string \<Rightarrow> string \<Rightarrow> string \<Rightarrow> string \<Rightarrow> row tool_op" where
  "select_body cfg db cc tool inst sql database_name =
     tool_bind (admit_call cfg cc ''read'') (\<lambda>_.
       select_rest cfg db tool inst sql database_name)"

definition select_tool ::
  "server_config \<Rightarrow> database \<Rightarrow> call_context \<Rightarrow> string \<Rightarrow> string \<Rightarrow> string \<Rightarrow> string \<Rightarrow> string
     \<Rightarrow> server_state \<Rightarrow> server_state \<times> row result" where
  "select_tool cfg db cc tool inst sql actor database_name =
     run_tool reraise_errors cc tool inst sql actor
       (select_body cfg db cc tool inst sql database_name)"

text \<open>\<open>_exec_proc\<close> once the call is admitted.\<close>

definition exec_proc_rest ::
  "server_config \<Rightarrow> database \<Rightarrow> string \<Rightarrow> string \<Rightarrow> string \<Rightarrow> pyval list \<Rightarrow> string \<Rightarrow> row tool_op" where
  "exec_proc_rest cfg db tool inst proc_name params database_name =
     tool_bind (tool_return (validate_procedure (sc_guard cfg) tool proc_name)) (\<lambda>_.
       tool_bind (tool_return (enforce (sc_guard cfg) tool ''EXEC __policy_probe__'')) (\<lambda>_.
         tool_bind
           (tool_return (if database_name \<noteq> []
              then map_sum id Some (validate_database_name database_name) else Inr None))
           (\<lambda>db_override.
             tool_bind (step_db (execute_proc (sc_cm cfg) db inst proc_name params db_override))
               (\<lambda>res. tool_bind (set_rows (length (proc_rows res))) (\<lambda>_.
                 tool_return (Inr [(''instance'', VStr inst), (''status'', VStr ''ok''),
                   (''procedure'', VStr (proc_procedure res)),
                   (''rowcount'', VInt (proc_rowcount res)),
                   (''has_result_set'', VBool (proc_has_result_set res)),
                   (''columns'', VList (map VStr (proc_columns res))),
                   (''rows'', rows_value (proc_rows res))]))))))"

definition exec_proc_body ::
  "server_config \<Rightarrow> database \<Rightarrow> call_context \<Rightarrow> string \<Rightarrow> string \<Rightarrow> string \<Rightarrow> pyval list \<Rightarrow> string
     \<Rightarrow> row tool_op" where
  "exec_proc_body cfg db cc tool inst proc_name params database_name =
     tool_bind (admit_call cfg cc ''write'') (\<lambda>_.
       exec_proc_rest cfg db tool inst proc_name params database_name)"

definition exec_proc_tool ::
  "server_config \<Rightarrow> database \<Rightarrow> call_context \<Rightarrow> string \<Rightarrow> string \<Rightarrow> string \<Rightarrow> pyval list \<Rightarrow> string
     \<Rightarrow> string \<Rightarrow> server_state \<Rightarrow> server_state \<times> row result" where
  "exec_proc_tool cfg db cc tool inst proc_name params actor database_name =
     run_tool reraise_errors cc tool inst (''EXEC '' @ proc_name) actor
       (exec_proc_body cfg db cc tool inst proc_name params database_name)"

definition latency_report_tool :: "string \<Rightarrow> string \<Rightarrow> string \<Rightarrow> row" where
  "latency_report_tool tool inst actor =
     [(''instance'', VStr inst), (''tool'', VStr tool),
      (''message'', VStr ''Use /diagnostics/metrics for histogram data and rollups.''),
      (''actor'', VStr actor)]"

definition block_report_sql :: string where
  "block_report_sql = ''SELECT TOP 25 r.session_id, r.blocking_session_id, r.wait_type, r.wait_time, t.text '' @
     ''FROM sys.dm_exec_requests r CROSS APPLY sys.dm_exec_sql_text(r.sql_handle) t WHERE '' @
     ''r.blocking_session_id <> 0 ORDER BY r.wait_time DESC''"

definition block_report_tool ::
  "server_config \<Rightarrow> database \<Rightarrow> call_context \<Rightarrow> string \<Rightarrow> string \<Rightarrow> string \<Rightarrow> string
     \<Rightarrow> server_state \<Rightarrow> server_state \<times> row result" where
  "block_report_tool cfg db cc tool inst actor database_name =
     run_read_tool cfg db cc block_report_sql tool inst actor 25 (or_none database_name)"

definition top_queries_sql :: "int \<Rightarrow> string" where
  "top_queries_sql limit_n = ''SELECT TOP '' @ int_str limit_n @
     '' qs.total_worker_time, qs.total_elapsed_time, qs.execution_count, DB_NAME(st.dbid) '' @
     ''AS database_name, st.text AS query_text FROM sys.dm_exec_query_stats qs CROSS APPLY '' @
     ''sys.dm_exec_sql_text(qs.sql_handle) st ORDER BY qs.total_worker_time DESC''"

definition top_queries_report_tool ::
  "server_config \<Rightarrow> database \<Rightarrow> call_context \<Rightarrow> string \<Rightarrow> string \<Rightarrow> int \<Rightarrow> string \<Rightarrow> string
     \<Rightarrow> server_state \<Rightarrow> server_state \<times> row result" where
  "top_queries_report_tool cfg db cc tool inst limit actor database_name =
     (let limit_n = max 1 (min limit 100)
      in run_read_tool cfg db cc (top_queries_sql limit_n) tool inst actor limit_n (or_none database_name))"

definition active_sessions_sql :: "int \<Rightarrow> string" where
  "active_sessions_sql limit_n = ''SELECT TOP '' @ int_str limit_n @
     '' s.session_id, s.login_name, s.host_name, s.program_name, s.status, r.command, '' @
     ''r.wait_type, r.wait_time, r.cpu_time FROM sys.dm_exec_sessions s LEFT JOIN '' @
     ''sys.dm_exec_requests r ON s.session_id = r.session_id WHERE s.is_user_process = 1 '' @
     ''ORDER BY s.session_id DESC''"

definition active_sessions_report_tool ::
  "server_config \<Rightarrow> database \<Rightarrow> call_context \<Rightarrow> string \<Rightarrow> string \<Rightarrow> int \<Rightarrow> string \<Rightarrow> string
     \<Rightarrow> server_state \<Rightarrow> server_state \<times> row result" where
  "active_sessions_report_tool cfg db cc tool inst limit actor database_name =
     (let limit_n = max 1 (min limit 200)
      in run_read_tool cfg db cc (active_sessions_sql limit_n) tool inst actor limit_n (or_none database_name))"

definition index_health_sql :: "int \<Rightarrow> string" where
  "index_health_sql limit_n = ''SELECT TOP '' @ int_str limit_n @
     '' OBJECT_NAME(i.object_id) AS table_name, i.name AS index_name, i.type_desc, '' @
     ''ISNULL(us.user_seeks,0) AS user_seeks, ISNULL(us.user_scans,0) AS user_scans, '' @
     ''ISNULL(us.user_lookups,0) AS user_lookups, ISNULL(us.user_updates,0) AS '' @
     ''user_updates FROM sys.indexes i LEFT JOIN sys.dm_db_index_usage_stats us ON '' @
     ''i.object_id = us.object_id AND i.index_id = us.index_id AND us.database_id = '' @
     ''DB_ID() WHERE i.index_id > 0 ORDER BY ISNULL(us.user_scans,0) + '' @
     ''ISNULL(us.user_seeks,0) DESC''"

definition index_health_report_tool ::
  "server_config \<Rightarrow> database \<Rightarrow> call_context \<Rightarrow> string \<Rightarrow> string \<Rightarrow> int \<Rightarrow> string \<Rightarrow> string
     \<Rightarrow> server_state \<Rightarrow> server_state \<times> row result" where
  "index_health_report_tool cfg db cc tool inst limit actor database_name =
     (let limit_n = max 1 (min limit 200)
      in run_read_tool cfg db cc (index_health_sql limit_n) tool inst actor limit_n (or_none database_name))"

section \<open>Instance tools\<close>

definition ping_sql :: string where
  "ping_sql = ''SELECT @@SERVERNAME AS instance_name, CAST(SERVERPROPERTY('MachineName') AS '' @
     ''NVARCHAR(128)) AS hostname, CAST(SERVERPROPERTY('ProductVersion') AS NVARCHAR(128)) '' @
     ''AS database_version, CONVERT(NVARCHAR(64), CONNECTIONPROPERTY('local_net_address')) '' @
     ''AS ip_address, CONVERT(NVARCHAR(33), SYSUTCDATETIME(), 127) AS current_system_date''"

text \<open>Every exception becomes a result that says the instance is unreachable.\<close>

definition ping_errors :: "call_context \<Rightarrow> int \<Rightarrow> row on_error" where
  "ping_errors cc instance_number exc =
     (let error_code = ''INSTANCE_UNREACHABLE: '' @ exc_text exc
      in (True, error_code, Inr [(''accessible'', VBool False), (''instance_number'', VInt instance_number),
           (''instance_name'', VNone), (''hostname'', VNone), (''database_version'', VNone),
           (''ip_address'', VNone), (''current_system_date'', VStr (cc_utc_now cc)),
           (''error_code'', VStr error_code)]))"

text \<open>\<open>_ping\<close> once the call is admitted.\<close>

definition ping_rest ::
  "server_config \<Rightarrow> database \<Rightarrow> string \<Rightarrow> int \<Rightarrow> row tool_op" where
  "ping_rest cfg db inst instance_number =
     tool_bind (step_db (fetch_single_row_in_database (sc_cm cfg) db inst ''master'' ping_sql)) (\<lambda>payload.
       tool_bind (set_rows (if payload \<noteq> [] then 1 else 0)) (\<lambda>_.
         tool_return (Inr [(''accessible'', VBool True), (''instance_number'', VInt instance_number),
           (''instance_name'', row_get payload ''instance_name''),
           (''hostname'', row_get payload ''hostname''),
           (''database_version'', row_get payload ''database_version''),
           (''ip_address'', row_get payload ''ip_address''),
           (''current_system_date'', row_get payload ''current_system_date'')])))"

definition ping_body ::
  "server_config \<Rightarrow> database \<Rightarrow> call_context \<Rightarrow> string \<Rightarrow> int \<Rightarrow> row tool_op" where
  "ping_body cfg db cc inst instance_number =
     tool_bind (admit_call cfg cc ''read'') (\<lambda>_.
       ping_rest cfg db inst instance_number)"

definition ping_tool ::
  "server_config \<Rightarrow> database \<Rightarrow> call_context \<Rightarrow> string \<Rightarrow> string \<Rightarrow> int \<Rightarrow> string
     \<Rightarrow> server_state \<Rightarrow> server_state \<times> row result" where
  "ping_tool cfg db cc tool inst instance_number actor =
     run_tool (ping_errors cc instance_number) cc tool inst ping_sql actor
       (ping_body cfg db cc inst instance_number)"

record tool_metadata =
  md_description :: string
  md_required :: "string list"
  md_optional :: "string list"
  md_output :: "string list"
  md_behavior :: string

definition tool_metadata_by_suffix :: "tool_metadata dict" where
  "tool_metadata_by_suffix =
     [(''ping'',
        \<lparr>md_description = ''Connectivity check for the target SQL Server instance. Returns accessibility flag, '' @
           ''instance/server identity data, server IP, version, and current UTC system date from '' @
           ''SQL Server.'',
         md_required = [],
         md_optional = [''actor''],
         md_output = [''accessible'', ''instance_number'', ''instance_name'', ''hostname'',
           ''database_version'', ''ip_address'', ''current_system_date'', ''error_code''],
         md_behavior = ''Performs a lightweight query in master and records audit/latency metrics.''\<rparr>),
      (''list_tools'',
        \<lparr>md_description = ''Discovery endpoint that enumerates MCP tools registered for the selected instance '' @
           ''number. Includes tool descriptions and required parameters for runtime introspection.'',
         md_required = [],
         md_optional = [''actor''],
         md_output = [''instance_number'', ''database_instance_name'', ''ip_address'',
           ''system_date'', ''tools''],
         md_behavior = ''Reads in-memory registry and attaches SQL instance identity metadata.''\<rparr>),
      (''list_object'',
        \<lparr>md_description = ''Lists objects in a specified database by object type. Supports table, view, '' @
           ''procedure, function, and synonym. Designed for schema discovery and validation '' @
           ''workflows.'',
         md_required = [''database_name'', ''object_type''],
         md_optional = [''actor''],
         md_output = [''instance_number'', ''database_name'', ''system_date'', ''object_type'',
           ''objects'', ''row_count''],
         md_behavior = ''Executes catalog query in target DB context and enforces session/rate controls.''\<rparr>),
      (''execute_query'',
        \<lparr>md_description = ''Executes SQL in the specified database context. Fully qualified object names are '' @
           ''supported for cross-database reads. Use COMPACT for row payload only; FULL adds '' @
           ''explain-plan summary when available.'',
         md_required = [''database_name'', ''sql_statement''],
         md_optional = [''actor'', ''view_mode''],
         md_output = [''instance_number'', ''database_name'', ''execution_datetime_utc'',
           ''view_mode'', ''columns'', ''row_count'', ''rows'', ''plan''],
         md_behavior = ''Applies write guard and rate/session checks before execution; FULL mode attempts '' @
           ''SHOWPLAN summary.''\<rparr>),
      (''analyze_tab_health'',
        \<lparr>md_description = ''Analyzes table and index health for a database, including table size, index '' @
           ''fragmentation, and tables missing primary keys. Returns prioritized findings and '' @
           ''recommendations.'',
         md_required = [''database_name''],
         md_optional = [''schema_name'', ''table_name'', ''include_indexes'', ''top_n'', ''actor''],
         md_output = [''instance_number'', ''database_name'', ''tool'', ''generated_at_utc'',
           ''summary'', ''severity_counts'', ''findings'', ''recommendations''],
         md_behavior = ''Runs read-only catalog/DMV checks and returns deterministic analysis JSON.''\<rparr>),
      (''analyze_db_data_model'',
        \<lparr>md_description = ''Analyzes logical data model relationships in the target database and reports '' @
           ''dependency graph health, including circular foreign-key dependencies.'',
         md_required = [''database_name''],
         md_optional = [''schema_filter'', ''max_edges'', ''actor''],
         md_output = [''instance_number'', ''database_name'', ''tool'', ''generated_at_utc'',
           ''summary'', ''severity_counts'', ''findings'', ''recommendations''],
         md_behavior = ''Extracts FK graph metadata and flags structural integrity risks.''\<rparr>),
      (''analyze_sec_config'',
        \<lparr>md_description = ''Assesses security and configuration posture for the target database/instance, '' @
           ''including elevated role memberships, orphan users, and backup recency.'',
         md_required = [''database_name''],
         md_optional = [''include_server_scope'', ''actor''],
         md_output = [''instance_number'', ''database_name'', ''tool'', ''generated_at_utc'',
           ''summary'', ''severity_counts'', ''findings'', ''recommendations''],
         md_behavior = ''Uses read-only security/catalog checks and redacts sensitive fields in output.''\<rparr>),
      (''sessions_dashboard'',
        \<lparr>md_description = ''Builds an interactive session dashboard payload for active sessions and lock '' @
           ''chains, returning both HTML and machine-readable widget data.'',
         md_required = [],
         md_optional = [''database_name'', ''lookback_minutes'', ''include_locks'', ''actor''],
         md_output = [''content_type'', ''html'', ''data''],
         md_behavior = ''Collects bounded DMV data and formats a dashboard payload for MCP clients.''\<rparr>),
      (''top_statements'',
        \<lparr>md_description = ''Analyzes top longest-running SQL statements in a database context, with execution '' @
           ''counts and prescriptive recommendations for index strategy, query rewrites, query '' @
           ''hints, and partitioning. Falls back from Query Store to DMV data when Query Store '' @
           ''views are unavailable.'',
         md_required = [''database_name''],
         md_optional = [''top_n'', ''lookback_minutes'', ''view_mode'', ''actor''],
         md_output = [''instance_number'', ''database_name'', ''tool'', ''generated_at_utc'',
           ''summary'', ''severity_counts'', ''findings'', ''recommendations'',
             ''top_statements'', ''data_source''],
         md_behavior = ''Collects Query Store or DMV metrics, analyzes duration/execution/scan patterns, and '' @
           ''returns deterministic analysis JSON with DBA review disclaimer.''\<rparr>)]"

definition default_metadata :: tool_metadata where
  "default_metadata = \<lparr>md_description = ''Registered MCP tool'', md_required = [], md_optional = [],
     md_output = [], md_behavior = ''Registered MCP tool''\<rparr>"

definition list_tools_sql :: string where
  "list_tools_sql = ''SELECT @@SERVERNAME AS instance_name, CONVERT(NVARCHAR(64), '' @
     ''CONNECTIONPROPERTY('local_net_address')) AS ip_address, CONVERT(NVARCHAR(33), '' @
     ''SYSUTCDATETIME(), 127) AS current_system_date''"

definition tools_for_prefix :: "string list \<Rightarrow> string \<Rightarrow> row list" where
  "tools_for_prefix registered_tools tool_prefix =
     map (\<lambda>name.
         let meta = dict_get tool_metadata_by_suffix (drop (length tool_prefix) name) default_metadata
         in [(''name'', VStr name), (''description'', VStr (md_description meta)),
             (''required_parameters'', VList (map VStr (md_required meta))),
             (''optional_parameters'', VList (map VStr (md_optional meta))),
             (''output_fields'', VList (map VStr (md_output meta))),
             (''operational_behavior'', VStr (md_behavior meta))])
       (filter (prefix tool_prefix) registered_tools)"

text \<open>\<open>_list_tools\<close> once the call is admitted.\<close>

definition list_tools_rest ::
  "string list \<Rightarrow> server_config \<Rightarrow> database \<Rightarrow> string \<Rightarrow> int \<Rightarrow> row tool_op" where
  "list_tools_rest registered_tools cfg db inst instance_number =
     tool_bind (step_db (fetch_single_row_in_database (sc_cm cfg) db inst ''master'' list_tools_sql)) (\<lambda>info.
       let tools = tools_for_prefix registered_tools (''db_'' @ int_str instance_number @ ''_sql2019_'')
       in tool_bind (set_rows (length tools)) (\<lambda>_.
            tool_return (Inr [(''instance_number'', VInt instance_number),
              (''database_instance_name'', row_get info ''instance_name''),
              (''ip_address'', row_get info ''ip_address''),
              (''system_date'', row_get info ''current_system_date''),
              (''tools'', rows_value tools)])))"

definition list_tools_body ::
  "string list \<Rightarrow> server_config \<Rightarrow> database \<Rightarrow> call_context \<Rightarrow> string \<Rightarrow> int \<Rightarrow> row tool_op" where
  "list_tools_body registered_tools cfg db cc inst instance_number =
     tool_bind (admit_call cfg cc ''read'') (\<lambda>_.
       list_tools_rest registered_tools cfg db inst instance_number)"

definition list_tools_tool ::
  "string list \<Rightarrow> server_config \<Rightarrow> database \<Rightarrow> call_context \<Rightarrow> string \<Rightarrow> string \<Rightarrow> int \<Rightarrow> string
     \<Rightarrow> server_state \<Rightarrow> server_state \<times> row result" where
  "list_tools_tool registered_tools cfg db cc tool inst instance_number actor =
     run_tool (wrap_errors {}) cc tool inst list_tools_sql actor
       (list_tools_body registered_tools cfg db cc inst instance_number)"

text \<open>\<open>_list_object\<close> once the call is admitted.\<close>

definition list_object_rest ::
  "server_config \<Rightarrow> database \<Rightarrow> call_context \<Rightarrow> string \<Rightarrow> int \<Rightarrow> string \<Rightarrow> string \<Rightarrow> row tool_op" where
  "list_object_rest cfg db cc inst instance_number database_name object_type =
     tool_bind (step_db (list_objects (sc_cm cfg) db inst database_name object_type 5000)) (\<lambda>rows.
       tool_bind (set_rows (length rows)) (\<lambda>_.
         tool_return (Inr [(''instance_number'', VInt instance_number),
           (''database_name'', VStr database_name), (''system_date'', VStr (cc_utc_now cc)),
           (''object_type'', VStr (py_lower object_type)), (''objects'', rows_value rows),
           (''row_count'', VInt (int (length rows)))])))"

definition list_object_body ::
  "server_config \<Rightarrow> database \<Rightarrow> call_context \<Rightarrow> string \<Rightarrow> int \<Rightarrow> string \<Rightarrow> string \<Rightarrow> row tool_op" where
  "list_object_body cfg db cc inst instance_number database_name object_type =
     tool_bind (admit_call cfg cc ''read'') (\<lambda>_.
       list_object_rest cfg db cc inst instance_number database_name object_type)"

definition list_object_tool ::
  "server_config \<Rightarrow> database \<Rightarrow> call_context \<Rightarrow> string \<Rightarrow> string \<Rightarrow> int \<Rightarrow> string \<Rightarrow> string \<Rightarrow> string
     \<Rightarrow> server_state \<Rightarrow> server_state \<times> row result" where
  "list_object_tool cfg db cc tool inst instance_number database_name object_type actor =
     run_tool (wrap_errors {ValueErr}) cc tool inst
       (''LIST_OBJECT database='' @ database_name @ '' type='' @ object_type) actor
       (list_object_body cfg db cc inst instance_number database_name object_type)"

text \<open>\<open>try: output["plan"] = explain_query(...) except Exception: ...\<close>\<close>

definition plan_value :: "plan_summary result \<Rightarrow> pyval" where
  "plan_value r = (case r of
       Inr p \<Rightarrow> VDict [(''available'', VBool True), (''estimated_cost'', VList (plan_cost_items p)),
         (''accessed_objects'', VList (map VStr (plan_accessed_objects p)))]
     | Inl exc \<Rightarrow> VDict [(''available'', VBool False), (''estimated_cost'', VNone),
         (''accessed_objects'', VList []), (''error'', VStr (''SQL_EXECUTION_ERROR: '' @ exc_text exc))])"

definition explain_step ::
  "(string \<Rightarrow> bool) \<Rightarrow> server_config \<Rightarrow> database \<Rightarrow> string \<Rightarrow> string \<Rightarrow> string \<Rightarrow> pyval tool_op" where
  "explain_step float_text cfg db inst database_name sql t =
     (let (h, r) = explain_query float_text (sc_cm cfg) db inst database_name sql (ss_history (tr_state t))
      in (t\<lparr>tr_state := (tr_state t)\<lparr>ss_history := h\<rparr>\<rparr>, Inr (plan_value r)))"

text \<open>\<open>_execute_query\<close> once the call is admitted.\<close>

definition execute_query_rest ::
  "(string \<Rightarrow> bool) \<Rightarrow> server_config \<Rightarrow> database \<Rightarrow> call_context \<Rightarrow> string \<Rightarrow> string \<Rightarrow> int \<Rightarrow> string \<Rightarrow> string
     \<Rightarrow> string \<Rightarrow> row tool_op" where
  "execute_query_rest float_text cfg db cc tool inst instance_number database_name sql_statement normalized =
     tool_bind (tool_return (enforce (sc_guard cfg) tool sql_statement)) (\<lambda>_.
       tool_bind (step_db (execute_read_in_database (sc_cm cfg) db inst database_name sql_statement
           (max_result_rows (sc_policy cfg)))) (\<lambda>(columns, rows).
         tool_bind (set_rows (length rows)) (\<lambda>_.
           tool_bind
             (if normalized = ''FULL''
              then tool_bind (explain_step float_text cfg db inst database_name sql_statement)
                     (\<lambda>p. tool_return (Inr [(''plan'', p)]))
              else tool_return (Inr []))
             (\<lambda>plan.
               tool_return (Inr ([(''instance_number'', VInt instance_number),
                 (''database_name'', VStr database_name),
                 (''execution_datetime_utc'', VStr (cc_utc_now cc)),
                 (''view_mode'', VStr normalized), (''columns'', VList (map VStr columns)),
                 (''row_count'', VInt (int (length rows))), (''rows'', rows_value rows)]
                 @ plan))))))"

definition execute_query_body ::
  "(string \<Rightarrow> bool) \<Rightarrow> server_config \<Rightarrow> database \<Rightarrow> call_context \<Rightarrow> string \<Rightarrow> string \<Rightarrow> int
     \<Rightarrow> string \<Rightarrow> string \<Rightarrow> string \<Rightarrow> row tool_op" where
  "execute_query_body float_text cfg db cc tool inst instance_number database_name sql_statement view_mode =
     tool_bind (tool_return (validate_view_mode view_mode)) (\<lambda>normalized.
       tool_bind (admit_call cfg cc ''read'') (\<lambda>_.
         execute_query_rest float_text cfg db cc tool inst instance_number database_name sql_statement normalized))"

definition execute_query_tool ::
  "(string \<Rightarrow> bool) \<Rightarrow> server_config \<Rightarrow> database \<Rightarrow> call_context \<Rightarrow> string \<Rightarrow> string \<Rightarrow> int
     \<Rightarrow> string \<Rightarrow> string \<Rightarrow> string \<Rightarrow> string \<Rightarrow> server_state \<Rightarrow> server_state \<times> row result" where
  "execute_query_tool float_text cfg db cc tool inst instance_number database_name sql_statement
       view_mode actor =
     run_tool (wrap_errors {ValueErr, PermissionErr}) cc tool inst sql_statement actor
       (execute_query_body float_text cfg db cc tool inst instance_number database_name sql_statement view_mode)"

end
