(* ===== verification/Tool_Safety.thy ===== *)
theory Tool_Safety
  imports Tool_Execution
begin

text \<open>
  What every tool call of \<open>Tool_Execution\<close> guarantees: one audit event, no database access before
  the call is admitted, refused statements never sent, the session limit of the whole server.
  \<open>serve\<close> dispatches a request to its handler, as the MCP server does by tool name, for ten tools:
  select, exec_proc, the four reports, ping, list_tools, list_object and execute_query.  The five
  analysis tools have theories of their own; the data endpoint of the dashboard app and the refresh
  route are in \<open>Sessions_Dashboard\<close>; \<open>latency_report\<close> answers a fixed hint.
\<close>

datatype tool_request =
    SelectReq string string
  | ExecProcReq string "pyval list" string
  | BlockReq string
  | TopQueriesReq int string
  | ActiveSessionsReq int string
  | IndexHealthReq int string
  | PingReq
  | ListToolsReq
  | ListObjectReq string string
  | ExecuteQueryReq string string string

record tool_binding =
  tb_tool :: string
  tb_instance :: string
  tb_number :: int
  tb_registered :: "string list"
  tb_float_text :: "string \<Rightarrow> bool"

definition serve ::
  "server_config \<Rightarrow> database \<Rightarrow> tool_binding \<Rightarrow> call_context \<Rightarrow> string \<Rightarrow> tool_request
     \<Rightarrow> server_state \<Rightarrow> server_state \<times> row result" where
  "serve cfg db tb cc actor req =
     (let tool = tb_tool tb; inst = tb_instance tb; nr = tb_number tb in
      case req of
        SelectReq sql d \<Rightarrow> select_tool cfg db cc tool inst sql actor d
      | ExecProcReq p ps d \<Rightarrow> exec_proc_tool cfg db cc tool inst p ps actor d
      | BlockReq d \<Rightarrow> block_report_tool cfg db cc tool inst actor d
      | TopQueriesReq n d \<Rightarrow> top_queries_report_tool cfg db cc tool inst n actor d
      | ActiveSessionsReq n d \<Rightarrow> active_sessions_report_tool cfg db cc tool inst n actor d
      | IndexHealthReq n d \<Rightarrow> index_health_report_tool cfg db cc tool inst n actor d
      | PingReq \<Rightarrow> ping_tool cfg db cc tool inst nr actor
      | ListToolsReq \<Rightarrow> list_tools_tool (tb_registered tb) cfg db cc tool inst nr actor
      | ListObjectReq d ty \<Rightarrow> list_object_tool cfg db cc tool inst nr d ty actor
      | ExecuteQueryReq d sql vm \<Rightarrow> execute_query_tool (tb_float_text tb) cfg db cc tool inst nr d sql vm actor)"

section \<open>Sequencing\<close>

lemma tool_bind_assoc: "tool_bind (tool_bind m f) g = tool_bind m (\<lambda>x. tool_bind (f x) g)"
  by (auto simp: fun_eq_iff tool_bind_def split: prod.splits sum.splits)

lemma tool_bind_return: "tool_bind m (\<lambda>x. tool_return (Inr x)) = m"
  by (auto simp: fun_eq_iff tool_bind_def tool_return_def split: prod.splits sum.splits)

lemma tool_return_bind: "tool_bind (tool_return (Inr x)) f = f x"
  by (simp add: fun_eq_iff tool_bind_def tool_return_def)

section \<open>Audit\<close>

definition quiet :: "'a tool_op \<Rightarrow> bool" where
  "quiet op \<longleftrightarrow> (\<forall>t t' r. op t = (t', r) \<longrightarrow>
     ss_audit (tr_state t') = ss_audit (tr_state t) \<and> ss_requests (tr_state t') = ss_requests (tr_state t)
     \<and> ss_denied (tr_state t') = ss_denied (tr_state t))"

named_theorems quiet_ops \<open>operations that write no audit event\<close>

lemma quiet_return [quiet_ops]: "quiet (tool_return r)"
  by (simp add: quiet_def tool_return_def)

lemma quiet_bind [quiet_ops]: "quiet m \<Longrightarrow> (\<And>x. quiet (f x)) \<Longrightarrow> quiet (tool_bind m f)"
  unfolding quiet_def tool_bind_def
  by (intro allI impI) (simp split: prod.splits sum.splits; metis)

lemma quiet_authorize [quiet_ops]: "quiet (step_authorize cfg cc p)"
  by (auto simp: quiet_def step_authorize_def split: sum.splits)

lemma quiet_touch [quiet_ops]: "quiet (step_touch cc)"
  by (auto simp: quiet_def step_touch_def split: prod.splits)

lemma quiet_rate [quiet_ops]: "quiet (step_rate cc)"
  by (auto simp: quiet_def step_rate_def split: prod.splits)

lemma quiet_db [quiet_ops]: "quiet (step_db op)"
  by (auto simp: quiet_def step_db_def split: prod.splits)

lemma quiet_set_rows [quiet_ops]: "quiet (set_rows n)"
  by (auto simp: quiet_def set_rows_def)

lemma quiet_explain [quiet_ops]: "quiet (explain_step ft cfg db inst d sql)"
  by (auto simp: quiet_def explain_step_def split: prod.splits)

lemma quiet_admit [quiet_ops]: "quiet (admit_call cfg cc p)"
  unfolding admit_call_def by (intro quiet_ops)

lemma quiet_read_rows [quiet_ops]: "quiet (read_rows cfg db inst sql m d)"
  unfolding read_rows_def by (auto intro!: quiet_ops split: option.split)

lemma quiet_case_prod [quiet_ops]: "(\<And>a b. quiet (f a b)) \<Longrightarrow> quiet (case p of (a, b) \<Rightarrow> f a b)"
  by (cases p) simp

lemma quiet_read_body [quiet_ops]: "quiet (read_body cfg db cc sql tool inst m d)"
  unfolding read_body_def by (intro quiet_ops)

definition audited :: "string \<Rightarrow> string \<Rightarrow> bool \<Rightarrow> server_state \<Rightarrow> server_state \<Rightarrow> bool" where
  "audited tool inst ok s s' \<longleftrightarrow>
     (\<exists>e. ss_audit s' = ss_audit s @ [e] \<and> ae_tool e = tool \<and> ae_instance e = inst
        \<and> ss_requests s' = ss_requests s @ [(tool, inst, ae_decision e)]
        \<and> ae_decision e = (if ok then ''allow'' else ''deny'')
        \<and> (ae_error_code e = None) = ok
        \<and> ss_denied s \<le> ss_denied s' \<and> ss_denied s' \<le> ss_denied s + (if ok then 0 else 1))"

lemma run_tool_audited:
  assumes "quiet body" "run_tool oe cc tool inst sql actor body s = (s', r)"
  shows "audited tool inst (is_ok (snd (body \<lparr>tr_state = s, run_actor = actor, run_auth = None,
    run_rows = 0\<rparr>))) s s'"
proof -
  obtain t r1 where b: "body \<lparr>tr_state = s, run_actor = actor, run_auth = None, run_rows = 0\<rparr> = (t, r1)"
    by force
  from assms(1) b have "ss_audit (tr_state t) = ss_audit s \<and> ss_requests (tr_state t) = ss_requests s
      \<and> ss_denied (tr_state t) = ss_denied s"
    unfolding quiet_def by fastforce
  then show ?thesis
    using assms(2) b
    by (cases r1) (auto simp: run_tool_def finish_def log_audit_event_def audited_def Let_def
        split: prod.splits)
qed

lemma run_tool_result:
  "snd (run_tool oe cc tool inst sql actor body s) =
     (case snd (body \<lparr>tr_state = s, run_actor = actor, run_auth = None, run_rows = 0\<rparr>) of
        Inr x \<Rightarrow> Inr x | Inl e \<Rightarrow> snd (snd (oe e)))"
  by (auto simp: run_tool_def Let_def split: prod.splits sum.splits)

lemma run_tool_raises:
  assumes "quiet body" "\<And>e. \<not> is_ok (snd (snd (oe e)))"
    and "run_tool oe cc tool inst sql actor body s = (s', r)"
  shows "audited tool inst (is_ok r) s s'"
proof -
  have "is_ok r = is_ok (snd (body \<lparr>tr_state = s, run_actor = actor, run_auth = None, run_rows = 0\<rparr>))"
    using run_tool_result [of oe cc tool inst sql actor body s] assms(2,3)
    by (auto split: sum.splits)
  with run_tool_audited [OF assms(1,3)] show ?thesis by simp
qed

lemma reraise_not_ok: "\<not> is_ok (snd (snd (reraise_errors e)))"
  by (simp add: reraise_errors_def)

lemma wrap_not_ok: "\<not> is_ok (snd (snd (wrap_errors K e)))"
  by (simp add: wrap_errors_def)

lemma quiet_if [quiet_ops]: "quiet a \<Longrightarrow> quiet b \<Longrightarrow> quiet (if c then a else b)"
  by simp

lemma run_read_audited:
  "run_read_tool cfg db cc sql tool inst actor m d s = (s', r) \<Longrightarrow> audited tool inst (is_ok r) s s'"
  unfolding run_read_tool_def by (rule run_tool_raises [OF quiet_read_body reraise_not_ok])

lemma quiet_select_body: "quiet (select_body cfg db cc tool inst sql d)"
  unfolding select_body_def select_rest_def Let_def by (intro quiet_ops)

lemma quiet_exec_proc_body: "quiet (exec_proc_body cfg db cc tool inst p ps d)"
  unfolding exec_proc_body_def exec_proc_rest_def Let_def by (intro quiet_ops)

lemma quiet_list_tools_body: "quiet (list_tools_body reg cfg db cc inst nr)"
  unfolding list_tools_body_def list_tools_rest_def Let_def by (intro quiet_ops)

lemma quiet_list_object_body: "quiet (list_object_body cfg db cc inst nr d ty)"
  unfolding list_object_body_def list_object_rest_def Let_def by (intro quiet_ops)

lemma quiet_execute_query_body: "quiet (execute_query_body ft cfg db cc tool inst nr d sql vm)"
  unfolding execute_query_body_def execute_query_rest_def Let_def by (intro quiet_ops)

lemma quiet_ping_body: "quiet (ping_body cfg db cc inst nr)"
  unfolding ping_body_def ping_rest_def Let_def by (intro quiet_ops)

lemma select_audited:
  "select_tool cfg db cc tool inst sql actor d s = (s', r) \<Longrightarrow> audited tool inst (is_ok r) s s'"
  unfolding select_tool_def by (rule run_tool_raises [OF quiet_select_body reraise_not_ok])

lemma exec_proc_audited:
  "exec_proc_tool cfg db cc tool inst p ps actor d s = (s', r) \<Longrightarrow> audited tool inst (is_ok r) s s'"
  unfolding exec_proc_tool_def by (rule run_tool_raises [OF quiet_exec_proc_body reraise_not_ok])

lemma list_tools_audited:
  "list_tools_tool reg cfg db cc tool inst nr actor s = (s', r) \<Longrightarrow> audited tool inst (is_ok r) s s'"
  unfolding list_tools_tool_def by (rule run_tool_raises [OF quiet_list_tools_body wrap_not_ok])

lemma list_object_audited:
  "list_object_tool cfg db cc tool inst nr d ty actor s = (s', r) \<Longrightarrow> audited tool inst (is_ok r) s s'"
  unfolding list_object_tool_def by (rule run_tool_raises [OF quiet_list_object_body wrap_not_ok])

lemma execute_query_audited:
  "execute_query_tool ft cfg db cc tool inst nr d sql vm actor s = (s', r) \<Longrightarrow> audited tool inst (is_ok r) s s'"
  unfolding execute_query_tool_def by (rule run_tool_raises [OF quiet_execute_query_body wrap_not_ok])

lemma ping_audited:
  "ping_tool cfg db cc tool inst nr actor s = (s', r) \<Longrightarrow> \<exists>ok. audited tool inst ok s s'"
  unfolding ping_tool_def using run_tool_audited [OF quiet_ping_body] by blast

lemma serve_audited:
  assumes "serve cfg db tb cc actor req s = (s', r)"
  shows "\<exists>ok. audited (tb_tool tb) (tb_instance tb) ok s s' \<and> (req \<noteq> PingReq \<longrightarrow> ok = is_ok r)"
  using assms ping_audited
  by (cases req)
    (auto simp: serve_def block_report_tool_def top_queries_report_tool_def active_sessions_report_tool_def
      index_health_report_tool_def Let_def
      dest: run_read_audited select_audited exec_proc_audited list_tools_audited list_object_audited
        execute_query_audited)

text \<open>
  C4: every call of the ten tools of \<open>serve\<close> that runs to its end, whatever its outcome, appends
  exactly one audit event for its tool and instance and one metrics entry with the same decision
  (a call that is cancelled is not covered, nor are \<open>latency_report\<close> and the dashboard app's data
  endpoint, which write none); the decision is \<open>allow\<close> exactly if there is no
  error code and, for every tool but ping, exactly if the caller gets a result; a call adds at
  most one to the denied requests, and nothing when it is allowed.
\<close>

theorem every_call_audited_once:
  assumes "serve cfg db tb cc actor req s = (s', r)"
  shows "\<exists>e. ss_audit s' = ss_audit s @ [e] \<and> ae_tool e = tb_tool tb \<and> ae_instance e = tb_instance tb
    \<and> ss_requests s' = ss_requests s @ [(tb_tool tb, tb_instance tb, ae_decision e)]
    \<and> ae_decision e \<in> {''allow'', ''deny''}
    \<and> (ae_decision e = ''allow'' \<longleftrightarrow> ae_error_code e = None)
    \<and> (req = PingReq \<or> (ae_decision e = ''allow'' \<longleftrightarrow> is_ok r))
    \<and> ss_denied s \<le> ss_denied s'
    \<and> ss_denied s' \<le> ss_denied s + (if ae_decision e = ''allow'' then 0 else 1)"
proof -
  obtain ok where ok: "audited (tb_tool tb) (tb_instance tb) ok s s'" "req \<noteq> PingReq \<longrightarrow> ok = is_ok r"
    using serve_audited [OF assms] by blast
  then show ?thesis unfolding audited_def by (cases ok) (auto split: if_splits)
qed

section \<open>Admission before the database\<close>

text \<open>\<open>admitted\<close>: authorization, session and rate limit let the call pass, for the resolved actor.\<close>

definition admitted :: "server_config \<Rightarrow> call_context \<Rightarrow> string \<Rightarrow> string \<Rightarrow> server_state \<Rightarrow> bool" where
  "admitted cfg cc required actor s \<longleftrightarrow>
     (\<exists>a ctx. resolve_actor_and_authorize (sc_auth cfg) (cc_token cc) actor required = Inr (a, ctx)
        \<and> is_ok (fst (touch \<lparr>tr_actor = a, tr_request_id = cc_request_id cc,
             tr_mcp_session_id = cc_session_id cc, tr_now = cc_touch_now cc,
             tr_cleanup_now = cc_cleanup_now cc\<rparr> (ss_sessions s)))
        \<and> is_ok (fst (allow (a, cc_rate_now cc) (ss_rate s))))"

definition start_run :: "server_state \<Rightarrow> string \<Rightarrow> tool_run" where
  "start_run s actor = \<lparr>tr_state = s, run_actor = actor, run_auth = None, run_rows = 0\<rparr>"

definition sent :: "tool_run \<Rightarrow> history" where
  "sent t = ss_history (tr_state t)"

definition silent :: "'a tool_op \<Rightarrow> bool" where
  "silent op \<longleftrightarrow> (\<forall>t. sent (fst (op t)) = sent t)"

named_theorems silent_ops \<open>operations that do not use the database\<close>

lemma silent_return [silent_ops]: "silent (tool_return r)"
  by (simp add: silent_def tool_return_def)

lemma silent_bind [silent_ops]: "silent m \<Longrightarrow> (\<And>x. silent (f x)) \<Longrightarrow> silent (tool_bind m f)"
  unfolding silent_def tool_bind_def
  by (intro allI) (simp split: prod.splits sum.splits; metis fst_conv)

lemma silent_steps [silent_ops]:
  "silent (step_authorize cfg cc p)" "silent (step_touch cc)" "silent (step_rate cc)" "silent (set_rows n)"
  by (auto simp: silent_def sent_def step_authorize_def step_touch_def step_rate_def set_rows_def
      split: sum.splits prod.splits)

lemma silent_admit [silent_ops]: "silent (admit_call cfg cc p)"
  unfolding admit_call_def by (intro silent_ops)

text \<open>If a call used the database, every step before the first use succeeded.\<close>

lemma used_bind:
  assumes "silent m" "sent (fst (tool_bind m f t)) \<noteq> sent t"
  shows "\<exists>t1 x. m t = (t1, Inr x) \<and> sent t1 = sent t \<and> tool_bind m f t = f x t1"
proof -
  obtain t1 r where m: "m t = (t1, r)" by force
  with assms(1) have "sent t1 = sent t" unfolding silent_def by (metis fst_conv)
  with m assms(2) show ?thesis by (cases r) (auto simp: tool_bind_def)
qed

lemma admit_call_admitted:
  assumes "admit_call cfg cc required t = (t1, Inr ())"
  shows "admitted cfg cc required (run_actor t) (tr_state t)"
proof -
  obtain t2 where a: "step_authorize cfg cc required t = (t2, Inr ())"
    using assms by (auto simp: admit_call_def tool_bind_def split: prod.splits sum.splits)
  then obtain b ctx where r: "resolve_actor_and_authorize (sc_auth cfg) (cc_token cc) (run_actor t) required
      = Inr (b, ctx)" "t2 = t\<lparr>run_actor := b, run_auth := Some ctx\<rparr>"
    by (auto simp: step_authorize_def split: sum.splits)
  obtain t3 where tt: "step_touch cc t2 = (t3, Inr ())"
    using assms a by (auto simp: admit_call_def tool_bind_def split: prod.splits sum.splits)
  have "step_rate cc t3 = (t1, Inr ())"
    using assms a tt by (auto simp: admit_call_def tool_bind_def)
  then show ?thesis
    using r tt unfolding admitted_def
    by (auto simp: step_touch_def step_rate_def Let_def split: prod.splits)
qed

text \<open>The statement a caller writes, and the tool name the guard sees it under.\<close>

definition guard_passes :: "server_config \<Rightarrow> string \<Rightarrow> tool_request \<Rightarrow> bool" where
  "guard_passes cfg tool req = (case req of
       SelectReq sql d \<Rightarrow> is_ok (enforce (sc_guard cfg) tool sql)
     | ExecuteQueryReq d sql vm \<Rightarrow> is_ok (enforce (sc_guard cfg) tool sql)
     | ExecProcReq p ps d \<Rightarrow> is_ok (validate_procedure (sc_guard cfg) tool p)
         \<and> is_ok (enforce (sc_guard cfg) tool ''EXEC __policy_probe__'')
     | _ \<Rightarrow> True)"

definition required_privilege :: "tool_request \<Rightarrow> string" where
  "required_privilege req = (case req of ExecProcReq _ _ _ \<Rightarrow> ''write'' | _ \<Rightarrow> ''read'')"

lemma used_admit:
  assumes "sent (fst (tool_bind (admit_call cfg cc p) f t)) \<noteq> sent t"
  shows "admitted cfg cc p (run_actor t) (tr_state t)
    \<and> (\<exists>t1. sent t1 = sent t \<and> tool_bind (admit_call cfg cc p) f t = f () t1)"
  using used_bind [OF silent_admit assms] admit_call_admitted [of cfg cc p t] by (metis (full_types) unit.exhaust)

lemma used_return:
  assumes "sent (fst (tool_bind (tool_return r) f t)) \<noteq> sent t"
  shows "\<exists>x. r = Inr x \<and> sent (fst (f x t)) \<noteq> sent t"
  using assms by (cases r) (auto simp: tool_bind_def tool_return_def)

lemma used_guarded:
  assumes "sent (fst (tool_bind (admit_call cfg cc p) (\<lambda>_. tool_bind (tool_return r) f) t)) \<noteq> sent t"
  shows "admitted cfg cc p (run_actor t) (tr_state t)
    \<and> (\<exists>x t1. r = Inr x \<and> sent (fst (f x t1)) \<noteq> sent t1)"
proof -
  obtain t1 where t1: "sent t1 = sent t" "tool_bind (admit_call cfg cc p) (\<lambda>_. tool_bind (tool_return r) f) t
      = tool_bind (tool_return r) f t1" "admitted cfg cc p (run_actor t) (tr_state t)"
    using used_admit [OF assms] by blast
  then have "sent (fst (tool_bind (tool_return r) f t1)) \<noteq> sent t1" using assms by simp
  from used_return [OF this] t1(3) show ?thesis by blast
qed

lemma run_tool_history:
  "ss_history (fst (run_tool oe cc tool inst sql actor body s)) = sent (fst (body (start_run s actor)))"
  by (auto simp: run_tool_def finish_def start_run_def sent_def Let_def split: prod.splits sum.splits)

lemma start_run_simps [simp]:
  "sent (start_run s actor) = ss_history s" "run_actor (start_run s actor) = actor"
  "tr_state (start_run s actor) = s"
  by (simp_all add: start_run_def sent_def)

lemma select_used:
  assumes "sent (fst (select_body cfg db cc tool inst sql d t)) \<noteq> sent t"
  shows "admitted cfg cc ''read'' (run_actor t) (tr_state t) \<and> is_ok (enforce (sc_guard cfg) tool sql)"
  using used_guarded [OF assms [unfolded select_body_def select_rest_def]] by fastforce

lemma read_used:
  assumes "sent (fst (read_body cfg db cc sql tool inst m d t)) \<noteq> sent t"
  shows "admitted cfg cc ''read'' (run_actor t) (tr_state t)"
  using used_admit [OF assms [unfolded read_body_def]] by blast

lemma exec_proc_used:
  assumes "sent (fst (exec_proc_body cfg db cc tool inst p ps d t)) \<noteq> sent t"
  shows "admitted cfg cc ''write'' (run_actor t) (tr_state t) \<and> is_ok (validate_procedure (sc_guard cfg) tool p)
    \<and> is_ok (enforce (sc_guard cfg) tool ''EXEC __policy_probe__'')"
  using used_guarded [OF assms [unfolded exec_proc_body_def exec_proc_rest_def]] used_return by fastforce

lemma ping_used:
  "sent (fst (ping_body cfg db cc inst nr t)) \<noteq> sent t \<Longrightarrow> admitted cfg cc ''read'' (run_actor t) (tr_state t)"
  unfolding ping_body_def ping_rest_def using used_admit by blast

lemma list_tools_used:
  "sent (fst (list_tools_body reg cfg db cc inst nr t)) \<noteq> sent t \<Longrightarrow>
   admitted cfg cc ''read'' (run_actor t) (tr_state t)"
  unfolding list_tools_body_def list_tools_rest_def using used_admit by blast

lemma list_object_used:
  "sent (fst (list_object_body cfg db cc inst nr d ty t)) \<noteq> sent t \<Longrightarrow>
   admitted cfg cc ''read'' (run_actor t) (tr_state t)"
  unfolding list_object_body_def list_object_rest_def using used_admit by blast

lemma execute_query_used:
  assumes "sent (fst (execute_query_body ft cfg db cc tool inst nr d sql vm t)) \<noteq> sent t"
  shows "admitted cfg cc ''read'' (run_actor t) (tr_state t) \<and> is_ok (enforce (sc_guard cfg) tool sql)"
  using used_return [OF assms [unfolded execute_query_body_def execute_query_rest_def]] used_guarded by fastforce

lemmas serve_defs =
  serve_def select_tool_def exec_proc_tool_def run_read_tool_def block_report_tool_def
  top_queries_report_tool_def active_sessions_report_tool_def index_health_report_tool_def
  ping_tool_def list_tools_tool_def list_object_tool_def execute_query_tool_def Let_def

text \<open>
  What authorization demands where authentication is enforced: a token whose groups (any token, where
  group authorization is off) give the privilege.
\<close>

definition entitled :: "auth_config option \<Rightarrow> row option \<Rightarrow> string \<Rightarrow> bool" where
  "entitled auth token required \<longleftrightarrow> (\<forall>cfg. auth = Some cfg \<and> auth_enforced auth \<longrightarrow>
     (\<exists>claims privilege matches. token = Some claims
        \<and> resolve_group_privilege (row_get_or claims (azure_group_claim_name cfg) (VList []))
            (azure_read_groups cfg) (azure_write_groups cfg) (azure_group_authorization_enabled cfg)
          = Inr (privilege, matches)
        \<and> (privilege = ''write'' \<or> privilege = ''read'' \<and> required = ''read'')))"

lemma resolved_entitled:
  assumes "resolve_actor_and_authorize auth token actor required = Inr r" "required \<in> {''read'', ''write''}"
  shows "entitled auth token required"
proof -
  have "priv \<in> {''write'', ''read'', ''none''}" if "resolve_group_privilege g rs ws e = Inr (priv, m)" for g rs ws e priv m
    using that by (auto simp: resolve_group_privilege_def bind_res_Inr Let_def split: if_splits)
  then show ?thesis
    using assms
    by (fastforce simp: entitled_def resolve_actor_and_authorize_def Let_def bind_res_Inr
        split: option.splits if_splits prod.splits)
qed

lemma required_privileges: "required_privilege req \<in> {''read'', ''write''}"
  by (cases req) (simp_all add: required_privilege_def)

text \<open>
  C1: in a call of the ten tools of \<open>serve\<close>, nothing is sent to a database, not even a connection
  opened, unless the call was authorized with the privilege its tool needs (write for procedures,
  read otherwise), its session was accepted, the rate limiter let it pass, and, for a statement or
  procedure of the caller, the write guard accepted it.  Where authentication is enforced, being
  authorized means a token that gives the privilege; where it is not, every caller is.  The analysis
  tools are another property; the dashboard app's data endpoint and the refresh route ask for no
  authorization and are not covered.
\<close>

theorem database_only_after_admission:
  assumes "ss_history (fst (serve cfg db tb cc actor req s)) \<noteq> ss_history s"
  shows "admitted cfg cc (required_privilege req) actor s
    \<and> entitled (sc_auth cfg) (cc_token cc) (required_privilege req)
    \<and> guard_passes cfg (tb_tool tb) req"
proof -
  have start: "sent (fst (body (start_run s actor))) \<noteq> sent (start_run s actor)"
    if "ss_history (fst (run_tool oe cc tool inst sql actor body s)) \<noteq> ss_history s"
    for oe and body :: "row tool_op" and tool inst sql
    using that by (simp add: run_tool_history)
  note used = select_used read_used exec_proc_used ping_used list_tools_used list_object_used execute_query_used
  have "admitted cfg cc (required_privilege req) actor s \<and> guard_passes cfg (tb_tool tb) req"
    using assms
    by (cases req)
      (simp_all only: serve_defs tool_request.simps required_privilege_def guard_passes_def,
        (drule start, drule used, simp)+)
  then show ?thesis
    using resolved_entitled [OF _ required_privileges] unfolding admitted_def by metis
qed

section \<open>Refused statements\<close>

lemma ok_bind:
  "is_ok (snd (tool_bind m f t)) \<Longrightarrow> \<exists>t1 x. m t = (t1, Inr x) \<and> is_ok (snd (f x t1))"
  by (auto simp: tool_bind_def split: prod.splits sum.splits)

lemma ok_return: "is_ok (snd (tool_bind (tool_return r) f t)) \<Longrightarrow> \<exists>x. r = Inr x \<and> is_ok (snd (f x t))"
  by (cases r) (auto simp: tool_bind_def tool_return_def)

lemma ok_admit:
  assumes "is_ok (snd (tool_bind (admit_call cfg cc p) f t))"
  shows "admitted cfg cc p (run_actor t) (tr_state t) \<and> (\<exists>t1. is_ok (snd (f () t1)))"
proof -
  obtain t1 where "admit_call cfg cc p t = (t1, Inr ())" "is_ok (snd (f () t1))"
    using ok_bind [OF assms] by (metis (full_types) unit.exhaust)
  then show ?thesis using admit_call_admitted by blast
qed

lemma run_tool_ok:
  assumes "\<And>e. \<not> is_ok (snd (snd (oe e)))"
  shows "is_ok (snd (run_tool oe cc tool inst sql actor body s)) = is_ok (snd (body (start_run s actor)))"
  using assms by (simp add: run_tool_result start_run_def split: sum.splits)

lemma select_ok:
  "is_ok (snd (select_body cfg db cc tool inst sql d t)) \<Longrightarrow> is_ok (enforce (sc_guard cfg) tool sql)"
  unfolding select_body_def select_rest_def by (drule ok_admit) (auto dest: ok_return)

lemma execute_query_ok:
  "is_ok (snd (execute_query_body ft cfg db cc tool inst nr d sql vm t)) \<Longrightarrow>
   is_ok (enforce (sc_guard cfg) tool sql)"
  unfolding execute_query_body_def execute_query_rest_def
  by (drule ok_return, elim exE conjE, drule ok_admit) (auto dest: ok_return)

lemma exec_proc_ok:
  "is_ok (snd (exec_proc_body cfg db cc tool inst p ps d t)) \<Longrightarrow>
   admitted cfg cc ''write'' (run_actor t) (tr_state t)
   \<and> is_ok (validate_procedure (sc_guard cfg) tool p) \<and> is_ok (enforce (sc_guard cfg) tool ''EXEC __policy_probe__'')"
  unfolding exec_proc_body_def exec_proc_rest_def by (drule ok_admit) (auto dest!: ok_return)

text \<open>A caller's statement that the guard refuses is neither sent nor answered.\<close>

lemma serve_refused:
  assumes "req = SelectReq sql d \<or> req = ExecuteQueryReq d sql vm"
    and "\<not> is_ok (enforce (sc_guard cfg) (tb_tool tb) sql)"
  shows "ss_history (fst (serve cfg db tb cc actor req s)) = ss_history s
    \<and> \<not> is_ok (snd (serve cfg db tb cc actor req s))"
proof -
  have start: "sent (fst (body (start_run s actor))) \<noteq> sent (start_run s actor)"
    if "ss_history (fst (run_tool oe cc tool inst sql actor body s)) \<noteq> ss_history s"
    for oe and body :: "row tool_op" and tool inst sql
    using that by (simp add: run_tool_history)
  have select: "ss_history (fst (serve cfg db tb cc actor (SelectReq sql d) s)) = ss_history s"
    unfolding serve_defs tool_request.simps using start select_used assms(2) by blast
  have execute: "ss_history (fst (serve cfg db tb cc actor (ExecuteQueryReq d sql vm) s)) = ss_history s"
    unfolding serve_defs tool_request.simps using start execute_query_used assms(2) by blast
  have "ss_history (fst (serve cfg db tb cc actor req s)) = ss_history s"
    using assms(1) select execute by blast
  moreover have "\<not> is_ok (snd (serve cfg db tb cc actor req s))"
    using assms select_ok execute_query_ok
    by (auto simp: serve_defs run_tool_ok [of reraise_errors, OF reraise_not_ok] run_tool_ok [OF wrap_not_ok])
  ultimately show ?thesis by blast
qed

text \<open>
  C2: on a server whose policy denies writes, a \<open>select\<close> or \<open>execute_query\<close> call under a tool name
  that is not in \<open>allowed_write_tools\<close> sends nothing to any database and raises, for every caller and
  every database, if its statement is a write verb, in any case, followed by white space or the end,
  behind any mix of white space, block comments that end at their first end mark (not nested), and
  line comments without an opening mark of a block comment.  Other comments can hide the verb
  (\<open>comments_hide_verb\<close>).
\<close>

theorem write_statement_never_sent:
  assumes "write_mode_default (wg_policy (sc_guard cfg)) = ''deny''"
    and "tb_tool tb \<notin> set (allowed_write_tools (wg_policy (sc_guard cfg)))"
    and "trivia t" and "py_upper v \<in> write_verbs" and "rest = [] \<or> is_space (hd rest)"
    and "req = SelectReq (t @ v @ rest) d \<or> req = ExecuteQueryReq d (t @ v @ rest) vm"
  shows "ss_history (fst (serve cfg db tb cc actor req s)) = ss_history s
    \<and> \<not> is_ok (snd (serve cfg db tb cc actor req s))"
  using serve_refused [OF assms(6)] enforce_write_verb [OF assms(1-5)] by fastforce

text \<open>
  C3: a procedure call that gets an answer was admitted with write privilege, names an allowed
  procedure, and comes from a tool that may write: under a policy that denies writes the tool is
  in \<open>allowed_write_tools\<close>.
\<close>

theorem procedure_needs_grant:
  assumes "is_ok (snd (serve cfg db tb cc actor (ExecProcReq p ps d) s))"
  shows "admitted cfg cc ''write'' actor s \<and> is_ok (validate_procedure (sc_guard cfg) (tb_tool tb) p)
    \<and> (write_mode_default (wg_policy (sc_guard cfg)) = ''deny''
        \<longrightarrow> tb_tool tb \<in> set (allowed_write_tools (wg_policy (sc_guard cfg))))"
proof -
  let ?body = "exec_proc_body cfg db cc (tb_tool tb) (tb_instance tb) p ps d"
  have "is_ok (snd (?body (start_run s actor)))"
    using assms by (simp add: serve_defs run_tool_ok [OF reraise_not_ok])
  from exec_proc_ok [OF this] have adm: "admitted cfg cc ''write'' actor s"
    "is_ok (validate_procedure (sc_guard cfg) (tb_tool tb) p)"
    "is_ok (enforce (sc_guard cfg) (tb_tool tb) ''EXEC __policy_probe__'')" by auto
  have v: "py_upper ''EXEC'' \<in> write_verbs" by code_simp
  have "\<exists>e. enforce (sc_guard cfg) (tb_tool tb) ([] @ ''EXEC'' @ '' __policy_probe__'') = Inl e"
    if "write_mode_default (wg_policy (sc_guard cfg)) = ''deny''"
      "tb_tool tb \<notin> set (allowed_write_tools (wg_policy (sc_guard cfg)))"
    using enforce_write_verb [OF that trivia_empty v, of "'' __policy_probe__''"] by (auto simp: is_space_def)
  with adm show ?thesis by fastforce
qed

section \<open>Limits of the whole server\<close>

definition within_limits :: "int \<Rightarrow> int \<Rightarrow> int \<Rightarrow> server_state \<Rightarrow> bool" where
  "within_limits sl al gl s \<longleftrightarrow>
     sm_wf (ss_sessions s) \<and> sm_limit (ss_sessions s) = sl
     \<and> actor_limit (ss_rate s) = al \<and> global_limit (ss_rate s) = gl
     \<and> (\<forall>a. int (length (sessions_of a (ss_sessions s))) \<le> max 0 sl)
     \<and> (\<forall>a. int (length (bucket_of a (ss_rate s))) \<le> max 0 al)
     \<and> int (length (rl_global_events (ss_rate s))) \<le> max 0 gl"

definition keeps :: "(server_state \<Rightarrow> bool) \<Rightarrow> 'a tool_op \<Rightarrow> bool" where
  "keeps P op \<longleftrightarrow> (\<forall>t. P (tr_state t) \<longrightarrow> P (tr_state (fst (op t))))"

named_theorems keeps_ops \<open>operations that keep the server within its limits\<close>

lemma keeps_return [keeps_ops]: "keeps P (tool_return r)"
  by (simp add: keeps_def tool_return_def)

lemma keeps_bind [keeps_ops]: "keeps P m \<Longrightarrow> (\<And>x. keeps P (f x)) \<Longrightarrow> keeps P (tool_bind m f)"
  unfolding keeps_def tool_bind_def
  by (intro allI impI) (simp split: prod.splits sum.splits; metis fst_conv)

lemma keeps_touch [keeps_ops]: "keeps (within_limits sl al gl) (step_touch cc)"
  unfolding keeps_def
proof (intro allI impI)
  fix t :: tool_run assume w: "within_limits sl al gl (tr_state t)"
  let ?q = "\<lparr>tr_actor = run_actor t, tr_request_id = cc_request_id cc, tr_mcp_session_id = cc_session_id cc,
    tr_now = cc_touch_now cc, tr_cleanup_now = cc_cleanup_now cc\<rparr>"
  have s: "tr_state (fst (step_touch cc t)) = (tr_state t)\<lparr>ss_sessions := snd (touch ?q (ss_sessions (tr_state t)))\<rparr>"
    by (simp add: step_touch_def split_beta Let_def)
  show "within_limits sl al gl (tr_state (fst (step_touch cc t)))"
    using w sessions.admit_wf [where q = ?q and s = "ss_sessions (tr_state t)"]
      sessions.admit_bounded [where q = ?q and s = "ss_sessions (tr_state t)"]
      sessions.admit_cap [where q = ?q and s = "ss_sessions (tr_state t)"]
    unfolding s within_limits_def by simp
qed

lemma keeps_rate [keeps_ops]: "keeps (within_limits sl al gl) (step_rate cc)"
  unfolding keeps_def
proof (intro allI impI)
  fix t :: tool_run assume w: "within_limits sl al gl (tr_state t)"
  let ?q = "(run_actor t, cc_rate_now cc)"
  have s: "tr_state (fst (step_rate cc t)) = (tr_state t)\<lparr>ss_rate := snd (allow ?q (ss_rate (tr_state t)))\<rparr>"
    by (simp add: step_rate_def split_beta Let_def)
  show "within_limits sl al gl (tr_state (fst (step_rate cc t)))"
    using w actor_quota.admit_bounded [where q = ?q and s = "ss_rate (tr_state t)"]
      global_quota.admit_bounded [where q = ?q and s = "ss_rate (tr_state t)"]
    unfolding s within_limits_def by simp
qed

lemma keeps_other [keeps_ops]:
  "keeps (within_limits sl al gl) (step_authorize cfg cc p)"
  "keeps (within_limits sl al gl) (step_db op)"
  "keeps (within_limits sl al gl) (set_rows n)"
  "keeps (within_limits sl al gl) (explain_step ft cfg db inst d sql)"
  by (auto simp: keeps_def within_limits_def step_authorize_def step_db_def set_rows_def explain_step_def
      split: sum.splits prod.splits)

lemma keeps_admit [keeps_ops]: "keeps (within_limits sl al gl) (admit_call cfg cc p)"
  unfolding admit_call_def by (intro keeps_ops)

lemma keeps_if [keeps_ops]: "keeps P a \<Longrightarrow> keeps P b \<Longrightarrow> keeps P (if c then a else b)"
  by simp

lemma keeps_case_prod [keeps_ops]: "(\<And>a b. keeps P (f a b)) \<Longrightarrow> keeps P (case p of (a, b) \<Rightarrow> f a b)"
  by (cases p) simp

lemma keeps_case_option [keeps_ops]:
  "keeps P a \<Longrightarrow> (\<And>x. keeps P (f x)) \<Longrightarrow> keeps P (case o' of None \<Rightarrow> a | Some x \<Rightarrow> f x)"
  by (cases o') simp_all

lemma keeps_bodies:
  "keeps (within_limits sl al gl) (read_body cfg db cc sql tool inst m d')"
  "keeps (within_limits sl al gl) (select_body cfg db cc tool inst sql d)"
  "keeps (within_limits sl al gl) (exec_proc_body cfg db cc tool inst p ps d)"
  "keeps (within_limits sl al gl) (ping_body cfg db cc inst nr)"
  "keeps (within_limits sl al gl) (list_tools_body reg cfg db cc inst nr)"
  "keeps (within_limits sl al gl) (list_object_body cfg db cc inst nr d ty)"
  "keeps (within_limits sl al gl) (execute_query_body ft cfg db cc tool inst nr d sql vm)"
  unfolding read_body_def read_rows_def select_body_def select_rest_def exec_proc_body_def exec_proc_rest_def ping_body_def ping_rest_def list_tools_body_def list_tools_rest_def
    list_object_body_def list_object_rest_def execute_query_body_def execute_query_rest_def Let_def
  by (intro keeps_ops)+

lemma keeps_run_tool:
  assumes "keeps (within_limits sl al gl) body" "within_limits sl al gl s"
  shows "within_limits sl al gl (fst (run_tool oe cc tool inst sql actor body s))"
proof -
  have "within_limits sl al gl (tr_state (fst (body (start_run s actor))))"
    using assms by (simp add: keeps_def)
  then show ?thesis
    unfolding start_run_def
    by (auto simp: run_tool_def finish_def within_limits_def Let_def split: prod.splits sum.splits)
qed

inductive server_reach ::
  "server_config \<Rightarrow> database \<Rightarrow> session_manager \<Rightarrow> rate_limiter \<Rightarrow> server_state \<Rightarrow> bool"
  for cfg db sm rl where
  server_init: "server_reach cfg db sm rl \<lparr>ss_sessions = sm, ss_rate = rl, ss_denied = 0, ss_history = [],
     ss_audit = [], ss_requests = []\<rparr>"
| server_call: "server_reach cfg db sm rl s \<Longrightarrow>
     server_reach cfg db sm rl (fst (serve cfg db tb cc actor req s))"

lemma serve_within_limits:
  "within_limits sl al gl s \<Longrightarrow> within_limits sl al gl (fst (serve cfg db tb cc actor req s))"
  by (cases req) (simp_all only: serve_defs tool_request.simps keeps_run_tool keeps_bodies)

lemma server_limits:
  assumes "server_reach cfg db (session_manager_init ttl idle sl) (rate_limiter_init ar ab gr gb) s"
  shows "int (length (sessions_of a (ss_sessions s))) \<le> max 0 sl
    \<and> int (length (bucket_of a (ss_rate s))) \<le> max 0 (ar + ab)
    \<and> int (length (rl_global_events (ss_rate s))) \<le> max 0 (gr + gb)
    \<and> ss_denied s \<le> length (ss_audit s) \<and> length (ss_requests s) = length (ss_audit s)"
proof -
  have "within_limits sl (ar + ab) (gr + gb) s \<and> ss_denied s \<le> length (ss_audit s)
      \<and> length (ss_requests s) = length (ss_audit s)"
    using assms
  proof (induction rule: server_reach.induct)
    case server_init
    then show ?case
      by (simp add: within_limits_def sm_wf_init)
        (simp add: session_manager_init_def rate_limiter_init_def sessions_of_def bucket_of_def dict_get_def
          actor_limit_def global_limit_def)
  next
    case (server_call s tb cc actor req)
    obtain s' r where run: "serve cfg db tb cc actor req s = (s', r)" by force
    obtain ok where "audited (tb_tool tb) (tb_instance tb) ok s s'"
      using serve_audited [OF run] by blast
    then show ?case
      using serve_within_limits [of sl "ar + ab" "gr + gb" s cfg db tb cc actor req] server_call.IH run
      unfolding audited_def by (auto split: if_splits)
  qed
  then show ?thesis unfolding within_limits_def by blast
qed

text \<open>
  Over every run of the server, whatever the tools, callers, clock readings and answers of
  the database, no actor has more registered sessions than the limit, no more rate-limiter entries
  than its quota, and the global deque stays within the global quota; the denied-request counter
  never exceeds the number of audit events, and there is one metrics entry per audit event.
\<close>

theorem server_stays_within_limits:
  assumes "server_reach cfg db (session_manager_init ttl idle sl) (rate_limiter_init ar ab gr gb) s"
  shows "int (length (sessions_of a (ss_sessions s))) \<le> max 0 sl
    \<and> int (length (bucket_of a (ss_rate s))) \<le> max 0 (ar + ab)
    \<and> int (length (rl_global_events (ss_rate s))) \<le> max 0 (gr + gb)
    \<and> ss_denied s \<le> length (ss_audit s) \<and> length (ss_requests s) = length (ss_audit s)"
  using assms by (rule server_limits)

section \<open>A concrete server\<close>

definition example_config :: server_config where
  "example_config = \<lparr>sc_auth = None, sc_policy = default_policy,
     sc_guard = \<lparr>wg_policy = default_policy, wg_blocked = []\<rparr>, sc_cm = example_cm\<rparr>"

definition example_state :: server_state where
  "example_state = \<lparr>ss_sessions = session_manager_init 60 30 2, ss_rate = rate_limiter_init 5 0 10 0,
     ss_denied = 0, ss_history = [], ss_audit = [], ss_requests = []\<rparr>"

definition example_call :: call_context where
  "example_call = \<lparr>cc_request_id = ''r1'', cc_session_id = None, cc_token = None, cc_touch_now = 0,
     cc_cleanup_now = 0, cc_rate_now = 0, cc_utc_now = ''2024-01-01T00:00:00+00:00''\<rparr>"

definition example_binding :: "string \<Rightarrow> tool_binding" where
  "example_binding tool = \<lparr>tb_tool = tool, tb_instance = ''primary'', tb_number = 1, tb_registered = [],
     tb_float_text = (\<lambda>_. False)\<rparr>"

definition steady_db :: database where
  "steady_db h ev = Inr example_cursor"

abbreviation example_serve :: "tool_request \<Rightarrow> server_state \<times> row result" where
  "example_serve req \<equiv> serve example_config steady_db (example_binding ''db_primary_sql2019_select'')
     example_call ''bob'' req example_state"

lemma example_select: "length (ss_history (fst (example_serve (SelectReq ''SELECT 1'' [])))) = 2"
  by code_simp

theorem every_call_audited_once_witness:
  "length (ss_audit (fst (example_serve (SelectReq ''SELECT 1'' [])))) = 1"
proof -
  obtain s' r where run: "example_serve (SelectReq ''SELECT 1'' []) = (s', r)" by force
  show ?thesis using every_call_audited_once [OF run] run by (auto simp: example_state_def)
qed

theorem database_only_after_admission_witness:
  "admitted example_config example_call ''read'' ''bob'' example_state"
proof -
  have "ss_history (fst (example_serve (SelectReq ''SELECT 1'' []))) \<noteq> ss_history example_state"
    using example_select by (auto simp: example_state_def)
  from database_only_after_admission [OF this] show ?thesis
    by (simp add: required_privilege_def)
qed

theorem write_statement_never_sent_witness:
  "\<not> is_ok (snd (example_serve (ExecuteQueryReq ''db'' (''  '' @ ''Drop'' @ '' TABLE t'') ''FULL'')))"
proof -
  have g: "write_mode_default (wg_policy (sc_guard example_config)) = ''deny''"
    "tb_tool (example_binding ''db_primary_sql2019_select'') \<notin> set (allowed_write_tools (wg_policy (sc_guard example_config)))"
    by (simp_all add: example_config_def default_policy_def)
  have t: "trivia ''  ''" by (intro trivia.intros) (simp_all add: is_space_def)
  have v: "py_upper ''Drop'' \<in> write_verbs" by code_simp
  show ?thesis
    using write_statement_never_sent [OF g t v, where rest = "'' TABLE t''" and d = "''db''" and vm = "''FULL''"]
    by (simp add: is_space_def)
qed

definition writer_config :: server_config where
  "writer_config = example_config\<lparr>sc_guard := \<lparr>wg_policy = default_policy\<lparr>allowed_write_tools := [''exec''],
     allowed_tools := [(''exec'', [(''allowed_procedures'', [''dbo.usp_X''])])]\<rparr>, wg_blocked = []\<rparr>\<rparr>"

theorem procedure_needs_grant_witness:
  "admitted writer_config example_call ''write'' ''bob'' example_state"
proof -
  have "is_ok (snd (serve writer_config steady_db (example_binding ''exec'') example_call ''bob''
      (ExecProcReq ''dbo.usp_x'' [VInt 1] []) example_state))"
    by code_simp
  from procedure_needs_grant [OF this] show ?thesis by blast
qed

theorem server_stays_within_limits_witness:
  "int (length (sessions_of ''bob'' (ss_sessions (fst (example_serve PingReq))))) \<le> max 0 2"
proof -
  have "server_reach example_config steady_db (session_manager_init 60 30 2) (rate_limiter_init 5 0 10 0) example_state"
    using server_init unfolding example_state_def .
  from server_stays_within_limits [OF server_call [OF this]] show ?thesis by blast
qed

section \<open>Reported and charged identities\<close>

text \<open>
  Ping answers a caller without a token, on a server that enforces authentication, that the
  instance is unreachable, although no connection was attempted.
\<close>

theorem ping_hides_denial:
  assumes "auth_enforced (sc_auth cfg)" and "cc_token cc = None"
  shows "ss_history (fst (serve cfg db tb cc actor PingReq s)) = ss_history s
    \<and> (\<exists>payload. snd (serve cfg db tb cc actor PingReq s) = Inr payload
          \<and> row_get payload ''accessible'' = VBool False
          \<and> row_get payload ''error_code''
              = VStr ''INSTANCE_UNREACHABLE: AUTH_FAILED: missing or invalid bearer token'')"
proof -
  obtain auth where auth: "sc_auth cfg = Some auth" using assms(1) by (cases "sc_auth cfg") (auto simp: auth_enforced_def)
  have "admit_call cfg cc ''read'' t
      = (t, Inl (permission_error ''AUTH_FAILED: missing or invalid bearer token''))" for t
    using assms auth by (simp add: admit_call_def tool_bind_def step_authorize_def resolve_actor_and_authorize_def)
  then show ?thesis
    by (simp add: serve_defs ping_body_def ping_rest_def run_tool_def tool_bind_def ping_errors_def finish_def row_get_def dict_get_def)
qed

theorem ping_hides_denial_witness:
  "row_get (projr (snd (serve (example_config\<lparr>sc_auth := Some (default_auth\<lparr>azure_auth_enabled := True\<rparr>)\<rparr>)
      steady_db (example_binding ''db_1_sql2019_ping'') example_call ''bob'' PingReq example_state)))
     ''accessible'' = VBool False"
  using ping_hides_denial [of "example_config\<lparr>sc_auth := Some (default_auth\<lparr>azure_auth_enabled := True\<rparr>)\<rparr>"
      example_call steady_db "example_binding ''db_1_sql2019_ping''" "''bob''" example_state]
  by (auto simp: auth_enforced_def example_call_def)

text \<open>
  An authenticated caller chooses the name it is charged under: any actor other than
  \<open>system\<close> and \<open>unknown\<close> is taken over as it is, so under a name without recent calls the
  actor quota lets every call pass that the global quota lets pass, whatever the caller's own
  number of calls.
\<close>

theorem fresh_name_evades_quota:
  assumes "resolve_actor_and_authorize auth token actor required = Inr (a, ctx)"
    and "actor \<notin> {''system'', ''unknown''}" and "bucket_of actor rl = []" and "0 < actor_limit rl"
  shows "a = actor \<and> (is_ok (fst (allow (a, now) rl))
    \<longleftrightarrow> int (length (prune (rl_global_events rl) now)) < global_limit rl)"
proof -
  have "a = actor"
    using assms(1,2)
    by (auto simp: resolve_actor_and_authorize_def bind_res_Inr Let_def split: option.splits if_splits pyval.splits)
  then show ?thesis using assms(3,4) by (simp add: allow_fst prune_def)
qed

theorem fresh_name_evades_quota_witness:
  "is_ok (fst (allow (''bob2'', 0) (rate_limiter_init 1 0 10 0)))"
proof -
  have r: "resolve_actor_and_authorize None None ''bob2'' ''read'' = Inr (''bob2'',
      \<lparr>ax_mode = ''disabled'', ax_subject = VNone, ax_privilege = ''none'', ax_groups = None\<rparr>)"
    by (simp add: resolve_actor_and_authorize_def)
  show ?thesis
    using fresh_name_evades_quota [OF r, of "rate_limiter_init 1 0 10 0" 0]
    by (simp add: rate_limiter_init_def bucket_of_def dict_get_def actor_limit_def global_limit_def prune_def)
qed

end
