(* ===== verification/Config_Loader.thy ===== *)
theory Config_Loader
  imports Config_Models
begin

text \<open>
  \<open>src/config_loader.py\<close>: the environment overrides of the policy, the instances and the
  authentication settings, and the assembly of the application configuration.

  \<open>json.loads\<close>, \<open>yaml.safe_load\<close> and pydantic's \<open>model_validate\<close> are arguments, and so is the
  process environment.  \<open>update_data\<close> is the list of field assignments collected so far, which
  \<open>model_copy(update=...)\<close> applies without validating them again.
\<close>

section \<open>Parsers\<close>

text \<open>The \<open>json.loads\<close> block both map parsers begin with.\<close>

definition json_object :: "(string \<Rightarrow> pyval result) \<Rightarrow> string \<Rightarrow> string \<Rightarrow> row result" where
  "json_object json_loads nm raw =
     (case json_loads raw of
        Inl e \<Rightarrow> Inl (if exc_name e = ''JSONDecodeError'' then value_error (nm @ '' must be valid JSON'') else e)
      | Inr (VDict d) \<Rightarrow> Inr d
      | Inr _ \<Rightarrow> Inl (value_error (nm @ '' must be a JSON object'')))"

text \<open>The keys of a JSON object are always strings, so only the values are checked.\<close>

fun bool_entries :: "string \<Rightarrow> row \<Rightarrow> bool dict \<Rightarrow> bool dict result" where
  "bool_entries msg [] parsed = Inr parsed"
| "bool_entries msg ((key, v) # entries) parsed =
     (case v of VBool b \<Rightarrow> bool_entries msg entries (dict_set key b parsed)
      | _ \<Rightarrow> Inl (value_error msg))"

definition parse_bool_map :: "(string \<Rightarrow> pyval result) \<Rightarrow> string \<Rightarrow> string \<Rightarrow> bool dict result" where
  "parse_bool_map json_loads nm raw =
     bind_res (json_object json_loads nm raw) (\<lambda>payload.
       bool_entries (nm @ '' entries must map string keys to boolean values'') payload [])"

fun nested_entries :: "string \<Rightarrow> row \<Rightarrow> bool dict dict \<Rightarrow> bool dict dict result" where
  "nested_entries nm [] parsed = Inr parsed"
| "nested_entries nm ((inst, v) # entries) parsed =
     (case v of
        VDict mapping \<Rightarrow>
          bind_res (bool_entries (nm @ '' nested entries must map tool names to boolean values'') mapping [])
            (\<lambda>inner. nested_entries nm entries (dict_set inst inner parsed))
      | _ \<Rightarrow> Inl (value_error (nm @ '' must map instance names to JSON objects'')))"

definition parse_nested_bool_map ::
  "(string \<Rightarrow> pyval result) \<Rightarrow> string \<Rightarrow> string \<Rightarrow> bool dict dict result" where
  "parse_nested_bool_map json_loads nm raw =
     bind_res (json_object json_loads nm raw) (\<lambda>payload. nested_entries nm payload [])"

definition parse_csv_values :: "string \<Rightarrow> string list" where
  "parse_csv_values raw = split_strip (CHR '','') raw"

definition parse_int_value :: "string \<Rightarrow> string \<Rightarrow> int result" where
  "parse_int_value nm raw = (case parse_int raw of Some i \<Rightarrow> Inr i
     | None \<Rightarrow> Inl (value_error (nm @ '' must be an integer'')))"

definition parse_positive_int_value :: "string \<Rightarrow> string \<Rightarrow> int result" where
  "parse_positive_int_value nm raw = bind_res (parse_int_value nm raw) (\<lambda>v.
     if v \<le> 0 then Inl (value_error (nm @ '' must be a positive integer (> 0)'')) else Inr v)"

definition parse_bool_value :: "string \<Rightarrow> string \<Rightarrow> bool result" where
  "parse_bool_value nm raw =
     (let v = py_lower (py_strip raw) in
      if v \<in> {''1'', ''true'', ''yes'', ''on''} then Inr True
      else if v \<in> {''0'', ''false'', ''no'', ''off''} then Inr False
      else Inl (value_error (nm @ '' must be a boolean'')))"

section \<open>Overrides\<close>

text \<open>\<open>values = env or dict(os.environ)\<close>: an empty mapping counts as none.\<close>

definition env_values :: "string dict \<Rightarrow> string dict option \<Rightarrow> string dict" where
  "env_values environ env = (case env of Some e \<Rightarrow> if e = [] then environ else e | None \<Rightarrow> environ)"

text \<open>\<open>v = values.get(key); if v: update_data[...] = parse(v)\<close>\<close>

definition env_field ::
  "string dict \<Rightarrow> string \<Rightarrow> (string \<Rightarrow> 'v result) \<Rightarrow> ('v \<Rightarrow> 'c \<Rightarrow> 'c) \<Rightarrow>
   ('c \<Rightarrow> 'c) list \<Rightarrow> ('c \<Rightarrow> 'c) list result" where
  "env_field vals key parse upd update_data =
     (case map_of vals key of
        None \<Rightarrow> Inr update_data
      | Some raw \<Rightarrow>
          if raw = [] then Inr update_data
          else bind_res (parse raw) (\<lambda>v. Inr (update_data @ [upd v])))"

definition model_copy :: "('c \<Rightarrow> 'c) list \<Rightarrow> 'c \<Rightarrow> 'c" where
  "model_copy update_data c = fold (\<lambda>u x. u x) update_data c"

definition apply_policy_env_overrides ::
  "(string \<Rightarrow> pyval result) \<Rightarrow> string dict \<Rightarrow> string dict option \<Rightarrow> runtime_policy \<Rightarrow> runtime_policy result" where
  "apply_policy_env_overrides json_loads environ env policy =
     (let vals = env_values environ env in
      bind_res (env_field vals ''FASTMCP_TOOL_ENABLE_FLAGS_JSON''
          (parse_bool_map json_loads ''FASTMCP_TOOL_ENABLE_FLAGS_JSON'')
          (\<lambda>v p. p\<lparr>tool_enable_flags := v\<rparr>) []) (\<lambda>u.
      bind_res (env_field vals ''FASTMCP_INSTANCE_TOOL_ENABLE_FLAGS_JSON''
          (parse_nested_bool_map json_loads ''FASTMCP_INSTANCE_TOOL_ENABLE_FLAGS_JSON'')
          (\<lambda>v p. p\<lparr>instance_tool_enable_flags := v\<rparr>) u) (\<lambda>u.
      Inr (if u = [] then policy else model_copy u policy))))"

definition apply_instance_env_overrides ::
  "string dict \<Rightarrow> string dict option \<Rightarrow> sql_instance_config list \<Rightarrow> sql_instance_config list result" where
  "apply_instance_env_overrides environ env instances =
     (let vals = env_values environ env in
      bind_res (env_field vals ''FASTMCP_SQL_POOL_ENABLED''
          (parse_bool_value ''FASTMCP_SQL_POOL_ENABLED'') (\<lambda>v c. c\<lparr>pool_enabled := v\<rparr>) []) (\<lambda>u.
      bind_res (env_field vals ''FASTMCP_SQL_POOL_MAX''
          (parse_positive_int_value ''FASTMCP_SQL_POOL_MAX'') (\<lambda>v c. c\<lparr>pool_max := v\<rparr>) u) (\<lambda>u.
      bind_res (env_field vals ''FASTMCP_SQL_POOL_IDLE_TIMEOUT_SEC''
          (parse_positive_int_value ''FASTMCP_SQL_POOL_IDLE_TIMEOUT_SEC'')
          (\<lambda>v c. c\<lparr>pool_idle_timeout_sec := v\<rparr>) u) (\<lambda>u.
      bind_res (env_field vals ''FASTMCP_SQL_POOL_ACQUIRE_TIMEOUT_SEC''
          (parse_positive_int_value ''FASTMCP_SQL_POOL_ACQUIRE_TIMEOUT_SEC'')
          (\<lambda>v c. c\<lparr>pool_acquire_timeout_sec := v\<rparr>) u) (\<lambda>u.
      Inr (if u = [] then instances else map (model_copy u) instances))))))"

definition auth_updates :: "string dict \<Rightarrow> (auth_config \<Rightarrow> auth_config) list result" where
  "auth_updates vals =
     bind_res (env_field vals ''FASTMCP_AUTH_MODE'' (\<lambda>s. Inr (py_strip s)) (\<lambda>v a. a\<lparr>auth_mode := v\<rparr>) []) (\<lambda>u.
     bind_res (env_field vals ''FASTMCP_AZURE_AUTH_ENABLED'' (parse_bool_value ''FASTMCP_AZURE_AUTH_ENABLED'')
       (\<lambda>v a. a\<lparr>azure_auth_enabled := v\<rparr>) u) (\<lambda>u.
     bind_res (env_field vals ''FASTMCP_AZURE_GROUP_AUTHORIZATION_ENABLED''
       (parse_bool_value ''FASTMCP_AZURE_GROUP_AUTHORIZATION_ENABLED'')
       (\<lambda>v a. a\<lparr>azure_group_authorization_enabled := v\<rparr>) u) (\<lambda>u.
     bind_res (env_field vals ''FASTMCP_AZURE_TENANT_ID'' (\<lambda>s. Inr (py_strip s))
       (\<lambda>v a. a\<lparr>azure_tenant_id := Some v\<rparr>) u) (\<lambda>u.
     bind_res (env_field vals ''FASTMCP_AZURE_CLIENT_ID'' (\<lambda>s. Inr (py_strip s))
       (\<lambda>v a. a\<lparr>azure_client_id := Some v\<rparr>) u) (\<lambda>u.
     bind_res (env_field vals ''FASTMCP_AZURE_CLIENT_SECRET_REF'' (\<lambda>s. Inr (py_strip s))
       (\<lambda>v a. a\<lparr>azure_client_secret_ref := Some v\<rparr>) u) (\<lambda>u.
     bind_res (env_field vals ''FASTMCP_AZURE_REQUIRED_SCOPES'' (\<lambda>s. Inr (parse_csv_values s))
       (\<lambda>v a. a\<lparr>azure_required_scopes := v\<rparr>) u) (\<lambda>u.
     bind_res (env_field vals ''FASTMCP_AZURE_BASE_URL'' (\<lambda>s. Inr (py_strip s))
       (\<lambda>v a. a\<lparr>azure_base_url := Some v\<rparr>) u) (\<lambda>u.
     bind_res (env_field vals ''FASTMCP_AZURE_IDENTIFIER_URI'' (\<lambda>s. Inr (py_strip s))
       (\<lambda>v a. a\<lparr>azure_identifier_uri := Some v\<rparr>) u) (\<lambda>u.
     bind_res (env_field vals ''FASTMCP_AZURE_GROUP_CLAIM_NAME'' (\<lambda>s. Inr (py_strip s))
       (\<lambda>v a. a\<lparr>azure_group_claim_name := v\<rparr>) u) (\<lambda>u.
     bind_res (env_field vals ''FASTMCP_AZURE_READ_GROUPS'' (\<lambda>s. Inr (parse_csv_values s))
       (\<lambda>v a. a\<lparr>azure_read_groups := v\<rparr>) u) (\<lambda>u.
     bind_res (env_field vals ''FASTMCP_AZURE_WRITE_GROUPS'' (\<lambda>s. Inr (parse_csv_values s))
       (\<lambda>v a. a\<lparr>azure_write_groups := v\<rparr>) u) (\<lambda>u.
     bind_res (env_field vals ''FASTMCP_POOL_MAX_CONNECTIONS''
       (parse_int_value ''FASTMCP_POOL_MAX_CONNECTIONS'') (\<lambda>v a. a\<lparr>pool_max_connections := v\<rparr>) u) (\<lambda>u.
     bind_res (env_field vals ''FASTMCP_POOL_MAX_KEEPALIVE''
       (parse_int_value ''FASTMCP_POOL_MAX_KEEPALIVE'')
       (\<lambda>v a. a\<lparr>pool_max_keepalive_connections := v\<rparr>) u) (\<lambda>u.
     env_field vals ''FASTMCP_POOL_TIMEOUT_SECONDS''
       (parse_int_value ''FASTMCP_POOL_TIMEOUT_SECONDS'')
       (\<lambda>v a. a\<lparr>pool_timeout_seconds := v\<rparr>) u))))))))))))))"

definition apply_auth_env_overrides ::
  "string dict \<Rightarrow> string dict option \<Rightarrow> auth_config \<Rightarrow> auth_config result" where
  "apply_auth_env_overrides environ env auth =
     bind_res (auth_updates (env_values environ env)) (\<lambda>u.
       Inr (if u = [] then auth else model_copy u auth))"

section \<open>Loading\<close>

definition load_yaml :: "(string \<Rightarrow> pyval result) \<Rightarrow> string \<Rightarrow> row result" where
  "load_yaml safe_load path =
     bind_res (safe_load path) (\<lambda>data.
       case py_or data (VDict []) of VDict d \<Rightarrow> Inr d
       | _ \<Rightarrow> Inl (value_error (''YAML at '' @ path @ '' must be a mapping'')))"

text \<open>\<open>for item in v\<close>: a list's items, a dictionary's keys, a string's characters.\<close>

definition py_iter :: "pyval \<Rightarrow> pyval list result" where
  "py_iter v = (case v of VList xs \<Rightarrow> Inr xs | VDict d \<Rightarrow> Inr (map (VStr \<circ> fst) d)
     | VStr s \<Rightarrow> Inr (map (\<lambda>c. VStr [c]) s) | _ \<Rightarrow> Inl (type_error ''object is not iterable''))"

record config_models =
  validate_instance :: "pyval \<Rightarrow> sql_instance_config result"
  validate_policy :: "pyval \<Rightarrow> runtime_policy result"
  validate_auth :: "pyval \<Rightarrow> auth_config result"
  validate_rate_limit :: "pyval \<Rightarrow> rate_limit_config result"

record app_config =
  app_instances :: "sql_instance_config list"
  app_policy :: runtime_policy
  app_rate_limit :: rate_limit_config
  app_auth :: auth_config

definition load_config ::
  "config_models \<Rightarrow> (string \<Rightarrow> pyval result) \<Rightarrow> (string \<Rightarrow> pyval result) \<Rightarrow> string dict \<Rightarrow>
   string \<Rightarrow> string \<Rightarrow> string \<Rightarrow> app_config result" where
  "load_config models json_loads safe_load environ instances_path policy_path rate_limit_path =
     bind_res (load_yaml safe_load instances_path) (\<lambda>instances_raw.
     bind_res (load_yaml safe_load policy_path) (\<lambda>policy_raw.
     bind_res (load_yaml safe_load rate_limit_path) (\<lambda>rate_limit_raw.
     bind_res (py_iter (row_get_or instances_raw ''instances'' (VList []))) (\<lambda>items.
     bind_res (map_res (validate_instance models) items) (\<lambda>instances.
     bind_res (apply_instance_env_overrides environ None instances) (\<lambda>instances.
     if instances = [] then Inl (value_error ''At least one SQL instance must be configured'')
     else
     bind_res (validate_policy models (VDict policy_raw)) (\<lambda>policy.
     bind_res (apply_policy_env_overrides json_loads environ None policy) (\<lambda>policy.
     bind_res (validate_auth models (row_get_or policy_raw ''auth'' (VDict []))) (\<lambda>auth.
     bind_res (apply_auth_env_overrides environ None auth) (\<lambda>auth.
     bind_res (validate_rate_limit models (VDict rate_limit_raw)) (\<lambda>rate.
     Inr \<lparr>app_instances = instances, app_policy = policy, app_rate_limit = rate, app_auth = auth\<rparr>)))))))))))"

section \<open>What an override does\<close>

text \<open>The value a variable gives, if it is set to a non-empty text that parses.\<close>

definition env_value :: "string dict \<Rightarrow> string \<Rightarrow> (string \<Rightarrow> 'v result) \<Rightarrow> 'v \<Rightarrow> 'v" where
  "env_value vals key parse old =
     (case map_of vals key of None \<Rightarrow> old | Some raw \<Rightarrow> if raw = [] then old else projr (parse raw))"

definition override :: "string dict \<Rightarrow> string \<Rightarrow> (string \<Rightarrow> 'v result) \<Rightarrow> ('v \<Rightarrow> 'c \<Rightarrow> 'c) \<Rightarrow> 'c \<Rightarrow> 'c" where
  "override vals key parse upd c =
     (case map_of vals key of None \<Rightarrow> c | Some raw \<Rightarrow> if raw = [] then c else upd (projr (parse raw)) c)"

lemma model_copy_snoc: "model_copy (u @ [f]) c = f (model_copy u c)"
  by (simp add: model_copy_def)

lemma model_copy_Nil [simp]: "model_copy [] c = c"
  by (simp add: model_copy_def)

lemma map_model_copy: "(if u = [] then cs else map (model_copy u) cs) = map (model_copy u) cs"
  by (simp add: map_idI)

lemma env_field_override:
  "env_field vals key parse upd u = Inr u' \<Longrightarrow> model_copy u' c = override vals key parse upd (model_copy u c)"
  by (auto simp: env_field_def override_def bind_res_Inr model_copy_snoc split: option.splits if_splits)

lemma env_field_valid:
  "env_field vals key parse upd u = Inr u' \<Longrightarrow> map_of vals key = Some raw \<Longrightarrow> raw \<noteq> [] \<Longrightarrow> is_ok (parse raw)"
  by (auto simp: env_field_def bind_res_Inr)

lemma override_keeps:
  "(\<And>v x. f (upd v x) = f x) \<Longrightarrow> f (override vals key parse upd c) = f c"
  by (simp add: override_def split: option.splits)

lemma override_sets:
  "(\<And>v x. f (upd v x) = v) \<Longrightarrow> f (override vals key parse upd c) = env_value vals key parse (f c)"
  by (simp add: override_def env_value_def split: option.splits)

lemma override_update:
  "(\<And>x. upd (f x) x = x) \<Longrightarrow> override vals key parse upd c = upd (env_value vals key parse (f c)) c"
  by (simp add: override_def env_value_def split: option.splits)

lemma apply_auth_model_copy:
  assumes "apply_auth_env_overrides environ env auth = Inr auth'"
  obtains u where "auth_updates (env_values environ env) = Inr u" "auth' = model_copy u auth"
  using assms by (auto simp: apply_auth_env_overrides_def bind_res_Inr split: if_splits)

text \<open>The chain of assignments, as one composition of overrides.\<close>

definition auth_overridden :: "string dict \<Rightarrow> auth_config \<Rightarrow> auth_config" where
  "auth_overridden vals auth =
     override vals ''FASTMCP_POOL_TIMEOUT_SECONDS'' (parse_int_value ''FASTMCP_POOL_TIMEOUT_SECONDS'')
       (\<lambda>v a. a\<lparr>pool_timeout_seconds := v\<rparr>)
    (override vals ''FASTMCP_POOL_MAX_KEEPALIVE'' (parse_int_value ''FASTMCP_POOL_MAX_KEEPALIVE'')
       (\<lambda>v a. a\<lparr>pool_max_keepalive_connections := v\<rparr>)
    (override vals ''FASTMCP_POOL_MAX_CONNECTIONS'' (parse_int_value ''FASTMCP_POOL_MAX_CONNECTIONS'')
       (\<lambda>v a. a\<lparr>pool_max_connections := v\<rparr>)
    (override vals ''FASTMCP_AZURE_WRITE_GROUPS'' (\<lambda>s. Inr (parse_csv_values s)) (\<lambda>v a. a\<lparr>azure_write_groups := v\<rparr>)
    (override vals ''FASTMCP_AZURE_READ_GROUPS'' (\<lambda>s. Inr (parse_csv_values s)) (\<lambda>v a. a\<lparr>azure_read_groups := v\<rparr>)
    (override vals ''FASTMCP_AZURE_GROUP_CLAIM_NAME'' (\<lambda>s. Inr (py_strip s)) (\<lambda>v a. a\<lparr>azure_group_claim_name := v\<rparr>)
    (override vals ''FASTMCP_AZURE_IDENTIFIER_URI'' (\<lambda>s. Inr (py_strip s)) (\<lambda>v a. a\<lparr>azure_identifier_uri := Some v\<rparr>)
    (override vals ''FASTMCP_AZURE_BASE_URL'' (\<lambda>s. Inr (py_strip s)) (\<lambda>v a. a\<lparr>azure_base_url := Some v\<rparr>)
    (override vals ''FASTMCP_AZURE_REQUIRED_SCOPES'' (\<lambda>s. Inr (parse_csv_values s)) (\<lambda>v a. a\<lparr>azure_required_scopes := v\<rparr>)
    (override vals ''FASTMCP_AZURE_CLIENT_SECRET_REF'' (\<lambda>s. Inr (py_strip s)) (\<lambda>v a. a\<lparr>azure_client_secret_ref := Some v\<rparr>)
    (override vals ''FASTMCP_AZURE_CLIENT_ID'' (\<lambda>s. Inr (py_strip s)) (\<lambda>v a. a\<lparr>azure_client_id := Some v\<rparr>)
    (override vals ''FASTMCP_AZURE_TENANT_ID'' (\<lambda>s. Inr (py_strip s)) (\<lambda>v a. a\<lparr>azure_tenant_id := Some v\<rparr>)
    (override vals ''FASTMCP_AZURE_GROUP_AUTHORIZATION_ENABLED''
       (parse_bool_value ''FASTMCP_AZURE_GROUP_AUTHORIZATION_ENABLED'') (\<lambda>v a. a\<lparr>azure_group_authorization_enabled := v\<rparr>)
    (override vals ''FASTMCP_AZURE_AUTH_ENABLED'' (parse_bool_value ''FASTMCP_AZURE_AUTH_ENABLED'')
       (\<lambda>v a. a\<lparr>azure_auth_enabled := v\<rparr>)
    (override vals ''FASTMCP_AUTH_MODE'' (\<lambda>s. Inr (py_strip s)) (\<lambda>v a. a\<lparr>auth_mode := v\<rparr>) auth))))))))))))))"

lemma auth_updates_overridden:
  assumes "auth_updates vals = Inr u"
  shows "model_copy u auth = auth_overridden vals auth"
  using assms unfolding auth_updates_def bind_res_Inr auth_overridden_def
  by (elim exE conjE) (simp only: env_field_override model_copy_Nil)

lemma apply_auth_overridden:
  assumes "apply_auth_env_overrides environ env auth = Inr auth'"
  shows "auth' = auth_overridden (env_values environ env) auth"
  using assms by (elim apply_auth_model_copy) (simp only: auth_updates_overridden)

text \<open>
  An accepted set of environment variables changes the authentication settings field by
  field: each of the settings that decide who may call a tool is what its own variable says
  (the group and scope lists split at commas), and keeps its configured value if that variable
  is unset or empty.  No other variable touches it.
\<close>

theorem auth_overrides_exact:
  assumes "apply_auth_env_overrides environ env auth = Inr auth'"
  shows "let vals = env_values environ env in
      auth_mode auth' = env_value vals ''FASTMCP_AUTH_MODE'' (\<lambda>s. Inr (py_strip s)) (auth_mode auth)
    \<and> azure_auth_enabled auth' = env_value vals ''FASTMCP_AZURE_AUTH_ENABLED''
        (parse_bool_value ''FASTMCP_AZURE_AUTH_ENABLED'') (azure_auth_enabled auth)
    \<and> azure_group_authorization_enabled auth' = env_value vals ''FASTMCP_AZURE_GROUP_AUTHORIZATION_ENABLED''
        (parse_bool_value ''FASTMCP_AZURE_GROUP_AUTHORIZATION_ENABLED'') (azure_group_authorization_enabled auth)
    \<and> azure_required_scopes auth' = env_value vals ''FASTMCP_AZURE_REQUIRED_SCOPES''
        (\<lambda>s. Inr (parse_csv_values s)) (azure_required_scopes auth)
    \<and> azure_read_groups auth' = env_value vals ''FASTMCP_AZURE_READ_GROUPS''
        (\<lambda>s. Inr (parse_csv_values s)) (azure_read_groups auth)
    \<and> azure_write_groups auth' = env_value vals ''FASTMCP_AZURE_WRITE_GROUPS''
        (\<lambda>s. Inr (parse_csv_values s)) (azure_write_groups auth)
    \<and> azure_group_claim_name auth' = env_value vals ''FASTMCP_AZURE_GROUP_CLAIM_NAME''
        (\<lambda>s. Inr (py_strip s)) (azure_group_claim_name auth)"
  unfolding Let_def apply_auth_overridden [OF assms] auth_overridden_def
  by (intro conjI)
    (simp_all add: override_keeps [where f = auth_mode] override_sets [where f = auth_mode]
       override_keeps [where f = azure_auth_enabled] override_sets [where f = azure_auth_enabled]
       override_keeps [where f = azure_group_authorization_enabled]
       override_sets [where f = azure_group_authorization_enabled]
       override_keeps [where f = azure_required_scopes] override_sets [where f = azure_required_scopes]
       override_keeps [where f = azure_read_groups] override_sets [where f = azure_read_groups]
       override_keeps [where f = azure_write_groups] override_sets [where f = azure_write_groups]
       override_keeps [where f = azure_group_claim_name] override_sets [where f = azure_group_claim_name])

theorem auth_overrides_exact_witness:
  "azure_write_groups (projr (apply_auth_env_overrides
     [(''FASTMCP_AZURE_WRITE_GROUPS'', ''dba, ops,''), (''FASTMCP_AZURE_READ_GROUPS'', [])] None
     (default_auth\<lparr>azure_read_groups := [''r'']\<rparr>))) = [''dba'', ''ops'']"
proof -
  let ?env = "[(''FASTMCP_AZURE_WRITE_GROUPS'', ''dba, ops,''), (''FASTMCP_AZURE_READ_GROUPS'', [])]"
  let ?r = "apply_auth_env_overrides ?env None (default_auth\<lparr>azure_read_groups := [''r'']\<rparr>)"
  have "is_ok ?r"
    by (simp add: apply_auth_env_overrides_def auth_updates_def env_values_def env_field_def)
  then obtain auth' where r: "?r = Inr auth'" by (cases ?r) auto
  have "env_value (env_values ?env None) ''FASTMCP_AZURE_WRITE_GROUPS'' (\<lambda>s. Inr (parse_csv_values s)) []
      = [''dba'', ''ops'']" by code_simp
  with auth_overrides_exact [OF r] r show ?thesis by (simp add: Let_def default_auth_def)
qed

text \<open>The parsers of JSON flags keep the last value of each key.\<close>

lemma bool_entries_map_of:
  "bool_entries msg d parsed = Inr m \<Longrightarrow> distinct (map fst d) \<Longrightarrow>
   map_of m t = (case map_of d t of Some (VBool b) \<Rightarrow> Some b | _ \<Rightarrow> map_of parsed t)"
proof (induction msg d parsed rule: bool_entries.induct)
  case (2 msg key v entries parsed)
  then obtain b where v: "v = VBool b" by (cases v) auto
  have "map_of entries key = None" using 2(3) by (simp add: map_of_eq_None_iff)
  then show ?case using 2 v by (auto split: option.splits pyval.splits)
qed simp

text \<open>
  A tool-flag variable replaces the flags of the policy file, it does not amend them: after
  it, a tool is enabled unless the variable itself (or the instance's own map) says otherwise,
  whatever the policy file said.
\<close>

theorem flag_override_replaces:
  assumes "apply_policy_env_overrides json environ env policy = Inr policy'"
    and "map_of (env_values environ env) ''FASTMCP_TOOL_ENABLE_FLAGS_JSON'' = Some raw" "raw \<noteq> []"
    and "json raw = Inr (VDict d)" "distinct (map fst d)"
  shows "is_tool_enabled policy' i t =
     (case map_of (dict_get (instance_tool_enable_flags policy') i []) t of Some b \<Rightarrow> b
      | None \<Rightarrow> (case map_of d t of Some (VBool b) \<Rightarrow> b | _ \<Rightarrow> True))"
proof -
  let ?msg = "''FASTMCP_TOOL_ENABLE_FLAGS_JSON'' @ '' entries must map string keys to boolean values''"
  let ?vals = "env_values environ env"
  let ?p1 = "parse_bool_map json ''FASTMCP_TOOL_ENABLE_FLAGS_JSON''"
  let ?p2 = "parse_nested_bool_map json ''FASTMCP_INSTANCE_TOOL_ENABLE_FLAGS_JSON''"
  obtain u1 u2 where u:
    "env_field ?vals ''FASTMCP_TOOL_ENABLE_FLAGS_JSON'' ?p1 (\<lambda>v p. p\<lparr>tool_enable_flags := v\<rparr>) [] = Inr u1"
    "env_field ?vals ''FASTMCP_INSTANCE_TOOL_ENABLE_FLAGS_JSON'' ?p2
       (\<lambda>v p. p\<lparr>instance_tool_enable_flags := v\<rparr>) u1 = Inr u2"
    "policy' = model_copy u2 policy"
    using assms(1) by (auto simp: apply_policy_env_overrides_def Let_def bind_res_Inr split: if_splits)
  obtain m where m: "bool_entries ?msg d [] = Inr m" "?p1 raw = Inr m"
    using env_field_valid [OF u(1) assms(2,3)] assms(4)
    by (cases "?p1 raw") (auto simp: parse_bool_map_def json_object_def)
  have "tool_enable_flags policy' = env_value ?vals ''FASTMCP_TOOL_ENABLE_FLAGS_JSON'' ?p1 (tool_enable_flags policy)"
    unfolding u(3) env_field_override [OF u(2)] env_field_override [OF u(1)]
    by (simp add: override_keeps [where f = tool_enable_flags] override_sets [where f = tool_enable_flags])
  also have "\<dots> = m" using assms(2,3) m(2) by (simp add: env_value_def)
  finally have "map_of (tool_enable_flags policy') t = (case map_of d t of Some (VBool b) \<Rightarrow> Some b | _ \<Rightarrow> None)"
    using bool_entries_map_of [OF m(1) assms(5), of t] by (simp split: option.splits pyval.splits)
  then show ?thesis
    by (simp add: is_tool_enabled_def Let_def split: option.splits pyval.splits)
qed

theorem flag_override_replaces_witness:
  "\<exists>p. apply_policy_env_overrides (\<lambda>_. Inr (VDict [(''ping'', VBool True)]))
         [(''FASTMCP_TOOL_ENABLE_FLAGS_JSON'', ''{}'')] None
         (default_policy\<lparr>tool_enable_flags := [(''exec_proc'', False)]\<rparr>) = Inr p
     \<and> is_tool_enabled p ''primary'' ''exec_proc''"
proof -
  let ?json = "\<lambda>_ :: string. Inr (VDict [(''ping'', VBool True)]) :: pyval result"
  let ?env = "[(''FASTMCP_TOOL_ENABLE_FLAGS_JSON'', ''{}'')]"
  let ?r = "apply_policy_env_overrides ?json ?env None (default_policy\<lparr>tool_enable_flags := [(''exec_proc'', False)]\<rparr>)"
  have r: "?r = Inr (default_policy\<lparr>tool_enable_flags := [(''ping'', True)]\<rparr>)"
    by (simp add: apply_policy_env_overrides_def env_values_def env_field_def parse_bool_map_def
        json_object_def model_copy_def)
  then show ?thesis
    using flag_override_replaces [OF r, of "''{}''" "[(''ping'', VBool True)]" "''primary''" "''exec_proc''"]
    by (simp add: env_values_def default_policy_def dict_get_def)
qed

text \<open>
  An accepted set of environment variables changes nothing of an instance but its pool
  settings, changes them in the same way for every instance, and leaves no pool limit that is
  set by a variable at zero or below.
\<close>

theorem pool_overrides_exact:
  assumes "apply_instance_env_overrides environ env instances = Inr instances'"
  shows "let vals = env_values environ env;
             num = (\<lambda>key. env_value vals key (parse_positive_int_value key)) in
      instances' = map (\<lambda>c. c\<lparr>
          pool_enabled := env_value vals ''FASTMCP_SQL_POOL_ENABLED''
            (parse_bool_value ''FASTMCP_SQL_POOL_ENABLED'') (pool_enabled c),
          pool_max := num ''FASTMCP_SQL_POOL_MAX'' (pool_max c),
          pool_idle_timeout_sec := num ''FASTMCP_SQL_POOL_IDLE_TIMEOUT_SEC'' (pool_idle_timeout_sec c),
          pool_acquire_timeout_sec := num ''FASTMCP_SQL_POOL_ACQUIRE_TIMEOUT_SEC'' (pool_acquire_timeout_sec c)\<rparr>)
        instances
      \<and> (\<forall>key raw. key \<in> {''FASTMCP_SQL_POOL_MAX'', ''FASTMCP_SQL_POOL_IDLE_TIMEOUT_SEC'',
            ''FASTMCP_SQL_POOL_ACQUIRE_TIMEOUT_SEC''} \<and> map_of vals key = Some raw \<and> raw \<noteq> []
          \<longrightarrow> (\<forall>old. num key old > 0))"
proof -
  let ?vals = "env_values environ env"
  let ?num = "\<lambda>key. env_value ?vals key (parse_positive_int_value key)"
  obtain u1 u2 u3 u4 where u:
    "env_field ?vals ''FASTMCP_SQL_POOL_ENABLED'' (parse_bool_value ''FASTMCP_SQL_POOL_ENABLED'')
       (\<lambda>v c. c\<lparr>pool_enabled := v\<rparr>) [] = Inr u1"
    "env_field ?vals ''FASTMCP_SQL_POOL_MAX'' (parse_positive_int_value ''FASTMCP_SQL_POOL_MAX'')
       (\<lambda>v c. c\<lparr>pool_max := v\<rparr>) u1 = Inr u2"
    "env_field ?vals ''FASTMCP_SQL_POOL_IDLE_TIMEOUT_SEC''
       (parse_positive_int_value ''FASTMCP_SQL_POOL_IDLE_TIMEOUT_SEC'') (\<lambda>v c. c\<lparr>pool_idle_timeout_sec := v\<rparr>) u2 = Inr u3"
    "env_field ?vals ''FASTMCP_SQL_POOL_ACQUIRE_TIMEOUT_SEC''
       (parse_positive_int_value ''FASTMCP_SQL_POOL_ACQUIRE_TIMEOUT_SEC'')
       (\<lambda>v c. c\<lparr>pool_acquire_timeout_sec := v\<rparr>) u3 = Inr u4"
    "instances' = map (model_copy u4) instances"
    using assms
    unfolding apply_instance_env_overrides_def Let_def bind_res_Inr map_model_copy by blast
  have copy: "model_copy u4 c = c\<lparr>
          pool_enabled := env_value ?vals ''FASTMCP_SQL_POOL_ENABLED''
            (parse_bool_value ''FASTMCP_SQL_POOL_ENABLED'') (pool_enabled c),
          pool_max := ?num ''FASTMCP_SQL_POOL_MAX'' (pool_max c),
          pool_idle_timeout_sec := ?num ''FASTMCP_SQL_POOL_IDLE_TIMEOUT_SEC'' (pool_idle_timeout_sec c),
          pool_acquire_timeout_sec := ?num ''FASTMCP_SQL_POOL_ACQUIRE_TIMEOUT_SEC'' (pool_acquire_timeout_sec c)\<rparr>"
    for c
    unfolding env_field_override [OF u(4)] env_field_override [OF u(3)] env_field_override [OF u(2)]
      env_field_override [OF u(1)] model_copy_Nil
    by (simp add: override_update [where f = pool_enabled] override_update [where f = pool_max]
        override_update [where f = pool_idle_timeout_sec]
        override_update [where f = pool_acquire_timeout_sec])
  have positive: "?num key old > 0"
    if k: "key \<in> {''FASTMCP_SQL_POOL_MAX'', ''FASTMCP_SQL_POOL_IDLE_TIMEOUT_SEC'',
            ''FASTMCP_SQL_POOL_ACQUIRE_TIMEOUT_SEC''}" and r: "map_of ?vals key = Some raw" "raw \<noteq> []"
    for key raw old
  proof -
    have "is_ok (parse_positive_int_value key raw)"
      using k r env_field_valid [OF u(2), of raw] env_field_valid [OF u(3), of raw]
        env_field_valid [OF u(4), of raw]
      by (elim insertE) (simp_all only: empty_iff simp_thms)
    then show ?thesis
      using r by (cases "parse_positive_int_value key raw")
        (auto simp: env_value_def parse_positive_int_value_def bind_res_Inr split: if_splits)
  qed
  have "instances' = map (\<lambda>c. model_copy u4 c) instances" by (simp add: u(5))
  then show ?thesis
    unfolding Let_def copy using positive by blast
qed

theorem pool_overrides_exact_witness:
  "map pool_max (projr (apply_instance_env_overrides [(''FASTMCP_SQL_POOL_MAX'', '' 7'')] (Some [])
     [example_instance])) = [7]"
proof -
  let ?r = "apply_instance_env_overrides [(''FASTMCP_SQL_POOL_MAX'', '' 7'')] (Some []) [example_instance]"
  have "is_ok ?r" by code_simp
  then obtain is' where r: "?r = Inr is'" by (cases ?r) auto
  have "env_value [(''FASTMCP_SQL_POOL_MAX'', '' 7'')] ''FASTMCP_SQL_POOL_MAX''
     (parse_positive_int_value ''FASTMCP_SQL_POOL_MAX'') 1 = 7" by code_simp
  with pool_overrides_exact [OF r] r show ?thesis
    by (simp add: Let_def env_values_def example_instance_def)
qed

end
