(* ===== verification/Dashboard_Html.thy ===== *)
theory Dashboard_Html
  imports Py_Values
begin

text \<open>
  The sessions dashboard (\<open>src/tools/dashboard_payloads.py\<close>): HTML built from rows of the server's
  session, lock and wait views, and the typed state for interactive clients.  The time of
  generation is an argument.
\<close>

section \<open>The state schema\<close>

definition dashboard_state_schema :: pyval where
  "dashboard_state_schema =
     VDict [
       (''type'', VStr ''object''),
       (''properties'', VDict [
         (''generated_at_utc'', VDict [(''type'', VStr ''string''), (''format'', VStr ''date-time'')]),
         (''instance_number'', VDict [(''type'', VStr ''integer'')]),
         (''database_name'', VDict [(''type'', VStr ''string'')]),
         (''lookback_minutes'', VDict [(''type'', VStr ''integer'')]),
         (''ui_meta'', VDict [
           (''type'', VStr ''object''),
           (''properties'', VDict [
             (''loading'', VDict [(''type'', VStr ''boolean'')]),
             (''error'', VDict [(''type'', VList [VStr ''string'', VStr ''null''])]),
             (''refresh_url'', VDict [(''type'', VList [VStr ''string'', VStr ''null''])])]),
           (''required'', VList [VStr ''loading'', VStr ''error''])]),
         (''sessions'', VDict [
           (''type'', VStr ''array''),
           (''items'', VDict [
             (''type'', VStr ''object''),
             (''properties'', VDict [
               (''session_id'', VDict [(''type'', VStr ''integer'')]),
               (''login_name'', VDict [(''type'', VStr ''string'')]),
               (''host_name'', VDict [(''type'', VStr ''string'')]),
               (''program_name'', VDict [(''type'', VStr ''string'')]),
               (''session_database_name'', VDict [(''type'', VList [VStr ''string'', VStr ''null''])]),
               (''status'', VDict [(''type'', VStr ''string'')]),
               (''command'', VDict [(''type'', VList [VStr ''string'', VStr ''null''])]),
               (''open_transaction_count'', VDict [(''type'', VList [VStr ''integer'', VStr ''null''])]),
               (''sql_command'', VDict [(''type'', VList [VStr ''string'', VStr ''null''])]),
               (''login_time'', VDict [(''type'', VList [VStr ''string'', VStr ''null''])]),
               (''start_time'', VDict [(''type'', VList [VStr ''string'', VStr ''null''])]),
               (''wait_type'', VDict [(''type'', VList [VStr ''string'', VStr ''null''])]),
               (''wait_time'', VDict [(''type'', VList [VStr ''integer'', VStr ''null''])]),
               (''cpu_time'', VDict [(''type'', VList [VStr ''integer'', VStr ''null''])]),
               (''blocking_session_id'', VDict [(''type'', VList [VStr ''integer'', VStr ''null''])])])])]),
         (''locks'', VDict [
           (''type'', VStr ''array''),
           (''items'', VDict [
             (''type'', VStr ''object''),
             (''properties'', VDict [
               (''session_id'', VDict [(''type'', VStr ''integer'')]),
               (''resource_type'', VDict [(''type'', VStr ''string'')]),
               (''resource_database_id'', VDict [(''type'', VList [VStr ''integer'', VStr ''null''])]),
               (''resource_associated_entity_id'', VDict [(''type'', VList [VStr ''integer'', VStr ''null''])]),
               (''request_mode'', VDict [(''type'', VStr ''string'')]),
               (''request_status'', VDict [(''type'', VStr ''string'')]),
               (''request_owner_type'', VDict [(''type'', VStr ''string'')])])])]),
         (''blockers'', VDict [
           (''type'', VStr ''array''),
           (''items'', VDict [
             (''type'', VStr ''object''),
             (''properties'', VDict [
               (''session_id'', VDict [(''type'', VStr ''integer'')]),
               (''blocking_session_id'', VDict [(''type'', VList [VStr ''integer'', VStr ''null''])]),
               (''wait_type'', VDict [(''type'', VList [VStr ''string'', VStr ''null''])]),
               (''wait_duration_ms'', VDict [(''type'', VList [VStr ''integer'', VStr ''null''])]),
               (''resource_description'', VDict [(''type'', VList [VStr ''string'', VStr ''null''])])])])]),
         (''blocking_chains'', VDict [
           (''type'', VStr ''array''),
           (''items'', VDict [
             (''type'', VStr ''object''),
             (''properties'', VDict [
               (''session_id'', VDict [(''type'', VList [VStr ''integer'', VStr ''null''])]),
               (''blocking_session_id'', VDict [(''type'', VList [VStr ''integer'', VStr ''null''])]),
               (''wait_type'', VDict [(''type'', VList [VStr ''string'', VStr ''null''])]),
               (''wait_time'', VDict [(''type'', VList [VStr ''integer'', VStr ''null''])]),
               (''status'', VDict [(''type'', VList [VStr ''string'', VStr ''null''])]),
               (''login_name'', VDict [(''type'', VList [VStr ''string'', VStr ''null''])]),
               (''host_name'', VDict [(''type'', VList [VStr ''string'', VStr ''null''])]),
               (''command'', VDict [(''type'', VList [VStr ''string'', VStr ''null''])])])])]),
         (''head_blockers'', VDict [(''type'', VStr ''array''), (''items'', VDict [(''type'', VStr ''integer'')])]),
         (''recommendations'', VDict [
           (''type'', VStr ''array''),
           (''items'', VDict [
             (''type'', VStr ''object''),
             (''properties'', VDict [
               (''priority'', VDict [(''type'', VStr ''string'')]),
               (''action'', VDict [(''type'', VStr ''string'')]),
               (''rationale'', VDict [(''type'', VStr ''string'')])]),
             (''required'', VList [VStr ''priority'', VStr ''action'', VStr ''rationale''])])])]),
       (''required'', VList [
         VStr ''generated_at_utc'',
         VStr ''instance_number'',
         VStr ''database_name'',
         VStr ''ui_meta'',
         VStr ''sessions'',
         VStr ''locks'',
         VStr ''blockers'',
         VStr ''blocking_chains'',
         VStr ''head_blockers'',
         VStr ''recommendations''])]"

section \<open>Escaping\<close>

text \<open>\<open>html.escape(s, quote=True)\<close>\<close>

definition escape_char :: "char \<Rightarrow> string" where
  "escape_char c =
     (if c = CHR ''&'' then ''&amp;'' else if c = CHR ''<'' then ''&lt;''
      else if c = CHR ''>'' then ''&gt;'' else if c = dquote then ''&quot;''
      else if c = squote then ''&#x27;'' else [c])"

definition html_escape :: "string \<Rightarrow> string" where
  "html_escape s = concat (map escape_char s)"

definition esc :: "pyval \<Rightarrow> string" where
  "esc value = (if value = VNone then ''&mdash;'' else html_escape (py_str value))"

abbreviation esc_str :: "string \<Rightarrow> string" where
  "esc_str s \<equiv> esc (VStr s)"

section \<open>Sessions\<close>

definition coerce_optional_int :: "pyval \<Rightarrow> int" where
  "coerce_optional_int value = (case value of
       VInt i \<Rightarrow> i
     | VStr s \<Rightarrow> (case parse_int s of Some i \<Rightarrow> i | None \<Rightarrow> -1)
     | _ \<Rightarrow> -1)"

definition session_row_class :: "row \<Rightarrow> int list \<Rightarrow> string" where
  "session_row_class session head_blockers =
     (let sid = coerce_optional_int (row_get session ''session_id'') in
      if sid \<in> set head_blockers then ''row-head-blocker''
      else
        let blocker_sid = coerce_optional_int (row_get session ''blocking_session_id'') in
        if blocker_sid > 0 then ''row-blocked''
        else
          let status = py_lower (py_str (row_get_or session ''status'' (VStr [])));
              status = (if status \<notin> set [''running'', ''suspended'', ''sleeping'', ''dormant'', ''preconnect'']
                        then ''unknown'' else status)
          in if status \<in> set [''running'', ''suspended''] then ''row-active'' else ''row-idle'')"

definition html_inline_styles :: string where
  "html_inline_styles =
     [newline] @ ''<style>'' @ [newline] @ ''  :root {'' @ [newline] @
     ''    --c-active: #22c55e;'' @ [newline] @ ''    --c-idle: #94a3b8;'' @ [newline] @
     ''    --c-blocked: #ef4444;'' @ [newline] @ ''    --c-blocker: #f97316;'' @ [newline] @
     ''    --bg: #f8fafc;'' @ [newline] @ ''    --card: #ffffff;'' @ [newline] @
     ''    --text: #0f172a;'' @ [newline] @ ''    --muted: #475569;'' @ [newline] @
     ''    --border: #e2e8f0;'' @ [newline] @ ''  }'' @ [newline] @
     ''  body { margin: 0; background: var(--bg); color: var(--text); font-family: Segoe '' @
     ''UI, Arial, sans-serif; }'' @ [newline] @
     ''  .page { max-width: 1400px; margin: 0 auto; padding: 16px; }'' @ [newline] @
     ''  .meta { display: flex; gap: 8px; flex-wrap: wrap; margin: 8px 0 14px; }'' @ [newline] @
     ''    .toolbar { display: flex; gap: 12px; flex-wrap: wrap; align-items: center; '' @
     ''margin: 10px 0 0; }'' @ [newline] @
     ''  .badge { border-radius: 999px; padding: 3px 10px; font-size: 12px; font-weight: '' @
     ''700; border: 1px solid var(--border); background: #fff; }'' @ [newline] @
     ''  .badge-active { background: #dcfce7; color: #166534; }'' @ [newline] @
     ''  .badge-idle { background: #e2e8f0; color: #334155; }'' @ [newline] @
     ''  .badge-blocked { background: #fee2e2; color: #991b1b; }'' @ [newline] @
     ''  .badge-blocker { background: #ffedd5; color: #9a3412; }'' @ [newline] @
     ''  .card { background: var(--card); border: 1px solid var(--border); border-radius: '' @
     ''10px; padding: 14px; margin: 10px 0; }'' @ [newline] @
     ''    .button { border: 1px solid #0f172a; background: #0f172a; color: #fff; '' @
     ''border-radius: 8px; padding: 8px 14px; font: inherit; font-weight: 700; cursor: '' @
     ''pointer; }'' @ [newline] @ ''    .button[disabled] { opacity: 0.6; cursor: progress; }'' @
     [newline] @ ''    .mono { font-family: ui-monospace, Consolas, monospace; }'' @ [newline] @
     ''    .sql-text { max-width: 420px; white-space: pre-wrap; word-break: break-word; }'' @
     [newline] @
     ''  table { width: 100%; border-collapse: collapse; font-family: ui-monospace, '' @
     ''Consolas, monospace; font-size: 12px; }'' @ [newline] @
     ''  th, td { border-bottom: 1px solid var(--border); text-align: left; padding: 8px; '' @
     ''vertical-align: top; }'' @ [newline] @
     ''  th { background: #f1f5f9; font-weight: 700; }'' @ [newline] @
     ''  .row-active { background: #f0fdf4; }'' @ [newline] @
     ''  .row-idle { background: #f8fafc; }'' @ [newline] @
     ''  .row-blocked { background: #fef2f2; }'' @ [newline] @
     ''  .row-head-blocker { background: #fff7ed; font-weight: 700; }'' @ [newline] @
     ''  .rec-card { border-left: 4px solid #3b82f6; padding: 8px 10px; margin: 8px 0; '' @
     ''background: #eff6ff; border-radius: 6px; }'' @ [newline] @
     ''  .rec-high { border-left-color: #ef4444; background: #fef2f2; }'' @ [newline] @
     ''  .rec-medium { border-left-color: #f97316; background: #fff7ed; }'' @ [newline] @
     ''  .rec-info { border-left-color: #3b82f6; background: #eff6ff; }'' @ [newline] @
     ''  details { margin: 8px 0; }'' @ [newline] @
     ''  summary { cursor: pointer; font-weight: 700; }'' @ [newline] @
     ''  .muted { color: var(--muted); }'' @ [newline] @ ''</style>'' @ [newline]"

definition refresh_toolbar :: "string option \<Rightarrow> string" where
  "refresh_toolbar refresh_url =
     (case refresh_url of
            Some url \<Rightarrow> if url \<noteq> [] then
                ''<div class='' @ [dquote] @ ''toolbar'' @ [dquote] @ ''>'' @
                ''<button id='' @ [dquote] @ ''refresh-dashboard'' @ [dquote] @ '' class='' @ [dquote] @
         ''button'' @ [dquote] @ '' type='' @ [dquote] @ ''button'' @ [dquote] @
         '' data-refresh-url='' @ [dquote] @
                esc_str url @ [dquote] @ ''>Refresh</button>'' @
                ''<span id='' @ [dquote] @ ''refresh-status'' @ [dquote] @ '' class='' @ [dquote] @
         ''muted'' @ [dquote] @ ''>Point-in-time snapshot</span>'' @
                ''</div>''
              else []
          | None \<Rightarrow> [])"

definition html_header ::
  "int \<Rightarrow> string \<Rightarrow> string \<Rightarrow> nat \<Rightarrow> nat \<Rightarrow> nat \<Rightarrow> nat \<Rightarrow> string option \<Rightarrow> string" where
  "html_header instance_number database_name generated_at_utc session_count lock_count wait_count
       chain_count refresh_url =
     (''<header class='' @ [dquote] @ ''card'' @ [dquote] @
         ''><h1>SQL Server Sessions Dashboard</h1>'' @
         ''<div class='' @ [dquote] @ ''muted'' @ [dquote] @ ''>Instance '' @ int_str instance_number @ '' / Database '' @ esc_str database_name @ ''</div>'' @
         ''<div class='' @ [dquote] @ ''muted'' @ [dquote] @ ''>Generated '' @ esc_str generated_at_utc @ ''</div>'' @
         ''<div class='' @ [dquote] @ ''meta'' @ [dquote] @ ''>'' @
         ''<span class='' @ [dquote] @ ''badge'' @ [dquote] @ ''>Sessions: '' @ nat_str session_count @ ''</span>'' @
         ''<span class='' @ [dquote] @ ''badge'' @ [dquote] @ ''>Lock Holders: '' @ nat_str lock_count @ ''</span>'' @
         ''<span class='' @ [dquote] @ ''badge'' @ [dquote] @ ''>Waiting Tasks: '' @ nat_str wait_count @ ''</span>'' @
         ''<span class='' @ [dquote] @ ''badge'' @ [dquote] @ ''>Chain Rows: '' @ nat_str chain_count @ ''</span>'' @
         ''</div></header>'' @ refresh_toolbar refresh_url)"

definition status_badge :: "string \<Rightarrow> string" where
  "status_badge css_class =
     (if css_class = ''row-active'' then ''<span class='' @ [dquote] @ ''badge badge-active'' @ [dquote] @ ''>ACTIVE</span>''
      else if css_class = ''row-idle'' then ''<span class='' @ [dquote] @ ''badge badge-idle'' @ [dquote] @ ''>IDLE</span>''
      else if css_class = ''row-blocked'' then ''<span class='' @ [dquote] @ ''badge badge-blocked'' @ [dquote] @ ''>BLOCKED</span>''
      else ''<span class='' @ [dquote] @ ''badge badge-blocker'' @ [dquote] @
         ''>HEAD-BLOCKER</span>'')"

definition td :: "string \<Rightarrow> string" where
  "td s = ''<td>'' @ s @ ''</td>''"

definition td_class :: "string \<Rightarrow> string \<Rightarrow> string" where
  "td_class cls s = ''<td class='' @ [dquote] @ cls @ [dquote] @ ''>'' @ s @ ''</td>''"

definition session_row :: "string \<Rightarrow> row \<Rightarrow> string" where
  "session_row css_class session =
     ''<tr class='' @ [dquote] @ css_class @ [dquote] @ ''>'' @
     td (status_badge css_class) @ td (esc (row_get session ''session_id'')) @
     td (esc (row_get session ''login_name'')) @ td (esc (row_get session ''host_name'')) @
     td (esc (row_get session ''program_name'')) @ td (esc (row_get session ''session_database_name'')) @
     td (esc (row_get session ''command'')) @ td_class ''sql-text'' (esc (row_get session ''sql_command'')) @
     td_class ''mono'' (esc (row_get session ''login_time'')) @
     td_class ''mono'' (esc (row_get session ''start_time'')) @
     td (esc (row_get session ''wait_type'')) @ td (esc (row_get session ''wait_time'')) @
     td (esc (row_get session ''cpu_time'')) @ td (esc (row_get session ''open_transaction_count'')) @
     td (esc (row_get session ''blocking_session_id'')) @ ''</tr>''"

record session_counts =
  active_sessions_count :: nat
  idle_sessions_count :: nat
  blocked_sessions_count :: nat
  head_blocker_sessions_count :: nat

definition count_class :: "session_counts \<Rightarrow> string \<Rightarrow> session_counts" where
  "count_class counts css_class =
     (if css_class = ''row-active''
      then counts\<lparr>active_sessions_count := active_sessions_count counts + 1\<rparr>
      else if css_class = ''row-idle''
      then counts\<lparr>idle_sessions_count := idle_sessions_count counts + 1\<rparr>
      else if css_class = ''row-blocked''
      then counts\<lparr>blocked_sessions_count := blocked_sessions_count counts + 1\<rparr>
      else counts\<lparr>head_blocker_sessions_count := head_blocker_sessions_count counts + 1\<rparr>)"

definition session_counts_of :: "row list \<Rightarrow> int list \<Rightarrow> session_counts" where
  "session_counts_of sessions head_blockers =
     foldl count_class \<lparr>active_sessions_count = 0, idle_sessions_count = 0, blocked_sessions_count = 0,
         head_blocker_sessions_count = 0\<rparr>
       (map (\<lambda>session. session_row_class session head_blockers) sessions)"

definition html_sessions_table :: "row list \<Rightarrow> int list \<Rightarrow> string" where
  "html_sessions_table sessions head_blockers =
     (let counts = session_counts_of sessions head_blockers;
          rows_html = map (\<lambda>session. session_row (session_row_class session head_blockers) session) sessions;
          caption = ''<caption class='' @ [dquote] @ ''muted'' @ [dquote] @ ''>Sessions: '' @ nat_str (length sessions) @
            '' | Active: '' @ nat_str (active_sessions_count counts) @
            '' | Idle: '' @ nat_str (idle_sessions_count counts) @
            '' | Blocked: '' @ nat_str (blocked_sessions_count counts) @
            '' | Head-Blockers: '' @ nat_str (head_blocker_sessions_count counts) @ ''</caption>''
      in ''<section class='' @ [dquote] @ ''card'' @ [dquote] @ '' id='' @ [dquote] @ ''sessions'' @
         [dquote] @ ''><h2>Sessions</h2><table>'' @ caption @
         ''<thead><tr><th>Status</th><th>SID</th><th>Login</th><th>Host</th><th>Program</th>'' @
         ''<th>Database</th><th>Command</th><th>SQL Command</th><th>Session '' @
         ''Created</th><th>Statement Started</th><th>Wait Type</th><th>Wait (ms)</th><th>CPU '' @
         ''(ms)</th><th>Txns</th><th>Blocking SID</th></tr></thead>'' @
         ''<tbody>'' @ concat rows_html @ ''</tbody></table></section>'')"

definition html_refresh_script :: "string option \<Rightarrow> string" where
  "html_refresh_script refresh_url =
     (if refresh_url = None \<or> refresh_url = Some [] then []
      else
       ''<script>document.addEventListener('DOMContentLoaded', () => {  const button = '' @
       ''document.getElementById('refresh-dashboard');  const status = '' @
       ''document.getElementById('refresh-status');  if (!button) return;  '' @
       ''button.addEventListener('click', async () => {    const refreshUrl = '' @
       ''button.getAttribute('data-refresh-url');    button.disabled = true;    if (status) '' @
       ''status.textContent = 'Refreshing dashboard...';    try {      const response = '' @
       ''await fetch(refreshUrl, { headers: { 'X-Requested-With': 'fetch' } });      if '' @
       ''(!response.ok) throw new Error('Refresh failed');      if (status) '' @
       ''status.textContent = 'Dashboard refreshed';      window.location.reload();    } '' @
       ''catch (error) {      button.disabled = false;      if (status) status.textContent '' @
       ''= 'Refresh failed. Try again.';    }  });});</script>'')"

section \<open>Blocking chains\<close>

definition wait_by_session :: "row list \<Rightarrow> (int \<times> string) list" where
  "wait_by_session waiting_tasks =
     foldl (\<lambda>d row.
         let sid = coerce_optional_int (row_get row ''session_id'') in
         if sid < 0 then d
         else if map_of d sid \<noteq> None then d
         else dict_set sid (py_str (py_or (row_get row ''resource_description'') (VStr []))) d)
       [] waiting_tasks"

definition group_chains :: "row list \<Rightarrow> row list dict" where
  "group_chains blocking_chains =
     foldl (\<lambda>d row. let k = py_str (row_get row ''blocking_session_id'')
         in dict_set k (dict_get d k [] @ [row]) d) [] blocking_chains"

definition blocking_by_session :: "row list \<Rightarrow> (int \<times> int) list" where
  "blocking_by_session blocking_chains =
     foldl (\<lambda>d row.
         let sid = coerce_optional_int (row_get row ''session_id'');
             bsid = coerce_optional_int (row_get row ''blocking_session_id'')
         in if sid < 0 \<or> bsid < 0 then d
            else if sid > 0 \<and> bsid > 0 then dict_set sid bsid d else d)
       [] blocking_chains"

text \<open>The \<open>while\<close> loop of \<open>_depth_for_session\<close>; \<open>if depth > 16: break\<close> ends it.\<close>

function depth_loop :: "(int \<times> int) list \<Rightarrow> int list \<Rightarrow> int \<Rightarrow> nat \<Rightarrow> nat" where
  "depth_loop blocking seen current depth =
     (case map_of blocking current of
        None \<Rightarrow> depth
      | Some blocker \<Rightarrow>
          if current \<in> set seen then depth
          else if depth + 1 > 16 then depth + 1
          else depth_loop blocking (current # seen) blocker (depth + 1))"
  by pat_completeness auto
termination
  by (relation "measure (\<lambda>(blocking, seen, current, depth). 17 - depth)") auto

declare depth_loop.simps [simp del]

definition depth_for_session :: "(int \<times> int) list \<Rightarrow> int \<Rightarrow> nat" where
  "depth_for_session blocking session_id = depth_loop blocking [] session_id 0"

text \<open>\<open>max_wait\<close>: values \<open>int\<close> refuses are skipped.\<close>

definition max_wait_of :: "row list \<Rightarrow> int" where
  "max_wait_of rows =
     foldl (\<lambda>m row. case py_int (py_or (row_get row ''wait_time'') (VInt 0)) of
         Inr w \<Rightarrow> max m w | Inl _ \<Rightarrow> m) 0 rows"

definition chain_row :: "(int \<times> string) list \<Rightarrow> (int \<times> int) list \<Rightarrow> row \<Rightarrow> string" where
  "chain_row waits blocking row =
     (let sid = coerce_optional_int (row_get row ''session_id'');
          sid = (if sid < 0 then -1 else sid);
          depth = (if sid > 0 then depth_for_session blocking sid else 0)
      in ''<tr>'' @ ''<td style='' @ [dquote] @ ''padding-left: '' @ nat_str (depth * 16) @ ''px'' @ [dquote] @ ''>'' @
         esc (row_get row ''session_id'') @ ''</td>'' @ td (esc (row_get row ''login_name'')) @
         td (esc (row_get row ''host_name'')) @ td (esc (row_get row ''command'')) @
         td (esc (row_get row ''wait_type'')) @ td (esc (row_get row ''wait_time'')) @
         td (esc (case map_of waits sid of Some s \<Rightarrow> VStr s | None \<Rightarrow> VNone)) @ ''</tr>'')"

definition chain_group ::
  "(int \<times> string) list \<Rightarrow> (int \<times> int) list \<Rightarrow> string \<times> row list \<Rightarrow> string" where
  "chain_group waits blocking g =
     ''<details open><summary>Head blocker SID '' @ esc_str (fst g) @ '' | Blocked sessions: '' @
     nat_str (length (snd g)) @ '' | Max wait: '' @ esc (VInt (max_wait_of (snd g))) @ '' ms</summary>'' @
     ''<table><thead><tr><th>Blocked '' @
         ''SID</th><th>Login</th><th>Host</th><th>Command</th><th>Wait Type</th><th>Wait '' @
         ''(ms)</th><th>Resource</th></tr></thead><tbody>'' @
     concat (map (chain_row waits blocking) (snd g)) @ ''</tbody></table></details>''"

definition html_chain_section :: "row list \<Rightarrow> row list \<Rightarrow> string" where
  "html_chain_section blocking_chains waiting_tasks =
     (if blocking_chains = []
      then ''<section class='' @ [dquote] @ ''card'' @ [dquote] @ '' id='' @ [dquote] @ ''chains'' @
         [dquote] @ ''><h2>Session Chains</h2><p>No blocking chains detected.</p></section>''
      else
        let waits = wait_by_session waiting_tasks; blocking = blocking_by_session blocking_chains
        in ''<section class='' @ [dquote] @ ''card'' @ [dquote] @ '' id='' @ [dquote] @ ''chains'' @
         [dquote] @ ''><h2>Session Chains</h2>'' @
           concat (map (chain_group waits blocking) (group_chains blocking_chains)) @ ''</section>'')"

section \<open>Recommendations and pages\<close>

record mitigation =
  mit_priority :: string
  mit_action :: string
  mit_rationale :: string

definition recommendation_card :: "mitigation \<Rightarrow> string" where
  "recommendation_card rec =
     (let priority = py_lower (mit_priority rec)
      in ''<div class='' @ [dquote] @ ''rec-card rec-'' @ esc_str priority @ [dquote] @ ''><strong>['' @
         esc_str (py_upper priority) @ '']</strong> '' @ esc_str (mit_action rec) @
         ''<div class='' @ [dquote] @ ''muted'' @ [dquote] @ ''>'' @ esc_str (mit_rationale rec) @ ''</div></div>'')"

definition html_recommendations :: "mitigation list \<Rightarrow> string" where
  "html_recommendations recommendations =
     ''<section class='' @ [dquote] @ ''card'' @ [dquote] @ '' id='' @ [dquote] @
         ''recommendations'' @ [dquote] @ ''><h2>Recommendations</h2>'' @
     concat (map recommendation_card recommendations) @ ''</section>''"

definition html_footer :: "string \<Rightarrow> string" where
  "html_footer generated_at_utc =
     ''<footer class='' @ [dquote] @ ''card muted'' @ [dquote] @ ''>'' @ ''<small>MCP SQL Server - Generated '' @
     esc_str generated_at_utc @ '' - Point-in-time DMV snapshot.</small>'' @ ''</footer>''"

text \<open>\<open>build_sessions_dashboard\<close>: the page of clients without the interactive app.\<close>

definition minimal_html :: "int \<Rightarrow> string \<Rightarrow> row list \<Rightarrow> row list \<Rightarrow> string" where
  "minimal_html instance_number database_name sessions lock_chains =
     ''<section><h2>SQL Sessions Dashboard</h2>'' @
     ''<p>Instance '' @ int_str instance_number @ '' / Database '' @ database_name @ ''</p>'' @
     ''<p>Active sessions: '' @ nat_str (length sessions) @ '' | Lock chains: '' @
     nat_str (length lock_chains) @ ''</p>'' @ ''</section>''"

definition rows_list :: "row list \<Rightarrow> pyval" where
  "rows_list rows = VList (map VDict rows)"

definition build_sessions_dashboard ::
  "string \<Rightarrow> int \<Rightarrow> string \<Rightarrow> row list \<Rightarrow> row list \<Rightarrow> row" where
  "build_sessions_dashboard generated_at_utc instance_number database_name sessions lock_chains =
     [(''content_type'', VStr ''text/html''),
      (''html'', VStr (minimal_html instance_number database_name sessions lock_chains)),
      (''data'', VDict [(''generated_at_utc'', VStr generated_at_utc),
         (''instance_number'', VInt instance_number), (''database_name'', VStr database_name),
         (''widgets'', VDict [(''active_sessions'', rows_list sessions),
            (''lock_chains'', rows_list lock_chains)])])]"

text \<open>\<open>v > n\<close> for a value that may be no number.\<close>

definition greater_than :: "pyval \<Rightarrow> int \<Rightarrow> bool result" where
  "greater_than v n = (case v of
       VBool b \<Rightarrow> Inr ((if b then 1 else 0) > n)
     | VInt i \<Rightarrow> Inr (i > n)
     | VFloat r _ \<Rightarrow> Inr (r > of_int n)
     | _ \<Rightarrow> Inl (type_error ''operand does not support comparison with int''))"

fun long_waits :: "row list \<Rightarrow> row list result" where
  "long_waits [] = Inr []"
| "long_waits (w # ws) =
     bind_res (greater_than (py_or (row_get w ''wait_duration_ms'') (VInt 0)) 5000) (\<lambda>long.
       bind_res (long_waits ws) (\<lambda>rest. Inr (if long then w # rest else rest)))"

definition dashboard_recommendations :: "int list \<Rightarrow> row list \<Rightarrow> mitigation list result" where
  "dashboard_recommendations head_blockers waiting_tasks =
     bind_res (long_waits waiting_tasks) (\<lambda>waits.
       let recs =
         (if head_blockers \<noteq> [] then
            [\<lparr>mit_priority = ''high'',
              mit_action = ''Kill or investigate head blocker session(s): '' @
                py_repr (VList (map VInt (take 5 head_blockers))),
              mit_rationale = ''Detected '' @ nat_str (length head_blockers) @
                '' unique head blocking session(s) causing wait chains.''\<rparr>]
          else [])
         @ (if waits \<noteq> [] then
            [\<lparr>mit_priority = ''medium'',
              mit_action = ''Review '' @ nat_str (length waits) @ '' task(s) with wait duration > 5 s.'',
              mit_rationale = ''Long-running waits indicate lock contention, I/O pressure, or resource exhaustion.''\<rparr>]
          else [])
       in Inr (if recs = [] then
            [\<lparr>mit_priority = ''info'', mit_action = ''No immediate blocking or long-wait issues detected.'',
              mit_rationale = ''All sessions within normal wait thresholds.''\<rparr>]
          else recs))"

record dashboard_input =
  di_instance_number :: int
  di_database_name :: string
  di_sessions :: "row list"
  di_lock_chains :: "row list"
  di_tran_locks :: "row list"
  di_waiting_tasks :: "row list"
  di_head_blockers :: "int list"
  di_blocking_chains :: "row list"
  di_refresh_url :: "string option"

definition dashboard_document :: "string \<Rightarrow> dashboard_input \<Rightarrow> mitigation list \<Rightarrow> string" where
  "dashboard_document generated_at_utc di recommendations =
     ''<!DOCTYPE html><html lang='' @ [dquote] @ ''en'' @ [dquote] @ ''><head><meta charset='' @
         [dquote] @ ''utf-8'' @ [dquote] @ ''>'' @
     ''<meta name='' @ [dquote] @ ''viewport'' @ [dquote] @ '' content='' @ [dquote] @
         ''width=device-width, initial-scale=1'' @ [dquote] @ ''>'' @
     ''<title>Sessions Dashboard - Instance '' @ int_str (di_instance_number di) @ ''</title>'' @
     html_inline_styles @ ''</head><body><main class='' @ [dquote] @ ''page'' @ [dquote] @ ''>'' @
     html_header (di_instance_number di) (di_database_name di) generated_at_utc
       (length (di_sessions di)) (length (di_tran_locks di)) (length (di_waiting_tasks di))
       (length (di_blocking_chains di)) (di_refresh_url di) @
     html_sessions_table (di_sessions di) (di_head_blockers di) @
     html_chain_section (di_blocking_chains di) (di_waiting_tasks di) @
     html_recommendations recommendations @ html_footer generated_at_utc @
     html_refresh_script (di_refresh_url di) @ ''</main></body></html>''"

definition dashboard_data :: "string \<Rightarrow> dashboard_input \<Rightarrow> mitigation list \<Rightarrow> row" where
  "dashboard_data generated_at_utc di recommendations =
     [(''generated_at_utc'', VStr generated_at_utc),
      (''instance_number'', VInt (di_instance_number di)),
      (''database_name'', VStr (di_database_name di)),
      (''ui_meta'', VDict [(''loading'', VBool False), (''error'', VNone),
         (''refresh_url'', case di_refresh_url di of Some u \<Rightarrow> VStr u | None \<Rightarrow> VNone)]),
      (''sessions'', rows_list (di_sessions di)), (''locks'', rows_list (di_tran_locks di)),
      (''blockers'', rows_list (di_waiting_tasks di)),
      (''blocking_chains'', rows_list (di_blocking_chains di)),
      (''head_blockers'', VList (map VInt (di_head_blockers di))),
      (''recommendations'', VList (map (\<lambda>r. VDict [(''priority'', VStr (mit_priority r)),
         (''action'', VStr (mit_action r)), (''rationale'', VStr (mit_rationale r))]) recommendations)),
      (''widgets'', VDict [(''active_sessions'', rows_list (di_sessions di)),
         (''lock_chains'', rows_list (di_lock_chains di)), (''tran_locks'', rows_list (di_tran_locks di)),
         (''waiting_tasks'', rows_list (di_waiting_tasks di)),
         (''blocking_chains'', rows_list (di_blocking_chains di))])]"

definition build_sessions_dashboard_full :: "string \<Rightarrow> dashboard_input \<Rightarrow> row result" where
  "build_sessions_dashboard_full generated_at_utc di =
     bind_res (dashboard_recommendations (di_head_blockers di) (di_waiting_tasks di)) (\<lambda>recommendations.
       Inr [(''content_type'', VStr ''text/html''),
            (''html'', VStr (dashboard_document generated_at_utc di recommendations)),
            (''data'', VDict (dashboard_data generated_at_utc di recommendations))])"

section \<open>Escaping is faithful and safe\<close>

text \<open>The five references \<open>html.escape\<close> writes, read back.\<close>

fun html_unescape :: "string \<Rightarrow> string" where
  "html_unescape [] = []"
| "html_unescape (c # s) =
     (if c \<noteq> CHR ''&'' then c # html_unescape s
      else if prefix ''amp;'' s then CHR ''&'' # html_unescape (drop 4 s)
      else if prefix ''lt;'' s then CHR ''<'' # html_unescape (drop 3 s)
      else if prefix ''gt;'' s then CHR ''>'' # html_unescape (drop 3 s)
      else if prefix ''quot;'' s then dquote # html_unescape (drop 5 s)
      else if prefix ''#x27;'' s then squote # html_unescape (drop 5 s)
      else c # html_unescape s)"

definition is_markup :: "char \<Rightarrow> bool" where
  "is_markup c \<longleftrightarrow> c = CHR ''<'' \<or> c = CHR ''>'' \<or> c = dquote \<or> c = squote"

definition markup :: "string \<Rightarrow> string" where
  "markup s = filter is_markup s"

lemma html_escape_Cons: "html_escape (c # s) = escape_char c @ html_escape s"
  by (simp add: html_escape_def)

lemma markup_append [simp]: "markup (a @ b) = markup a @ markup b"
  by (simp add: markup_def)

lemma markup_Cons: "markup (c # s) = (if is_markup c then c # markup s else markup s)"
  by (simp add: markup_def)

lemma markup_Nil [simp]: "markup [] = []"
  by (simp add: markup_def)

lemma markup_concat: "markup (concat xss) = concat (map markup xss)"
  by (induction xss) simp_all

lemma markup_escape_char [simp]: "markup (escape_char c) = []"
  by (simp add: escape_char_def markup_Cons is_markup_def dquote_def squote_def)

lemma markup_html_escape [simp]: "markup (html_escape s) = []"
  by (induction s) (simp_all add: html_escape_def)

lemma markup_esc [simp]: "markup (esc v) = []"
  by (simp add: esc_def markup_Cons is_markup_def dquote_def squote_def)

lemma dec_not_markup: "is_dec c \<Longrightarrow> \<not> is_markup c"
  by (auto simp: is_markup_def is_dec_def dquote_def squote_def)

lemma markup_nat_str [simp]: "markup (nat_str n) = []"
  using nat_str_digits [of n] dec_not_markup by (simp add: markup_def filter_empty_conv)

lemma markup_int_str [simp]: "markup (int_str i) = []"
  by (simp add: int_str_def markup_Cons is_markup_def dquote_def squote_def)

text \<open>
  C36: a value written with \<open>_esc\<close> contains no angle bracket and no quote, so it can end neither an
  element nor an attribute, and a client that reads the references gets the original text back.
\<close>

theorem escape_safe_and_lossless:
  "markup (esc v) = [] \<and> (v \<noteq> VNone \<longrightarrow> html_unescape (esc v) = py_str v)"
proof -
  have "html_unescape (html_escape s) = s" for s
  proof (induction s)
    case (Cons c s)
    then show ?case
      by (auto simp: html_escape_Cons escape_char_def dquote_def squote_def)
  qed (simp add: html_escape_def)
  then show ?thesis using markup_esc [of v] by (simp add: esc_def)
qed

theorem escape_safe_and_lossless_witness:
  "html_unescape (esc (VStr ''<b>'')) = ''<b>''"
  using escape_safe_and_lossless [of "VStr ''<b>''"] by (simp add: py_str_def del: html_unescape.simps)

section \<open>Markup does not depend on data\<close>

lemmas markup_text = markup_append markup_esc markup_nat_str markup_int_str append_Nil

lemma markup_row:
  "markup (session_row cls s) = markup (session_row cls s')"
  unfolding session_row_def td_def td_class_def by (simp only: markup_text)

lemma markup_sessions_table:
  assumes "map (\<lambda>s. session_row_class s hb) ss = map (\<lambda>s. session_row_class s hb') ss'"
  shows "markup (html_sessions_table ss hb) = markup (html_sessions_table ss' hb')"
proof -
  have rows: "markup (concat (map (\<lambda>s. session_row (session_row_class s hb) s) ss))
      = concat (map (\<lambda>cls. markup (session_row cls [])) (map (\<lambda>s. session_row_class s hb) ss))" for ss hb
  proof (induction ss)
    case (Cons s ss)
    then show ?case using markup_row [of "session_row_class s hb" s "[]"] by simp
  qed simp
  show ?thesis
    unfolding html_sessions_table_def Let_def by (simp only: markup_text rows assms)
qed

lemma markup_chain_row: "markup (chain_row w b r) = markup (chain_row w' b' r')"
  unfolding chain_row_def td_def Let_def by (simp only: markup_text)

lemma markup_chain_group:
  assumes "length (snd g) = length (snd g')"
  shows "markup (chain_group w b g) = markup (chain_group w' b' g')"
proof -
  have rows: "markup (concat (map (chain_row w b) rows))
      = concat (replicate (length rows) (markup (chain_row [] [] [])))" for w b rows
  proof (induction rows)
    case (Cons r rows)
    then show ?case using markup_chain_row [of w b r "[]" "[]" "[]"] by simp
  qed simp
  show ?thesis unfolding chain_group_def by (simp only: markup_text rows assms)
qed

lemma markup_chains:
  assumes "map (\<lambda>g. length (snd g)) (group_chains cs) = map (\<lambda>g. length (snd g)) (group_chains cs')"
    and "cs = [] \<longleftrightarrow> cs' = []"
  shows "markup (html_chain_section cs ws) = markup (html_chain_section cs' ws')"
proof -
  have groups: "markup (concat (map (chain_group w b) gs))
      = concat (map (\<lambda>n. markup (chain_group [] [] ([], replicate n []))) (map (\<lambda>g. length (snd g)) gs))" for w b gs
  proof (induction gs)
    case (Cons g gs)
    have "markup (chain_group w b g) = markup (chain_group [] [] ([], replicate (length (snd g)) []))"
      by (rule markup_chain_group) simp
    with Cons show ?case by simp
  qed simp
  show ?thesis
  proof (cases "cs = []")
    case True
    with assms(2) show ?thesis by (simp only: html_chain_section_def simp_thms if_True)
  next
    case False
    with assms(2) have "cs' \<noteq> []" by simp
    with False show ?thesis
      unfolding html_chain_section_def Let_def by (simp only: markup_text groups assms(1) if_False)
  qed
qed

lemma markup_recommendations:
  assumes "length rs = length rs'"
  shows "markup (html_recommendations rs) = markup (html_recommendations rs')"
proof -
  have card: "markup (recommendation_card r) = markup (recommendation_card r')" for r r'
    unfolding recommendation_card_def Let_def by (simp only: markup_text)
  have cards: "markup (concat (map recommendation_card rs))
      = concat (replicate (length rs) (markup (recommendation_card undefined)))" for rs
  proof (induction rs)
    case (Cons r rs)
    then show ?case using card [of r undefined] by simp
  qed simp
  show ?thesis unfolding html_recommendations_def by (simp only: markup_text cards assms)
qed

definition has_refresh :: "string option \<Rightarrow> bool" where
  "has_refresh u \<longleftrightarrow> u \<noteq> None \<and> u \<noteq> Some []"

lemma has_refreshE: "has_refresh u \<Longrightarrow> (\<And>url. u = Some url \<Longrightarrow> url \<noteq> [] \<Longrightarrow> P) \<Longrightarrow> P"
  by (cases u) (auto simp: has_refresh_def)

lemma markup_toolbar:
  assumes "has_refresh u = has_refresh u'"
  shows "markup (refresh_toolbar u) = markup (refresh_toolbar u')"
proof (cases "has_refresh u")
  case True
  then obtain url url' where "u = Some url" "url \<noteq> []" "u' = Some url'" "url' \<noteq> []"
    using assms by (auto elim!: has_refreshE)
  then show ?thesis
    unfolding refresh_toolbar_def by (simp only: option.case not_False_eq_True if_True markup_text)
next
  case False
  with assms have "refresh_toolbar u = []" "refresh_toolbar u' = []"
    by (auto simp: refresh_toolbar_def has_refresh_def split: option.split)
  then show ?thesis by simp
qed

lemma markup_header:
  assumes "has_refresh u = has_refresh u'"
  shows "markup (html_header i d g a b c e u) = markup (html_header i' d' g' a' b' c' e' u')"
  unfolding html_header_def by (simp only: markup_text markup_toolbar [OF assms])

lemma markup_script:
  assumes "has_refresh u = has_refresh u'"
  shows "html_refresh_script u = html_refresh_script u'"
  using assms by (cases u; cases u') (auto simp: html_refresh_script_def has_refresh_def)

text \<open>
  C29: no text from the monitored server reaches the structure of the page: two dashboards whose
  sessions fall into the same display classes, whose chain groups have the same sizes, which make as
  many recommendations and both have (or both lack) a refresh link have the same sequence of
  angle brackets and quotes, whatever the logins, hosts, programs, commands, statements, database
  names, wait types and times in their rows.
\<close>

theorem page_markup_independent_of_data:
  assumes "map (\<lambda>s. session_row_class s (di_head_blockers di)) (di_sessions di)
      = map (\<lambda>s. session_row_class s (di_head_blockers di')) (di_sessions di')"
    and "map (\<lambda>g. length (snd g)) (group_chains (di_blocking_chains di))
      = map (\<lambda>g. length (snd g)) (group_chains (di_blocking_chains di'))"
    and "di_blocking_chains di = [] \<longleftrightarrow> di_blocking_chains di' = []"
    and "length recs = length recs'" and "has_refresh (di_refresh_url di) = has_refresh (di_refresh_url di')"
  shows "markup (dashboard_document t di recs) = markup (dashboard_document t' di' recs')"
proof -
  have "markup (html_footer t) = markup (html_footer t')"
    unfolding html_footer_def by (simp only: markup_text)
  moreover have "markup (html_header (di_instance_number di) (di_database_name di) t (length (di_sessions di))
       (length (di_tran_locks di)) (length (di_waiting_tasks di)) (length (di_blocking_chains di)) (di_refresh_url di))
     = markup (html_header (di_instance_number di') (di_database_name di') t' (length (di_sessions di'))
       (length (di_tran_locks di')) (length (di_waiting_tasks di')) (length (di_blocking_chains di')) (di_refresh_url di'))"
    by (rule markup_header [OF assms(5)])
  moreover have "markup (html_chain_section (di_blocking_chains di) (di_waiting_tasks di))
      = markup (html_chain_section (di_blocking_chains di') (di_waiting_tasks di'))"
    by (rule markup_chains [OF assms(2,3)])
  ultimately show ?thesis
    unfolding dashboard_document_def
    by (simp only: markup_text markup_sessions_table [OF assms(1)] markup_recommendations [OF assms(4)]
        markup_script [OF assms(5)])
qed

definition example_page :: "string \<Rightarrow> dashboard_input" where
  "example_page login = \<lparr>di_instance_number = 1, di_database_name = ''db'',
     di_sessions = [[(''session_id'', VInt 51), (''login_name'', VStr login)]], di_lock_chains = [],
     di_tran_locks = [], di_waiting_tasks = [], di_head_blockers = [], di_blocking_chains = [],
     di_refresh_url = None\<rparr>"

theorem page_markup_independent_of_data_witness:
  "markup (dashboard_document ''t'' (example_page ''<script>'') [])
     = markup (dashboard_document ''t'' (example_page ''sa'') [])"
  by (rule page_markup_independent_of_data)
    (simp_all add: example_page_def session_row_class_def row_get_def row_get_or_def dict_get_def Let_def)

section \<open>Counts\<close>

lemma count_class_fold:
  "foldl count_class c xs = c\<lparr>
     active_sessions_count := active_sessions_count c + count_list xs ''row-active'',
     idle_sessions_count := idle_sessions_count c + count_list xs ''row-idle'',
     blocked_sessions_count := blocked_sessions_count c + count_list xs ''row-blocked'',
     head_blocker_sessions_count := head_blocker_sessions_count c
       + length (filter (\<lambda>x. x \<notin> {''row-active'', ''row-idle'', ''row-blocked''}) xs)\<rparr>"
  by (induction xs arbitrary: c) (auto simp: count_class_def)

lemma count_list_length:
  "count_list xs ''row-active'' + count_list xs ''row-idle'' + count_list xs ''row-blocked''
     + length (filter (\<lambda>x. x \<notin> {''row-active'', ''row-idle'', ''row-blocked''}) xs) = length xs"
  by (induction xs) auto

text \<open>
  The four counts of the table's caption add up to the number of sessions; the head blockers
  among them are exactly the sessions whose id is in the given list, and a session counts as
  blocked exactly if it is no head blocker and has a positive blocking session id.
\<close>

theorem session_badges_partition:
  "active_sessions_count (session_counts_of ss hb) + idle_sessions_count (session_counts_of ss hb)
     + blocked_sessions_count (session_counts_of ss hb) + head_blocker_sessions_count (session_counts_of ss hb)
     = length ss
   \<and> head_blocker_sessions_count (session_counts_of ss hb)
     = length (filter (\<lambda>s. coerce_optional_int (row_get s ''session_id'') \<in> set hb) ss)
   \<and> blocked_sessions_count (session_counts_of ss hb)
     = length (filter (\<lambda>s. coerce_optional_int (row_get s ''session_id'') \<notin> set hb
         \<and> coerce_optional_int (row_get s ''blocking_session_id'') > 0) ss)"
proof -
  let ?cls = "map (\<lambda>s. session_row_class s hb) ss"
  have head: "length (filter (\<lambda>x. x \<notin> {''row-active'', ''row-idle'', ''row-blocked''}) ?cls)
      = length (filter (\<lambda>s. coerce_optional_int (row_get s ''session_id'') \<in> set hb) ss)"
    by (induction ss) (auto simp: session_row_class_def Let_def)
  have blocked: "count_list ?cls ''row-blocked'' = length (filter (\<lambda>s. coerce_optional_int (row_get s ''session_id'') \<notin> set hb
         \<and> coerce_optional_int (row_get s ''blocking_session_id'') > 0) ss)"
    by (induction ss) (auto simp: session_row_class_def Let_def)
  show ?thesis
    using count_list_length [of ?cls] head blocked
    by (simp add: session_counts_of_def count_class_fold)
qed

section \<open>Chain depth\<close>

text \<open>\<open>chain_length m s n\<close>: following the blockers from \<open>s\<close> ends after \<open>n\<close> steps.\<close>

inductive chain_length :: "(int \<times> int) list \<Rightarrow> int \<Rightarrow> nat \<Rightarrow> bool" for m where
  chain_end: "map_of m s = None \<Longrightarrow> chain_length m s 0"
| chain_next: "map_of m s = Some b \<Longrightarrow> chain_length m b n \<Longrightarrow> chain_length m s (Suc n)"

inductive_simps chain_length_iff: "chain_length m s n"

lemma chain_length_unique: "chain_length m s n \<Longrightarrow> chain_length m s k \<Longrightarrow> n = k"
proof (induction arbitrary: k rule: chain_length.induct)
  case (chain_end s)
  then show ?case by (auto simp: chain_length_iff [of m s k])
next
  case (chain_next s b n)
  from chain_next.prems chain_next.hyps(1) obtain k' where "k = Suc k'" "chain_length m b k'"
    by (auto simp: chain_length_iff [of m s k])
  with chain_next.IH show ?case by simp
qed

lemma depth_loop_bounded: "d \<le> 16 \<Longrightarrow> depth_loop m seen s d \<le> 17"
proof (induction m seen s d rule: depth_loop.induct)
  case (1 m seen s d)
  show ?case
  proof (cases "map_of m s")
    case None
    with "1.prems" show ?thesis by (simp add: depth_loop.simps [of m seen s d])
  next
    case (Some b)
    with "1.prems" "1.IH" [OF Some] show ?thesis
      by (cases "s \<in> set seen"; cases "d = 16") (simp_all add: depth_loop.simps [of m seen s])
  qed
qed

lemma depth_loop_chain:
  "chain_length m s n \<Longrightarrow> \<forall>x \<in> set seen. \<exists>k > n. chain_length m x k \<Longrightarrow> d \<le> 16 \<Longrightarrow>
   depth_loop m seen s d = min (d + n) 17"
proof (induction arbitrary: seen d rule: chain_length.induct)
  case (chain_end s)
  then show ?case by (subst depth_loop.simps) simp
next
  case (chain_next s b n)
  have fresh: "s \<notin> set seen"
  proof
    assume "s \<in> set seen"
    then obtain k where "Suc n < k" "chain_length m s k" using chain_next.prems by blast
    moreover have "chain_length m s (Suc n)" using chain_next.hyps by (rule chain_length.chain_next)
    ultimately show False using chain_length_unique by blast
  qed
  show ?case
  proof (cases "d = 16")
    case True
    with chain_next.hyps(1) fresh show ?thesis by (subst depth_loop.simps) simp
  next
    case False
    have self: "chain_length m s (Suc n)" using chain_next.hyps by (rule chain_length.chain_next)
    have "\<forall>x \<in> set (s # seen). \<exists>k > n. chain_length m x k"
      using chain_next.prems(1) self by (auto intro: Suc_lessD)
    from chain_next.IH [OF this, of "d + 1"] False chain_next.prems(2)
    have "depth_loop m (s # seen) b (d + 1) = min (d + 1 + n) 17" by simp
    with chain_next.hyps(1) fresh False chain_next.prems(2) show ?thesis by (subst depth_loop.simps) simp
  qed
qed

text \<open>
  The indentation of a blocked session is its distance to the head of its chain, capped at 17;
  the loop also stops, with at most 17, when sessions block each other in a circle.
\<close>

theorem chain_depth_exact:
  "depth_for_session m s \<le> 17 \<and> (\<forall>n. chain_length m s n \<longrightarrow> depth_for_session m s = min n 17)"
  using depth_loop_bounded [of 0 m "[]" s] depth_loop_chain [of m s _ "[]" 0]
  by (simp add: depth_for_session_def)

theorem chain_depth_exact_witness:
  "depth_for_session [(53, 52), (52, 51)] 53 = 2"
proof -
  have "chain_length [(53, 52), (52, 51)] 53 (Suc (Suc 0))"
    by (rule chain_next [where b = 52], simp, rule chain_next [where b = 51], simp, rule chain_end, simp)
  with chain_depth_exact [of "[(53, 52), (52, 51)]" 53] show ?thesis by auto
qed

section \<open>The minimal page and the state schema\<close>

text \<open>
  The page for clients without the interactive app writes the database name as it is: its
  angle brackets and quotes become markup of the page.
\<close>

theorem minimal_page_unescaped:
  "\<exists>before after. \<forall>name. markup (minimal_html i name ss ls) = before @ markup name @ after"
proof (intro exI allI)
  fix name
  show "markup (minimal_html i name ss ls) = markup ''<section><h2></h2><p>'' @ markup name
      @ markup ''</p><p></p></section>''"
    unfolding minimal_html_def by (simp only: markup_text) (simp add: markup_Cons is_markup_def dquote_def squote_def)
qed

definition schema_required :: "pyval \<Rightarrow> pyval list" where
  "schema_required schema = (case schema of
       VDict d \<Rightarrow> (case row_get d ''required'' of VList ks \<Rightarrow> ks | _ \<Rightarrow> [])
     | _ \<Rightarrow> [])"

text \<open>
  The data of a full dashboard has every key the published state schema requires, and its
  recommendations are never empty and have the priorities high, medium or info; building it fails
  only with a \<open>TypeError\<close>, for a wait duration that is no number.
\<close>

theorem dashboard_data_has_required_keys:
  assumes "build_sessions_dashboard_full t di = r"
  shows "(\<exists>e. r = Inl e \<and> exc_kind e = TypeErr)
    \<or> (\<exists>payload data recs. r = Inr payload \<and> row_get payload ''data'' = VDict data
        \<and> VStr ` fst ` set data \<supseteq> set (schema_required dashboard_state_schema)
        \<and> dashboard_recommendations (di_head_blockers di) (di_waiting_tasks di) = Inr recs \<and> recs \<noteq> []
        \<and> (\<forall>m \<in> set recs. mit_priority m \<in> {''high'', ''medium'', ''info''}))"
proof -
  have long: "long_waits ws = Inl e \<Longrightarrow> exc_kind e = TypeErr" for ws e
  proof (induction ws)
    case (Cons w ws)
    have g: "greater_than v n = Inl e' \<Longrightarrow> exc_kind e' = TypeErr" for v n e'
      by (auto simp: greater_than_def split: pyval.splits)
    show ?case
      using Cons g by (cases "greater_than (py_or (row_get w ''wait_duration_ms'') (VInt 0)) 5000";
          cases "long_waits ws") auto
  qed simp
  show ?thesis
  proof (cases "dashboard_recommendations (di_head_blockers di) (di_waiting_tasks di)")
    case (Inl e)
    then have "exc_kind e = TypeErr"
      using long by (cases "long_waits (di_waiting_tasks di)") (auto simp: dashboard_recommendations_def Let_def)
    with Inl assms show ?thesis by (auto simp: build_sessions_dashboard_full_def)
  next
    case (Inr recs)
    have recs: "recs \<noteq> [] \<and> (\<forall>m \<in> set recs. mit_priority m \<in> {''high'', ''medium'', ''info''})"
      using Inr by (cases "long_waits (di_waiting_tasks di)") (auto simp: dashboard_recommendations_def Let_def split: if_splits)
    have req: "schema_required dashboard_state_schema = map VStr [''generated_at_utc'', ''instance_number'',
        ''database_name'', ''ui_meta'', ''sessions'', ''locks'', ''blockers'', ''blocking_chains'',
        ''head_blockers'', ''recommendations'']"
      by (simp add: schema_required_def dashboard_state_schema_def row_get_def dict_get_def)
    have "r = Inr [(''content_type'', VStr ''text/html''), (''html'', VStr (dashboard_document t di recs)),
        (''data'', VDict (dashboard_data t di recs))]"
      using assms Inr by (simp add: build_sessions_dashboard_full_def)
    moreover have "VStr ` fst ` set (dashboard_data t di recs) \<supseteq> set (schema_required dashboard_state_schema)"
      unfolding req by (auto simp: dashboard_data_def)
    ultimately show ?thesis using Inr recs by (simp add: row_get_def dict_get_def)
  qed
qed

theorem dashboard_data_has_required_keys_witness:
  "is_ok (build_sessions_dashboard_full ''t'' (example_page ''sa''))"
proof -
  have "\<nexists>e. build_sessions_dashboard_full ''t'' (example_page ''sa'') = Inl e"
    by (simp add: build_sessions_dashboard_full_def dashboard_recommendations_def example_page_def)
  with dashboard_data_has_required_keys [OF refl, of "''t''" "example_page ''sa''"] show ?thesis by auto
qed

end
