(* ===== verification/Query_Catalog.thy ===== *)
theory Query_Catalog
  imports Write_Guard
begin

text \<open>
  \<open>src/tools/query_catalog.py\<close>: the diagnostic statements of the analysis tools.  Every function
  of the module is a definition of the same name with the same text; adjacent Python literals are
  joined.  A row limit may be any value \<open>int\<close> accepts.
\<close>

section \<open>Arguments\<close>

definition validate_range :: "int \<Rightarrow> string \<Rightarrow> string \<Rightarrow> pyval \<Rightarrow> int result" where
  "validate_range maximum not_int out_of_range arg =
     (case py_int arg of
        Inl e \<Rightarrow> if exc_kind e \<in> {TypeErr, ValueErr} then Inl (value_error not_int) else Inl e
      | Inr value \<Rightarrow> if value < 1 \<or> value > maximum then Inl (value_error out_of_range) else Inr value)"

definition validate_top_n :: "pyval \<Rightarrow> int result" where
  "validate_top_n = validate_range 10000 ''top_n must be an integer between 1 and 10000''
     ''top_n must be between 1 and 10000''"

definition validate_lookback_minutes :: "pyval \<Rightarrow> int result" where
  "validate_lookback_minutes =
     validate_range 10080 ''lookback_minutes must be an integer between 1 and 10080''
       ''lookback_minutes must be between 1 and 10080''"

text \<open>\<open>s.replace("'", "''")\<close>\<close>

definition escape_quotes :: "string \<Rightarrow> string" where
  "escape_quotes s = concat (map (\<lambda>c. if c = squote then [squote, squote] else [c]) s)"

section \<open>Queries\<close>

subsection \<open>Queries of analyze_tab_health\<close>

definition table_size_query :: "pyval \<Rightarrow> string result" where
  "table_size_query top_n = bind_res (validate_top_n top_n) (\<lambda>n. Inr (
       ''SELECT TOP '' @ int_str n @
       '' s.name AS schema_name, t.name AS table_name, SUM(ps.row_count) AS row_count, '' @
       ''CAST(SUM(ps.used_page_count) * 8.0 / 1024 AS DECIMAL(18,2)) AS total_space_mb FROM '' @
       ''sys.tables t JOIN sys.schemas s ON t.schema_id = s.schema_id JOIN '' @
       ''sys.dm_db_partition_stats ps ON t.object_id = ps.object_id AND ps.index_id IN (0,1) '' @
       ''WHERE t.is_ms_shipped = 0 GROUP BY s.name, t.name ORDER BY total_space_mb DESC '' @
       ''OPTION (MAXDOP 1)''))"

definition fragmented_indexes_query :: "pyval \<Rightarrow> string result" where
  "fragmented_indexes_query top_n = bind_res (validate_top_n top_n) (\<lambda>n. Inr (
       ''WITH candidate_tables AS (SELECT TOP '' @ int_str (n * 4) @
       '' t.object_id FROM sys.tables t JOIN sys.dm_db_partition_stats p ON t.object_id = '' @
       ''p.object_id AND p.index_id IN (0,1) GROUP BY t.object_id ORDER BY SUM(p.row_count) '' @
       ''DESC) SELECT TOP '' @ int_str n @
       '' OBJECT_SCHEMA_NAME(ps.object_id) AS schema_name, OBJECT_NAME(ps.object_id) AS '' @
       ''table_name, i.name AS index_name, ps.avg_fragmentation_in_percent, ps.page_count '' @
       ''FROM candidate_tables ct CROSS APPLY sys.dm_db_index_physical_stats(DB_ID(), '' @
       ''ct.object_id, NULL, NULL, 'LIMITED') ps JOIN sys.indexes i ON ps.object_id = '' @
       ''i.object_id AND ps.index_id = i.index_id WHERE ps.index_id > 0 AND ps.index_level = '' @
       ''0 AND ps.page_count >= 100 AND OBJECTPROPERTY(ps.object_id, 'IsUserTable') = 1 '' @
       ''ORDER BY ps.avg_fragmentation_in_percent DESC, ps.page_count DESC OPTION (MAXDOP 1)''))"

definition missing_pk_query :: string where
  "missing_pk_query =
       ''SELECT s.name AS schema_name, t.name AS table_name FROM sys.tables t INNER JOIN '' @
       ''sys.schemas s ON s.schema_id = t.schema_id WHERE NOT EXISTS ( SELECT 1 FROM '' @
       ''sys.key_constraints k WHERE k.parent_object_id = t.object_id AND k.type = 'PK' ) '' @
       ''ORDER BY s.name, t.name''"

definition fk_graph_query :: string where
  "fk_graph_query =
       ''SELECT fk.name AS fk_name, OBJECT_SCHEMA_NAME(fk.parent_object_id) AS '' @
       ''parent_schema, OBJECT_NAME(fk.parent_object_id) AS parent_table, '' @
       ''OBJECT_SCHEMA_NAME(fk.referenced_object_id) AS referenced_schema, '' @
       ''OBJECT_NAME(fk.referenced_object_id) AS referenced_table FROM sys.foreign_keys fk '' @
       ''WHERE OBJECTPROPERTY(fk.parent_object_id, 'IsUserTable') = 1''"

definition orphan_user_query :: string where
  "orphan_user_query =
       ''SELECT dp.name AS user_name FROM sys.database_principals dp LEFT JOIN '' @
       ''sys.server_principals sp ON dp.sid = sp.sid WHERE dp.type IN ('S','U','G') AND '' @
       ''dp.principal_id > 4 AND sp.sid IS NULL OPTION (RECOMPILE)''"

definition elevated_roles_query :: string where
  "elevated_roles_query =
       ''SELECT r.name AS role_name, m.name AS member_name FROM sys.database_role_members '' @
       ''drm JOIN sys.database_principals r ON drm.role_principal_id = r.principal_id JOIN '' @
       ''sys.database_principals m ON drm.member_principal_id = m.principal_id WHERE r.name '' @
       ''IN ('db_owner','db_securityadmin','db_accessadmin')''"

definition backup_recency_query :: string where
  "backup_recency_query =
       ''SELECT d.name AS database_name, b.last_backup_finish_date FROM master.sys.databases '' @
       ''d OUTER APPLY (  SELECT TOP 1 bs.backup_finish_date AS last_backup_finish_date   '' @
       ''FROM msdb.dbo.backupset bs   WHERE bs.database_name = d.name AND bs.type = 'D'   '' @
       ''ORDER BY bs.backup_finish_date DESC) b ORDER BY d.name''"

definition active_sessions_query :: "pyval \<Rightarrow> string result" where
  "active_sessions_query top_n = bind_res (validate_top_n top_n) (\<lambda>n. Inr (
       ''SELECT TOP '' @ int_str n @
       '' s.session_id, s.login_name, s.host_name, s.program_name, s.status, '' @
       ''DB_NAME(s.database_id) AS session_database_name, s.open_transaction_count, '' @
       ''s.login_time, s.last_request_start_time, r.command, r.wait_type, r.wait_time, '' @
       ''r.cpu_time, r.blocking_session_id, r.start_time, SUBSTRING(st.text, 1, 500) AS '' @
       ''sql_command FROM sys.dm_exec_sessions s LEFT JOIN sys.dm_exec_requests r ON '' @
       ''s.session_id = r.session_id OUTER APPLY sys.dm_exec_sql_text(r.sql_handle) st WHERE '' @
       ''s.is_user_process = 1 ORDER BY r.wait_time DESC, s.session_id OPTION (RECOMPILE)''))"

definition lock_chain_query :: "pyval \<Rightarrow> string result" where
  "lock_chain_query top_n = bind_res (validate_top_n top_n) (\<lambda>n. Inr (
       ''SELECT TOP '' @ int_str n @
       '' wt.session_id, wt.blocking_session_id, wt.wait_type, wt.wait_duration_ms, '' @
       ''wt.resource_description FROM sys.dm_os_waiting_tasks wt WHERE '' @
       ''wt.blocking_session_id IS NOT NULL ORDER BY wt.wait_duration_ms DESC OPTION (RECOMPILE)''))"

definition blocking_chain_query :: "pyval \<Rightarrow> string result" where
  "blocking_chain_query top_n = bind_res (validate_top_n top_n) (\<lambda>n. Inr (
       ''SELECT TOP '' @ int_str n @
       '' r.session_id, r.blocking_session_id, r.wait_type, r.wait_time, s.status, '' @
       ''s.login_name, s.host_name, r.command FROM sys.dm_exec_requests r JOIN '' @
       ''sys.dm_exec_sessions s ON r.session_id = s.session_id WHERE r.blocking_session_id > '' @
       ''0 ORDER BY r.blocking_session_id, r.wait_time DESC OPTION (RECOMPILE)''))"

definition tran_locks_query :: "pyval \<Rightarrow> string result" where
  "tran_locks_query top_n = bind_res (validate_top_n top_n) (\<lambda>n. Inr (
       ''SELECT TOP '' @ int_str n @
       '' tl.request_session_id AS session_id, tl.resource_type, tl.resource_database_id, '' @
       ''tl.resource_associated_entity_id, tl.request_mode, tl.request_status, '' @
       ''tl.request_owner_type FROM sys.dm_tran_locks tl WHERE tl.request_status IN '' @
       ''('GRANT', 'WAIT') ORDER BY tl.request_status DESC, tl.request_session_id''))"

definition waiting_tasks_query :: "pyval \<Rightarrow> string result" where
  "waiting_tasks_query top_n = bind_res (validate_top_n top_n) (\<lambda>n. Inr (
       ''SELECT TOP '' @ int_str n @
       '' wt.session_id, wt.blocking_session_id, wt.wait_type, wt.wait_duration_ms, '' @
       ''wt.resource_description FROM sys.dm_os_waiting_tasks wt ORDER BY '' @
       ''wt.wait_duration_ms DESC OPTION (RECOMPILE)''))"

definition heap_tables_query :: string where
  "heap_tables_query =
       ''SELECT s.name AS schema_name, t.name AS table_name, SUM(ps.row_count) AS row_count '' @
       ''FROM sys.tables t JOIN sys.schemas s ON s.schema_id = t.schema_id JOIN '' @
       ''sys.dm_db_partition_stats ps ON t.object_id = ps.object_id AND ps.index_id = 0 '' @
       ''WHERE ps.row_count > 0 GROUP BY s.name, t.name ORDER BY SUM(ps.row_count) DESC '' @
       ''OPTION (MAXDOP 1)''"

definition disabled_indexes_query :: string where
  "disabled_indexes_query =
       ''SELECT OBJECT_SCHEMA_NAME(i.object_id) AS schema_name, OBJECT_NAME(i.object_id) AS '' @
       ''table_name, i.name AS index_name, i.type_desc FROM sys.indexes i WHERE '' @
       ''i.is_disabled = 1 AND i.index_id > 0 ORDER BY schema_name, table_name, index_name''"

definition stale_statistics_query :: "pyval \<Rightarrow> string result" where
  "stale_statistics_query top_n = bind_res (validate_top_n top_n) (\<lambda>n. Inr (
       ''WITH top_tables AS (SELECT TOP '' @ int_str (n * 4) @
       '' t.object_id FROM sys.tables t JOIN sys.dm_db_partition_stats p ON t.object_id = '' @
       ''p.object_id AND p.index_id IN (0,1) GROUP BY t.object_id ORDER BY SUM(p.row_count) '' @
       ''DESC) SELECT TOP '' @ int_str n @
       '' OBJECT_SCHEMA_NAME(s.object_id) AS schema_name, OBJECT_NAME(s.object_id) AS '' @
       ''table_name, s.name AS stat_name, sp.last_updated, sp.rows, sp.rows_sampled, '' @
       ''sp.modification_counter FROM sys.stats s CROSS APPLY '' @
       ''sys.dm_db_stats_properties(s.object_id, s.stats_id) sp WHERE '' @
       ''OBJECTPROPERTY(s.object_id, 'IsUserTable') = 1 AND s.object_id IN (SELECT object_id '' @
       ''FROM top_tables) ORDER BY sp.modification_counter DESC, sp.last_updated ASC OPTION '' @
       ''(MAXDOP 1)''))"

definition statistics_never_updated_query :: "pyval \<Rightarrow> string result" where
  "statistics_never_updated_query top_n = bind_res (validate_top_n top_n) (\<lambda>n. Inr (
       ''WITH top_tables AS (SELECT TOP '' @ int_str (n * 4) @
       '' t.object_id FROM sys.tables t JOIN sys.dm_db_partition_stats p ON t.object_id = '' @
       ''p.object_id AND p.index_id IN (0,1) GROUP BY t.object_id ORDER BY SUM(p.row_count) '' @
       ''DESC) SELECT TOP '' @ int_str n @
       '' OBJECT_SCHEMA_NAME(s.object_id) AS schema_name, OBJECT_NAME(s.object_id) AS '' @
       ''table_name, s.name AS stat_name, sp.last_updated, sp.rows, sp.rows_sampled, '' @
       ''sp.modification_counter FROM sys.stats s CROSS APPLY '' @
       ''sys.dm_db_stats_properties(s.object_id, s.stats_id) sp WHERE '' @
       ''OBJECTPROPERTY(s.object_id, 'IsUserTable') = 1 AND sp.last_updated IS NULL AND '' @
       ''s.object_id IN (SELECT object_id FROM top_tables) ORDER BY sp.rows DESC, '' @
       ''sp.modification_counter DESC''))"

definition low_sampled_statistics_query :: "pyval \<Rightarrow> string result" where
  "low_sampled_statistics_query top_n = bind_res (validate_top_n top_n) (\<lambda>n. Inr (
       ''WITH top_tables AS (SELECT TOP '' @ int_str (n * 4) @
       '' t.object_id FROM sys.tables t JOIN sys.dm_db_partition_stats p ON t.object_id = '' @
       ''p.object_id AND p.index_id IN (0,1) GROUP BY t.object_id ORDER BY SUM(p.row_count) '' @
       ''DESC) SELECT TOP '' @ int_str n @
       '' OBJECT_SCHEMA_NAME(s.object_id) AS schema_name, OBJECT_NAME(s.object_id) AS '' @
       ''table_name, s.name AS stat_name, sp.last_updated, sp.rows, sp.rows_sampled, '' @
       ''sp.modification_counter, CASE WHEN sp.rows > 0 THEN CAST(sp.rows_sampled AS FLOAT) '' @
       ''/ CAST(sp.rows AS FLOAT) ELSE 0 END AS sample_ratio FROM sys.stats s CROSS APPLY '' @
       ''sys.dm_db_stats_properties(s.object_id, s.stats_id) sp WHERE '' @
       ''OBJECTPROPERTY(s.object_id, 'IsUserTable') = 1 AND sp.rows > 0 AND s.object_id IN '' @
       ''(SELECT object_id FROM top_tables) ORDER BY sample_ratio ASC, sp.rows DESC''))"

definition database_statistics_settings_query :: string where
  "database_statistics_settings_query =
       ''SELECT name AS database_name, is_auto_create_stats_on AS auto_create_statistics_on, '' @
       ''is_auto_update_stats_on AS auto_update_statistics_on, is_auto_update_stats_async_on '' @
       ''AS auto_update_statistics_async_on FROM sys.databases WHERE name = DB_NAME()''"

definition missing_statistics_coverage_candidate_query :: "pyval \<Rightarrow> string result" where
  "missing_statistics_coverage_candidate_query top_n = bind_res (validate_top_n top_n) (\<lambda>n. Inr (
       ''WITH top_tables AS (SELECT TOP '' @ int_str (n * 4) @
       '' t.object_id, SUM(p.row_count) AS row_count FROM sys.tables t JOIN '' @
       ''sys.dm_db_partition_stats p ON t.object_id = p.object_id AND p.index_id IN (0,1) '' @
       ''GROUP BY t.object_id ORDER BY SUM(p.row_count) DESC), table_stats AS (SELECT '' @
       ''st.object_id, COUNT(*) AS usable_stats_count FROM sys.stats st WHERE st.stats_id > '' @
       ''0 GROUP BY st.object_id) SELECT TOP '' @ int_str n @
       '' s.name AS schema_name, t.name AS table_name, ISNULL(ts.usable_stats_count, 0) AS '' @
       ''usable_stats_count, ISNULL(tt.row_count, 0) AS row_count FROM top_tables tt JOIN '' @
       ''sys.tables t ON t.object_id = tt.object_id JOIN sys.schemas s ON s.schema_id = '' @
       ''t.schema_id LEFT JOIN table_stats ts ON ts.object_id = t.object_id WHERE '' @
       ''ISNULL(ts.usable_stats_count, 0) = 0 ORDER BY row_count DESC, s.name, t.name''))"

definition statistics_histogram_query :: "string \<Rightarrow> string \<Rightarrow> string \<Rightarrow> string" where
  "statistics_histogram_query schema_name table_name stat_name =
     (let safe_schema = escape_quotes schema_name;
          safe_table = escape_quotes table_name;
          safe_stat = escape_quotes stat_name
      in ''SELECT h.step_number, TRY_CAST(h.range_high_key AS nvarchar(256)) AS '' @
       ''range_high_key_text, h.range_rows, h.equal_rows, h.distinct_range_rows, '' @
       ''h.average_range_rows FROM sys.stats st CROSS APPLY '' @
       ''sys.dm_db_stats_histogram(st.object_id, st.stats_id) h WHERE st.object_id = OBJECT_ID('' @
       [squote] @ safe_schema @ ''.'' @ safe_table @ [squote] @ '') AND st.name = '' @ [squote] @
       safe_stat @ [squote] @ '' ORDER BY h.step_number'')"

definition duplicate_key_candidate_query :: "pyval \<Rightarrow> string result" where
  "duplicate_key_candidate_query top_n = bind_res (validate_top_n top_n) (\<lambda>n. Inr (
       ''SELECT TOP '' @ int_str n @
       '' OBJECT_SCHEMA_NAME(i.object_id) AS schema_name, OBJECT_NAME(i.object_id) AS '' @
       ''table_name, COL_NAME(ic.object_id, ic.column_id) AS column_name, COUNT(*) AS '' @
       ''index_count FROM sys.indexes i JOIN sys.index_columns ic ON ic.object_id = '' @
       ''i.object_id AND ic.index_id = i.index_id WHERE i.is_unique = 0 AND '' @
       ''i.is_hypothetical = 0 AND ic.key_ordinal = 1 AND '' @
       ''OBJECTPROPERTY(i.object_id, 'IsUserTable') = 1 GROUP BY i.object_id, ic.object_id, '' @
       ''ic.column_id HAVING COUNT(*) > 1 ORDER BY index_count DESC''))"

subsection \<open>Queries of analyze_db_data_model\<close>

definition tables_without_fk_query :: string where
  "tables_without_fk_query =
       ''SELECT s.name AS schema_name, t.name AS table_name FROM sys.tables t JOIN '' @
       ''sys.schemas s ON s.schema_id = t.schema_id WHERE NOT EXISTS (  SELECT 1 FROM '' @
       ''sys.foreign_keys fk   WHERE fk.parent_object_id = t.object_id OR '' @
       ''fk.referenced_object_id = t.object_id) ORDER BY s.name, t.name''"

definition nullable_fk_columns_query :: string where
  "nullable_fk_columns_query =
       ''SELECT OBJECT_SCHEMA_NAME(fkc.parent_object_id) AS parent_schema, '' @
       ''OBJECT_NAME(fkc.parent_object_id) AS parent_table, COL_NAME(fkc.parent_object_id, '' @
       ''fkc.parent_column_id) AS fk_column, fk.name AS fk_constraint_name FROM '' @
       ''sys.foreign_key_columns fkc JOIN sys.foreign_keys fk ON fk.object_id = '' @
       ''fkc.constraint_object_id JOIN sys.columns c ON c.object_id = fkc.parent_object_id '' @
       ''AND c.column_id = fkc.parent_column_id WHERE c.is_nullable = 1 ORDER BY '' @
       ''parent_schema, parent_table''"

definition missing_fk_index_query :: string where
  "missing_fk_index_query =
       ''SELECT OBJECT_SCHEMA_NAME(fkc.parent_object_id) AS parent_schema, '' @
       ''OBJECT_NAME(fkc.parent_object_id) AS parent_table, COL_NAME(fkc.parent_object_id, '' @
       ''fkc.parent_column_id) AS fk_column, fk.name AS fk_constraint_name FROM '' @
       ''sys.foreign_key_columns fkc JOIN sys.foreign_keys fk ON fk.object_id = '' @
       ''fkc.constraint_object_id WHERE NOT EXISTS (  SELECT 1 FROM sys.index_columns ic   '' @
       ''WHERE ic.object_id = fkc.parent_object_id     AND ic.column_id = '' @
       ''fkc.parent_column_id     AND ic.key_ordinal = 1) ORDER BY parent_schema, parent_table''"

definition missing_index_dmv_query :: "pyval \<Rightarrow> string result" where
  "missing_index_dmv_query top_n = bind_res (validate_top_n top_n) (\<lambda>n. Inr (
       ''SELECT TOP '' @ int_str n @
       '' OBJECT_SCHEMA_NAME(mid.object_id) AS schema_name, OBJECT_NAME(mid.object_id) AS '' @
       ''table_name, mid.equality_columns, mid.inequality_columns, mid.included_columns, '' @
       ''migs.avg_total_user_cost * migs.avg_user_impact * (migs.user_seeks + '' @
       ''migs.user_scans) AS estimated_impact, migs.user_seeks, migs.user_scans FROM '' @
       ''sys.dm_db_missing_index_details mid JOIN sys.dm_db_missing_index_groups mig ON '' @
       ''mig.index_handle = mid.index_handle JOIN sys.dm_db_missing_index_group_stats migs '' @
       ''ON migs.group_handle = mig.index_group_handle WHERE mid.database_id = DB_ID() ORDER '' @
       ''BY estimated_impact DESC''))"

definition unused_indexes_query :: "pyval \<Rightarrow> string result" where
  "unused_indexes_query top_n = bind_res (validate_top_n top_n) (\<lambda>n. Inr (
       ''SELECT TOP '' @ int_str n @
       '' OBJECT_SCHEMA_NAME(i.object_id) AS schema_name, OBJECT_NAME(i.object_id) AS '' @
       ''table_name, i.name AS index_name, i.type_desc, ISNULL(ius.user_seeks + '' @
       ''ius.user_scans + ius.user_lookups, 0) AS total_reads, ISNULL(ius.user_updates, 0) '' @
       ''AS total_writes, o.create_date AS table_create_date FROM sys.indexes i JOIN '' @
       ''sys.objects o ON o.object_id = i.object_id LEFT JOIN sys.dm_db_index_usage_stats '' @
       ''ius   ON ius.object_id = i.object_id AND ius.index_id = i.index_id AND '' @
       ''ius.database_id = DB_ID() WHERE i.type_desc = 'NONCLUSTERED'   AND i.is_disabled = '' @
       ''0   AND OBJECTPROPERTY(i.object_id, 'IsUserTable') = 1   AND ISNULL(ius.user_seeks '' @
       ''+ ius.user_scans + ius.user_lookups, 0) = 0   AND ISNULL(ius.user_updates, 0) > 10  '' @
       '' AND o.create_date < DATEADD(DAY, -7, GETDATE()) ORDER BY total_writes DESC, i.name''))"

definition redundant_indexes_query :: "pyval \<Rightarrow> string result" where
  "redundant_indexes_query top_n = bind_res (validate_top_n top_n) (\<lambda>n. Inr (
       ''WITH leading_keys AS (  SELECT i.object_id, i.index_id, i.name, ic.column_id   FROM '' @
       ''sys.indexes i   JOIN sys.index_columns ic     ON ic.object_id = i.object_id AND '' @
       ''ic.index_id = i.index_id AND ic.key_ordinal = 1   WHERE i.type_desc '' @
       ''= 'NONCLUSTERED'     AND i.is_disabled = 0     AND i.is_hypothetical = 0     AND '' @
       ''OBJECTPROPERTY(i.object_id, 'IsUserTable') = 1) SELECT TOP '' @ int_str n @
       '' OBJECT_SCHEMA_NAME(a.object_id) AS schema_name, OBJECT_NAME(a.object_id) AS '' @
       ''table_name, a.name AS index_a, b.name AS index_b, COL_NAME(a.object_id, '' @
       ''a.column_id) AS shared_leading_key_column FROM leading_keys a JOIN leading_keys b   '' @
       ''ON b.object_id = a.object_id  AND b.column_id = a.column_id  AND b.index_id > '' @
       ''a.index_id ORDER BY schema_name, table_name, index_a''))"

definition datatype_inconsistency_query :: "pyval \<Rightarrow> string result" where
  "datatype_inconsistency_query top_n = bind_res (validate_top_n top_n) (\<lambda>n. Inr (
       ''SELECT TOP '' @ int_str n @
       '' fk.name AS fk_name, OBJECT_SCHEMA_NAME(fkc.parent_object_id) AS child_schema, '' @
       ''OBJECT_NAME(fkc.parent_object_id) AS child_table, c_child.name AS child_column, '' @
       ''tp_child.name AS child_type, c_child.max_length AS child_max_length, '' @
       ''c_child.precision AS child_precision, OBJECT_SCHEMA_NAME(fkc.referenced_object_id) '' @
       ''AS parent_schema, OBJECT_NAME(fkc.referenced_object_id) AS parent_table, '' @
       ''c_parent.name AS parent_column, tp_parent.name AS parent_type, c_parent.max_length '' @
       ''AS parent_max_length, c_parent.precision AS parent_precision FROM '' @
       ''sys.foreign_key_columns fkc JOIN sys.foreign_keys fk ON fk.object_id = '' @
       ''fkc.constraint_object_id JOIN sys.columns c_child   ON c_child.object_id = '' @
       ''fkc.parent_object_id AND c_child.column_id = fkc.parent_column_id JOIN sys.types '' @
       ''tp_child ON tp_child.user_type_id = c_child.user_type_id JOIN sys.columns c_parent  '' @
       '' ON c_parent.object_id = fkc.referenced_object_id AND c_parent.column_id = '' @
       ''fkc.referenced_column_id JOIN sys.types tp_parent ON tp_parent.user_type_id = '' @
       ''c_parent.user_type_id WHERE tp_child.name != tp_parent.name    OR (      '' @
       ''tp_child.name IN ('char','varchar','nchar','nvarchar','binary','varbinary')       '' @
       ''AND tp_parent.name IN ('char','varchar','nchar','nvarchar','binary','varbinary')    '' @
       ''   AND c_child.max_length != c_parent.max_length   )    OR (      tp_child.name IN '' @
       ''('decimal','numeric')       AND tp_parent.name IN ('decimal','numeric')       AND '' @
       ''(c_child.precision != c_parent.precision OR c_child.scale != c_parent.scale)   ) '' @
       ''ORDER BY child_schema, child_table, child_column''))"

definition soft_delete_columns_query :: string where
  "soft_delete_columns_query =
       ''SELECT s.name AS schema_name, t.name AS table_name, c.name AS soft_delete_column, '' @
       ''tp.name AS column_type FROM sys.columns c JOIN sys.tables t ON t.object_id = '' @
       ''c.object_id JOIN sys.schemas s ON s.schema_id = t.schema_id JOIN sys.types tp ON '' @
       ''tp.user_type_id = c.user_type_id WHERE LOWER(c.name) IN (  N'isdeleted', '' @
       ''N'is_deleted', N'deleted', N'deletedflag', N'deleteflag',  N'deletedat', '' @
       ''N'deleted_at', N'isactive', N'is_active', N'activeflag', N'active_flag',  '' @
       ''N'archived', N'isarchived', N'is_archived') AND NOT EXISTS (  SELECT 1 FROM '' @
       ''sys.tables t2   JOIN sys.schemas s2 ON s2.schema_id = t2.schema_id   WHERE '' @
       ''s2.schema_id = s.schema_id     AND (LOWER(t2.name) LIKE LOWER(t.name) + N'%hist%'   '' @
       ''    OR LOWER(t2.name) LIKE LOWER(t.name) + N'%audit%'       OR LOWER(t2.name) LIKE '' @
       ''LOWER(t.name) + N'%log%')) ORDER BY s.name, t.name''"

definition update_heavy_tables_query :: "pyval \<Rightarrow> string result" where
  "update_heavy_tables_query top_n = bind_res (validate_top_n top_n) (\<lambda>n. Inr (
       ''WITH index_usage AS (  SELECT i.object_id,          SUM(ius.user_seeks + '' @
       ''ius.user_scans + ius.user_lookups) AS total_reads,          SUM(ius.user_updates) '' @
       ''AS total_writes   FROM sys.indexes i   JOIN sys.dm_db_index_usage_stats ius     ON '' @
       ''ius.object_id = i.object_id AND ius.index_id = i.index_id AND ius.database_id = '' @
       ''DB_ID()   WHERE i.index_id = 1 AND OBJECTPROPERTY(i.object_id, 'IsUserTable') = 1   '' @
       ''GROUP BY i.object_id) SELECT TOP '' @ int_str n @
       '' OBJECT_SCHEMA_NAME(iu.object_id) AS schema_name, OBJECT_NAME(iu.object_id) AS '' @
       ''table_name, iu.total_reads, iu.total_writes, CAST(iu.total_writes AS FLOAT) / '' @
       ''NULLIF(iu.total_reads, 0) AS write_read_ratio FROM index_usage iu WHERE '' @
       ''iu.total_writes > 100   AND (iu.total_reads = 0     OR CAST(iu.total_writes AS '' @
       ''FLOAT) / NULLIF(iu.total_reads, 0) > 5) ORDER BY write_read_ratio DESC, '' @
       ''iu.total_writes DESC''))"

definition normalization_column_overlap_query :: string where
  "normalization_column_overlap_query =
       ''SELECT OBJECT_SCHEMA_NAME(fkc.parent_object_id) AS child_schema, '' @
       ''OBJECT_NAME(fkc.parent_object_id) AS child_table, '' @
       ''OBJECT_SCHEMA_NAME(fkc.referenced_object_id) AS parent_schema, '' @
       ''OBJECT_NAME(fkc.referenced_object_id) AS parent_table, fk.name AS '' @
       ''fk_constraint_name, c_child.name AS overlapping_column FROM sys.foreign_key_columns '' @
       ''fkc JOIN sys.foreign_keys fk ON fk.object_id = fkc.constraint_object_id JOIN '' @
       ''sys.columns c_child ON c_child.object_id = fkc.parent_object_id JOIN sys.columns '' @
       ''c_parent   ON c_parent.object_id = fkc.referenced_object_id AND c_parent.name = '' @
       ''c_child.name WHERE c_child.column_id != fkc.parent_column_id   AND '' @
       ''c_parent.column_id != fkc.referenced_column_id ORDER BY child_schema, child_table, '' @
       ''overlapping_column''"

subsection \<open>Queries of analyze_sec_config\<close>

definition server_config_flags_query :: string where
  "server_config_flags_query =
       ''SELECT name, value_in_use FROM sys.configurations WHERE name IN ('xp_cmdshell','clr '' @
       ''enabled','cross db ownership chaining','Ole Automation Procedures') ORDER BY name''"

definition trustworthy_databases_query :: string where
  "trustworthy_databases_query =
       ''SELECT name AS database_name, is_trustworthy_on FROM sys.databases WHERE '' @
       ''is_trustworthy_on = 1 AND name NOT IN ('msdb') ORDER BY name''"

definition guest_access_query :: string where
  "guest_access_query =
       ''SELECT DB_NAME() AS database_name WHERE EXISTS (  SELECT 1 FROM '' @
       ''sys.database_permissions dp   JOIN sys.database_principals guest ON '' @
       ''guest.principal_id = dp.grantee_principal_id AND guest.name = 'guest'   WHERE '' @
       ''dp.permission_name = 'CONNECT' AND dp.state_desc = 'GRANT')''"

definition excessive_permissions_query :: "pyval \<Rightarrow> string result" where
  "excessive_permissions_query top_n = bind_res (validate_top_n top_n) (\<lambda>n. Inr (
       ''SELECT TOP '' @ int_str n @
       '' dp.name AS principal_name, dp.type_desc, COUNT(*) AS explicit_grant_count FROM '' @
       ''sys.database_permissions perm JOIN sys.database_principals dp ON dp.principal_id = '' @
       ''perm.grantee_principal_id WHERE perm.state_desc = 'GRANT' AND dp.principal_id > 4 '' @
       ''GROUP BY dp.name, dp.type_desc ORDER BY explicit_grant_count DESC''))"

subsection \<open>Queries of top_statements\<close>

definition top_statements_query_store_query :: "pyval \<Rightarrow> pyval \<Rightarrow> string result" where
  "top_statements_query_store_query top_n lookback_minutes =
     bind_res (validate_top_n top_n) (\<lambda>n. bind_res (validate_lookback_minutes lookback_minutes) (\<lambda>m. Inr (
       ''SELECT TOP '' @ int_str n @
       '' qsq.query_id, CAST(SUM(rs.avg_duration * rs.count_executions)   / '' @
       ''NULLIF(SUM(rs.count_executions), 0) AS BIGINT) AS weighted_avg_duration_us, '' @
       ''CAST(MAX(rs.max_duration) AS BIGINT) AS max_duration_us, SUM(rs.count_executions) '' @
       ''AS execution_count, CAST(SUM(rs.avg_cpu_time * rs.count_executions)   / '' @
       ''NULLIF(SUM(rs.count_executions), 0) AS FLOAT) AS weighted_avg_cpu_time_us, '' @
       ''CAST(SUM(rs.avg_logical_io_reads * rs.count_executions)   / '' @
       ''NULLIF(SUM(rs.count_executions), 0) AS FLOAT) AS weighted_avg_logical_reads, '' @
       ''CAST(SUM(rs.avg_physical_io_reads * rs.count_executions)   / '' @
       ''NULLIF(SUM(rs.count_executions), 0) AS FLOAT) AS weighted_avg_physical_reads, '' @
       ''CAST(SUM(rs.avg_log_bytes_used * rs.count_executions)   / '' @
       ''NULLIF(SUM(rs.count_executions), 0) AS FLOAT) AS weighted_avg_log_bytes, '' @
       ''MAX(rsi.end_time) AS last_exec_time, LEFT(TRIM(qt.query_sql_text), 4000) AS '' @
       ''query_sql_text, qsq.object_id AS containing_object_id, '' @
       ''OBJECT_SCHEMA_NAME(qsq.object_id) AS containing_schema, OBJECT_NAME(qsq.object_id) '' @
       ''AS containing_object FROM sys.query_store_query qsq JOIN sys.query_store_query_text '' @
       ''qt   ON qsq.query_text_id = qt.query_text_id JOIN sys.query_store_plan qsp   ON '' @
       ''qsq.query_id = qsp.query_id JOIN sys.query_store_runtime_stats rs   ON qsp.plan_id '' @
       ''= rs.plan_id JOIN sys.query_store_runtime_stats_interval rsi   ON '' @
       ''rs.runtime_stats_interval_id = rsi.runtime_stats_interval_id WHERE rsi.start_time '' @
       ''>= DATEADD(minute, -{lookback_minutes}, SYSUTCDATETIME()) GROUP BY qsq.query_id, '' @
       ''qt.query_sql_text, qsq.object_id ORDER BY weighted_avg_duration_us DESC OPTION '' @
       ''(RECOMPILE)'')))"

definition top_statements_dmv_fallback_query :: "pyval \<Rightarrow> string result" where
  "top_statements_dmv_fallback_query top_n = bind_res (validate_top_n top_n) (\<lambda>n. Inr (
       ''SELECT TOP '' @ int_str n @
       '' NULL AS query_id, qs.total_elapsed_time / NULLIF(qs.execution_count, 0) AS '' @
       ''weighted_avg_duration_us, qs.max_elapsed_time AS max_duration_us, '' @
       ''qs.execution_count, qs.total_worker_time / NULLIF(qs.execution_count, 0) AS '' @
       ''weighted_avg_cpu_time_us, qs.total_logical_reads / NULLIF(qs.execution_count, 0) AS '' @
       ''weighted_avg_logical_reads, qs.total_physical_reads / NULLIF(qs.execution_count, 0) '' @
       ''AS weighted_avg_physical_reads, 0 AS weighted_avg_log_bytes, qs.last_execution_time '' @
       ''AS last_exec_time, LEFT(TRIM(TRY_CAST(st.text AS nvarchar(max))), 4000) AS '' @
       ''query_sql_text, NULL AS containing_object_id, NULL AS containing_schema, NULL AS '' @
       ''containing_object FROM sys.dm_exec_query_stats qs CROSS APPLY '' @
       ''sys.dm_exec_sql_text(qs.sql_handle) st WHERE qs.execution_count > 0 ORDER BY '' @
       ''weighted_avg_duration_us DESC OPTION (RECOMPILE)''))"

definition top_statements_object_pressure_query :: "pyval \<Rightarrow> string result" where
  "top_statements_object_pressure_query top_n = bind_res (validate_top_n top_n) (\<lambda>n. Inr (
       ''WITH table_row_counts AS (  SELECT ps.object_id, SUM(ps.row_count) AS row_count   '' @
       ''FROM sys.dm_db_partition_stats ps   WHERE ps.index_id IN (0, 1)   GROUP BY '' @
       ''ps.object_id), table_usage AS (  SELECT ius.object_id,          SUM(ius.user_seeks) '' @
       ''AS user_seeks,          SUM(ius.user_scans) AS user_scans,          '' @
       ''SUM(ius.user_lookups) AS user_lookups,          SUM(ius.user_updates) AS '' @
       ''user_updates   FROM sys.dm_db_index_usage_stats ius   WHERE ius.database_id = '' @
       ''DB_ID() AND ius.index_id IN (0, 1)   GROUP BY ius.object_id) SELECT TOP '' @ int_str n @
       '' OBJECT_SCHEMA_NAME(tr.object_id) AS schema_name, OBJECT_NAME(tr.object_id) AS '' @
       ''table_name, ISNULL(tu.user_seeks, 0) AS user_seeks, ISNULL(tu.user_scans, 0) AS '' @
       ''user_scans, ISNULL(tu.user_lookups, 0) AS user_lookups, ISNULL(tu.user_updates, 0) '' @
       ''AS user_updates, tr.row_count, CAST(ISNULL(tu.user_scans, 0) AS FLOAT)   / '' @
       ''NULLIF(ISNULL(tu.user_seeks, 0) + ISNULL(tu.user_scans, 0), 0) AS scan_ratio FROM '' @
       ''table_row_counts tr LEFT JOIN table_usage tu ON tu.object_id = tr.object_id WHERE '' @
       ''OBJECTPROPERTY(tr.object_id, 'IsUserTable') = 1   AND tr.row_count > 0 ORDER BY '' @
       ''scan_ratio DESC, tr.row_count DESC OPTION (RECOMPILE)''))"

section \<open>Every statement is one plain query\<close>

text \<open>A single \<open>SELECT\<close> or \<open>WITH\<close> statement: no semicolon in the text.\<close>

definition plain_sql :: "string \<Rightarrow> bool" where
  "plain_sql q \<longleftrightarrow> (prefix ''SELECT '' q \<or> prefix ''WITH '' q) \<and> CHR '';'' \<notin> set q"

definition plain_result :: "string result \<Rightarrow> bool" where
  "plain_result r = (case r of Inl e \<Rightarrow> exc_kind e = ValueErr | Inr q \<Rightarrow> plain_sql q)"

lemma validate_top_n_Inr:
  "validate_top_n v = Inr n \<longleftrightarrow> py_int v = Inr n \<and> 1 \<le> n \<and> n \<le> 10000"
  by (auto simp: validate_top_n_def validate_range_def split: sum.splits if_splits)

lemma py_int_error: "py_int v = Inl e \<Longrightarrow> exc_kind e = TypeErr \<or> exc_kind e = ValueErr"
  by (auto simp: py_int_def split: pyval.splits option.splits)

lemma validate_top_n_Inl: "validate_top_n v = Inl e \<Longrightarrow> exc_kind e = ValueErr"
  using py_int_error [of v]
  by (auto simp: validate_top_n_def validate_range_def split: sum.splits if_splits)

lemma plain_top: "(\<And>n. plain_sql (f n)) \<Longrightarrow> plain_result (bind_res (validate_top_n v) (\<lambda>n. Inr (f n)))"
  by (cases "validate_top_n v") (auto simp: plain_result_def dest: validate_top_n_Inl)

lemmas plain_sql_simps = plain_sql_def int_str_no_semicolon squote_def

lemma table_size_query_plain: "plain_result (table_size_query top_n)"
  unfolding table_size_query_def by (rule plain_top) (simp add: plain_sql_simps)

lemma fragmented_indexes_query_plain: "plain_result (fragmented_indexes_query top_n)"
  unfolding fragmented_indexes_query_def by (rule plain_top) (simp add: plain_sql_simps)

lemma active_sessions_query_plain: "plain_result (active_sessions_query top_n)"
  unfolding active_sessions_query_def by (rule plain_top) (simp add: plain_sql_simps)

lemma lock_chain_query_plain: "plain_result (lock_chain_query top_n)"
  unfolding lock_chain_query_def by (rule plain_top) (simp add: plain_sql_simps)

lemma blocking_chain_query_plain: "plain_result (blocking_chain_query top_n)"
  unfolding blocking_chain_query_def by (rule plain_top) (simp add: plain_sql_simps)

lemma tran_locks_query_plain: "plain_result (tran_locks_query top_n)"
  unfolding tran_locks_query_def by (rule plain_top) (simp add: plain_sql_simps)

lemma waiting_tasks_query_plain: "plain_result (waiting_tasks_query top_n)"
  unfolding waiting_tasks_query_def by (rule plain_top) (simp add: plain_sql_simps)

lemma stale_statistics_query_plain: "plain_result (stale_statistics_query top_n)"
  unfolding stale_statistics_query_def by (rule plain_top) (simp add: plain_sql_simps)

lemma statistics_never_updated_query_plain: "plain_result (statistics_never_updated_query top_n)"
  unfolding statistics_never_updated_query_def by (rule plain_top) (simp add: plain_sql_simps)

lemma low_sampled_statistics_query_plain: "plain_result (low_sampled_statistics_query top_n)"
  unfolding low_sampled_statistics_query_def by (rule plain_top) (simp add: plain_sql_simps)

lemma missing_statistics_coverage_candidate_query_plain: "plain_result (missing_statistics_coverage_candidate_query top_n)"
  unfolding missing_statistics_coverage_candidate_query_def by (rule plain_top) (simp add: plain_sql_simps)

lemma duplicate_key_candidate_query_plain: "plain_result (duplicate_key_candidate_query top_n)"
  unfolding duplicate_key_candidate_query_def by (rule plain_top) (simp add: plain_sql_simps)

lemma missing_index_dmv_query_plain: "plain_result (missing_index_dmv_query top_n)"
  unfolding missing_index_dmv_query_def by (rule plain_top) (simp add: plain_sql_simps)

lemma unused_indexes_query_plain: "plain_result (unused_indexes_query top_n)"
  unfolding unused_indexes_query_def by (rule plain_top) (simp add: plain_sql_simps)

lemma redundant_indexes_query_plain: "plain_result (redundant_indexes_query top_n)"
  unfolding redundant_indexes_query_def by (rule plain_top) (simp add: plain_sql_simps)

lemma datatype_inconsistency_query_plain: "plain_result (datatype_inconsistency_query top_n)"
  unfolding datatype_inconsistency_query_def by (rule plain_top) (simp add: plain_sql_simps)

lemma update_heavy_tables_query_plain: "plain_result (update_heavy_tables_query top_n)"
  unfolding update_heavy_tables_query_def by (rule plain_top) (simp add: plain_sql_simps)

lemma excessive_permissions_query_plain: "plain_result (excessive_permissions_query top_n)"
  unfolding excessive_permissions_query_def by (rule plain_top) (simp add: plain_sql_simps)

lemma top_statements_dmv_fallback_query_plain: "plain_result (top_statements_dmv_fallback_query top_n)"
  unfolding top_statements_dmv_fallback_query_def by (rule plain_top) (simp add: plain_sql_simps)

lemma top_statements_object_pressure_query_plain: "plain_result (top_statements_object_pressure_query top_n)"
  unfolding top_statements_object_pressure_query_def by (rule plain_top) (simp add: plain_sql_simps)

lemma missing_pk_query_plain: "plain_sql missing_pk_query"
  unfolding missing_pk_query_def by (simp add: plain_sql_simps)

lemma fk_graph_query_plain: "plain_sql fk_graph_query"
  unfolding fk_graph_query_def by (simp add: plain_sql_simps)

lemma orphan_user_query_plain: "plain_sql orphan_user_query"
  unfolding orphan_user_query_def by (simp add: plain_sql_simps)

lemma elevated_roles_query_plain: "plain_sql elevated_roles_query"
  unfolding elevated_roles_query_def by (simp add: plain_sql_simps)

lemma backup_recency_query_plain: "plain_sql backup_recency_query"
  unfolding backup_recency_query_def by (simp add: plain_sql_simps)

lemma heap_tables_query_plain: "plain_sql heap_tables_query"
  unfolding heap_tables_query_def by (simp add: plain_sql_simps)

lemma disabled_indexes_query_plain: "plain_sql disabled_indexes_query"
  unfolding disabled_indexes_query_def by (simp add: plain_sql_simps)

lemma database_statistics_settings_query_plain: "plain_sql database_statistics_settings_query"
  unfolding database_statistics_settings_query_def by (simp add: plain_sql_simps)

lemma tables_without_fk_query_plain: "plain_sql tables_without_fk_query"
  unfolding tables_without_fk_query_def by (simp add: plain_sql_simps)

lemma nullable_fk_columns_query_plain: "plain_sql nullable_fk_columns_query"
  unfolding nullable_fk_columns_query_def by (simp add: plain_sql_simps)

lemma missing_fk_index_query_plain: "plain_sql missing_fk_index_query"
  unfolding missing_fk_index_query_def by (simp add: plain_sql_simps)

lemma soft_delete_columns_query_plain: "plain_sql soft_delete_columns_query"
  unfolding soft_delete_columns_query_def by (simp add: plain_sql_simps)

lemma normalization_column_overlap_query_plain: "plain_sql normalization_column_overlap_query"
  unfolding normalization_column_overlap_query_def by (simp add: plain_sql_simps)

lemma server_config_flags_query_plain: "plain_sql server_config_flags_query"
  unfolding server_config_flags_query_def by (simp add: plain_sql_simps)

lemma trustworthy_databases_query_plain: "plain_sql trustworthy_databases_query"
  unfolding trustworthy_databases_query_def by (simp add: plain_sql_simps)

lemma guest_access_query_plain: "plain_sql guest_access_query"
  unfolding guest_access_query_def by (simp add: plain_sql_simps)

text \<open>The statements of the module, by their arguments.\<close>

definition limited_catalogue :: "pyval \<Rightarrow> string result list" where
  "limited_catalogue top_n =
     [table_size_query top_n, fragmented_indexes_query top_n, active_sessions_query top_n,
      lock_chain_query top_n, blocking_chain_query top_n, tran_locks_query top_n,
      waiting_tasks_query top_n, stale_statistics_query top_n,
      statistics_never_updated_query top_n, low_sampled_statistics_query top_n,
      missing_statistics_coverage_candidate_query top_n, duplicate_key_candidate_query top_n,
      missing_index_dmv_query top_n, unused_indexes_query top_n, redundant_indexes_query top_n,
      datatype_inconsistency_query top_n, update_heavy_tables_query top_n,
      excessive_permissions_query top_n, top_statements_dmv_fallback_query top_n,
      top_statements_object_pressure_query top_n]"

definition fixed_catalogue :: "string list" where
  "fixed_catalogue =
     [missing_pk_query, fk_graph_query, orphan_user_query, elevated_roles_query,
      backup_recency_query, heap_tables_query, disabled_indexes_query,
      database_statistics_settings_query, tables_without_fk_query, nullable_fk_columns_query,
      missing_fk_index_query, soft_delete_columns_query, normalization_column_overlap_query,
      server_config_flags_query, trustworthy_databases_query, guest_access_query]"

lemma limited_catalogue_plain: "r \<in> set (limited_catalogue v) \<Longrightarrow> plain_result r"
  unfolding limited_catalogue_def
  using table_size_query_plain [of v] fragmented_indexes_query_plain [of v]
    active_sessions_query_plain [of v] lock_chain_query_plain [of v] blocking_chain_query_plain [of v] tran_locks_query_plain [of v] waiting_tasks_query_plain [of v] stale_statistics_query_plain [of v] statistics_never_updated_query_plain [of v] low_sampled_statistics_query_plain [of v] missing_statistics_coverage_candidate_query_plain [of v] duplicate_key_candidate_query_plain [of v] missing_index_dmv_query_plain [of v] unused_indexes_query_plain [of v] redundant_indexes_query_plain [of v] datatype_inconsistency_query_plain [of v] update_heavy_tables_query_plain [of v] excessive_permissions_query_plain [of v] top_statements_dmv_fallback_query_plain [of v] top_statements_object_pressure_query_plain [of v]
  by auto

lemma fixed_catalogue_plain: "q \<in> set fixed_catalogue \<Longrightarrow> plain_sql q"
  unfolding fixed_catalogue_def
  using missing_pk_query_plain fk_graph_query_plain orphan_user_query_plain
    elevated_roles_query_plain backup_recency_query_plain heap_tables_query_plain disabled_indexes_query_plain database_statistics_settings_query_plain tables_without_fk_query_plain nullable_fk_columns_query_plain missing_fk_index_query_plain soft_delete_columns_query_plain normalization_column_overlap_query_plain server_config_flags_query_plain trustworthy_databases_query_plain guest_access_query_plain
  by auto

lemma query_store_plain: "plain_result (top_statements_query_store_query v w)"
proof (cases "validate_top_n v")
  case (Inl e)
  then show ?thesis
    by (simp add: top_statements_query_store_query_def plain_result_def validate_top_n_Inl)
next
  case n: (Inr n)
  show ?thesis
  proof (cases "validate_lookback_minutes w")
    case (Inl e)
    then have "exc_kind e = ValueErr"
      using py_int_error [of w]
      by (auto simp: validate_lookback_minutes_def validate_range_def split: sum.splits if_splits)
    with n Inl show ?thesis by (simp add: top_statements_query_store_query_def plain_result_def)
  next
    case (Inr m)
    with n show ?thesis
      by (simp add: top_statements_query_store_query_def plain_result_def plain_sql_simps)
  qed
qed

lemma starts_with_query_verb:
  assumes "prefix ''SELECT '' q \<or> prefix ''WITH '' q"
  shows "first_verb q \<notin> write_verbs"
proof -
  have w: "plain_word ''SELECT''" "plain_word ''WITH''" by (simp_all add: plain_word_def is_space_def)
  from assms consider r where "q = ''SELECT'' @ '' '' @ r" | r where "q = ''WITH'' @ '' '' @ r"
    by (auto simp: prefix_def)
  then show ?thesis
  proof cases
    case 1
    then have "first_verb q = py_upper ''SELECT''"
      using first_verb_word [OF trivia_empty w(1), of "'' '' @ r"] by (simp add: is_space_def)
    then show ?thesis by (simp add: write_verbs_def py_upper_def upper_chars_def)
  next
    case 2
    then have "first_verb q = py_upper ''WITH''"
      using first_verb_word [OF trivia_empty w(2), of "'' '' @ r"] by (simp add: is_space_def)
    then show ?thesis by (simp add: write_verbs_def py_upper_def upper_chars_def)
  qed
qed

text \<open>The text of a statement outside its string literals; a doubled quote ends and reopens one.\<close>

fun outside_literals :: "bool \<Rightarrow> string \<Rightarrow> string" where
  "outside_literals quoted [] = []"
| "outside_literals quoted (c # s) =
     (if c = squote then outside_literals (\<not> quoted) s
      else if quoted then outside_literals quoted s else c # outside_literals quoted s)"

lemma outside_literals_subset: "set (outside_literals quoted s) \<subseteq> set s"
  by (induction quoted s rule: outside_literals.induct) auto

lemma outside_literals_escaped:
  "outside_literals True (escape_quotes s @ rest) = outside_literals True rest"
  by (induction s) (simp_all add: escape_quotes_def)

lemma outside_literals_plain:
  "squote \<notin> set a \<Longrightarrow> outside_literals False (a @ rest) = a @ outside_literals False rest"
  by (induction a) auto

text \<open>The statements of the module: with a row limit, with a window too, with names, and fixed.\<close>

definition catalogue :: "pyval \<Rightarrow> pyval \<Rightarrow> string \<Rightarrow> string \<Rightarrow> string \<Rightarrow> string result list" where
  "catalogue top_n lookback schema table stat =
     top_statements_query_store_query top_n lookback # Inr (statistics_histogram_query schema table stat)
     # limited_catalogue top_n @ map Inr fixed_catalogue"

lemma histogram_outside:
  "outside_literals False (statistics_histogram_query schema table stat) =
     ''SELECT h.step_number, TRY_CAST(h.range_high_key AS nvarchar(256)) AS '' @
     ''range_high_key_text, h.range_rows, h.equal_rows, h.distinct_range_rows, '' @
     ''h.average_range_rows FROM sys.stats st CROSS APPLY '' @
     ''sys.dm_db_stats_histogram(st.object_id, st.stats_id) h WHERE st.object_id = OBJECT_ID('' @
     '') AND st.name = '' @ '' ORDER BY h.step_number''"
  by (simp add: statistics_histogram_query_def Let_def outside_literals_escaped squote_def
      outside_literals_escaped [unfolded squote_def])

text \<open>
  C28: every statement of the catalogue, for whatever row limit, window and names, starts with
  \<open>SELECT\<close> or \<open>WITH\<close> and has no semicolon outside its string literals; only the histogram statement,
  whose literals hold the caller's names, may have one inside.  So the write guard lets it pass
  unless a deny pattern matches it; a limit that is refused raises \<open>ValueError\<close> and gives no
  statement.
\<close>

theorem catalogue_is_read_only:
  assumes "r \<in> set (catalogue top_n lookback schema table stat)"
  shows "(\<exists>e. r = Inl e \<and> exc_kind e = ValueErr)
    \<or> (\<exists>q. r = Inr q \<and> (prefix ''SELECT '' q \<or> prefix ''WITH '' q)
          \<and> CHR '';'' \<notin> set (outside_literals False q)
          \<and> (CHR '';'' \<in> set q \<longrightarrow> q = statistics_histogram_query schema table stat)
          \<and> (\<forall>wg tool. (\<forall>p \<in> set (wg_blocked wg). \<not> p q) \<longrightarrow> enforce wg tool q = Inr ()))"
proof -
  have guard: "enforce wg tool q = Inr ()"
    if "prefix ''SELECT '' q \<or> prefix ''WITH '' q" "\<forall>p \<in> set (wg_blocked wg). \<not> p q" for wg tool q
    using that(2) starts_with_query_verb [OF that(1)] by (auto simp: enforce_def Let_def)
  show ?thesis
  proof (cases "r = Inr (statistics_histogram_query schema table stat)")
    case True
    let ?q = "statistics_histogram_query schema table stat"
    have "prefix ''SELECT '' ?q" by (simp add: statistics_histogram_query_def Let_def)
    moreover have "CHR '';'' \<notin> set (outside_literals False ?q)" by (simp add: histogram_outside)
    ultimately show ?thesis using True guard [of ?q] by blast
  next
    case False
    have "plain_result r"
      using assms False limited_catalogue_plain [of r top_n] fixed_catalogue_plain query_store_plain
      by (auto simp: catalogue_def plain_result_def)
    then show ?thesis
      using guard outside_literals_subset [of False]
      by (cases r) (auto simp: plain_result_def plain_sql_def dest!: subsetD)
  qed
qed

text \<open>A table name that tries to end the statement stays in its literal.\<close>

theorem catalogue_is_read_only_witness:
  "let q = statistics_histogram_query ''dbo'' ([squote] @ ''); DROP TABLE t'') ''s'' in
     CHR '';'' \<in> set q \<and> CHR '';'' \<notin> set (outside_literals False q)
     \<and> enforce \<lparr>wg_policy = default_policy, wg_blocked = []\<rparr> ''t'' q = Inr ()"
proof -
  let ?q = "statistics_histogram_query ''dbo'' ([squote] @ ''); DROP TABLE t'') ''s''"
  have mem: "Inr ?q \<in> set (catalogue (VInt 1) VNone ''dbo'' ([squote] @ ''); DROP TABLE t'') ''s'')"
    unfolding catalogue_def by (simp only: list.set insert_iff simp_thms)
  obtain q where q: "Inr ?q = (Inr q :: string result)" "CHR '';'' \<notin> set (outside_literals False q)"
    "\<And>wg tool. \<forall>p \<in> set (wg_blocked wg). \<not> p q \<Longrightarrow> enforce wg tool q = Inr ()"
    using catalogue_is_read_only [OF mem] by (metis sum.distinct(1))
  have "CHR '';'' \<in> set ?q" by code_simp
  moreover have "?q = q" using q(1) by (rule sum.inject(2) [THEN iffD1])
  ultimately show ?thesis
    using q(2) q(3) [of "\<lparr>wg_policy = default_policy, wg_blocked = []\<rparr>" "''t''"]
    by (simp only: Let_def write_guard.simps list.set ball_empty simp_thms)
qed

text \<open>
  A limited statement is produced exactly if \<open>int(top_n)\<close> succeeds with a value from 1 to
  10000, and the Query Store statement exactly if in addition the window is from 1 to 10080
  minutes.
\<close>

theorem row_limit_exact:
  "(\<forall>r \<in> set (limited_catalogue v). is_ok r \<longleftrightarrow> (\<exists>n. py_int v = Inr n \<and> 1 \<le> n \<and> n \<le> 10000))
   \<and> (is_ok (top_statements_query_store_query v w) \<longleftrightarrow>
        (\<exists>n m. py_int v = Inr n \<and> 1 \<le> n \<and> n \<le> 10000 \<and> py_int w =
    Inr m \<and> 1 \<le> m \<and> m \<le> 10080))"
proof -
  have ok: "is_ok (bind_res x (\<lambda>n. Inr (f n))) = (\<exists>n. x = Inr n)" for x :: "int result" and f :: "int \<Rightarrow> string"
    by (cases x) auto
  have "is_ok r = (\<exists>n. validate_top_n v = Inr n)" if "r \<in> set (limited_catalogue v)" for r
    using that unfolding limited_catalogue_def
    by (simp only: list.set insert_iff empty_iff table_size_query_def fragmented_indexes_query_def active_sessions_query_def lock_chain_query_def blocking_chain_query_def tran_locks_query_def waiting_tasks_query_def stale_statistics_query_def statistics_never_updated_query_def low_sampled_statistics_query_def missing_statistics_coverage_candidate_query_def duplicate_key_candidate_query_def missing_index_dmv_query_def unused_indexes_query_def redundant_indexes_query_def datatype_inconsistency_query_def update_heavy_tables_query_def excessive_permissions_query_def top_statements_dmv_fallback_query_def top_statements_object_pressure_query_def) (elim disjE; simp only: ok)
  moreover have "validate_lookback_minutes w = Inr m \<longleftrightarrow> py_int w = Inr m \<and> 1 \<le> m \<and> m \<le> 10080" for m
    by (auto simp: validate_lookback_minutes_def validate_range_def split: sum.splits if_splits)
  then have "is_ok (top_statements_query_store_query v w) \<longleftrightarrow>
      (\<exists>n m. validate_top_n v = Inr n \<and> py_int w = Inr m \<and> 1 \<le> m \<and> m
    \<le> 10080)"
    unfolding top_statements_query_store_query_def
    by (cases "validate_top_n v"; cases "validate_lookback_minutes w") (auto simp del: append.simps)
  ultimately show ?thesis by (simp add: validate_top_n_Inr)
qed

theorem row_limit_exact_witness:
  "\<not> is_ok (table_size_query (VInt 10001))"
proof -
  have "table_size_query (VInt 10001) \<in> set (limited_catalogue (VInt 10001))"
    by (simp add: limited_catalogue_def)
  with row_limit_exact [of "VInt 10001" VNone] show ?thesis by (simp add: py_int_def)
qed

section \<open>Names inside literals\<close>

text \<open>
  Reading a T-SQL string literal from after its opening quote: two quotes stand for one, a single
  one ends the literal.  The result is the value and the text after the literal.
\<close>

fun read_literal :: "string \<Rightarrow> (string \<times> string) option" where
  "read_literal [] = None"
| "read_literal (c # s) =
     (if c \<noteq> squote then map_option (\<lambda>(v, r). (c # v, r)) (read_literal s)
      else (case s of
              d # s' \<Rightarrow> if d = squote then map_option (\<lambda>(v, r). (squote # v,
    r)) (read_literal s')
                        else Some ([], s)
            | [] \<Rightarrow> Some ([], [])))"

lemma read_escaped:
  "rest = [] \<or> hd rest \<noteq> squote \<Longrightarrow> read_literal (escape_quotes s @ squote # rest) = Some (s, rest)"
proof (induction s)
  case Nil
  then show ?case by (cases rest) (auto simp: escape_quotes_def)
next
  case (Cons c s)
  then show ?case by (auto simp: escape_quotes_def)
qed

lemma escape_quotes_append: "escape_quotes (a @ b) = escape_quotes a @ escape_quotes b"
  by (simp add: escape_quotes_def)

text \<open>The fixed text of the histogram statement around its two literals.\<close>

definition histogram_frame :: "string \<times> string \<times> string" where
  "histogram_frame =
     (''SELECT h.step_number, TRY_CAST(h.range_high_key AS nvarchar(256)) AS '' @
        ''range_high_key_text, h.range_rows, h.equal_rows, h.distinct_range_rows, '' @
        ''h.average_range_rows FROM sys.stats st CROSS APPLY '' @
        ''sys.dm_db_stats_histogram(st.object_id, st.stats_id) h WHERE st.object_id = OBJECT_ID('',
      '') AND st.name = '',
      '' ORDER BY h.step_number'')"

text \<open>
  In the histogram statement the caller's names stay inside their two string literals: read
  as T-SQL, the first literal is the schema and table name with a dot, the second the statistics
  name, and the text around them is fixed.
\<close>

theorem histogram_names_quoted:
  "\<exists>before rest1 between rest2 after.
     statistics_histogram_query schema table stat = before @ squote # rest1
     \<and> read_literal rest1 = Some (schema @ ''.'' @ table, between @ squote # rest2)
     \<and> read_literal rest2 = Some (stat, after)
     \<and> (before, between, after) = histogram_frame"
proof -
  obtain before between after where frame: "histogram_frame = (before, between, after)"
    by (metis prod_cases3)
  let ?rest2 = "escape_quotes stat @ squote # after"
  let ?rest1 = "escape_quotes (schema @ ''.'' @ table) @ squote # between @ squote # ?rest2"
  have q: "statistics_histogram_query schema table stat = before @ squote # ?rest1"
    using frame by (auto simp: statistics_histogram_query_def histogram_frame_def Let_def escape_quotes_append
        escape_quotes_def squote_def)
  have "between \<noteq> [] \<and> hd between \<noteq> squote" "after = [] \<or> hd after \<noteq> squote"
    using frame by (auto simp: histogram_frame_def squote_def)
  then have "read_literal ?rest1 = Some (schema @ ''.'' @ table, between @ squote # ?rest2)"
    "read_literal ?rest2 = Some (stat, after)"
    by (auto intro!: read_escaped)
  with q frame show ?thesis by metis
qed

end
