(* ===== verification/Usage_Summary.thy ===== *)
theory Usage_Summary
  imports Py_Values
begin

text \<open>
  \<open>src/diagnostics/usage_summary.py\<close>: the rollup of the audit log.  The lines of the file are an
  argument (\<open>None\<close> if it does not exist), and so is \<open>json.loads\<close>: the value of a line or the
  exception it raises.
\<close>

definition categorize_tool :: "string \<Rightarrow> string" where
  "categorize_tool tool_name =
     (if suffix ''_exec_proc'' tool_name then ''controlled_write''
      else if suffix ''_report'' tool_name then ''diagnostic''
      else if sublist ''_analyze_'' tool_name then ''analysis''
      else if suffix ''_dashboard'' tool_name then ''interactive''
      else ''read_only'')"

type_synonym decision_counts = "nat dict"

definition no_decisions :: decision_counts where
  "no_decisions = [(''allow'', 0), (''deny'', 0), (''unknown'', 0)]"

record usage_summary =
  us_events :: nat
  us_by_category :: "decision_counts dict"
  us_by_tool :: "decision_counts dict"
  us_deny_total :: nat
  us_latest :: "row option"

definition empty_summary :: usage_summary where
  "empty_summary = \<lparr>us_events = 0, us_by_category = [], us_by_tool = [], us_deny_total = 0,
     us_latest = None\<rparr>"

text \<open>\<open>d.setdefault(key, {...}); d[key][decision if decision in d[key] else "unknown"] += 1\<close>\<close>

definition bump :: "string \<Rightarrow> string \<Rightarrow> decision_counts dict \<Rightarrow> decision_counts dict" where
  "bump key decision d =
     (let inner = dict_get d key no_decisions;
          slot = (if map_of inner decision \<noteq> None then decision else ''unknown'')
      in dict_set key (dict_set slot (dict_get inner slot 0 + 1) inner) d)"

definition count_event :: "row \<Rightarrow> usage_summary \<Rightarrow> usage_summary" where
  "count_event r us =
     (let tool = py_str (row_get_or r ''tool'' (VStr ''unknown''));
          decision = py_str (row_get_or r ''decision'' (VStr ''unknown''));
          category = categorize_tool tool
      in us\<lparr>us_events := us_events us + 1, us_latest := Some r,
            us_by_tool := bump tool decision (us_by_tool us),
            us_by_category := bump category decision (us_by_category us),
            us_deny_total := us_deny_total us + (if decision = ''deny'' then 1 else 0)\<rparr>)"

fun summarize_lines :: "(string \<Rightarrow> pyval result) \<Rightarrow> string list \<Rightarrow> usage_summary \<Rightarrow> usage_summary result" where
  "summarize_lines json_loads [] us = Inr us"
| "summarize_lines json_loads (line # lines) us =
     (let line = py_strip line in
      if line = [] then summarize_lines json_loads lines us
      else bind_res (json_loads line) (\<lambda>v.
        case v of
          VDict r \<Rightarrow> summarize_lines json_loads lines (count_event r us)
        | _ \<Rightarrow> Inl (mk_exc OtherErr ''AttributeError'' ''object has no attribute 'get' '')))"

definition summarize_audit_events ::
  "(string \<Rightarrow> pyval result) \<Rightarrow> string list option \<Rightarrow> usage_summary result" where
  "summarize_audit_events json_loads audit_file =
     (case audit_file of
        None \<Rightarrow> Inr empty_summary
      | Some lines \<Rightarrow> summarize_lines json_loads lines empty_summary)"

section \<open>Totals\<close>

definition total_of :: "decision_counts dict \<Rightarrow> nat" where
  "total_of d = sum_list (map (\<lambda>(_, inner). sum_list (map snd inner)) d)"

definition total_denied :: "decision_counts dict \<Rightarrow> nat" where
  "total_denied d = sum_list (map (\<lambda>(_, inner). dict_get inner ''deny'' 0) d)"

definition counts_ok :: "decision_counts dict \<Rightarrow> bool" where
  "counts_ok d \<longleftrightarrow> distinct (map fst d)
     \<and> (\<forall>(k, inner) \<in> set d. map fst inner = [''allow'', ''deny'', ''unknown''])"

lemma inner_cases:
  assumes "map fst inner = [''allow'', ''deny'', ''unknown'']"
  obtains a b c where "inner = [(''allow'', a), (''deny'', b), (''unknown'', c :: nat)]"
proof -
  have "length inner = 3" using arg_cong [OF assms, of length] by simp
  then obtain p q r where i: "inner = [p, q, r]"
    by (auto simp: numeral_3_eq_3 length_Suc_conv)
  show thesis
    by (rule that [of "snd p" "snd q" "snd r"]) (use assms i in \<open>cases p; cases q; cases r; simp\<close>)
qed

lemma sum_values_dict_set:
  fixes f :: "'b \<Rightarrow> nat"
  assumes "distinct (map fst d)"
  shows "sum_list (map (\<lambda>(_, x). f x) (dict_set k v d)) + (case map_of d k of Some w \<Rightarrow> f w | None \<Rightarrow> 0)
    = sum_list (map (\<lambda>(_, x). f x) d) + f v"
  using assms
proof (induction d)
  case (Cons kv d)
  obtain a b where "kv = (a, b)" by force
  with Cons show ?case by (auto split: option.splits)
qed simp

lemma bump_inner:
  fixes inner :: decision_counts
  assumes "map fst inner = [''allow'', ''deny'', ''unknown'']"
    and "slot = (if map_of inner decision \<noteq> None then decision else ''unknown'')"
  shows "map fst (dict_set slot (dict_get inner slot 0 + 1) inner) = [''allow'', ''deny'', ''unknown'']
    \<and> sum_list (map snd (dict_set slot (dict_get inner slot 0 + 1) inner)) = sum_list (map snd inner) + 1
    \<and> dict_get (dict_set slot (dict_get inner slot 0 + 1) inner) ''deny'' 0
        = dict_get inner ''deny'' 0 + (if decision = ''deny'' then 1 else 0)"
proof -
  obtain a b c where i: "inner = [(''allow'', a), (''deny'', b), (''unknown'', c)]"
    using assms(1) by (rule inner_cases)
  show ?thesis unfolding assms(2) i by (auto simp: dict_get_def)
qed

lemma bump_ok:
  assumes "counts_ok d"
  shows "counts_ok (bump key decision d) \<and> total_of (bump key decision d) = total_of d + 1
    \<and> total_denied (bump key decision d) = total_denied d + (if decision = ''deny'' then 1 else 0)"
proof -
  define inner where "inner = dict_get d key no_decisions"
  define slot where "slot = (if map_of inner decision \<noteq> None then decision else ''unknown'')"
  define new where "new = dict_set slot (dict_get inner slot 0 + 1) inner"
  have keys: "map fst inner = [''allow'', ''deny'', ''unknown'']"
    using assms unfolding inner_def counts_ok_def
    by (auto simp: dict_get_def no_decisions_def split: option.splits dest!: map_of_SomeD)
  note b = bump_inner [OF keys slot_def]
  have d': "bump key decision d = dict_set key new d"
    by (simp add: bump_def Let_def inner_def slot_def new_def)
  have dist: "distinct (map fst d)" using assms by (simp add: counts_ok_def)
  have old: "(case map_of d key of Some w \<Rightarrow> sum_list (map snd w) | None \<Rightarrow> 0) = sum_list (map snd inner)"
    "(case map_of d key of Some w \<Rightarrow> dict_get w ''deny'' 0 | None \<Rightarrow> 0) = dict_get inner ''deny'' 0"
    by (auto simp: inner_def dict_get_def no_decisions_def split: option.splits)
  have "counts_ok (dict_set key new d)"
    using assms b unfolding counts_ok_def new_def [symmetric]
    by (auto dest!: set_dict_set)
  moreover have "total_of (dict_set key new d) = total_of d + 1"
    using sum_values_dict_set [OF dist, of "\<lambda>i. sum_list (map snd i)" key new] old(1) b
    unfolding total_of_def new_def [symmetric] by linarith
  moreover have "total_denied (dict_set key new d) = total_denied d + (if decision = ''deny'' then 1 else 0)"
    using sum_values_dict_set [OF dist, of "\<lambda>i. dict_get i ''deny'' 0" key new] old(2) b
    unfolding total_denied_def new_def [symmetric] by linarith
  ultimately show ?thesis unfolding d' by blast
qed

definition summary_ok :: "usage_summary \<Rightarrow> bool" where
  "summary_ok us \<longleftrightarrow> counts_ok (us_by_tool us) \<and> counts_ok (us_by_category us)
     \<and> total_of (us_by_tool us) = us_events us \<and> total_of (us_by_category us) = us_events us
     \<and> total_denied (us_by_tool us) = us_deny_total us \<and> total_denied (us_by_category us) = us_deny_total us"

lemma count_event_ok: "summary_ok us \<Longrightarrow> summary_ok (count_event r us)"
  by (simp add: summary_ok_def count_event_def Let_def bump_ok)

lemma summarize_lines_ok:
  "summarize_lines json lines us = Inr us' \<Longrightarrow> summary_ok us \<Longrightarrow> summary_ok us'"
proof (induction json lines us rule: summarize_lines.induct)
  case (2 json line lines us)
  show ?case
  proof (cases "py_strip line = []")
    case True
    with 2 show ?thesis by simp
  next
    case False
    then obtain v where v: "json (py_strip line) = Inr v"
      using 2(3) by (cases "json (py_strip line)") (auto simp: bind_res_def)
    then obtain r where r: "v = VDict r"
      using 2(3) False by (cases v) (auto simp: bind_res_def)
    have "summarize_lines json lines (count_event r us) = Inr us'"
      using 2(3) False v r by (simp add: bind_res_def)
    then show ?thesis
      using 2(2) [OF refl False] v r count_event_ok [OF 2(4)] by blast
  qed
qed simp

text \<open>
  In every summary of the audit log the decisions of all tools add up to the number of
  events, so do those of all categories, and the denials of either add up to the total of
  denials.
\<close>

theorem usage_totals_agree:
  assumes "summarize_audit_events json audit_file = Inr us"
  shows "total_of (us_by_tool us) = us_events us \<and> total_of (us_by_category us) = us_events us
    \<and> total_denied (us_by_tool us) = us_deny_total us \<and> total_denied (us_by_category us) = us_deny_total us"
proof -
  have "summary_ok empty_summary"
    by (simp add: summary_ok_def empty_summary_def counts_ok_def total_of_def total_denied_def)
  then have "summary_ok us"
    using assms summarize_lines_ok by (auto simp: summarize_audit_events_def split: option.splits)
  then show ?thesis by (simp add: summary_ok_def)
qed

theorem usage_totals_agree_witness:
  "(case summarize_audit_events (\<lambda>s. Inr (VDict [(''tool'', VStr ''ping''), (''decision'', VStr s)]))
     (Some [''deny'', '' '']) of Inr us \<Rightarrow> total_denied (us_by_tool us) = us_deny_total us
       \<and> us_deny_total us = 1 | Inl _ \<Rightarrow> False)"
proof -
  let ?s = "summarize_audit_events (\<lambda>s. Inr (VDict [(''tool'', VStr ''ping''), (''decision'', VStr s)]))
     (Some [''deny'', '' ''])"
  have one: "map_option us_deny_total (case ?s of Inr us \<Rightarrow> Some us | Inl _ \<Rightarrow> None) = Some 1"
    by code_simp
  then obtain us where us: "?s = Inr us" by (cases ?s) auto
  with one usage_totals_agree [OF us] show ?thesis by simp
qed

end
