(* ===== verification/Dashboard_Store.thy ===== *)
theory Dashboard_Store
  imports Py_Values
begin

text \<open>
  \<open>src/tools/dashboard_page_store.py\<close>: generated dashboard pages kept in memory under a request
  id until they expire.  The module-level dictionary is the state, passed explicitly; every
  reading of the clock is an argument.  The interface \<open>expiring_store\<close> states what the
  dashboard tool and the refresh route rely on.
\<close>

section \<open>The interface\<close>

locale expiring_store =
  fixes put :: "real \<Rightarrow> 'k \<Rightarrow> real \<Rightarrow> 'v \<Rightarrow> 's \<Rightarrow> 's"
    and get :: "real \<Rightarrow> 'k \<Rightarrow> 's \<Rightarrow> 'v option"
    and touch_store :: "real \<Rightarrow> 's \<Rightarrow> 's"
    and wf :: "'s \<Rightarrow> bool"
  assumes wf_put: "wf s \<Longrightarrow> wf (put now k ttl v s)"
    and wf_touch: "wf s \<Longrightarrow> wf (touch_store now s)"
    and get_put_same: "wf s \<Longrightarrow> now \<le> now' \<Longrightarrow>
      get now' k (put now k ttl v s) = (if now' < now + ttl then Some v else None)"
    and get_put_other: "wf s \<Longrightarrow> now \<le> now' \<Longrightarrow> k' \<noteq> k \<Longrightarrow>
      get now' k' (put now k ttl v s) = get now' k' s"
    and get_touch: "wf s \<Longrightarrow> now \<le> now' \<Longrightarrow> get now' k (touch_store now s) = get now' k s"
begin

text \<open>Steps of the store: a page is put or the store is read (which drops expired pages).\<close>

fun steps :: "(real \<times> ('k \<times> real \<times> 'v) option) list \<Rightarrow> 's \<Rightarrow> 's" where
  "steps [] s = s"
| "steps ((now, Some (k, ttl, v)) # ops) s = steps ops (put now k ttl v s)"
| "steps ((now, None) # ops) s = steps ops (touch_store now s)"

definition puts_to :: "(real \<times> ('k \<times> real \<times> 'v) option) list \<Rightarrow> 'k set" where
  "puts_to ops = {k. \<exists>now ttl v. (now, Some (k, ttl, v)) \<in> set ops}"

lemma puts_to_Cons:
  "puts_to ((now, p) # ops) = (case p of None \<Rightarrow> {} | Some (k, _, _) \<Rightarrow> {k}) \<union> puts_to ops"
  by (auto simp: puts_to_def split: option.splits)

lemma wf_steps: "wf s \<Longrightarrow> wf (steps ops s)"
  by (induction ops s rule: steps.induct) (auto intro: wf_put wf_touch)

lemma get_steps_other:
  "wf s \<Longrightarrow> \<forall>op \<in> set ops. fst op \<le> now' \<Longrightarrow> k \<notin> puts_to ops \<Longrightarrow>
   get now' k (steps ops s) = get now' k s"
  by (induction ops s rule: steps.induct)
    (auto simp: puts_to_Cons get_put_other get_touch wf_put wf_touch)

lemma get_after_steps:
  assumes "wf s" "now \<le> now'" "\<forall>op \<in> set ops. fst op \<le> now'" "k \<notin> puts_to ops"
  shows "get now' k (steps ops (put now k ttl v s)) = (if now' < now + ttl then Some v else None)"
  using assms by (simp add: get_steps_other wf_put get_put_same)

end

section \<open>The store\<close>

record page_entry =
  pe_html :: string
  pe_expires_epoch :: real
  pe_metadata :: "row option"

type_synonym page_store = "(string \<times> page_entry) list"

definition max_ttl_seconds :: int where "max_ttl_seconds = 7 * 24 * 60 * 60"

definition id_char :: "char \<Rightarrow> bool" where
  "id_char c = (let n = (of_char c :: nat) in
     (97 \<le> n \<and> n \<le> 122) \<or> (65 \<le> n \<and> n \<le> 90) \<or> (48 \<le> n \<and> n \<le> 57) \<or> n = 95 \<or> n = 45)"

text \<open>
  \<open>re.match(r"^[a-zA-Z0-9_-]{1,255}$", s)\<close>: without \<open>MULTILINE\<close>, \<open>$\<close> matches at the end and
  also before a newline that ends the text.
\<close>

definition id_pattern :: "string \<Rightarrow> bool" where
  "id_pattern s = (let body = (if s \<noteq> [] \<and> last s = CHR 0x0A then butlast s else s)
     in 1 \<le> length body \<and> length body \<le> 255 \<and> list_all id_char body)"

definition validate_request_id :: "string \<Rightarrow> unit result" where
  "validate_request_id request_id =
     (if py_strip request_id = [] then Inl (value_error ''request_id must be a non-empty string'')
      else if \<not> id_pattern request_id
        then Inl (value_error ''request_id contains invalid characters'')
      else Inr ())"

definition validate_html :: "string \<Rightarrow> string result" where
  "validate_html html =
     (if py_strip html = [] then Inl (value_error ''html must be a non-empty string'')
      else Inr html)"

definition validate_ttl_seconds :: "int \<Rightarrow> int result" where
  "validate_ttl_seconds ttl_seconds =
     (let ttl = ttl_seconds in
      if ttl < 1 then Inl (value_error ''ttl_seconds must be >= 1'')
      else if ttl > max_ttl_seconds
        then Inl (value_error (''ttl_seconds must be <= '' @ int_str max_ttl_seconds))
      else Inr ttl)"

definition public_base_url :: "string option \<Rightarrow> string" where
  "public_base_url env =
     rstrip_by (\<lambda>c. c = CHR ''/'')
       (py_strip (case env of Some v \<Rightarrow> v | None \<Rightarrow> ''http://localhost:8080''))"

definition cleanup_expired :: "real \<Rightarrow> page_store \<Rightarrow> page_store" where
  "cleanup_expired now_epoch pages =
     filter (\<lambda>(request_id, entry). \<not> pe_expires_epoch entry \<le> now_epoch) pages"

definition put_page :: "real \<Rightarrow> string \<Rightarrow> real \<Rightarrow> string \<times> row option \<Rightarrow> page_store \<Rightarrow> page_store" where
  "put_page now_epoch request_id ttl page pages =
     (let expires_epoch = now_epoch + ttl
      in dict_set request_id
           \<lparr>pe_html = fst page, pe_expires_epoch = expires_epoch, pe_metadata = snd page\<rparr>
           (cleanup_expired now_epoch pages))"

definition register_dashboard_page_with_metadata ::
  "string option \<Rightarrow> real \<Rightarrow> string \<Rightarrow> string \<Rightarrow> int \<Rightarrow> row option \<Rightarrow> page_store
     \<Rightarrow> string result \<times> page_store" where
  "register_dashboard_page_with_metadata env now_epoch request_id html ttl_seconds metadata pages =
     (case bind_res (validate_html html) (\<lambda>html. bind_res (validate_ttl_seconds ttl_seconds) (\<lambda>ttl.
        bind_res (validate_request_id request_id) (\<lambda>_. Inr (html, ttl)))) of
        Inl e \<Rightarrow> (Inl e, pages)
      | Inr (html, ttl) \<Rightarrow>
          (Inr (public_base_url env @ ''/diagnostics/dashboards/'' @ request_id),
           put_page now_epoch request_id (real_of_int ttl) (html, metadata) pages))"

definition register_dashboard_page ::
  "string option \<Rightarrow> real \<Rightarrow> string \<Rightarrow> string \<Rightarrow> int \<Rightarrow> page_store \<Rightarrow> string result \<times> page_store" where
  "register_dashboard_page env now_epoch request_id html ttl_seconds pages =
     register_dashboard_page_with_metadata env now_epoch request_id html ttl_seconds None pages"

definition get_valid_entry :: "real \<Rightarrow> string \<Rightarrow> page_store \<Rightarrow> page_entry option result \<times> page_store" where
  "get_valid_entry now_epoch request_id pages =
     (case validate_request_id request_id of
        Inl e \<Rightarrow> (Inl e, pages)
      | Inr _ \<Rightarrow>
          let pages1 = cleanup_expired now_epoch pages in
          (case map_of pages1 request_id of
             None \<Rightarrow> (Inr None, pages1)
           | Some entry \<Rightarrow>
               if pe_expires_epoch entry \<le> now_epoch
               then (Inr None, filter (\<lambda>(k, v). k \<noteq> request_id) pages1)
               else (Inr (Some entry), pages1)))"

definition get_dashboard_page :: "real \<Rightarrow> string \<Rightarrow> page_store \<Rightarrow> string option result \<times> page_store" where
  "get_dashboard_page now_epoch request_id pages =
     (let (r, pages') = get_valid_entry now_epoch request_id pages
      in (bind_res r (\<lambda>entry. Inr (map_option pe_html entry)), pages'))"

definition get_dashboard_page_metadata :: "real \<Rightarrow> string \<Rightarrow> page_store \<Rightarrow> row option result \<times> page_store" where
  "get_dashboard_page_metadata now_epoch request_id pages =
     (let (r, pages') = get_valid_entry now_epoch request_id pages
      in (bind_res r (\<lambda>entry. Inr (Option.bind entry pe_metadata)), pages'))"

text \<open>The expiry time; its ISO rendering is \<open>datetime\<close>'s.\<close>

definition get_dashboard_page_expiry :: "real \<Rightarrow> string \<Rightarrow> page_store \<Rightarrow> real option result \<times> page_store" where
  "get_dashboard_page_expiry now_epoch request_id pages =
     (let (r, pages') = get_valid_entry now_epoch request_id pages
      in (bind_res r (\<lambda>entry. Inr (map_option pe_expires_epoch entry)), pages'))"

section \<open>The store meets the interface\<close>

definition pages_wf :: "page_store \<Rightarrow> bool" where
  "pages_wf pages \<longleftrightarrow> distinct (map fst pages)"

definition page_at :: "real \<Rightarrow> string \<Rightarrow> page_store \<Rightarrow> (string \<times> row option) option" where
  "page_at now k pages = (case map_of pages k of
       Some e \<Rightarrow> if now < pe_expires_epoch e then Some (pe_html e, pe_metadata e) else None
     | None \<Rightarrow> None)"

lemma map_of_cleanup:
  "pages_wf pages \<Longrightarrow> map_of (cleanup_expired now pages) k =
     (case map_of pages k of Some e \<Rightarrow> if now < pe_expires_epoch e then Some e else None | None \<Rightarrow> None)"
  unfolding pages_wf_def cleanup_expired_def
  by (auto simp: map_of_filter_key split: option.splits)

lemma pages_wf_cleanup: "pages_wf pages \<Longrightarrow> pages_wf (cleanup_expired now pages)"
  by (simp add: pages_wf_def cleanup_expired_def distinct_map_filter)

interpretation page_store: expiring_store put_page page_at cleanup_expired pages_wf
proof unfold_locales
  fix s :: page_store and now now' ttl and k k' :: string and v :: "string \<times> row option"
  assume wf: "pages_wf s"
  then show "pages_wf (cleanup_expired now s)" by (rule pages_wf_cleanup)
  then show "pages_wf (put_page now k ttl v s)" by (simp add: pages_wf_def put_page_def Let_def)
  assume le: "now \<le> now'"
  show "page_at now' k (put_page now k ttl v s) = (if now' < now + ttl then Some v else None)"
    by (simp add: page_at_def put_page_def Let_def)
  show "page_at now' k (cleanup_expired now s) = page_at now' k s"
    using le by (auto simp: page_at_def map_of_cleanup [OF wf] split: option.splits)
  assume "k' \<noteq> k"
  then show "page_at now' k' (put_page now k ttl v s) = page_at now' k' s"
    using le by (auto simp: page_at_def put_page_def Let_def map_of_cleanup [OF wf] split: option.splits)
qed

lemma get_dashboard_page_at:
  assumes "pages_wf pages" "validate_request_id k = Inr ()"
  shows "fst (get_dashboard_page now k pages) = Inr (map_option fst (page_at now k pages))"
    and "fst (get_dashboard_page_metadata now k pages) = Inr (Option.bind (page_at now k pages) snd)"
    and "snd (get_dashboard_page now k pages) = cleanup_expired now pages"
    and "snd (get_dashboard_page_metadata now k pages) = cleanup_expired now pages"
  using assms
  by (auto simp: get_dashboard_page_def get_dashboard_page_metadata_def get_valid_entry_def
      page_at_def Let_def map_of_cleanup split: option.splits if_splits)

lemma register_ok:
  assumes "validate_html html = Inr html" "validate_ttl_seconds ttl = Inr ttl"
    "validate_request_id k = Inr ()"
  shows "register_dashboard_page_with_metadata env now k html ttl m pages =
    (Inr (public_base_url env @ ''/diagnostics/dashboards/'' @ k),
     put_page now k (real_of_int ttl) (html, m) pages)"
  using assms by (simp add: register_dashboard_page_with_metadata_def)

lemma register_cases:
  "register_dashboard_page_with_metadata env now k html ttl m pages = (r, pages') \<Longrightarrow>
   (\<exists>e. r = Inl e \<and> exc_kind e = ValueErr \<and> pages' = pages)
   \<or> (is_ok r \<and> validate_request_id k = Inr () \<and> 1 \<le> ttl \<and> ttl \<le> max_ttl_seconds
      \<and> pages' = put_page now k (real_of_int ttl) (html, m) pages)"
  by (auto simp: register_dashboard_page_with_metadata_def validate_html_def validate_ttl_seconds_def
      validate_request_id_def Let_def split: if_splits)

section \<open>Properties\<close>

text \<open>
  C38: a page registered under a valid id is returned by every later read before its expiry,
  with its metadata, and by none from its expiry on, whatever other pages are registered or
  read in between.
\<close>

theorem page_readable_until_expiry:
  assumes "pages_wf pages" "validate_request_id k = Inr ()" "validate_html html = Inr html"
    "validate_ttl_seconds ttl = Inr ttl"
    and "now \<le> now'" "\<forall>op \<in> set ops. fst op \<le> now'" "k \<notin> page_store.puts_to ops"
  shows "let pages' = page_store.steps ops (snd (register_dashboard_page_with_metadata env now k html ttl m pages))
         in fst (get_dashboard_page now' k pages')
              = Inr (if now' < now + real_of_int ttl then Some html else None)
          \<and> fst (get_dashboard_page_metadata now' k pages')
              = Inr (if now' < now + real_of_int ttl then m else None)"
proof -
  let ?s = "page_store.steps ops (put_page now k (real_of_int ttl) (html, m) pages)"
  have wf: "pages_wf ?s"
    using assms(1) by (intro page_store.wf_steps page_store.wf_put)
  have "page_at now' k ?s = (if now' < now + real_of_int ttl then Some (html, m) else None)"
    using assms by (intro page_store.get_after_steps) auto
  then show ?thesis
    by (simp add: register_ok assms(2-4) get_dashboard_page_at [OF wf assms(2)] Let_def)
qed

theorem page_readable_until_expiry_witness:
  "fst (get_dashboard_page 899 ''a-1'' (page_store.steps [(5, None), (7, Some (''b'', 900, (''q'', None)))]
     (snd (register_dashboard_page_with_metadata None 0 ''a-1'' ''<p>'' 900 None [])))) = Inr (Some ''<p>'')"
proof -
  have v: "validate_request_id ''a-1'' = Inr ()" "validate_html ''<p>'' = Inr ''<p>''"
    "validate_ttl_seconds 900 = Inr 900"
    by (simp_all add: validate_request_id_def id_pattern_def id_char_def validate_html_def
        validate_ttl_seconds_def max_ttl_seconds_def py_def)
  have w: "pages_wf []" by (simp add: pages_wf_def)
  show ?thesis
    using page_readable_until_expiry [OF w v, of 0 899
        "[(5, None), (7, Some (''b'', 900, (''q'', None)))]" None None]
    by (simp add: page_store.puts_to_def Let_def)
qed

text \<open>The operations of the module as a step relation on the store and the clock.\<close>

inductive store_step :: "real \<times> page_store \<Rightarrow> real \<times> page_store \<Rightarrow> bool" where
  step_register: "t \<le> now \<Longrightarrow>
     store_step (t, s) (now, snd (register_dashboard_page_with_metadata env now k html ttl m s))"
| step_get: "t \<le> now \<Longrightarrow> store_step (t, s) (now, snd (get_dashboard_page now k s))"
| step_metadata: "t \<le> now \<Longrightarrow> store_step (t, s) (now, snd (get_dashboard_page_metadata now k s))"
| step_expiry: "t \<le> now \<Longrightarrow> store_step (t, s) (now, snd (get_dashboard_page_expiry now k s))"
| step_clear: "store_step (t, s) (t, [])"

inductive store_reachable :: "real \<times> page_store \<Rightarrow> bool" where
  store_start: "store_reachable (t, [])"
| store_next: "store_reachable x \<Longrightarrow> store_step x y \<Longrightarrow> store_reachable y"

definition store_inv :: "real \<times> page_store \<Rightarrow> bool" where
  "store_inv x \<longleftrightarrow> pages_wf (snd x) \<and>
     (\<forall>(k, e) \<in> set (snd x). validate_request_id k = Inr ()
        \<and> pe_expires_epoch e \<le> fst x + real_of_int max_ttl_seconds)"

lemma store_inv_subset:
  "store_inv (t, s) \<Longrightarrow> t \<le> now \<Longrightarrow> set s' \<subseteq> set s \<Longrightarrow> pages_wf s' \<Longrightarrow> store_inv (now, s')"
  by (fastforce simp: store_inv_def)

lemma get_valid_entry_subset:
  assumes "pages_wf s"
  shows "set (snd (get_valid_entry now k s)) \<subseteq> set s \<and> pages_wf (snd (get_valid_entry now k s))"
  using assms by (auto simp: get_valid_entry_def cleanup_expired_def Let_def pages_wf_def
      distinct_map_filter split: sum.splits option.splits)

lemma store_inv_read:
  "store_inv (t, s) \<Longrightarrow> t \<le> now \<Longrightarrow> store_inv (now, snd (get_valid_entry now k s))"
  using get_valid_entry_subset [of s now k] store_inv_subset [of t s now]
  by (metis (no_types, lifting) snd_conv store_inv_def)

lemma store_inv_put:
  assumes "store_inv (t, s)" "t \<le> now" "validate_request_id k = Inr ()" "ttl \<le> real_of_int max_ttl_seconds"
  shows "store_inv (now, put_page now k ttl v s)"
proof -
  have "pages_wf (put_page now k ttl v s)"
    using assms(1) by (intro page_store.wf_put) (simp add: store_inv_def)
  then show ?thesis
    using assms by (fastforce simp: store_inv_def put_page_def Let_def cleanup_expired_def dest!: set_dict_set)
qed

lemma snd_reads [simp]:
  "snd (get_dashboard_page now k s) = snd (get_valid_entry now k s)"
  "snd (get_dashboard_page_metadata now k s) = snd (get_valid_entry now k s)"
  "snd (get_dashboard_page_expiry now k s) = snd (get_valid_entry now k s)"
  by (simp_all add: get_dashboard_page_def get_dashboard_page_metadata_def
      get_dashboard_page_expiry_def split_beta)

lemma store_step_inv: "store_step x y \<Longrightarrow> store_inv x \<Longrightarrow> store_inv y"
proof (induction rule: store_step.induct)
  case (step_register t now s env k html ttl m)
  obtain r s' where r: "register_dashboard_page_with_metadata env now k html ttl m s = (r, s')"
    by force
  from register_cases [OF r] show ?case
    using step_register store_inv_put [of t s now k "real_of_int ttl" "(html, m)"]
      store_inv_subset [of t s now s] by (auto simp: r store_inv_def [of "(t, s)"])
qed (auto intro: store_inv_read simp: store_inv_def [of "(_, [])"] pages_wf_def)

text \<open>
  C39: in every state the store can reach, whatever its operations are called with, each id is
  stored once and is one the validation accepts, and no page lives longer than seven days from
  the last operation.
\<close>

theorem store_always_valid:
  assumes "store_reachable (t, pages)"
  shows "distinct (map fst pages) \<and> (\<forall>(k, e) \<in> set pages. validate_request_id k = Inr ()
           \<and> pe_expires_epoch e \<le> t + real_of_int max_ttl_seconds)"
proof -
  have "store_inv x" if "store_reachable x" for x
    using that by (induction rule: store_reachable.induct)
      (auto intro: store_step_inv simp: store_inv_def [of "(_, [])"] pages_wf_def)
  from this [OF assms] show ?thesis by (simp add: store_inv_def pages_wf_def)
qed

theorem store_always_valid_witness:
  "distinct (map fst (snd (register_dashboard_page None 5 ''a-1'' ''<p>'' 900 [])))"
proof -
  have "store_reachable (5, snd (register_dashboard_page_with_metadata None 5 ''a-1'' ''<p>'' 900 None []))"
    by (rule store_next [OF store_start [of 0]], rule step_register) simp
  from store_always_valid [OF this] show ?thesis by (simp add: register_dashboard_page_def)
qed

text \<open>
  The id pattern is not anchored at the end of the text: if an id is accepted, so is the
  same id followed by a newline, although only letters, digits, hyphen and underscore are meant
  to be.
\<close>

theorem request_id_trailing_newline:
  assumes "validate_request_id k = Inr ()" "CHR 0x0A \<notin> set k"
  shows "validate_request_id (k @ [CHR 0x0A]) = Inr ()"
proof -
  have k: "py_strip k \<noteq> []" "id_pattern k"
    using assms(1) by (auto simp: validate_request_id_def split: if_splits)
  have "k \<noteq> []" using k(1) by auto
  moreover from this have "last k \<noteq> CHR 0x0A" using assms(2) last_in_set by metis
  ultimately have "id_pattern (k @ [CHR 0x0A])"
    using k(2) by (auto simp: id_pattern_def Let_def split: if_splits)
  moreover have "py_strip (k @ [CHR 0x0A]) \<noteq> []"
    using k(1) by (simp add: py_strip_def strip_by_eq_Nil)
  ultimately show ?thesis by (simp add: validate_request_id_def)
qed

theorem request_id_trailing_newline_witness:
  "validate_request_id (''a-1'' @ [CHR 0x0A]) = Inr ()"
  by (rule request_id_trailing_newline)
    (simp_all add: validate_request_id_def id_pattern_def id_char_def py_def)

end
