(* ===== verification/Model_Graph.thy ===== *)
theory Model_Graph
  imports Py_Values
begin

text \<open>
  \<open>src/tools/model_graph.py\<close>: the foreign-key graph of a database and the tables that lie on a
  cycle.  A Python set is a list whose order is not observed.  The search \<open>_dfs\<close> is a recursive
  function; its termination (the nodes not yet on the current path decrease) is proved, and
  Python's recursion limit is not modelled.
\<close>

record fk_edge =
  edge_from :: string
  edge_to :: string
  edge_fk_name :: string

definition row_edge :: "row \<Rightarrow> fk_edge" where
  "row_edge r =
     \<lparr>edge_from = py_str (row_get r ''parent_schema'') @ ''.'' @ py_str (row_get r ''parent_table''),
      edge_to = py_str (row_get r ''referenced_schema'') @ ''.'' @ py_str (row_get r ''referenced_table''),
      edge_fk_name = py_str (row_get_or r ''fk_name'' (VStr []))\<rparr>"

definition successors :: "fk_edge list \<Rightarrow> string \<Rightarrow> string list" where
  "successors edges current = map edge_to (filter (\<lambda>e. edge_from e = current) edges)"

text \<open>Whether \<open>_dfs start current seen\<close> adds \<open>start\<close> to the hits.\<close>

function dfs_hits :: "fk_edge list \<Rightarrow> string \<Rightarrow> string \<Rightarrow> string list \<Rightarrow> bool" where
  "dfs_hits edges start current seen =
     list_ex (\<lambda>nxt. if nxt = start then True
                else if nxt \<in> set seen then False
                else dfs_hits edges start nxt (nxt # seen)) (successors edges current)"
  by pat_completeness auto
termination
proof (relation "measure (\<lambda>(edges, start, current, seen). card (edge_to ` set edges - set seen))")
  fix edges :: "fk_edge list" and start current nxt :: string and seen :: "string list"
  assume "nxt \<in> set (successors edges current)" "nxt \<notin> set seen"
  then have "edge_to ` set edges - set (nxt # seen) \<subset> edge_to ` set edges - set seen"
    by (auto simp: successors_def)
  then show "((edges, start, nxt, nxt # seen), (edges, start, current, seen))
      \<in> measure (\<lambda>(edges, start, current, seen). card (edge_to ` set edges - set seen))"
    by (simp add: psubset_card_mono)
qed simp

declare dfs_hits.simps [simp del]

record fk_graph =
  node_count :: nat
  edge_count :: nat
  circular_dependency_tables :: "string list"
  graph_edges :: "fk_edge list"

definition build_fk_graph :: "row list \<Rightarrow> fk_graph" where
  "build_fk_graph rows =
     (let edges = map row_edge rows;
          nodes = remdups (concat (map (\<lambda>e. [edge_from e, edge_to e]) edges));
          cycle_hits = filter (\<lambda>node. dfs_hits edges node node [node]) nodes
      in \<lparr>node_count = length nodes, edge_count = length edges,
          circular_dependency_tables = sort cycle_hits, graph_edges = edges\<rparr>)"

section \<open>The search finds exactly the cycles\<close>

definition fk_rel :: "fk_edge list \<Rightarrow> (string \<times> string) set" where
  "fk_rel edges = (\<lambda>e. (edge_from e, edge_to e)) ` set edges"

lemma set_successors: "set (successors edges a) = {b. (a, b) \<in> fk_rel edges}"
  by (force simp: successors_def fk_rel_def)

lemma dfs_hits_iff:
  "dfs_hits edges start current seen \<longleftrightarrow>
     (\<exists>nxt. (current, nxt) \<in> fk_rel edges \<and>
        (nxt = start \<or> (nxt \<notin> set seen \<and> dfs_hits edges start nxt (nxt # seen))))"
  by (subst dfs_hits.simps) (auto simp: list_ex_iff set_successors)

lemma dfs_hits_sound: "dfs_hits edges start current seen \<Longrightarrow> (current, start) \<in> (fk_rel edges)\<^sup>+"
proof (induction edges start current seen rule: dfs_hits.induct)
  case (1 edges start current seen)
  from "1.prems" obtain nxt where nxt: "(current, nxt) \<in> fk_rel edges"
    "nxt = start \<or> (nxt \<notin> set seen \<and> dfs_hits edges start nxt (nxt # seen))"
    by (auto simp: dfs_hits_iff [of edges start current])
  show ?case
  proof (cases "nxt = start")
    case False
    with nxt have "(nxt, start) \<in> (fk_rel edges)\<^sup>+"
      by (intro "1.IH") (auto simp: set_successors)
    with nxt(1) show ?thesis by (rule trancl_into_trancl2)
  qed (use nxt in auto)
qed

text \<open>\<open>path r a xs b\<close>: \<open>xs\<close> are the nodes between \<open>a\<close> and \<open>b\<close>.\<close>

fun path :: "('a \<times> 'a) set \<Rightarrow> 'a \<Rightarrow> 'a list \<Rightarrow> 'a \<Rightarrow> bool" where
  "path r a [] b \<longleftrightarrow> (a, b) \<in> r"
| "path r a (x # xs) b \<longleftrightarrow> (a, x) \<in> r \<and> path r x xs b"

lemma path_append: "path r a (us @ x # vs) b \<longleftrightarrow> path r a us x \<and> path r x vs b"
  by (induction us arbitrary: a) auto

lemma simple_path:
  "(a, b) \<in> r\<^sup>+ \<Longrightarrow> \<exists>xs. path r a xs b \<and> distinct xs \<and> a \<notin> set xs \<and> b \<notin> set xs"
proof (induction rule: converse_trancl_induct)
  case (base a)
  then have "path r a [] b" by simp
  then show ?case by fastforce
next
  case (step a c)
  then obtain ys where ys: "path r c ys b" "distinct ys" "c \<notin> set ys" "b \<notin> set ys" by blast
  show ?case
  proof (cases "c = b")
    case True
    with step(1) have "path r a [] b" by simp
    then show ?thesis by fastforce
  next
    case cb: False
    have p: "path r a (c # ys) b" using step(1) ys(1) by simp
    show ?thesis
    proof (cases "a \<in> set (c # ys)")
      case True
      then obtain us vs where eq: "c # ys = us @ a # vs" by (metis split_list)
      have "distinct (us @ a # vs)" "b \<notin> set (us @ a # vs)"
        using ys cb by (simp_all flip: eq)
      moreover have "path r a vs b" using p unfolding eq path_append by simp
      ultimately show ?thesis by auto
    next
      case False
      with p ys cb have "path r a (c # ys) b \<and> distinct (c # ys) \<and> a \<notin> set (c # ys) \<and> b \<notin> set (c # ys)"
        by simp
      then show ?thesis by blast
    qed
  qed
qed

lemma dfs_hits_path:
  "path (fk_rel edges) current xs start \<Longrightarrow> distinct xs \<Longrightarrow> set xs \<inter> set seen = {} \<Longrightarrow>
   dfs_hits edges start current seen"
proof (induction xs arbitrary: current seen)
  case (Cons x xs)
  then have "dfs_hits edges start x (x # seen)" by (intro Cons.IH) auto
  with Cons.prems show ?case by (subst dfs_hits_iff) auto
next
  case Nil
  then show ?case by (subst dfs_hits_iff) auto
qed

lemma dfs_hits_exact: "dfs_hits edges v v [v] \<longleftrightarrow> (v, v) \<in> (fk_rel edges)\<^sup>+"
proof
  assume "(v, v) \<in> (fk_rel edges)\<^sup>+"
  then obtain xs where "path (fk_rel edges) v xs v" "distinct xs" "v \<notin> set xs"
    using simple_path by metis
  then show "dfs_hits edges v v [v]" by (intro dfs_hits_path) auto
qed (rule dfs_hits_sound)

lemma trancl_in_nodes:
  "(v, w) \<in> (fk_rel edges)\<^sup>+ \<Longrightarrow> v \<in> set (concat (map (\<lambda>e. [edge_from e, edge_to e]) edges))"
  by (induction rule: converse_trancl_induct) (auto simp: fk_rel_def)

lemma circular_tables_hits:
  "circular_dependency_tables (build_fk_graph rows)
     = sort (filter (\<lambda>v. dfs_hits (map row_edge rows) v v [v])
         (remdups (concat (map (\<lambda>e. [edge_from e, edge_to e]) (map row_edge rows)))))"
  by (simp add: build_fk_graph_def Let_def)

lemma circular_tables_cycles:
  "set (circular_dependency_tables (build_fk_graph rows)) = {v. (v, v) \<in> (fk_rel (map row_edge rows))\<^sup>+}"
  unfolding circular_tables_hits set_sort set_filter set_remdups
  using trancl_in_nodes by (auto simp: dfs_hits_exact simp del: set_concat set_map map_map)

lemma graph_counts:
  "graph_edges (build_fk_graph rows) = map row_edge rows" "edge_count (build_fk_graph rows) = length rows"
  by (simp_all add: build_fk_graph_def Let_def)

text \<open>
  C34: the reported circular dependencies are, sorted and without repetition, exactly the tables
  that a chain of one or more foreign keys leads back to themselves.
\<close>

theorem circular_tables_exact:
  "sorted (circular_dependency_tables (build_fk_graph rows))
   \<and> distinct (circular_dependency_tables (build_fk_graph rows))
   \<and> set (circular_dependency_tables (build_fk_graph rows))
       = {v. (v, v) \<in> (fk_rel (graph_edges (build_fk_graph rows)))\<^sup>+}"
  by (simp only: circular_tables_cycles graph_counts) (simp add: circular_tables_hits)

end
