(* ===== verification/Analysis_Contracts.thy ===== *)
theory Analysis_Contracts
  imports Py_Values
begin

text \<open>
  \<open>src/tools/analysis_contracts.py\<close> (findings, recommendations and the report envelope of the
  analysis tools) and \<open>src/tools/security_redaction.py\<close>.  The generation time of a report is an
  argument.
\<close>

section \<open>Findings and reports\<close>

definition valid_severities :: "string list" where
  "valid_severities = [''critical'', ''high'', ''medium'', ''low'', ''info'']"

definition dba_review_disclaimer :: string where
  "dba_review_disclaimer =
     ''All recommendations and proposed changes must be reviewed and approved '' @
     ''by a database administrator (DBA) before execution to prevent unintended '' @
     ''disruptions to production systems.''"

definition normalize_severity :: "string \<Rightarrow> string result" where
  "normalize_severity value =
     (let normalized = py_lower (py_strip value) in
      if normalized \<notin> set valid_severities
      then Inl (value_error (''INVALID_INPUT: unsupported severity '' @ [squote] @ value @ [squote]))
      else Inr normalized)"

record finding =
  f_code :: string
  f_severity :: string
  f_title :: string
  f_detail :: string
  f_evidence :: "row list"

definition build_finding :: "string \<Rightarrow> string \<Rightarrow> string \<Rightarrow> string \<Rightarrow> row list \<Rightarrow> finding result" where
  "build_finding code severity title detail evidence =
     bind_res (normalize_severity severity) (\<lambda>sev.
       Inr \<lparr>f_code = code, f_severity = sev, f_title = title, f_detail = detail,
            f_evidence = evidence\<rparr>)"

record recommendation =
  r_priority :: string
  r_action :: string
  r_rationale :: string

definition build_recommendation :: "string \<Rightarrow> string \<Rightarrow> string \<Rightarrow> recommendation result" where
  "build_recommendation priority action rationale =
     bind_res (normalize_severity priority) (\<lambda>p.
       Inr \<lparr>r_priority = p, r_action = action, r_rationale = rationale\<rparr>)"

record report =
  rep_instance_number :: int
  rep_database_name :: string
  rep_tool :: string
  rep_generated_at_utc :: string
  rep_summary :: row
  rep_severity_counts :: "nat dict"
  rep_findings :: "finding list"
  rep_recommendations :: "recommendation list"
  rep_disclaimer :: "string option"

definition count_severity :: "nat dict \<Rightarrow> finding \<Rightarrow> nat dict" where
  "count_severity severity_counts f =
     (let sev = f_severity f;
          sev = (if map_of severity_counts sev = None then ''info'' else sev)
      in dict_set sev (dict_get severity_counts sev 0 + 1) severity_counts)"

definition build_report_envelope ::
  "string \<Rightarrow> int \<Rightarrow> string \<Rightarrow> string \<Rightarrow> row \<Rightarrow> finding list \<Rightarrow> recommendation list \<Rightarrow> report" where
  "build_report_envelope generated_at instance_number database_name tool_name summary findings
     recommendations =
     (let severity_counts = foldl count_severity (map (\<lambda>name. (name, 0)) valid_severities) findings
      in \<lparr>rep_instance_number = instance_number, rep_database_name = database_name,
          rep_tool = tool_name, rep_generated_at_utc = generated_at, rep_summary = summary,
          rep_severity_counts = severity_counts, rep_findings = findings,
          rep_recommendations = recommendations,
          rep_disclaimer = (if recommendations \<noteq> [] then Some dba_review_disclaimer else None)\<rparr>)"

section \<open>Redaction\<close>

definition sensitive_tokens :: "string list" where
  "sensitive_tokens = [''password'', ''secret'', ''token'', ''connection_string'', ''pwd'']"

definition sensitive_key :: "string \<Rightarrow> bool" where
  "sensitive_key key = list_ex (\<lambda>token. sublist token (py_lower key)) sensitive_tokens"

definition redacted :: pyval where "redacted = VStr ''***REDACTED***''"

definition redact_row :: "row \<Rightarrow> row" where
  "redact_row r = map (\<lambda>(key, value). (key, if sensitive_key key then redacted else value)) r"

definition redact_sensitive_fields :: "row list \<Rightarrow> row list" where
  "redact_sensitive_fields rows = map redact_row rows"

section \<open>Properties\<close>

lemma normalize_severity_Inr:
  "(normalize_severity s = Inr v) \<longleftrightarrow> v = py_lower (py_strip s) \<and> v \<in> set valid_severities"
  by (auto simp: normalize_severity_def Let_def)

lemma report_fields [simp]:
  "rep_findings (build_report_envelope g nr d tool summary fs rs) = fs"
  "rep_recommendations (build_report_envelope g nr d tool summary fs rs) = rs"
  "rep_summary (build_report_envelope g nr d tool summary fs rs) = summary"
  "rep_disclaimer (build_report_envelope g nr d tool summary fs rs)
     = (if rs = [] then None else Some dba_review_disclaimer)"
  by (simp_all add: build_report_envelope_def Let_def)

lemma build_finding_Inr:
  "build_finding c s t d e = Inr f \<Longrightarrow> f_severity f \<in> set valid_severities"
  by (auto simp: build_finding_def bind_res_Inr normalize_severity_Inr)

lemma dict_set_present_keys: "k \<in> fst ` set d \<Longrightarrow> map fst (dict_set k v d) = map fst d"
  by (induction d) auto

lemma count_severity_keys:
  assumes "map fst d = valid_severities"
  shows "map fst (count_severity d f) = valid_severities"
proof -
  define sev where "sev = (if map_of d (f_severity f) = None then ''info'' else f_severity f)"
  have keys: "fst ` set d = set valid_severities" using assms by (metis set_map)
  have "sev \<in> fst ` set d"
  proof (cases "map_of d (f_severity f) = None")
    case True
    then have "sev = ''info''" by (simp add: sev_def)
    then show ?thesis unfolding keys by (simp add: valid_severities_def)
  next
    case False
    then show ?thesis by (simp add: sev_def map_of_eq_None_iff)
  qed
  moreover have "count_severity d f = dict_set sev (dict_get d sev 0 + 1) d"
    by (simp add: count_severity_def Let_def sev_def)
  ultimately show ?thesis using assms by (metis dict_set_present_keys)
qed

lemma fold_severity_keys:
  "map fst d = valid_severities \<Longrightarrow> map fst (foldl count_severity d fs) = valid_severities"
  by (induction fs arbitrary: d) (auto simp: count_severity_keys)

lemma fold_severity_counts:
  "\<forall>f \<in> set fs. f_severity f \<in> set valid_severities \<Longrightarrow> map fst d = valid_severities \<Longrightarrow>
   dict_get (foldl count_severity d fs) s 0
     = dict_get d s 0 + length (filter (\<lambda>f. f_severity f = s) fs)"
proof (induction fs arbitrary: d)
  case (Cons f fs)
  have "map_of d (f_severity f) \<noteq> None"
    using Cons.prems by (auto simp: map_of_eq_None_iff simp flip: set_map)
  then have "dict_get (count_severity d f) s 0 = dict_get d s 0 + (if f_severity f = s then 1 else 0)"
    by (auto simp: count_severity_def Let_def dict_get_def)
  moreover have "dict_get (foldl count_severity (count_severity d f) fs) s 0
      = dict_get (count_severity d f) s 0 + length (filter (\<lambda>f. f_severity f = s) fs)"
    using Cons.prems by (intro Cons.IH) (auto intro: count_severity_keys)
  ultimately show ?case by simp
qed simp

text \<open>
  The envelope of a report counts the findings of each of the five severities, in that
  order, when its findings come from \<open>build_finding\<close>, and carries the DBA disclaimer exactly if it
  makes a recommendation.
\<close>

theorem envelope_counts_findings:
  assumes "\<forall>f \<in> set fs. \<exists>c s t d e. build_finding c s t d e = Inr f"
  shows "map fst (rep_severity_counts (build_report_envelope g n db tool summary fs recs)) = valid_severities
    \<and> (\<forall>s \<in> set valid_severities.
         map_of (rep_severity_counts (build_report_envelope g n db tool summary fs recs)) s
           = Some (length (filter (\<lambda>f. f_severity f = s) fs)))
    \<and> (rep_disclaimer (build_report_envelope g n db tool summary fs recs) \<noteq> None) = (recs \<noteq> [])"
proof -
  let ?zero = "map (\<lambda>name. (name, 0 :: nat)) valid_severities"
  let ?d = "foldl count_severity ?zero fs"
  have k0: "map fst ?zero = valid_severities" by (simp add: comp_def)
  have keys: "map fst ?d = valid_severities" by (rule fold_severity_keys [OF k0])
  have valid: "\<forall>f \<in> set fs. f_severity f \<in> set valid_severities"
    using assms build_finding_Inr by blast
  have z: "dict_get ?zero s 0 = 0" for s by (simp add: valid_severities_def dict_get_def)
  have "map_of ?d s = Some (length (filter (\<lambda>f. f_severity f = s) fs))" if "s \<in> set valid_severities" for s
  proof -
    have "s \<in> fst ` set ?d" using that keys by (metis set_map)
    then obtain m where "map_of ?d s = Some m"
      by (metis map_of_eq_None_iff not_None_eq)
    with fold_severity_counts [OF valid k0, of s] z [of s] show ?thesis by (simp add: dict_get_def)
  qed
  with keys show ?thesis by (simp add: build_report_envelope_def Let_def)
qed

theorem envelope_counts_findings_witness:
  "map_of (rep_severity_counts (build_report_envelope ''t'' 1 ''db'' ''tool'' []
      [\<lparr>f_code = ''A'', f_severity = ''high'', f_title = ''x'', f_detail = ''y'', f_evidence = []\<rparr>] []))
     ''high'' = Some 1"
proof -
  have h: "build_finding ''A'' '' High'' ''x'' ''y'' []
      = Inr \<lparr>f_code = ''A'', f_severity = ''high'', f_title = ''x'', f_detail = ''y'', f_evidence = []\<rparr>"
    by code_simp
  let ?f = "\<lparr>f_code = ''A'', f_severity = ''high'', f_title = ''x'', f_detail = ''y'', f_evidence = []\<rparr>"
  have "\<exists>c s t d e. build_finding c s t d e = Inr ?f" by (intro exI) (rule h)
  then have a: "\<forall>f \<in> set [?f]. \<exists>c s t d e. build_finding c s t d e = Inr f" by simp
  have "''high'' \<in> set valid_severities" by (simp add: valid_severities_def)
  then have "map_of (rep_severity_counts (build_report_envelope ''t'' 1 ''db'' ''tool'' [] [?f] [])) ''high''
      = Some (length (filter (\<lambda>f. f_severity f = ''high'') [?f]))"
    using envelope_counts_findings [OF a] by blast
  then show ?thesis by (simp del: map_of_eq_Some_iff)
qed

text \<open>
  Redaction keeps the keys of every row and their order, replaces the value of every key
  that contains a sensitive word in any case, leaves every other value, and is stable under
  repetition.
\<close>

theorem redaction_hides_sensitive:
  "map (map fst) (redact_sensitive_fields rows) = map (map fst) rows
   \<and> (\<forall>r \<in> set (redact_sensitive_fields rows). \<forall>(k, v) \<in> set r. sensitive_key k \<longrightarrow> v = redacted)
   \<and> map (filter (\<lambda>(k, v). \<not> sensitive_key k)) (redact_sensitive_fields rows)
       = map (filter (\<lambda>(k, v). \<not> sensitive_key k)) rows
   \<and> redact_sensitive_fields (redact_sensitive_fields rows) = redact_sensitive_fields rows"
proof -
  have "map fst (redact_row r) = map fst r" for r by (simp add: redact_row_def case_prod_beta)
  moreover have "filter (\<lambda>(k, v). \<not> sensitive_key k) (redact_row r)
      = filter (\<lambda>(k, v). \<not> sensitive_key k) r" for r
    by (induction r) (auto simp: redact_row_def)
  moreover have "redact_row (redact_row r) = redact_row r" for r
    by (induction r) (auto simp: redact_row_def)
  moreover have "\<forall>(k, v) \<in> set (redact_row r). sensitive_key k \<longrightarrow> v = redacted" for r
    by (auto simp: redact_row_def)
  ultimately show ?thesis by (auto simp: redact_sensitive_fields_def)
qed

theorem redaction_hides_sensitive_witness:
  "redact_sensitive_fields [[(''Login_PWD'', VStr ''x''), (''n'', VInt 1)]]
     = [[(''Login_PWD'', redacted), (''n'', VInt 1)]]"
proof -
  have "sensitive_key ''Login_PWD''" "\<not> sensitive_key ''n''" by code_simp+
  then show ?thesis
    using redaction_hides_sensitive [of "[[(''Login_PWD'', VStr ''x''), (''n'', VInt 1)]]"]
    by (simp add: redact_sensitive_fields_def redact_row_def)
qed

end
