(* ===== verification/Auth_Provider.thy ===== *)
theory Auth_Provider
  imports Tool_Execution
begin

text \<open>
  \<open>src/security/auth_provider.py\<close>: the verifier of bearer tokens, its two caches, and the choice of
  the provider the server is built with.

  The HTTP client and the JWT library are arguments.  \<open>http_get\<close> is what \<open>GET url\<close>,
  \<open>raise_for_status\<close> and \<open>json\<close> give for a URL after the requests made so far, which the verifier
  state records.  \<open>jwt_header\<close> is \<open>None\<close> where \<open>get_unverified_header\<close> raises \<open>PyJWTError\<close>;
  \<open>from_jwk\<close> and \<open>jwt_decode\<close> give the key and the claims or the exception they raise.  The library
  admits only text as the key id of a header, so comparing it with the id of a key is equality.
\<close>

record token_verifier =
  tv_tenant_id :: string
  tv_client_id :: string
  tv_identifier_uri :: "string option"
  tv_required_scopes :: "string list"
  tv_base_url :: "string option"
  tv_group_claim_name :: string
  tv_config_cache_ttl_sec :: int
  tv_openid_config_cache :: "row option"
  tv_openid_config_cache_at :: real
  tv_jwks_cache :: "row option"
  tv_jwks_cache_at :: real
  tv_requests :: "string list"

definition token_verifier_init ::
  "string \<Rightarrow> string \<Rightarrow> string option \<Rightarrow> string list \<Rightarrow> string option \<Rightarrow> string \<Rightarrow> int \<Rightarrow> token_verifier" where
  "token_verifier_init tenant_id client_id identifier_uri required_scopes base_url group_claim_name ttl =
     \<lparr>tv_tenant_id = tenant_id, tv_client_id = client_id, tv_identifier_uri = identifier_uri,
      tv_required_scopes = required_scopes, tv_base_url = base_url,
      tv_group_claim_name = group_claim_name, tv_config_cache_ttl_sec = ttl,
      tv_openid_config_cache = None, tv_openid_config_cache_at = 0, tv_jwks_cache = None,
      tv_jwks_cache_at = 0, tv_requests = []\<rparr>"

definition discovery_url :: "token_verifier \<Rightarrow> string" where
  "discovery_url tv = ''https://login.microsoftonline.com/'' @ tv_tenant_id tv
     @ ''/v2.0/.well-known/openid-configuration''"

type_synonym http = "string list \<Rightarrow> string \<Rightarrow> pyval result"

definition fetch :: "http \<Rightarrow> string \<Rightarrow> token_verifier \<Rightarrow> token_verifier \<times> pyval result" where
  "fetch http_get url tv =
     (tv\<lparr>tv_requests := tv_requests tv @ [url]\<rparr>, http_get (tv_requests tv) url)"

text \<open>\<open>self._cache and (now - self._cache_at) < self._config_cache_ttl_sec\<close>\<close>

definition fresh :: "token_verifier \<Rightarrow> row option \<Rightarrow> real \<Rightarrow> real \<Rightarrow> row option" where
  "fresh tv cache cached_at now =
     (case cache of
        Some payload \<Rightarrow>
          if payload \<noteq> [] \<and> now - cached_at < real_of_int (tv_config_cache_ttl_sec tv)
          then Some payload else None
      | None \<Rightarrow> None)"

definition get_openid_config :: "http \<Rightarrow> real \<Rightarrow> token_verifier \<Rightarrow> token_verifier \<times> row result" where
  "get_openid_config http_get now tv =
     (case fresh tv (tv_openid_config_cache tv) (tv_openid_config_cache_at tv) now of
        Some payload \<Rightarrow> (tv, Inr payload)
      | None \<Rightarrow>
          (case fetch http_get (discovery_url tv) tv of
             (tv1, Inl e) \<Rightarrow> (tv1, Inl e)
           | (tv1, Inr response) \<Rightarrow>
               (case response of
                  VDict payload \<Rightarrow>
                    if \<not> truthy (row_get payload ''jwks_uri'') \<or> \<not> truthy (row_get payload ''issuer'')
                    then (tv1, Inl (value_error ''Azure OpenID configuration is missing required fields''))
                    else (tv1\<lparr>tv_openid_config_cache := Some payload, tv_openid_config_cache_at := now\<rparr>,
                          Inr payload)
                | _ \<Rightarrow> (tv1, Inl (value_error ''Azure OpenID configuration is missing required fields'')))))"

definition get_jwks ::
  "http \<Rightarrow> real \<Rightarrow> string \<Rightarrow> bool \<Rightarrow> token_verifier \<Rightarrow> token_verifier \<times> row result" where
  "get_jwks http_get now jwks_uri force_refresh tv =
     (case (if force_refresh then None else fresh tv (tv_jwks_cache tv) (tv_jwks_cache_at tv) now) of
        Some payload \<Rightarrow> (tv, Inr payload)
      | None \<Rightarrow>
          (case fetch http_get jwks_uri tv of
             (tv1, Inl e) \<Rightarrow> (tv1, Inl e)
           | (tv1, Inr response) \<Rightarrow>
               (case response of
                  VDict payload \<Rightarrow>
                    (case row_get payload ''keys'' of
                       VList _ \<Rightarrow> (tv1\<lparr>tv_jwks_cache := Some payload, tv_jwks_cache_at := now\<rparr>, Inr payload)
                     | _ \<Rightarrow> (tv1, Inl (value_error ''Azure JWKS payload is invalid'')))
                | _ \<Rightarrow> (tv1, Inl (value_error ''Azure JWKS payload is invalid'')))))"

definition extract_scopes :: "row \<Rightarrow> string list" where
  "extract_scopes claims =
     (case row_get claims ''scp'' of VStr s \<Rightarrow> split_strip (CHR '' '') s | _ \<Rightarrow> [])"

definition validate_required_scopes :: "token_verifier \<Rightarrow> string list \<Rightarrow> bool" where
  "validate_required_scopes tv scopes =
     (let required = tv_required_scopes tv in
      if required = [] then True else list_all (\<lambda>scope. scope \<in> set scopes) required)"

text \<open>
  \<open>next((k for k in keys if k.get("kid") == kid), None)\<close>: an entry that is no dictionary has no
  \<open>get\<close>.
\<close>

fun find_key :: "pyval \<Rightarrow> pyval list \<Rightarrow> pyval option result" where
  "find_key kid [] = Inr None"
| "find_key kid (k # ks) =
     (case k of
        VDict d \<Rightarrow> if row_get d ''kid'' = kid then Inr (Some k) else find_key kid ks
      | _ \<Rightarrow> Inl (mk_exc OtherErr ''AttributeError'' ''object has no attribute get''))"

definition jwks_key :: "pyval \<Rightarrow> row \<Rightarrow> pyval option result" where
  "jwks_key kid jwks = (case row_get_or jwks ''keys'' (VList []) of VList ks \<Rightarrow> find_key kid ks
     | _ \<Rightarrow> Inl (type_error ''object is not iterable''))"

text \<open>The key of the cached set, or of a set fetched again if the cached one has no such key.\<close>

definition signing_key_data ::
  "http \<Rightarrow> real \<times> real \<Rightarrow> string \<Rightarrow> pyval \<Rightarrow> token_verifier \<Rightarrow> token_verifier \<times> pyval option result" where
  "signing_key_data http_get clock jwks_uri kid tv =
     (case get_jwks http_get (fst clock) jwks_uri False tv of
        (tv1, Inl e) \<Rightarrow> (tv1, Inl e)
      | (tv1, Inr jwks) \<Rightarrow>
          (case jwks_key kid jwks of
             Inr None \<Rightarrow>
               (case get_jwks http_get (snd clock) jwks_uri True tv1 of
                  (tv2, Inl e) \<Rightarrow> (tv2, Inl e)
                | (tv2, Inr jwks') \<Rightarrow> (tv2, jwks_key kid jwks'))
           | r \<Rightarrow> (tv1, r)))"

record access_token =
  at_token :: string
  at_client_id :: string
  at_scopes :: "string list"
  at_expires_at :: "int option"
  at_claims :: row

record ('key) jwt_library =
  jwt_header :: "string \<Rightarrow> row option"
  from_jwk :: "pyval \<Rightarrow> 'key result"
  jwt_decode :: "string \<Rightarrow> 'key \<Rightarrow> string list \<Rightarrow> string \<Rightarrow> string \<Rightarrow> pyval result"

text \<open>The end of \<open>verify_token\<close>, once the signature and the standard claims are checked.\<close>

definition accept_claims :: "token_verifier \<Rightarrow> string \<Rightarrow> row \<Rightarrow> access_token option" where
  "accept_claims tv token claims =
     (let scopes = extract_scopes claims in
      if \<not> validate_required_scopes tv scopes then None
      else
        let claims = (if tv_group_claim_name tv \<noteq> [] \<and> map_of claims (tv_group_claim_name tv) = None
                      then dict_set (tv_group_claim_name tv) (VList []) claims else claims);
            expires_at = row_get claims ''exp'';
            client_id = py_or (row_get claims ''azp'') (py_or (row_get claims ''appid'')
                          (py_or (row_get claims ''aud'') (VStr (tv_client_id tv))))
        in Some \<lparr>at_token = token, at_client_id = py_str client_id, at_scopes = scopes,
             at_expires_at = (case expires_at of VInt i \<Rightarrow> Some i | VBool b \<Rightarrow> Some (if b then 1 else 0)
                | VFloat r _ \<Rightarrow> Some (trunc_real r) | _ \<Rightarrow> None),
             at_claims = claims\<rparr>)"

definition verify_token ::
  "'key jwt_library \<Rightarrow> http \<Rightarrow> real \<times> real \<times> real \<Rightarrow> string \<Rightarrow> token_verifier
     \<Rightarrow> token_verifier \<times> access_token option" where
  "verify_token jwt http_get clock token tv =
     (case jwt_header jwt token of
        None \<Rightarrow> (tv, None)
      | Some unverified_header \<Rightarrow>
          let kid = row_get unverified_header ''kid''; alg = row_get unverified_header ''alg'' in
          if \<not> truthy kid \<or> \<not> truthy alg then (tv, None)
          else
            (case get_openid_config http_get (fst clock) tv of
               (tv1, Inl _) \<Rightarrow> (tv1, None)
             | (tv1, Inr openid_config) \<Rightarrow>
                 let jwks_uri = py_str (row_get openid_config ''jwks_uri'');
                     issuer = py_str (row_get openid_config ''issuer'') in
                 (case signing_key_data http_get (snd clock) jwks_uri kid tv1 of
                    (tv2, Inr (Some key_data)) \<Rightarrow>
                      (case from_jwk jwt key_data of
                         Inl _ \<Rightarrow> (tv2, None)
                       | Inr signing_key \<Rightarrow>
                           let audience = (case tv_identifier_uri tv2 of
                                 Some u \<Rightarrow> if u \<noteq> [] then u else tv_client_id tv2
                               | None \<Rightarrow> tv_client_id tv2) in
                           (case jwt_decode jwt token signing_key [''RS256''] audience issuer of
                              Inr (VDict claims) \<Rightarrow> (tv2, accept_claims tv2 token claims)
                            | _ \<Rightarrow> (tv2, None)))
                  | (tv2, _) \<Rightarrow> (tv2, None))))"

section \<open>The provider\<close>

definition build_auth_provider :: "auth_config \<Rightarrow> token_verifier option result" where
  "build_auth_provider auth_config =
     (if \<not> azure_auth_enabled auth_config \<and> auth_mode auth_config = ''disabled'' then Inr None
      else if auth_mode auth_config \<notin> {''azure_token_verifier'', ''disabled''}
      then Inl (value_error (''Unsupported auth_mode: '' @ auth_mode auth_config))
      else if \<not> (azure_auth_enabled auth_config \<or> auth_mode auth_config = ''azure_token_verifier'')
      then Inr None
      else
        let given = (\<lambda>v. v \<noteq> None \<and> v \<noteq> Some []);
            missing = (if given (azure_tenant_id auth_config) then [] else [''azure_tenant_id''])
              @ (if given (azure_client_id auth_config) then [] else [''azure_client_id'']) in
        if missing \<noteq> []
        then Inl (value_error (''Azure Entra auth is enabled but required settings are missing: ''
               @ join_with '', '' missing))
        else Inr (Some (token_verifier_init (the (azure_tenant_id auth_config))
               (the (azure_client_id auth_config)) (azure_identifier_uri auth_config)
               (azure_required_scopes auth_config) (azure_base_url auth_config)
               (azure_group_claim_name auth_config) 300)))"

section \<open>What the caches hold\<close>

text \<open>The fields \<open>__init__\<close> sets and nothing changes.\<close>

definition settings :: "token_verifier \<Rightarrow> token_verifier" where
  "settings tv = tv\<lparr>tv_openid_config_cache := None, tv_openid_config_cache_at := 0,
     tv_jwks_cache := None, tv_jwks_cache_at := 0, tv_requests := []\<rparr>"

lemma settings_fields:
  assumes "settings a = settings b"
  shows "tv_client_id a = tv_client_id b" "tv_identifier_uri a = tv_identifier_uri b"
    "tv_required_scopes a = tv_required_scopes b" "tv_group_claim_name a = tv_group_claim_name b"
    "tv_config_cache_ttl_sec a = tv_config_cache_ttl_sec b" "tv_tenant_id a = tv_tenant_id b"
  using assms by (cases a; cases b; simp add: settings_def)+

definition openid_part :: "token_verifier \<Rightarrow> row option \<times> real" where
  "openid_part tv = (tv_openid_config_cache tv, tv_openid_config_cache_at tv)"


lemma get_openid_config_cases:
  assumes "get_openid_config http now tv = (tv', r)"
  shows "settings tv' = settings tv
    \<and> (tv_requests tv' = tv_requests tv \<or> tv_requests tv' = tv_requests tv @ [discovery_url tv])
    \<and> (\<forall>cfg. r = Inr cfg \<longrightarrow> tv_openid_config_cache tv' = Some cfg
          \<and> (0 < tv_config_cache_ttl_sec tv \<longrightarrow>
               now - tv_openid_config_cache_at tv' < real_of_int (tv_config_cache_ttl_sec tv)))"
proof (cases "fresh tv (tv_openid_config_cache tv) (tv_openid_config_cache_at tv) now")
  case None
  obtain resp where f: "fetch http (discovery_url tv) tv = (tv\<lparr>tv_requests := tv_requests tv @ [discovery_url tv]\<rparr>, resp)"
    by (simp add: fetch_def)
  show ?thesis
  proof (cases "\<exists>payload. resp = Inr (VDict payload) \<and> truthy (row_get payload ''jwks_uri'')
      \<and> truthy (row_get payload ''issuer'')")
    case True
    with assms None f show ?thesis by (auto simp: get_openid_config_def settings_def)
  next
    case False
    with assms None f have "tv' = tv\<lparr>tv_requests := tv_requests tv @ [discovery_url tv]\<rparr> \<and> (\<exists>e. r = Inl e)"
      by (cases resp; cases "projr resp") (auto simp: get_openid_config_def split: if_splits)
    then show ?thesis by (auto simp: settings_def openid_part_def)
  qed
next
  case (Some payload)
  with assms show ?thesis
    by (auto simp: get_openid_config_def fresh_def split: option.splits if_splits)
qed

lemma get_jwks_cases:
  assumes "get_jwks http now uri force tv = (tv', r)"
  shows "settings tv' = settings tv \<and> openid_part tv' = openid_part tv
    \<and> (tv_requests tv' = tv_requests tv \<or> tv_requests tv' = tv_requests tv @ [uri])
    \<and> (\<forall>jwks. r = Inr jwks \<longrightarrow> tv_jwks_cache tv' = Some jwks
          \<and> (0 < tv_config_cache_ttl_sec tv \<longrightarrow>
               now - tv_jwks_cache_at tv' < real_of_int (tv_config_cache_ttl_sec tv)))"
proof (cases "if force then None else fresh tv (tv_jwks_cache tv) (tv_jwks_cache_at tv) now")
  case None
  obtain resp where f: "fetch http uri tv = (tv\<lparr>tv_requests := tv_requests tv @ [uri]\<rparr>, resp)"
    by (simp add: fetch_def)
  show ?thesis
  proof (cases "\<exists>payload ks. resp = Inr (VDict payload) \<and> row_get payload ''keys'' = VList ks")
    case True
    with assms None f show ?thesis by (auto simp: get_jwks_def settings_def openid_part_def)
  next
    case False
    with assms None f have "tv' = tv\<lparr>tv_requests := tv_requests tv @ [uri]\<rparr> \<and> (\<exists>e. r = Inl e)"
      by (cases resp; cases "projr resp") (auto simp: get_jwks_def split: pyval.splits)
    then show ?thesis by (auto simp: settings_def openid_part_def)
  qed
next
  case (Some payload)
  with assms show ?thesis
    by (auto simp: get_jwks_def fresh_def split: option.splits if_splits)
qed

lemma find_key_member:
  "find_key kid ks = Inr (Some k) \<Longrightarrow> k \<in> set ks \<and> (\<exists>d. k = VDict d \<and> row_get d ''kid'' = kid)"
  by (induction kid ks rule: find_key.induct) (auto split: pyval.splits if_splits)

lemma jwks_key_member:
  assumes "jwks_key kid jwks = Inr (Some k)"
  shows "\<exists>ks d. row_get jwks ''keys'' = VList ks \<and> k \<in> set ks \<and> k = VDict d \<and> row_get d ''kid'' = kid"
proof -
  obtain ks where ks: "row_get_or jwks ''keys'' (VList []) = VList ks" "find_key kid ks = Inr (Some k)"
    using assms by (auto simp: jwks_key_def split: pyval.splits)
  from find_key_member [OF ks(2)] have "ks \<noteq> []" by auto
  with ks(1) have "row_get jwks ''keys'' = VList ks"
    by (auto simp: row_get_def row_get_or_def dict_get_def split: option.splits)
  with find_key_member [OF ks(2)] show ?thesis by blast
qed

lemma signing_key_data_cases:
  assumes "signing_key_data http clock uri kid tv = (tv', r)" "fst clock \<le> snd clock"
  shows "settings tv' = settings tv \<and> openid_part tv' = openid_part tv
    \<and> (\<exists>rs. tv_requests tv' = tv_requests tv @ rs \<and> set rs \<subseteq> {uri} \<and> length rs \<le> 2)
    \<and> (\<forall>k. r = Inr (Some k) \<longrightarrow>
          (\<exists>jwks. tv_jwks_cache tv' = Some jwks \<and> jwks_key kid jwks = Inr (Some k))
          \<and> (0 < tv_config_cache_ttl_sec tv \<longrightarrow>
               fst clock - tv_jwks_cache_at tv' < real_of_int (tv_config_cache_ttl_sec tv)))"
proof -
  obtain tv1 r1 where g1: "get_jwks http (fst clock) uri False tv = (tv1, r1)" by force
  have c1: "settings tv1 = settings tv" "openid_part tv1 = openid_part tv"
    "tv_requests tv1 = tv_requests tv \<or> tv_requests tv1 = tv_requests tv @ [uri]"
    "\<And>jwks. r1 = Inr jwks \<Longrightarrow> tv_jwks_cache tv1 = Some jwks \<and> (0 < tv_config_cache_ttl_sec tv \<longrightarrow>
       fst clock - tv_jwks_cache_at tv1 < real_of_int (tv_config_cache_ttl_sec tv))"
    using get_jwks_cases [OF g1] by blast+
  show ?thesis
  proof (cases "\<exists>jwks. r1 = Inr jwks \<and> jwks_key kid jwks = Inr None")
    case False
    with assms g1 have r: "tv' = tv1 \<and> (\<forall>k. r = Inr (Some k) \<longrightarrow> (\<exists>jwks. r1 = Inr jwks \<and> jwks_key kid jwks = r))"
      by (auto simp: signing_key_data_def split: sum.splits option.splits)
    then have "\<exists>rs. tv_requests tv' = tv_requests tv @ rs \<and> set rs \<subseteq> {uri} \<and> length rs \<le> 2"
      using c1(3) by (auto intro: exI [of _ "[]"] exI [of _ "[uri]"])
    with r c1(1,2,4) show ?thesis by metis
  next
    case True
    obtain tv2 r2 where g2: "get_jwks http (snd clock) uri True tv1 = (tv2, r2)" by force
    have c2: "settings tv2 = settings tv1" "openid_part tv2 = openid_part tv1"
      "tv_requests tv2 = tv_requests tv1 \<or> tv_requests tv2 = tv_requests tv1 @ [uri]"
      "\<And>jwks. r2 = Inr jwks \<Longrightarrow> tv_jwks_cache tv2 = Some jwks \<and> (0 < tv_config_cache_ttl_sec tv1 \<longrightarrow>
         snd clock - tv_jwks_cache_at tv2 < real_of_int (tv_config_cache_ttl_sec tv1))"
      using get_jwks_cases [OF g2] by blast+
    obtain jwks where "r1 = Inr jwks" "jwks_key kid jwks = Inr None" using True by blast
    then have "(tv', r) = (case r2 of Inl e \<Rightarrow> (tv2, Inl e) | Inr j \<Rightarrow> (tv2, jwks_key kid j))"
      using assms(1) g1 g2 by (simp add: signing_key_data_def)
    then have r: "tv' = tv2 \<and> (\<forall>k. r = Inr (Some k) \<longrightarrow> (\<exists>jwks. r2 = Inr jwks \<and> jwks_key kid jwks = r))"
      by (cases r2) simp_all
    have ttl: "tv_config_cache_ttl_sec tv1 = tv_config_cache_ttl_sec tv" using c1(1) by (rule settings_fields)
    have frame: "settings tv' = settings tv \<and> openid_part tv' = openid_part tv"
      using c1(1,2) c2(1,2) r by simp
    have reqs: "\<exists>rs. tv_requests tv' = tv_requests tv @ rs \<and> set rs \<subseteq> {uri} \<and> length rs \<le> 2"
      using c1(3) c2(3) r by (auto intro: exI [of _ "[]"] exI [of _ "[uri]"] exI [of _ "[uri, uri]"])
    have "fst clock - tv_jwks_cache_at tv' < real_of_int (tv_config_cache_ttl_sec tv)"
      if rk: "r = Inr (Some k)" and pos: "0 < tv_config_cache_ttl_sec tv" for k
    proof -
      obtain jwks where "r2 = Inr jwks" using r rk by blast
      with c2(4) [of jwks] pos ttl assms(2) r show ?thesis by simp
    qed
    moreover have "\<exists>jwks. tv_jwks_cache tv' = Some jwks \<and> jwks_key kid jwks = Inr (Some k)"
      if "r = Inr (Some k)" for k
      using that r c2(4) by metis
    ultimately show ?thesis using frame reqs by blast
  qed
qed

section \<open>Where the cached documents come from\<close>

text \<open>A document some request to \<open>url\<close> was answered with.\<close>

definition fetched :: "http \<Rightarrow> token_verifier \<Rightarrow> string \<Rightarrow> row \<Rightarrow> bool" where
  "fetched http_get tv url payload \<longleftrightarrow>
     (\<exists>sent rest. tv_requests tv = sent @ url # rest \<and> http_get sent url = Inr (VDict payload))"

text \<open>
  The discovery document came from the discovery endpoint, and the key set from the endpoint that a
  discovery document from there, this one or an earlier one, names.
\<close>

definition keys_fetched :: "http \<Rightarrow> token_verifier \<Rightarrow> row \<Rightarrow> bool" where
  "keys_fetched http_get tv jwks \<longleftrightarrow> (\<exists>doc. fetched http_get tv (discovery_url tv) doc
     \<and> fetched http_get tv (py_str (row_get doc ''jwks_uri'')) jwks)"

definition caches_fetched :: "http \<Rightarrow> token_verifier \<Rightarrow> bool" where
  "caches_fetched http_get tv \<longleftrightarrow>
     (\<forall>cfg. tv_openid_config_cache tv = Some cfg \<longrightarrow> fetched http_get tv (discovery_url tv) cfg)
     \<and> (\<forall>jwks. tv_jwks_cache tv = Some jwks \<longrightarrow> keys_fetched http_get tv jwks)"

lemma fetched_more:
  assumes "fetched http tv url payload" "tv_requests tv' = tv_requests tv @ rs"
  shows "fetched http tv' url payload"
  using assms unfolding fetched_def by fastforce

lemma fetched_last:
  assumes "tv_requests tv' = tv_requests tv @ [url]" "http (tv_requests tv) url = Inr (VDict payload)"
  shows "fetched http tv' url payload"
  unfolding fetched_def using assms by (intro exI [of _ "tv_requests tv"] exI [of _ "[]"]) simp

lemma discovery_url_settings: "settings a = settings b \<Longrightarrow> discovery_url a = discovery_url b"
  unfolding discovery_url_def by (drule settings_fields(6)) simp

lemma keys_fetched_more:
  assumes "keys_fetched http tv jwks" "settings tv' = settings tv" "tv_requests tv' = tv_requests tv @ rs"
  shows "keys_fetched http tv' jwks"
  using assms(1) fetched_more [OF _ assms(3)]
  unfolding keys_fetched_def discovery_url_settings [OF assms(2)] by blast

lemma get_openid_config_fetched:
  assumes "get_openid_config http now tv = (tv', r)" "caches_fetched http tv"
  shows "caches_fetched http tv' \<and> (\<forall>cfg. r = Inr cfg \<longrightarrow> fetched http tv' (discovery_url tv') cfg)"
proof -
  note frame = get_openid_config_cases [OF assms(1)]
  obtain rs where rs: "tv_requests tv' = tv_requests tv @ rs" using frame by (metis append_Nil2)
  have set: "settings tv' = settings tv" using frame by blast
  have keep: "tv_jwks_cache tv' = tv_jwks_cache tv"
    using assms(1) by (auto simp: get_openid_config_def fetch_def split: option.splits sum.splits pyval.splits if_splits)
  have cache: "tv_openid_config_cache tv' = tv_openid_config_cache tv
      \<or> (\<exists>cfg. tv_openid_config_cache tv' = Some cfg \<and> fetched http tv' (discovery_url tv) cfg)"
    using assms(1)
    by (auto simp: get_openid_config_def fetch_def split: option.splits sum.splits pyval.splits if_splits
        simp: fetched_last [of _ tv])
  have "fetched http tv' (discovery_url tv') cfg" if "tv_openid_config_cache tv' = Some cfg" for cfg
    using cache that assms(2) fetched_more [OF _ rs] unfolding discovery_url_settings [OF set] caches_fetched_def
    by fastforce
  moreover have "keys_fetched http tv' jwks" if "tv_jwks_cache tv' = Some jwks" for jwks
    using that assms(2) keys_fetched_more [OF _ set rs] by (auto simp: keep caches_fetched_def)
  ultimately show ?thesis using frame by (simp add: caches_fetched_def)
qed

lemma get_jwks_fetched:
  assumes "get_jwks http now (py_str (row_get cfg ''jwks_uri'')) force tv = (tv', r)"
    and "caches_fetched http tv" "fetched http tv (discovery_url tv) cfg"
  shows "caches_fetched http tv' \<and> fetched http tv' (discovery_url tv') cfg"
proof -
  let ?uri = "py_str (row_get cfg ''jwks_uri'')"
  note frame = get_jwks_cases [OF assms(1)]
  obtain rs where rs: "tv_requests tv' = tv_requests tv @ rs" using frame by (metis append_Nil2)
  have set: "settings tv' = settings tv" using frame by blast
  have keep: "tv_openid_config_cache tv' = tv_openid_config_cache tv"
    using frame by (simp add: openid_part_def)
  note url = discovery_url_settings [OF set]
  have cfg: "fetched http tv' (discovery_url tv') cfg"
    unfolding url by (rule fetched_more [OF assms(3) rs])
  have cache: "tv_jwks_cache tv' = tv_jwks_cache tv
      \<or> (\<exists>jwks. tv_jwks_cache tv' = Some jwks \<and> fetched http tv' ?uri jwks)"
    using assms(1)
    by (auto simp: get_jwks_def fetch_def split: option.splits sum.splits pyval.splits if_splits
        simp: fetched_last [of _ tv])
  have "keys_fetched http tv' jwks" if "tv_jwks_cache tv' = Some jwks" for jwks
    using cache
  proof
    assume "tv_jwks_cache tv' = tv_jwks_cache tv"
    with that assms(2) keys_fetched_more [OF _ set rs] show ?thesis by (auto simp: caches_fetched_def)
  next
    assume "\<exists>j. tv_jwks_cache tv' = Some j \<and> fetched http tv' ?uri j"
    with that cfg show ?thesis unfolding keys_fetched_def by auto
  qed
  moreover have "fetched http tv' (discovery_url tv') c" if "tv_openid_config_cache tv' = Some c" for c
    using that assms(2) fetched_more [OF _ rs] by (auto simp: keep url caches_fetched_def)
  ultimately show ?thesis using cfg by (simp add: caches_fetched_def)
qed

lemma signing_key_data_fetched:
  assumes "signing_key_data http clock (py_str (row_get cfg ''jwks_uri'')) kid tv = (tv', r)"
    and "caches_fetched http tv" "fetched http tv (discovery_url tv) cfg"
  shows "caches_fetched http tv' \<and> fetched http tv' (discovery_url tv') cfg"
proof -
  let ?uri = "py_str (row_get cfg ''jwks_uri'')"
  obtain tv1 r1 where g1: "get_jwks http (fst clock) ?uri False tv = (tv1, r1)" by force
  obtain tv2 r2 where g2: "get_jwks http (snd clock) ?uri True tv1 = (tv2, r2)" by force
  note c1 = get_jwks_fetched [OF g1 assms(2,3)]
  note c2 = get_jwks_fetched [OF g2 c1 [THEN conjunct1] c1 [THEN conjunct2]]
  have "tv' = tv1 \<or> tv' = tv2"
    using assms(1) g1 g2 by (auto simp: signing_key_data_def split: sum.splits option.splits)
  with c1 c2 show ?thesis by blast
qed

lemma verify_token_fetched:
  assumes "verify_token jwt http clock token tv = (tv', r)" "caches_fetched http tv"
  shows "caches_fetched http tv'"
proof (cases "tv' = tv")
  case False
  obtain tv1 c where g: "get_openid_config http (fst clock) tv = (tv1, c)" by force
  note c1 = get_openid_config_fetched [OF g assms(2)]
  have "tv' = tv1 \<or> (\<exists>hdr cfg q. c = Inr cfg
      \<and> signing_key_data http (snd clock) (py_str (row_get cfg ''jwks_uri'')) (row_get hdr ''kid'') tv1 = (tv', q))"
    using assms(1) False g
    by (auto simp: verify_token_def Let_def split: option.splits if_splits sum.splits prod.splits pyval.splits)
  with c1 signing_key_data_fetched show ?thesis by blast
qed (use assms in simp)

text \<open>The states of a verifier: as it was built, and after any number of verifications.\<close>

inductive verifier_reach :: "'key jwt_library \<Rightarrow> http \<Rightarrow> token_verifier \<Rightarrow> bool" for jwt http_get where
  verifier_start: "verifier_reach jwt http_get (token_verifier_init tenant_id client_id uri scopes base claim ttl)"
| verifier_step: "verifier_reach jwt http_get tv \<Longrightarrow>
    verify_token jwt http_get clock token tv = (tv', r) \<Longrightarrow> verifier_reach jwt http_get tv'"

lemma verifier_reach_fetched: "verifier_reach jwt http tv \<Longrightarrow> caches_fetched http tv"
proof (induction rule: verifier_reach.induct)
  case (verifier_start tenant_id client_id uri scopes base claim ttl)
  show ?case by (simp add: caches_fetched_def token_verifier_init_def)
qed (rule verify_token_fetched)

section \<open>Accepted tokens\<close>

definition audience_of :: "token_verifier \<Rightarrow> string" where
  "audience_of tv = (case tv_identifier_uri tv of Some u \<Rightarrow> if u \<noteq> [] then u else tv_client_id tv
     | None \<Rightarrow> tv_client_id tv)"

lemma accept_claims_some:
  assumes "accept_claims tv token claims = Some a"
  shows "at_token a = token \<and> at_scopes a = extract_scopes claims
    \<and> set (tv_required_scopes tv) \<subseteq> set (at_scopes a)
    \<and> (\<forall>k. k \<noteq> tv_group_claim_name tv \<longrightarrow> map_of (at_claims a) k = map_of claims k)
    \<and> (tv_group_claim_name tv \<noteq> [] \<longrightarrow> map_of (at_claims a) (tv_group_claim_name tv)
          = Some (row_get_or claims (tv_group_claim_name tv) (VList [])))"
  using assms
  by (auto simp: accept_claims_def Let_def validate_required_scopes_def list_all_iff row_get_or_def
      dict_get_def split: if_splits option.splits)

text \<open>The path of \<open>verify_token\<close> that ends in a token.\<close>

lemma verify_token_accepts:
  assumes "verify_token jwt http clock token tv = (tv', Some a)"
  shows "\<exists>hdr tv1 cfg k key claims. jwt_header jwt token = Some hdr
    \<and> get_openid_config http (fst clock) tv = (tv1, Inr cfg)
    \<and> signing_key_data http (snd clock) (py_str (row_get cfg ''jwks_uri'')) (row_get hdr ''kid'') tv1
        = (tv', Inr (Some k))
    \<and> from_jwk jwt k = Inr key
    \<and> jwt_decode jwt token key [''RS256''] (audience_of tv') (py_str (row_get cfg ''issuer'')) = Inr (VDict claims)
    \<and> accept_claims tv' token claims = Some a"
  using assms unfolding verify_token_def audience_of_def
  by (simp add: Let_def split: option.splits if_splits prod.splits sum.splits pyval.splits)


definition example_verifier :: token_verifier where
  "example_verifier = token_verifier_init ''t'' ''app'' None [''Sql.Read''] None ''groups'' 300"

definition example_http :: http where
  "example_http sent url =
     (if sent = []
      then Inr (VDict [(''jwks_uri'', VStr ''keys''), (''issuer'', VStr ''iss'')])
      else Inr (VDict [(''keys'', VList [VDict [(''kid'', VStr ''k1'')]])]))"

definition example_jwt :: "pyval jwt_library" where
  "example_jwt = \<lparr>jwt_header = (\<lambda>t. Some [(''kid'', VStr t), (''alg'', VStr ''RS256'')]), from_jwk = Inr,
     jwt_decode = (\<lambda>t key algs aud iss. Inr (VDict [(''scp'', VStr ''Sql.Read other''), (''exp'', VInt 9)]))\<rparr>"

lemmas example_auth_defs = example_verifier_def example_http_def example_jwt_def token_verifier_init_def


text \<open>
  While both caches are fresh, a token whose key id is in the cached set is checked without any
  request, and every token with another key id, however often it comes, costs one request to the
  key endpoint: there is no memory of unknown key ids.
\<close>

theorem unknown_key_always_fetches:
  assumes "jwt_header jwt token = Some hdr" "truthy (row_get hdr ''kid'')" "truthy (row_get hdr ''alg'')"
    and "fresh tv (tv_openid_config_cache tv) (tv_openid_config_cache_at tv) (fst clock) = Some cfg"
    and "fresh tv (tv_jwks_cache tv) (tv_jwks_cache_at tv) (fst (snd clock)) = Some jwks"
    and "jwks_key (row_get hdr ''kid'') jwks = Inr found"
  shows "tv_requests (fst (verify_token jwt http clock token tv)) = tv_requests tv @
      (if found = None then [py_str (row_get cfg ''jwks_uri'')] else [])"
proof -
  have cfg: "get_openid_config http (fst clock) tv = (tv, Inr cfg)"
    using assms(4) by (simp add: get_openid_config_def)
  have jwks: "get_jwks http (fst (snd clock)) uri False tv = (tv, Inr jwks)" for uri
    using assms(5) by (simp add: get_jwks_def)
  have forced: "tv_requests (fst (get_jwks http now uri True tv)) = tv_requests tv @ [uri]" for now uri
    by (simp add: get_jwks_def fetch_def split: sum.split pyval.split)
  have key: "tv_requests (fst (signing_key_data http (snd clock) uri (row_get hdr ''kid'') tv))
      = tv_requests tv @ (if found = None then [uri] else [])" for uri
    using assms(6) jwks [of uri] forced [of "snd (snd clock)" uri]
    by (cases found; cases "get_jwks http (snd (snd clock)) uri True tv")
      (auto simp: signing_key_data_def split: sum.split)
  show ?thesis
    using key [of "py_str (row_get cfg ''jwks_uri'')"] assms(1-3) cfg
    by (cases "signing_key_data http (snd clock) (py_str (row_get cfg ''jwks_uri'')) (row_get hdr ''kid'') tv")
      (auto simp: verify_token_def Let_def split: sum.split option.split pyval.split)
qed

theorem unknown_key_always_fetches_witness:
  "tv_requests (fst (verify_token example_jwt example_http (10, 11, 12) ''k2''
     (example_verifier\<lparr>tv_openid_config_cache := Some [(''jwks_uri'', VStr ''keys''), (''issuer'', VStr ''iss'')],
        tv_jwks_cache := Some [(''keys'', VList [VDict [(''kid'', VStr ''k1'')]])]\<rparr>))) = [''keys'']"
  by (subst unknown_key_always_fetches [where hdr = "[(''kid'', VStr ''k2''), (''alg'', VStr ''RS256'')]"
        and cfg = "[(''jwks_uri'', VStr ''keys''), (''issuer'', VStr ''iss'')]"
        and jwks = "[(''keys'', VList [VDict [(''kid'', VStr ''k1'')]])]" and found = None])
    (simp_all add: example_auth_defs fresh_def row_get_def row_get_or_def dict_get_def truthy_def
       jwks_key_def py_str_def)

text \<open>
  Whenever the server starts, it installs a token verifier exactly if the tools enforce
  authentication: the two conditions, written in different files, agree on every configuration
  that is not refused.  An installed verifier has a tenant, a client and the configured scopes.
\<close>

theorem provider_iff_enforced:
  assumes "build_auth_provider cfg = Inr p"
  shows "(p \<noteq> None) = auth_enforced (Some cfg)
    \<and> (\<forall>tv. p = Some tv \<longrightarrow> tv_tenant_id tv \<noteq> [] \<and> tv_client_id tv \<noteq> []
         \<and> azure_tenant_id cfg = Some (tv_tenant_id tv) \<and> azure_client_id cfg = Some (tv_client_id tv)
         \<and> tv_required_scopes tv = azure_required_scopes cfg
         \<and> tv_group_claim_name tv = azure_group_claim_name cfg)"
  using assms
  by (auto simp: build_auth_provider_def auth_enforced_def Let_def token_verifier_init_def split: if_splits)

theorem provider_iff_enforced_witness:
  "\<exists>tv. build_auth_provider (default_auth\<lparr>azure_auth_enabled := True, azure_tenant_id := Some ''t'',
      azure_client_id := Some ''c''\<rparr>) = Inr (Some tv) \<and> tv_tenant_id tv = ''t''
    \<and> auth_enforced (Some (default_auth\<lparr>azure_auth_enabled := True, azure_tenant_id := Some ''t'',
      azure_client_id := Some ''c''\<rparr>))"
proof -
  let ?cfg = "default_auth\<lparr>azure_auth_enabled := True, azure_tenant_id := Some ''t'', azure_client_id := Some ''c''\<rparr>"
  obtain tv where r: "build_auth_provider ?cfg = Inr (Some tv)"
    by (simp add: build_auth_provider_def default_auth_def Let_def)
  note p = provider_iff_enforced [OF r]
  have "tv_tenant_id tv = ''t''" using p by simp
  moreover have "auth_enforced (Some ?cfg)" using p by blast
  ultimately show ?thesis using r by blast
qed

end
