(* ===== verification/Catalog_Reads.thy ===== *)
theory Catalog_Reads
  imports Tool_Safety Query_Catalog
begin

text \<open>
  What the dashboard and the analysis tools share: they run statements of \<open>query_catalog.py\<close> through
  \<open>ConnectionManager.execute_catalog_query\<close>.  The lemmas say what such operations send, whatever the
  database answers.
\<close>

section \<open>Running a catalogue statement\<close>

text \<open>
  \<open>execute_catalog_query(instance, database, query(...), max_rows)["rows"]\<close>: the statement is built
  first, and building it may raise.
\<close>

definition run_catalog ::
  "connection_manager \<Rightarrow> database \<Rightarrow> string \<Rightarrow> string \<Rightarrow> string result \<Rightarrow> int \<Rightarrow> row list db_op" where
  "run_catalog cm db inst db_name query max_rows =
     db_bind (db_return query) (\<lambda>sql.
       db_bind (execute_catalog_query cm db inst db_name sql max_rows) (\<lambda>res. db_return (Inr (cat_rows res))))"

text \<open>\<open>try: x = op ... except Exception as exc: ... else: ...\<close>\<close>

definition db_try :: "'a db_op \<Rightarrow> (pyexc \<Rightarrow> 'b db_op) \<Rightarrow> ('a \<Rightarrow> 'b db_op) \<Rightarrow> 'b db_op" where
  "db_try op handler cont h = (case op h of (h1, Inl exc) \<Rightarrow> handler exc h1 | (h1, Inr x) \<Rightarrow> cont x h1)"

section \<open>Operations that only read\<close>

definition read_event :: "string set \<Rightarrow> db_event \<Rightarrow> bool" where
  "read_event sqls ev = (case ev of DbExec conn sql ps \<Rightarrow> sql \<in> sqls \<and> ps = [] | DbCommit conn \<Rightarrow> False
     | _ \<Rightarrow> True)"

definition reads_only :: "string set \<Rightarrow> 'a db_op \<Rightarrow> bool" where
  "reads_only sqls op \<longleftrightarrow> sends op (\<lambda>evs r. \<forall>ev \<in> set evs. read_event sqls ev)"

named_theorems reads_only_ops \<open>operations that only read\<close>

lemma reads_only_return [reads_only_ops]: "reads_only sqls (db_return r)"
  unfolding reads_only_def by (rule sends_mono [OF sends_return]) simp

lemma reads_only_bind [reads_only_ops]:
  assumes "reads_only sqls m" "\<And>x. reads_only sqls (f x)"
  shows "reads_only sqls (db_bind m f)"
  using assms unfolding reads_only_def by (intro sends_mono [OF sends_bind]) auto

lemma reads_only_case_prod [reads_only_ops]:
  "(\<And>a b. reads_only sqls (f a b)) \<Longrightarrow> reads_only sqls (case p of (a, b) \<Rightarrow> f a b)"
  by (cases p) simp

lemma reads_only_mono: "reads_only A op \<Longrightarrow> A \<subseteq> B \<Longrightarrow> reads_only B op"
  unfolding reads_only_def
  by (erule sends_mono) (fastforce simp: read_event_def split: db_event.splits)

lemma reads_only_read: "reads_only {sql} (execute_read_in_database cm db iid name sql m)"
  unfolding reads_only_def execute_read_in_database_def
  by (rule sends_mono [OF sends_read_operation [OF read_body_sends]])
    (auto simp: retried_def session_def read_event_def split: if_splits)

lemma db_bind_return: "db_bind (db_return (Inr x)) f = f x"
  by (rule ext) (simp add: db_bind_def db_return_def)

lemma reads_only_catalog:
  assumes "\<And>sql. q = Inr sql \<Longrightarrow> sql \<in> sqls"
  shows "reads_only sqls (run_catalog cm db inst d q m)"
proof (cases q)
  case (Inl e)
  then have "run_catalog cm db inst d q m = db_return (Inl e)"
    by (auto simp: run_catalog_def db_bind_def db_return_def)
  then show ?thesis by (simp add: reads_only_return)
next
  case (Inr sql)
  have "reads_only sqls (execute_read_in_database cm db inst d sql m)"
    by (rule reads_only_mono [OF reads_only_read]) (use assms Inr in simp)
  then have "reads_only sqls (execute_catalog_query cm db inst d sql m)"
    unfolding execute_catalog_query_def by (intro reads_only_ops)
  then show ?thesis
    using Inr by (simp add: run_catalog_def db_bind_return) (intro reads_only_ops)
qed

lemma reads_only_try [reads_only_ops]:
  assumes "reads_only sqls op" "\<And>e. reads_only sqls (handler e)" "\<And>x. reads_only sqls (cont x)"
  shows "reads_only sqls (db_try op handler cont)"
  unfolding reads_only_def sends_def
proof (intro allI impI)
  fix h h' r
  assume run: "db_try op handler cont h = (h', r)"
  obtain h1 q where op: "op h = (h1, q)" by force
  obtain es where es: "h1 = h @ es" "\<forall>ev \<in> set es. read_event sqls ev"
    using sendsD [OF assms(1) [unfolded reads_only_def] op] by blast
  have "\<exists>cs. h' = h1 @ cs \<and> (\<forall>ev \<in> set cs. read_event sqls ev)"
    using run sendsD [OF assms(2) [unfolded reads_only_def]] sendsD [OF assms(3) [unfolded reads_only_def]]
    by (cases q) (simp_all add: db_try_def op)
  then obtain cs where "h' = h1 @ cs" "\<forall>ev \<in> set cs. read_event sqls ev" by blast
  with es show "\<exists>evs. h' = h @ evs \<and> (\<forall>ev \<in> set evs. read_event sqls ev)"
    by (intro exI [of _ "es @ cs"]) auto
qed

lemma reads_only_if [reads_only_ops]:
  "(c \<Longrightarrow> reads_only sqls a) \<Longrightarrow> (\<not> c \<Longrightarrow> reads_only sqls b) \<Longrightarrow> reads_only sqls (if c then a else b)"
  by simp

text \<open>Operations that cannot succeed, and what is left of a run when every statement fails.\<close>

definition never_ok :: "'a db_op \<Rightarrow> bool" where
  "never_ok op \<longleftrightarrow> (\<forall>h h' x. op h \<noteq> (h', Inr x))"

definition refuses :: "database \<Rightarrow> bool" where
  "refuses db \<longleftrightarrow> (\<forall>h conn sql ps cur. db h (DbExec conn sql ps) \<noteq> Inr cur)"

lemma never_ok_bind: "never_ok m \<Longrightarrow> never_ok (db_bind m f)"
  by (auto simp: never_ok_def db_bind_def split: prod.splits sum.splits)

lemma never_ok_bind_later: "(\<And>x. never_ok (f x)) \<Longrightarrow> never_ok (db_bind m f)"
  unfolding never_ok_def db_bind_def by (auto split: prod.splits sum.splits)

lemma never_ok_connection: "(\<And>conn. never_ok (body conn)) \<Longrightarrow> never_ok (with_connection cm db iid ov body)"
  unfolding never_ok_def with_connection_def by (auto split: prod.splits sum.splits option.splits)

lemma never_ok_attempts: "never_ok op \<Longrightarrow> never_ok (read_attempts n op)"
proof (induction n)
  case (Suc n)
  then have "read_attempts n op h \<noteq> (h', Inr x)" "op h \<noteq> (h', Inr x)" for h h' x
    by (auto simp: never_ok_def)
  then show ?case by (auto simp: never_ok_def split: prod.splits sum.splits)
qed (simp add: never_ok_def)

lemma refused_catalog: "refuses db \<Longrightarrow> never_ok (run_catalog cm db inst d q m)"
proof -
  assume db: "refuses db"
  have "never_ok (db_do db (DbExec conn sql []))" for conn sql
    using db by (auto simp: refuses_def never_ok_def db_do_def)
  then show ?thesis
    unfolding run_catalog_def execute_catalog_query_def execute_read_in_database_def run_read_operation_def
    by (intro never_ok_bind_later never_ok_bind never_ok_attempts never_ok_connection)
qed

definition tool_reads :: "string set \<Rightarrow> 'a tool_op \<Rightarrow> bool" where
  "tool_reads sqls op \<longleftrightarrow>
     (\<forall>t. \<exists>evs. sent (fst (op t)) = sent t @ evs \<and> (\<forall>ev \<in> set evs. read_event sqls ev))"

named_theorems tool_reads_ops \<open>steps of a handler that only read\<close>

lemma tool_reads_silent [tool_reads_ops]: "silent op \<Longrightarrow> tool_reads sqls op"
  unfolding silent_def tool_reads_def by simp

lemma tool_reads_db [tool_reads_ops]: "reads_only sqls op \<Longrightarrow> tool_reads sqls (step_db op)"
  unfolding tool_reads_def reads_only_def
proof
  fix t assume "sends op (\<lambda>evs r. \<forall>ev \<in> set evs. read_event sqls ev)"
  from sendsD [OF this surjective_pairing]
  show "\<exists>evs. sent (fst (step_db op t)) = sent t @ evs \<and> (\<forall>ev \<in> set evs. read_event sqls ev)"
    by (simp add: step_db_def sent_def case_prod_beta)
qed

lemma tool_reads_bind [tool_reads_ops]:
  assumes "tool_reads sqls m" "\<And>x. tool_reads sqls (f x)"
  shows "tool_reads sqls (tool_bind m f)"
  unfolding tool_reads_def
proof
  fix t
  obtain t1 r where m: "m t = (t1, r)" by force
  obtain es where es: "sent t1 = sent t @ es" "\<forall>ev \<in> set es. read_event sqls ev"
    using assms(1) m unfolding tool_reads_def by (metis fst_conv)
  show "\<exists>evs. sent (fst (tool_bind m f t)) = sent t @ evs \<and> (\<forall>ev \<in> set evs. read_event sqls ev)"
  proof (cases r)
    case (Inl e)
    with m es show ?thesis by (auto simp: tool_bind_def)
  next
    case (Inr x)
    obtain cs where "sent (fst (f x t1)) = sent t1 @ cs" "\<forall>ev \<in> set cs. read_event sqls ev"
      using assms(2) unfolding tool_reads_def by blast
    with m es Inr show ?thesis by (intro exI [of _ "es @ cs"]) (auto simp: tool_bind_def)
  qed
qed

lemma tool_reads_case_prod [tool_reads_ops]:
  "(\<And>a b. tool_reads sqls (f a b)) \<Longrightarrow> tool_reads sqls (case p of (a, b) \<Rightarrow> f a b)"
  by (cases p) simp

lemma tool_reads_checked:
  "(\<And>x. r = Inr x \<Longrightarrow> tool_reads sqls (f x)) \<Longrightarrow> tool_reads sqls (tool_bind (tool_return r) f)"
  by (cases r) (auto simp: tool_reads_def tool_bind_def tool_return_def)

section \<open>How many statements are sent\<close>

text \<open>A catalogue read sends its statement once, and a second time after a transient error.\<close>

definition sends_at_most :: "nat \<Rightarrow> 'a db_op \<Rightarrow> bool" where
  "sends_at_most n op \<longleftrightarrow> sends op (\<lambda>evs r. execs evs \<le> n)"

lemma execs_append: "execs (xs @ ys) = execs xs + execs ys"
  by (simp add: execs_def)

lemma sends_at_most_mono: "sends_at_most m op \<Longrightarrow> m \<le> n \<Longrightarrow> sends_at_most n op"
  unfolding sends_at_most_def by (erule sends_mono) simp

lemma sends_at_most_return: "sends_at_most n (db_return r)"
  unfolding sends_at_most_def by (rule sends_mono [OF sends_return]) (simp add: execs_def)

lemma sends_at_most_bind:
  "sends_at_most m op \<Longrightarrow> (\<And>x. sends_at_most n (f x)) \<Longrightarrow> sends_at_most (m + n) (db_bind op f)"
  unfolding sends_at_most_def
  by (rule sends_mono [OF sends_bind], assumption, blast) (fastforce simp: execs_append)

lemma sends_at_most_read: "sends_at_most 2 (execute_read_in_database cm db iid name sql m)"
  unfolding sends_at_most_def execute_read_in_database_def
  by (rule sends_mono [OF sends_read_operation [OF read_body_sends]])
    (auto simp: retried_def session_def execs_def)

lemma sends_at_most_catalog: "sends_at_most 2 (run_catalog cm db inst d q m)"
proof -
  have "sends_at_most (2 + 0) (execute_catalog_query cm db inst d sql m)" for sql
    unfolding execute_catalog_query_def
    by (rule sends_at_most_bind [OF sends_at_most_read]) (simp add: sends_at_most_return split: prod.splits)
  then have "sends_at_most (0 + (2 + 0)) (run_catalog cm db inst d q m)"
    unfolding run_catalog_def
    by (intro sends_at_most_bind sends_at_most_return) simp
  then show ?thesis by (simp add: numeral_2_eq_2)
qed

definition tool_sends_at_most :: "nat \<Rightarrow> 'a tool_op \<Rightarrow> bool" where
  "tool_sends_at_most n op \<longleftrightarrow> (\<forall>t. \<exists>evs. sent (fst (op t)) = sent t @ evs \<and> execs evs \<le> n)"

lemma tool_sends_silent: "silent op \<Longrightarrow> tool_sends_at_most n op"
  unfolding silent_def tool_sends_at_most_def by (simp add: execs_def)

lemma tool_sends_db: "sends_at_most n op \<Longrightarrow> tool_sends_at_most n (step_db op)"
  unfolding tool_sends_at_most_def sends_at_most_def
proof
  fix t assume "sends op (\<lambda>evs r. execs evs \<le> n)"
  from sendsD [OF this surjective_pairing]
  show "\<exists>evs. sent (fst (step_db op t)) = sent t @ evs \<and> execs evs \<le> n"
    by (simp add: step_db_def sent_def case_prod_beta)
qed

lemma tool_sends_bind:
  assumes "tool_sends_at_most m op" "\<And>x. tool_sends_at_most n (f x)"
  shows "tool_sends_at_most (m + n) (tool_bind op f)"
  unfolding tool_sends_at_most_def
proof
  fix t
  obtain t1 r where op: "op t = (t1, r)" by force
  obtain es where es: "sent t1 = sent t @ es" "execs es \<le> m"
    using assms(1) op unfolding tool_sends_at_most_def by (metis fst_conv)
  show "\<exists>evs. sent (fst (tool_bind op f t)) = sent t @ evs \<and> execs evs \<le> m + n"
  proof (cases r)
    case (Inl e)
    with op es show ?thesis by (auto simp: tool_bind_def)
  next
    case (Inr x)
    obtain cs where "sent (fst (f x t1)) = sent t1 @ cs" "execs cs \<le> n"
      using assms(2) unfolding tool_sends_at_most_def by blast
    with op es Inr show ?thesis by (intro exI [of _ "es @ cs"]) (auto simp: tool_bind_def execs_append)
  qed
qed

lemma tool_sends_silent_bind:
  assumes "silent op" "\<And>x. tool_sends_at_most n (f x)"
  shows "tool_sends_at_most n (tool_bind op f)"
proof -
  have "tool_sends_at_most (0 + n) (tool_bind op f)"
    by (intro tool_sends_bind tool_sends_silent assms)
  then show ?thesis by simp
qed

lemma tool_sends_checked:
  "(\<And>x. r = Inr x \<Longrightarrow> tool_sends_at_most n (f x)) \<Longrightarrow> tool_sends_at_most n (tool_bind (tool_return r) f)"
  by (cases r) (auto simp: tool_sends_at_most_def tool_bind_def tool_return_def execs_def)

section \<open>Calls of a reading tool\<close>

text \<open>
  A handler whose body only reads, and reads only once it is admitted: the report and dashboard tools.
\<close>

definition catalogue_call_ok ::
  "server_config \<Rightarrow> call_context \<Rightarrow> string \<Rightarrow> string \<Rightarrow> string set \<Rightarrow> bool \<Rightarrow> server_state \<Rightarrow> server_state \<Rightarrow> bool" where
  "catalogue_call_ok cfg cc tool actor sqls ok s s' \<longleftrightarrow>
     (\<exists>e. ss_audit s' = ss_audit s @ [e] \<and> ae_tool e = tool \<and> (ae_decision e = ''allow'' \<longleftrightarrow> ok))
     \<and> (ss_history s' = ss_history s \<or> admitted cfg cc ''read'' actor s)
     \<and> (\<exists>evs. ss_history s' = ss_history s @ evs \<and> (\<forall>ev \<in> set evs. read_event sqls ev))"

lemma run_tool_Inr:
  "run_tool (wrap_errors K) cc tool inst sql actor body s = (s', Inr x) \<Longrightarrow> \<exists>t t'. body t = (t', Inr x)"
  by (auto simp: run_tool_def wrap_errors_def Let_def split: prod.splits sum.splits if_splits)

lemma run_catalogue_call:
  assumes "quiet body" "tool_reads sqls body"
    and "\<And>t. sent (fst (body t)) \<noteq> sent t \<Longrightarrow> admitted cfg cc ''read'' (run_actor t) (tr_state t)"
    and "run_tool (wrap_errors K) cc tool inst sql actor body s = (s', q)"
  shows "catalogue_call_ok cfg cc tool actor sqls (is_ok q) s s'"
proof -
  have audit: "audited tool inst (is_ok q) s s'"
    by (rule run_tool_raises [OF assms(1) wrap_not_ok assms(4)])
  have h: "ss_history s' = sent (fst (body (start_run s actor)))"
    using run_tool_history [of "wrap_errors K" cc tool inst sql actor body s] by (simp add: assms(4))
  have "ss_history s' = ss_history s \<or> admitted cfg cc ''read'' actor s"
    using assms(3) [of "start_run s actor"] h by auto
  moreover have "\<exists>evs. ss_history s' = ss_history s @ evs \<and> (\<forall>ev \<in> set evs. read_event sqls ev)"
    using assms(2) h unfolding tool_reads_def by (metis start_run_simps(1))
  moreover have "\<exists>e. ss_audit s' = ss_audit s @ [e] \<and> ae_tool e = tool \<and> (ae_decision e = ''allow'' \<longleftrightarrow> is_ok q)"
    using audit unfolding audited_def by (cases "is_ok q") auto
  ultimately show ?thesis unfolding catalogue_call_ok_def by blast
qed

end
