(* ===== verification/Sessions_Dashboard.thy ===== *)
theory Sessions_Dashboard
  imports Catalog_Reads Dashboard_Html Dashboard_Store
begin

text \<open>
  The sessions dashboard end to end: the tool \<open>_sessions_dashboard\<close> of \<open>src/tools/sql_tools.py\<close>, the
  page routes of \<open>src/diagnostics/routes.py\<close>, and the data endpoint of the interactive app
  (\<open>src/tools/sessions_dashboard_app.py\<close>).  All three read the same catalogue statements; the tool
  registers a page, the routes serve it and build it again.

  The user interface components of the app are data for a library outside the repository.
\<close>

section \<open>Reading the server's sessions\<close>

record dashboard_rows =
  dr_sessions :: "row list"
  dr_locks :: "row list"
  dr_tran_locks :: "row list"
  dr_waiting :: "row list"
  dr_chains :: "row list"

definition catalog_rows ::
  "connection_manager \<Rightarrow> database \<Rightarrow> string \<Rightarrow> string \<Rightarrow> (pyval \<Rightarrow> string result) \<Rightarrow> row list db_op" where
  "catalog_rows cm db inst db_name query = run_catalog cm db inst db_name (query (VInt 200)) 200"

definition collect_rows ::
  "connection_manager \<Rightarrow> database \<Rightarrow> string \<Rightarrow> string \<Rightarrow> bool \<Rightarrow> dashboard_rows db_op" where
  "collect_rows cm db inst db_name include_locks =
     (let read = catalog_rows cm db inst db_name in
      db_bind (read active_sessions_query) (\<lambda>sessions.
        if include_locks then
          db_bind (read lock_chain_query) (\<lambda>lock_rows.
          db_bind (read tran_locks_query) (\<lambda>tran_lock_rows.
          db_bind (read waiting_tasks_query) (\<lambda>waiting_rows.
          db_bind (read blocking_chain_query) (\<lambda>blocking_chain_rows.
            db_return (Inr \<lparr>dr_sessions = sessions, dr_locks = lock_rows, dr_tran_locks = tran_lock_rows,
              dr_waiting = waiting_rows, dr_chains = blocking_chain_rows\<rparr>)))))
        else db_return (Inr \<lparr>dr_sessions = sessions, dr_locks = [], dr_tran_locks = [], dr_waiting = [],
               dr_chains = []\<rparr>)))"

text \<open>The loop over \<open>lock_rows["rows"]\<close>; \<open>int\<close> raises \<open>TypeError\<close> or \<open>ValueError\<close> only.\<close>

definition add_blocker :: "int list \<Rightarrow> row \<Rightarrow> int list" where
  "add_blocker head_blockers r =
     (let blocker = row_get r ''blocking_session_id'' in
      if blocker = VNone then head_blockers
      else (case py_int blocker of
              Inl _ \<Rightarrow> head_blockers
            | Inr blocker_id \<Rightarrow>
                if blocker_id > 0 \<and> blocker_id \<notin> set head_blockers
                then head_blockers @ [blocker_id] else head_blockers))"

definition lock_head_blockers :: "row list \<Rightarrow> int list" where
  "lock_head_blockers lock_rows = foldl add_blocker [] lock_rows"

definition refresh_url_of :: "string \<Rightarrow> string" where
  "refresh_url_of request_id = ''/diagnostics/dashboards/'' @ request_id @ ''/refresh''"

definition dashboard_input_of :: "int \<Rightarrow> string \<Rightarrow> string \<Rightarrow> dashboard_rows \<Rightarrow> dashboard_input" where
  "dashboard_input_of instance_number db_name request_id dr =
     \<lparr>di_instance_number = instance_number, di_database_name = db_name, di_sessions = dr_sessions dr,
      di_lock_chains = dr_locks dr, di_tran_locks = dr_tran_locks dr, di_waiting_tasks = dr_waiting dr,
      di_head_blockers = lock_head_blockers (dr_locks dr), di_blocking_chains = dr_chains dr,
      di_refresh_url = Some (refresh_url_of request_id)\<rparr>"

section \<open>The tool\<close>

text \<open>What the page store is called with: the base URL setting, the clock at registration and at
  the expiry lookup, and the rendering of a time as ISO text.\<close>

record store_context =
  sx_base_url :: "string option"
  sx_now :: real
  sx_expiry_now :: real
  sx_iso :: "real \<Rightarrow> string"

definition dashboard_metadata :: "string \<Rightarrow> int \<Rightarrow> string \<Rightarrow> int \<Rightarrow> bool \<Rightarrow> row" where
  "dashboard_metadata inst instance_number db_name lookback_minutes include_locks =
     [(''instance_id'', VStr inst), (''instance_number'', VInt instance_number),
      (''database_name'', VStr db_name), (''lookback_minutes'', VInt lookback_minutes),
      (''include_locks'', VBool include_locks)]"

definition without_keys :: "string list \<Rightarrow> row \<Rightarrow> row" where
  "without_keys ks r = filter (\<lambda>(k, v). k \<notin> set ks) r"

lemma row_get_without_keys [simp]: "k \<notin> set ks \<Longrightarrow> row_get (without_keys ks r) k = row_get r k"
proof (induction r)
  case (Cons kv r)
  then show ?case by (cases kv) (auto simp: without_keys_def row_get_def dict_get_def)
qed (simp add: without_keys_def)

lemma row_get_Cons: "row_get ((k, v) # r) k' = (if k = k' then v else row_get r k')"
  by (simp add: row_get_def dict_get_def)

definition sessions_dashboard_body ::
  "server_config \<Rightarrow> database \<Rightarrow> store_context \<Rightarrow> call_context \<Rightarrow> string \<Rightarrow> string \<Rightarrow> int \<Rightarrow> string \<Rightarrow> int \<Rightarrow> bool
     \<Rightarrow> page_store \<Rightarrow> (row \<times> page_store) tool_op" where
  "sessions_dashboard_body cfg db sx cc tool inst instance_number database_name lookback_minutes
       include_locks pages =
     tool_bind (tool_return (validate_database_name database_name)) (\<lambda>db_name.
     tool_bind (tool_return (validate_positive_int lookback_minutes ''lookback_minutes'' 1 1440)) (\<lambda>_.
     tool_bind (admit_call cfg cc ''read'') (\<lambda>_.
     tool_bind (tool_return (enforce (sc_guard cfg) tool ''SELECT 1'')) (\<lambda>_.
     tool_bind (step_db (collect_rows (sc_cm cfg) db inst db_name include_locks)) (\<lambda>dr.
     tool_bind (set_rows (length (dr_sessions dr) + length (dr_locks dr) + length (dr_tran_locks dr)
         + length (dr_waiting dr) + length (dr_chains dr))) (\<lambda>_.
     tool_bind (tool_return (build_sessions_dashboard_full (cc_utc_now cc)
         (dashboard_input_of instance_number db_name (cc_request_id cc) dr))) (\<lambda>full_payload.
     let (url, pages1) = register_dashboard_page_with_metadata (sx_base_url sx) (sx_now sx)
           (cc_request_id cc) (py_str (row_get full_payload ''html'')) 900
           (Some (dashboard_metadata inst instance_number db_name lookback_minutes include_locks)) pages in
     tool_bind (tool_return url) (\<lambda>dashboard_url.
     let (expiry, pages2) = get_dashboard_page_expiry (sx_expiry_now sx) (cc_request_id cc) pages1 in
     tool_bind (tool_return expiry) (\<lambda>expires.
     tool_return (Inr
       ([(''dashboard_url'', VStr dashboard_url), (''request_id'', VStr (cc_request_id cc)),
         (''expires_at_utc'', case expires of Some e \<Rightarrow> VStr (sx_iso sx e) | None \<Rightarrow> VNone)]
        @ without_keys [''dashboard_url'', ''request_id'', ''expires_at_utc''] full_payload,
        pages2)))))))))))"

definition sessions_dashboard_tool ::
  "server_config \<Rightarrow> database \<Rightarrow> store_context \<Rightarrow> call_context \<Rightarrow> string \<Rightarrow> string \<Rightarrow> int \<Rightarrow> string \<Rightarrow> int \<Rightarrow> bool
     \<Rightarrow> string \<Rightarrow> page_store \<Rightarrow> server_state \<Rightarrow> server_state \<times> page_store \<times> row result" where
  "sessions_dashboard_tool cfg db sx cc tool inst instance_number database_name lookback_minutes
       include_locks actor pages s =
     (case run_tool (wrap_errors {ValueErr, PermissionErr}) cc tool inst ''SESSIONS_DASHBOARD'' actor
         (sessions_dashboard_body cfg db sx cc tool inst instance_number database_name lookback_minutes
            include_locks pages) s of
        (s', Inr (payload, pages')) \<Rightarrow> (s', pages', Inr payload)
      | (s', Inl e) \<Rightarrow> (s', pages, Inl e))"

section \<open>The page routes\<close>

datatype http_response = HttpOk string | HttpError nat string | HttpRaise pyexc

text \<open>The checks of the stored metadata.\<close>

definition refresh_request :: "row \<Rightarrow> http_response + (string \<times> int \<times> string \<times> bool)" where
  "refresh_request metadata =
     (case row_get metadata ''instance_id'' of
        VStr s \<Rightarrow>
          if py_strip s = [] then Inl (HttpError 400 ''Invalid dashboard metadata: instance_id must be a non-empty string'')
          else
            (case (case row_get metadata ''instance_number'' of
                     VInt i \<Rightarrow> Some i | VStr n \<Rightarrow> parse_int n | _ \<Rightarrow> None) of
               None \<Rightarrow> Inl (HttpError 400 ''Invalid dashboard metadata: instance_number must be an integer'')
             | Some instance_number \<Rightarrow>
                 if instance_number < 1
                 then Inl (HttpError 400 ''Invalid dashboard metadata: instance_number must be positive'')
                 else
                   (let include_locks = truthy (row_get_or metadata ''include_locks'' (VBool True)) in
                    case row_get_or metadata ''database_name'' (VStr ''master'') of
                      VNone \<Rightarrow> Inr (py_strip s, instance_number, ''master'', include_locks)
                    | VStr d \<Rightarrow>
                        (case validate_database_name d of
                           Inl e \<Rightarrow> Inl (HttpRaise e)
                         | Inr database_name \<Rightarrow> Inr (py_strip s, instance_number, database_name, include_locks))
                    | _ \<Rightarrow> Inl (HttpError 400 ''Invalid dashboard metadata: database_name must be a string'')))
      | _ \<Rightarrow> Inl (HttpError 400 ''Invalid dashboard metadata: instance_id must be a non-empty string''))"

text \<open>\<open>_refresh_dashboard_html\<close>: the clock at the lookup is \<open>sx_expiry_now\<close>, at the registration \<open>sx_now\<close>.\<close>

definition refresh_dashboard_html ::
  "server_config \<Rightarrow> database \<Rightarrow> store_context \<Rightarrow> string \<Rightarrow> string \<Rightarrow> page_store \<times> history
     \<Rightarrow> (page_store \<times> history) \<times> http_response" where
  "refresh_dashboard_html cfg db sx generated_at request_id st =
     (let (found, pages1) = get_dashboard_page_metadata (sx_expiry_now sx) request_id (fst st) in
      case found of
        Inl e \<Rightarrow> ((pages1, snd st), HttpRaise e)
      | Inr None \<Rightarrow> ((pages1, snd st), HttpError 404 ''dashboard_page_not_found_or_expired'')
      | Inr (Some metadata) \<Rightarrow>
          (case refresh_request metadata of
             Inl response \<Rightarrow> ((pages1, snd st), response)
           | Inr (instance_id, instance_number, database_name, include_locks) \<Rightarrow>
               (case enforce (sc_guard cfg) ''sessions_dashboard_page_refresh'' ''SELECT 1'' of
                  Inl e \<Rightarrow> ((pages1, snd st), HttpRaise e)
                | Inr _ \<Rightarrow>
                    (case collect_rows (sc_cm cfg) db instance_id database_name include_locks (snd st) of
                       (h1, Inl e) \<Rightarrow> ((pages1, h1), HttpRaise e)
                     | (h1, Inr dr) \<Rightarrow>
                         (case build_sessions_dashboard_full generated_at
                             (dashboard_input_of instance_number database_name request_id dr) of
                            Inl e \<Rightarrow> ((pages1, h1), HttpRaise e)
                          | Inr payload \<Rightarrow>
                              (let html = py_str (row_get payload ''html'');
                                   (url, pages2) = register_dashboard_page_with_metadata (sx_base_url sx)
                                     (sx_now sx) request_id html 900 (Some metadata) pages1
                               in case url of Inl e \<Rightarrow> ((pages2, h1), HttpRaise e)
                                  | Inr _ \<Rightarrow> ((pages2, h1), HttpOk html)))))))"

text \<open>The routes check the id with the pattern of the store, after an emptiness test.\<close>

definition valid_route_id :: "string \<Rightarrow> bool" where
  "valid_route_id request_id \<longleftrightarrow> request_id \<noteq> [] \<and> id_pattern request_id"

definition dashboard_page_route ::
  "store_context \<Rightarrow> string \<Rightarrow> page_store \<Rightarrow> page_store \<times> http_response" where
  "dashboard_page_route sx request_id pages =
     (if \<not> valid_route_id request_id then (pages, HttpError 400 ''Invalid request_id format'')
      else
        (case get_dashboard_page (sx_expiry_now sx) request_id pages of
           (Inl e, pages1) \<Rightarrow> (pages1, HttpRaise e)
         | (Inr None, pages1) \<Rightarrow> (pages1, HttpError 404 ''dashboard_page_not_found_or_expired'')
         | (Inr (Some html), pages1) \<Rightarrow> (pages1, HttpOk html)))"

definition refresh_dashboard_route ::
  "server_config \<Rightarrow> database \<Rightarrow> store_context \<Rightarrow> string \<Rightarrow> string \<Rightarrow> page_store \<times> history
     \<Rightarrow> (page_store \<times> history) \<times> http_response" where
  "refresh_dashboard_route cfg db sx generated_at request_id st =
     (if \<not> valid_route_id request_id then (st, HttpError 400 ''Invalid request_id format'')
      else refresh_dashboard_html cfg db sx generated_at request_id st)"

section \<open>The data endpoint of the app\<close>

definition redact_login_name :: "pyval \<Rightarrow> string" where
  "redact_login_name v =
     (let raw = py_strip (py_str (py_or v (VStr []))) in
      if raw = [] then ''redacted''
      else if length raw \<le> 2 then replicate (length raw) (CHR ''*'')
      else hd raw # ''***'' @ [last raw])"

definition mask_session :: "row \<Rightarrow> row" where
  "mask_session r = dict_set ''login_name'' (VStr (redact_login_name (row_get r ''login_name''))) r"

text \<open>The blocked and the blocking session ids of one row; \<open>None > 0\<close> is guarded, text is not.\<close>

fun blocking_ids :: "row list \<Rightarrow> int list \<times> int list \<Rightarrow> (int list \<times> int list) result" where
  "blocking_ids [] acc = Inr acc"
| "blocking_ids (r # rows) (blocking, blocked) =
     (let session_id = row_get r ''session_id''; blocking_session_id = row_get r ''blocking_session_id'';
          blocked' = (if session_id = VNone then blocked
                      else case py_int session_id of Inl _ \<Rightarrow> blocked | Inr i \<Rightarrow> i # blocked)
      in if blocking_session_id = VNone then blocking_ids rows (blocking, blocked')
         else bind_res (greater_than blocking_session_id 0) (\<lambda>positive.
           blocking_ids rows
             (if positive then case py_int blocking_session_id of Inl _ \<Rightarrow> blocking | Inr i \<Rightarrow> i # blocking
              else blocking, blocked')))"

definition true_head_blockers :: "row list \<Rightarrow> int list result" where
  "true_head_blockers lock_rows =
     bind_res (blocking_ids lock_rows ([], [])) (\<lambda>(blocking, blocked).
       Inr (sort (remdups (filter (\<lambda>i. i \<notin> set blocked) blocking))))"

definition coerce_include_locks :: "pyval \<Rightarrow> bool" where
  "coerce_include_locks v = (case v of
       VStr s \<Rightarrow> py_lower (py_strip s) \<in> {''true'', ''1'', ''yes'', ''on''}
     | _ \<Rightarrow> truthy v)"

definition app_payload ::
  "string \<Rightarrow> int \<Rightarrow> string \<Rightarrow> int \<Rightarrow> row list \<Rightarrow> row list \<Rightarrow> row list \<Rightarrow> int list \<Rightarrow> row" where
  "app_payload generated_at instance_number db_name lookback_minutes sessions locks chain_rows head_blockers =
     [(''generated_at_utc'', VStr generated_at), (''instance_number'', VInt instance_number),
      (''database_name'', VStr db_name), (''lookback_minutes'', VInt lookback_minutes),
      (''active_sessions'', rows_list sessions), (''lock_chains'', rows_list locks),
      (''blocking_chains'', rows_list chain_rows),
      (''head_blockers'', VList (map VInt (take 25 head_blockers))),
      (''recommendations'', VList [VDict
         [(''priority'', VStr (if head_blockers \<noteq> [] then ''high'' else ''info'')),
          (''action'', VStr (if head_blockers \<noteq> [] then ''Investigate head blockers and long wait chains.''
             else ''No immediate lock chain action required.'')),
          (''rationale'', VStr (''Detected '' @ nat_str (length head_blockers)
             @ '' unique blocking session(s).''))]])]"

definition app_rows ::
  "connection_manager \<Rightarrow> database \<Rightarrow> string \<Rightarrow> string \<Rightarrow> bool \<Rightarrow> (row list \<times> row list \<times> row list) db_op" where
  "app_rows cm db inst db_name include_locks =
     (let read = catalog_rows cm db inst db_name in
      db_bind (read active_sessions_query) (\<lambda>sessions.
        if include_locks then
          db_bind (read lock_chain_query) (\<lambda>lock_rows.
          db_bind (read blocking_chain_query) (\<lambda>chain_rows. db_return (Inr (sessions, lock_rows, chain_rows))))
        else db_return (Inr (sessions, [], []))))"

definition fetch_sessions_dashboard_body ::
  "server_config \<Rightarrow> database \<Rightarrow> call_context \<Rightarrow> int \<Rightarrow> string \<Rightarrow> int \<Rightarrow> pyval \<Rightarrow> row tool_op" where
  "fetch_sessions_dashboard_body cfg db cc instance_number database_name lookback_minutes include_locks =
     tool_bind (tool_return (validate_database_name database_name)) (\<lambda>db_name.
     tool_bind (tool_return (validate_positive_int lookback_minutes ''lookback_minutes'' 1 1440)) (\<lambda>_.
     let ids = list_enabled_instances (sc_cm cfg);
         numbers = map (\<lambda>n. VInt (int n + 1)) [0..<length ids] in
     tool_bind (tool_return
       (if instance_number < 1 \<or> int (length ids) < instance_number
        then Inl (value_error (''INVALID_INPUT: instance_number must be one of '' @ py_repr (VList numbers)))
        else Inr (ids ! nat (instance_number - 1)))) (\<lambda>instance_id.
     tool_bind (step_touch (cc\<lparr>cc_session_id := None\<rparr>)) (\<lambda>_.
     tool_bind (step_rate cc) (\<lambda>_.
     tool_bind (tool_return (enforce (sc_guard cfg) ''sessions_dashboard_app_fetch'' ''SELECT 1'')) (\<lambda>_.
     tool_bind (step_db (app_rows (sc_cm cfg) db instance_id db_name (coerce_include_locks include_locks)))
       (\<lambda>(sessions, locks, chain_rows).
     tool_bind (tool_return (true_head_blockers locks)) (\<lambda>head_blockers.
     tool_return (Inr (app_payload (cc_utc_now cc) instance_number db_name lookback_minutes
       (map mask_session sessions) locks chain_rows head_blockers))))))))))"

definition fetch_sessions_dashboard_data ::
  "server_config \<Rightarrow> database \<Rightarrow> call_context \<Rightarrow> int \<Rightarrow> string \<Rightarrow> int \<Rightarrow> pyval \<Rightarrow> string
     \<Rightarrow> server_state \<Rightarrow> server_state \<times> row result" where
  "fetch_sessions_dashboard_data cfg db cc instance_number database_name lookback_minutes include_locks actor s =
     (case fetch_sessions_dashboard_body cfg db cc instance_number database_name lookback_minutes include_locks
         \<lparr>tr_state = s, run_actor = actor, run_auth = None, run_rows = 0\<rparr> of
        (t, r) \<Rightarrow> (tr_state t, r))"

section \<open>What the dashboard sends\<close>

text \<open>The five statements of a dashboard.\<close>

definition dashboard_statements :: "string set" where
  "dashboard_statements = {sql. Inr sql \<in> {active_sessions_query (VInt 200), lock_chain_query (VInt 200),
     tran_locks_query (VInt 200), waiting_tasks_query (VInt 200), blocking_chain_query (VInt 200)}}"

lemma collect_rows_reads: "reads_only dashboard_statements (collect_rows cm db inst d include_locks)"
  unfolding collect_rows_def catalog_rows_def Let_def
  by (intro reads_only_ops reads_only_catalog) (simp_all add: dashboard_statements_def)

section \<open>The dashboard tool\<close>

lemma quiet_dashboard_body: "quiet (sessions_dashboard_body cfg db sx cc tool inst nr d m l pages)"
  unfolding sessions_dashboard_body_def Let_def by (intro quiet_ops)

lemma dashboard_used:
  assumes "sent (fst (sessions_dashboard_body cfg db sx cc tool inst nr d m l pages t)) \<noteq> sent t"
  shows "admitted cfg cc ''read'' (run_actor t) (tr_state t)"
  using assms unfolding sessions_dashboard_body_def
  by (drule_tac used_return, elim exE conjE, drule_tac used_return, elim exE conjE, drule_tac used_admit, blast)

lemma dashboard_body_reads: "tool_reads dashboard_statements (sessions_dashboard_body cfg db sx cc tool inst nr d m l pages)"
  unfolding sessions_dashboard_body_def Let_def
  by (intro tool_reads_bind tool_reads_case_prod tool_reads_db collect_rows_reads tool_reads_silent silent_ops)

text \<open>A page is registered exactly by a call that succeeds.\<close>

lemma dashboard_body_registers:
  assumes "sessions_dashboard_body cfg db sx cc tool inst nr d m l pages t = (t', Inr (payload, pages'))"
  shows "\<exists>db_name full. validate_database_name d = Inr db_name
    \<and> is_ok (fst (register_dashboard_page_with_metadata (sx_base_url sx) (sx_now sx) (cc_request_id cc)
        (py_str (row_get full ''html'')) 900 (Some (dashboard_metadata inst nr db_name m l)) pages))
    \<and> pages' = snd (get_dashboard_page_expiry (sx_expiry_now sx) (cc_request_id cc)
        (snd (register_dashboard_page_with_metadata (sx_base_url sx) (sx_now sx) (cc_request_id cc)
        (py_str (row_get full ''html'')) 900 (Some (dashboard_metadata inst nr db_name m l)) pages)))
    \<and> row_get payload ''html'' = row_get full ''html''"
proof -
  obtain db_name full url pages1 expires where
    "validate_database_name d = Inr db_name"
    "register_dashboard_page_with_metadata (sx_base_url sx) (sx_now sx) (cc_request_id cc)
       (py_str (row_get full ''html'')) 900 (Some (dashboard_metadata inst nr db_name m l)) pages = (Inr url, pages1)"
    "get_dashboard_page_expiry (sx_expiry_now sx) (cc_request_id cc) pages1 = (Inr expires, pages')"
    "payload = [(''dashboard_url'', VStr url), (''request_id'', VStr (cc_request_id cc)),
       (''expires_at_utc'', case expires of Some e \<Rightarrow> VStr (sx_iso sx e) | None \<Rightarrow> VNone)]
       @ without_keys [''dashboard_url'', ''request_id'', ''expires_at_utc''] full"
    using assms unfolding sessions_dashboard_body_def
    by (auto simp: tool_bind_def tool_return_def Let_def split: prod.splits sum.splits)
  then show ?thesis
    by (intro exI [of _ db_name] exI [of _ full]) (simp add: row_get_Cons)
qed

lemma dashboard_tool_run:
  assumes "sessions_dashboard_tool cfg db sx cc tool inst nr d m l actor pages s = (s', pages', r)"
  shows "\<exists>q. run_tool (wrap_errors {ValueErr, PermissionErr}) cc tool inst ''SESSIONS_DASHBOARD'' actor
      (sessions_dashboard_body cfg db sx cc tool inst nr d m l pages) s = (s', q)
    \<and> r = map_sum id fst q \<and> pages' = (case q of Inr (_, p) \<Rightarrow> p | Inl _ \<Rightarrow> pages)"
  using assms by (auto simp: sessions_dashboard_tool_def split: prod.splits sum.splits)

text \<open>
  A dashboard call is audited exactly once, reads the database only if it was admitted with
  read privilege, sends nothing but the five catalogue statements, never commits, and leaves the
  page store as it was unless it succeeds.
\<close>

theorem dashboard_call_safe:
  assumes "sessions_dashboard_tool cfg db sx cc tool inst nr d m l actor pages s = (s', pages', r)"
  shows "(\<exists>e. ss_audit s' = ss_audit s @ [e] \<and> ae_tool e = tool \<and> (ae_decision e = ''allow'' \<longleftrightarrow> is_ok r))
    \<and> (ss_history s' = ss_history s \<or> admitted cfg cc ''read'' actor s)
    \<and> (\<exists>evs. ss_history s' = ss_history s @ evs \<and> (\<forall>ev \<in> set evs. read_event dashboard_statements ev))
    \<and> (is_ok r \<or> pages' = pages)"
proof -
  let ?body = "sessions_dashboard_body cfg db sx cc tool inst nr d m l pages"
  obtain q where q: "run_tool (wrap_errors {ValueErr, PermissionErr}) cc tool inst ''SESSIONS_DASHBOARD'' actor
      ?body s = (s', q)" "r = map_sum id fst q" "pages' = (case q of Inr (_, p) \<Rightarrow> p | Inl _ \<Rightarrow> pages)"
    using dashboard_tool_run [OF assms] by blast
  have ok: "is_ok r = is_ok q" using q(2) by (cases q) auto
  have "is_ok r \<or> pages' = pages" using q(2,3) by (cases q) auto
  moreover have "catalogue_call_ok cfg cc tool actor dashboard_statements (is_ok r) s s'"
    unfolding ok by (rule run_catalogue_call [OF quiet_dashboard_body dashboard_body_reads _ q(1)])
      (rule dashboard_used)
  ultimately show ?thesis by (simp add: catalogue_call_ok_def)
qed

section \<open>Serving and refreshing a page\<close>

lemma valid_route_id_validate: "validate_request_id k = Inr () \<Longrightarrow> valid_route_id k"
  by (auto simp: validate_request_id_def valid_route_id_def split: if_splits)

text \<open>A stored page that is still valid, with metadata that passes the checks.\<close>

definition live_page :: "page_store \<Rightarrow> real \<Rightarrow> string \<Rightarrow> string \<Rightarrow> row \<Rightarrow> bool" where
  "live_page pages now k html metadata \<longleftrightarrow> pages_wf pages \<and> validate_request_id k = Inr ()
     \<and> page_at now k pages = Some (html, Some metadata)"

lemma live_page_served:
  assumes "live_page pages (sx_expiry_now sx) k html metadata"
  shows "snd (dashboard_page_route sx k pages) = HttpOk html"
proof -
  have k: "valid_route_id k" using assms valid_route_id_validate by (simp add: live_page_def)
  have "fst (get_dashboard_page (sx_expiry_now sx) k pages) = Inr (Some html)"
    using get_dashboard_page_at(1) [of pages k "sx_expiry_now sx"] assms by (simp add: live_page_def)
  with k show ?thesis
    by (cases "get_dashboard_page (sx_expiry_now sx) k pages") (simp add: dashboard_page_route_def)
qed

lemma refresh_live:
  assumes "live_page pages (sx_expiry_now sx) k html metadata" "refresh_request metadata = Inr (inst, nr, d, l)"
    and "refresh_dashboard_route cfg db sx g k (pages, h) = ((pages', h'), resp)"
  shows "(\<exists>e. resp = HttpRaise e)
    \<or> (\<exists>new. resp = HttpOk new
        \<and> pages' = put_page (sx_now sx) k 900 (new, Some metadata) (cleanup_expired (sx_expiry_now sx) pages))"
proof -
  have k: "valid_route_id k" "pages_wf pages" "validate_request_id k = Inr ()"
    using assms(1) valid_route_id_validate by (simp_all add: live_page_def)
  have "get_dashboard_page_metadata (sx_expiry_now sx) k pages
      = (Inr (Some metadata), cleanup_expired (sx_expiry_now sx) pages)"
    using get_dashboard_page_at(2,4) [OF k(2,3), of "sx_expiry_now sx"] assms(1)
    by (simp add: live_page_def prod_eq_iff)
  then show ?thesis
    using assms(2,3) k(1)
    by (auto simp: refresh_dashboard_route_def refresh_dashboard_html_def Let_def
        split: sum.splits prod.splits dest!: register_cases)
qed

lemma refresh_request_metadata:
  assumes "validate_database_name d = Inr db_name" "py_strip inst = inst" "inst \<noteq> []" "1 \<le> nr"
  shows "refresh_request (dashboard_metadata inst nr db_name m l) = Inr (inst, nr, db_name, l)"
proof -
  have "validate_database_name db_name = Inr db_name"
    using assms(1) by (auto simp: validate_database_name_Inr)
  then show ?thesis
    using assms(2-4)
    by (simp add: refresh_request_def dashboard_metadata_def row_get_def row_get_or_def dict_get_def
        truthy_def Let_def)
qed

lemma get_dashboard_page_expiry_snd:
  "pages_wf pages \<Longrightarrow> validate_request_id k = Inr () \<Longrightarrow>
   snd (get_dashboard_page_expiry now k pages) = cleanup_expired now pages"
  by (auto simp: get_dashboard_page_expiry_def get_valid_entry_def Let_def map_of_cleanup split: option.splits if_splits)

lemma put_page_live:
  assumes "pages_wf pages" "validate_request_id k = Inr ()" "now \<le> now'" "now' < now + ttl"
  shows "live_page (put_page now k ttl (html, Some metadata) pages) now' k html metadata"
  using assms page_store.get_put_same [of pages now now' k ttl "(html, Some metadata)"] page_store.wf_put
  by (simp add: live_page_def)

lemma live_page_cleanup:
  "live_page pages now' k html metadata \<Longrightarrow> now \<le> now' \<Longrightarrow>
   live_page (cleanup_expired now pages) now' k html metadata"
  by (simp add: live_page_def pages_wf_cleanup page_store.get_touch)

text \<open>
  A dashboard the tool returned is served by the page route, unchanged, until 900 seconds
  after its registration, and can be refreshed in that time: the stored metadata passes every
  check of the route, which never answers with an HTTP error.
\<close>

theorem dashboard_page_refreshable:
  assumes "sessions_dashboard_tool cfg db sx cc tool inst nr d m l actor pages s = (s', pages', Inr payload)"
    and "pages_wf pages" "py_strip inst = inst" "inst \<noteq> []" "1 \<le> nr"
    and "sx_now sx \<le> sx_expiry_now sx" "sx_expiry_now sx \<le> sx_expiry_now sx'"
      "sx_expiry_now sx' < sx_now sx + 900"
  shows "snd (dashboard_page_route sx' (cc_request_id cc) pages') = HttpOk (py_str (row_get payload ''html''))
    \<and> (\<forall>n msg. snd (refresh_dashboard_route cfg' db' sx' g (cc_request_id cc) (pages', h)) \<noteq> HttpError n msg)"
proof -
  let ?k = "cc_request_id cc"
  obtain t where run: "sessions_dashboard_body cfg db sx cc tool inst nr d m l pages
      \<lparr>tr_state = s, run_actor = actor, run_auth = None, run_rows = 0\<rparr> = (t, Inr (payload, pages'))"
    using dashboard_tool_run [OF assms(1)]
    by (auto simp: run_tool_def wrap_errors_def Let_def split: prod.splits sum.splits if_splits)
  obtain db_name full where f: "validate_database_name d = Inr db_name"
    "is_ok (fst (register_dashboard_page_with_metadata (sx_base_url sx) (sx_now sx) ?k
        (py_str (row_get full ''html'')) 900 (Some (dashboard_metadata inst nr db_name m l)) pages))"
    "pages' = snd (get_dashboard_page_expiry (sx_expiry_now sx) ?k
        (snd (register_dashboard_page_with_metadata (sx_base_url sx) (sx_now sx) ?k
        (py_str (row_get full ''html'')) 900 (Some (dashboard_metadata inst nr db_name m l)) pages)))"
    "row_get payload ''html'' = row_get full ''html''"
    using dashboard_body_registers [OF run] by blast
  let ?html = "py_str (row_get full ''html'')" and ?meta = "dashboard_metadata inst nr db_name m l"
  have reg: "validate_request_id ?k = Inr ()"
    "snd (register_dashboard_page_with_metadata (sx_base_url sx) (sx_now sx) ?k ?html 900 (Some ?meta) pages)
      = put_page (sx_now sx) ?k 900 (?html, Some ?meta) pages"
    using register_cases [OF surjective_pairing, of "sx_base_url sx" "sx_now sx" ?k ?html 900 "Some ?meta" pages] f(2)
    by auto
  have "pages' = cleanup_expired (sx_expiry_now sx) (put_page (sx_now sx) ?k 900 (?html, Some ?meta) pages)"
    using f(3) reg get_dashboard_page_expiry_snd assms(2) page_store.wf_put by simp
  then have live: "live_page pages' (sx_expiry_now sx') ?k ?html ?meta"
    using put_page_live [OF assms(2) reg(1), of "sx_now sx" "sx_expiry_now sx'" 900 ?html ?meta]
      live_page_cleanup assms(6-8) by simp
  have "refresh_request ?meta = Inr (inst, nr, db_name, l)"
    by (rule refresh_request_metadata [OF f(1) assms(3-5)])
  then have "\<forall>n msg. snd (refresh_dashboard_route cfg' db' sx' g ?k (pages', h)) \<noteq> HttpError n msg"
    using refresh_live [OF live]
    by (metis http_response.distinct(1,5) prod.collapse)
  with live_page_served [OF live] f(4) show ?thesis by simp
qed

lemma refresh_request_errors:
  "refresh_request metadata = Inl (HttpError n msg) \<Longrightarrow> n \<in> {400, 404}"
  by (auto simp: refresh_request_def Let_def split: pyval.splits option.splits if_splits sum.splits)

lemma refresh_cases:
  assumes "refresh_dashboard_html cfg db sx g k (pages, h) = ((pages', h'), resp)"
  shows "(h' = h \<and> (\<forall>n msg. resp = HttpError n msg \<longrightarrow> n \<in> {400, 404}) \<and> (\<forall>html. resp \<noteq> HttpOk html))
    \<or> (\<exists>metadata inst nr d l r. fst (get_dashboard_page_metadata (sx_expiry_now sx) k pages) = Inr (Some metadata)
         \<and> refresh_request metadata = Inr (inst, nr, d, l)
         \<and> collect_rows (sc_cm cfg) db inst d l h = (h', r) \<and> (\<forall>n msg. resp \<noteq> HttpError n msg))"
proof -
  obtain found pages1 where m: "get_dashboard_page_metadata (sx_expiry_now sx) k pages = (found, pages1)" by force
  note run = assms [unfolded refresh_dashboard_html_def, simplified m Let_def fst_conv snd_conv prod.case]
  show ?thesis
  proof (cases found)
    case (Inl e)
    with run show ?thesis by auto
  next
    case f: (Inr found')
    show ?thesis
    proof (cases found')
      case None
      with run f show ?thesis by auto
    next
      case (Some metadata)
      note run2 = run [unfolded f Some sum.case option.case]
      show ?thesis
      proof (cases "refresh_request metadata")
        case (Inl response)
        then have "response = HttpError n msg \<Longrightarrow> n \<in> {400, 404}" for n msg
          using refresh_request_errors by simp
        moreover have "response \<noteq> HttpOk html" for html
          using Inl by (auto simp: refresh_request_def Let_def split: pyval.splits option.splits if_splits sum.splits)
        ultimately show ?thesis using run2 Inl by auto
      next
        case req: (Inr q)
        obtain inst nr d l where q: "q = (inst, nr, d, l)" by (metis prod_cases4)
        note run3 = run2 [unfolded req q sum.case prod.case]
        show ?thesis
        proof (cases "enforce (sc_guard cfg) ''sessions_dashboard_page_refresh'' ''SELECT 1''")
          case (Inl e)
          with run3 show ?thesis by auto
        next
          case (Inr u)
          obtain h1 r where c: "collect_rows (sc_cm cfg) db inst d l h = (h1, r)" by force
          have "h' = h1 \<and> (\<forall>n msg. resp \<noteq> HttpError n msg)"
            using run3 Inr c by (auto split: sum.splits prod.splits)
          with c m f Some req q show ?thesis by auto
        qed
      qed
    qed
  qed
qed

text \<open>
  C35: a refresh, whatever is stored under the id, sends only the five catalogue statements and
  never commits; an HTTP error is 400 or 404 and means that nothing was sent.  A refresh that
  succeeds keeps the metadata and makes the page valid for another 900 seconds, so a page that is
  refreshed in time never expires.
\<close>

theorem refresh_reads_and_renews:
  assumes "refresh_dashboard_route cfg db sx g k (pages, h) = ((pages', h'), resp)"
  shows "(\<exists>evs. h' = h @ evs \<and> (\<forall>ev \<in> set evs. read_event dashboard_statements ev)
          \<and> (\<forall>n msg. resp = HttpError n msg \<longrightarrow> n \<in> {400, 404} \<and> evs = []))
    \<and> (\<forall>html sx'. resp = HttpOk html \<and> pages_wf pages \<and> sx_now sx \<le> sx_expiry_now sx'
          \<and> sx_expiry_now sx' < sx_now sx + 900
        \<longrightarrow> snd (dashboard_page_route sx' k pages') = HttpOk html
          \<and> (\<exists>old metadata. page_at (sx_expiry_now sx) k pages = Some (old, Some metadata)
               \<and> page_at (sx_expiry_now sx') k pages' = Some (html, Some metadata)))"
proof (cases "valid_route_id k")
  case False
  with assms show ?thesis by (auto simp: refresh_dashboard_route_def)
next
  case True
  then have run: "refresh_dashboard_html cfg db sx g k (pages, h) = ((pages', h'), resp)"
    using assms by (simp add: refresh_dashboard_route_def)
  have collect: "\<exists>evs. h1 = h @ evs \<and> (\<forall>ev \<in> set evs. read_event dashboard_statements ev)"
    if "collect_rows (sc_cm cfg) db inst d l h = (h1, r)" for inst d l h1 r
    using sendsD [OF collect_rows_reads [unfolded reads_only_def] that] .
  have reads: "\<exists>evs. h' = h @ evs \<and> (\<forall>ev \<in> set evs. read_event dashboard_statements ev)
      \<and> (\<forall>n msg. resp = HttpError n msg \<longrightarrow> n \<in> {400, 404} \<and> evs = [])"
    using refresh_cases [OF run]
  proof
    assume "h' = h \<and> (\<forall>n msg. resp = HttpError n msg \<longrightarrow> n \<in> {400, 404}) \<and> (\<forall>html. resp \<noteq> HttpOk html)"
    then show ?thesis by simp
  next
    assume "\<exists>metadata inst nr d l r. fst (get_dashboard_page_metadata (sx_expiry_now sx) k pages) = Inr (Some metadata)
         \<and> refresh_request metadata = Inr (inst, nr, d, l)
         \<and> collect_rows (sc_cm cfg) db inst d l h = (h', r) \<and> (\<forall>n msg. resp \<noteq> HttpError n msg)"
    then obtain inst d l r where "collect_rows (sc_cm cfg) db inst d l h = (h', r)" "\<forall>n msg. resp \<noteq> HttpError n msg"
      by blast
    with collect [OF this(1)] show ?thesis by simp
  qed
  have renews: "snd (dashboard_page_route sx' k pages') = HttpOk html
          \<and> (\<exists>old metadata. page_at (sx_expiry_now sx) k pages = Some (old, Some metadata)
               \<and> page_at (sx_expiry_now sx') k pages' = Some (html, Some metadata))"
    if a: "resp = HttpOk html \<and> pages_wf pages \<and> sx_now sx \<le> sx_expiry_now sx'
      \<and> sx_expiry_now sx' < sx_now sx + 900" for html sx'
  proof -
    have wf: "pages_wf pages" using a by simp
    let ?m = "get_dashboard_page_metadata (sx_expiry_now sx) k pages"
    obtain metadata inst nr d l where m: "fst ?m = Inr (Some metadata)" "refresh_request metadata = Inr (inst, nr, d, l)"
      using refresh_cases [OF run] a by auto
    have k: "validate_request_id k = Inr ()"
      using m(1) by (cases "validate_request_id k") (auto simp: get_dashboard_page_metadata_def get_valid_entry_def)
    then obtain old where old: "page_at (sx_expiry_now sx) k pages = Some (old, Some metadata)"
      using get_dashboard_page_at(2) [OF wf k, of "sx_expiry_now sx"] m(1)
      by (cases "page_at (sx_expiry_now sx) k pages") (auto simp: prod_eq_iff)
    then have "live_page pages (sx_expiry_now sx) k old metadata" using wf k by (simp add: live_page_def)
    from refresh_live [OF this m(2) assms] a have
      "pages' = put_page (sx_now sx) k 900 (html, Some metadata) (cleanup_expired (sx_expiry_now sx) pages)" by auto
    then have live: "live_page pages' (sx_expiry_now sx') k html metadata"
      using put_page_live [OF pages_wf_cleanup [OF wf] k] a by simp
    then show ?thesis
      using live_page_served [OF live] old by (auto simp: live_page_def)
  qed
  from reads renews show ?thesis by blast
qed

section \<open>Blockers\<close>

definition blocks :: "row \<Rightarrow> int \<Rightarrow> bool" where
  "blocks r i \<longleftrightarrow> row_get r ''blocking_session_id'' \<noteq> VNone
     \<and> py_int (row_get r ''blocking_session_id'') = Inr i"

definition blocked :: "row \<Rightarrow> int \<Rightarrow> bool" where
  "blocked r i \<longleftrightarrow> row_get r ''session_id'' \<noteq> VNone \<and> py_int (row_get r ''session_id'') = Inr i"

lemma add_blocker_set:
  "set (add_blocker hs r) = set hs \<union> {i. blocks r i \<and> 0 < i}"
  "distinct hs \<Longrightarrow> distinct (add_blocker hs r)"
  by (auto simp: add_blocker_def blocks_def Let_def split: sum.splits)

lemma foldl_add_blocker:
  "distinct hs \<Longrightarrow> distinct (foldl add_blocker hs rows)
     \<and> set (foldl add_blocker hs rows) = set hs \<union> {i. 0 < i \<and> (\<exists>r \<in> set rows. blocks r i)}"
proof (induction rows arbitrary: hs)
  case (Cons r rows)
  show ?case
    using Cons.IH [OF add_blocker_set(2) [OF Cons.prems], of r] by (auto simp: add_blocker_set(1))
qed simp

lemma blocking_ids_set:
  "blocking_ids rows (b0, d0) = Inr (b, d) \<Longrightarrow>
   set b = set b0 \<union> {i. \<exists>r \<in> set rows. blocks r i \<and> greater_than (row_get r ''blocking_session_id'') 0 = Inr True}
   \<and> set d = set d0 \<union> {i. \<exists>r \<in> set rows. blocked r i}"
proof (induction rows arbitrary: b0 d0)
  case (Cons r rows)
  let ?d = "if row_get r ''session_id'' = VNone then d0
    else case py_int (row_get r ''session_id'') of Inl _ \<Rightarrow> d0 | Inr i \<Rightarrow> i # d0"
  have d: "set ?d = set d0 \<union> {i. blocked r i}" by (auto simp: blocked_def split: sum.splits)
  show ?case
  proof (cases "row_get r ''blocking_session_id'' = VNone")
    case True
    with Cons.prems have "blocking_ids rows (b0, ?d) = Inr (b, d)" by (simp add: Let_def)
    from Cons.IH [OF this] True d show ?thesis by (auto simp: blocks_def)
  next
    case False
    then obtain p where p: "greater_than (row_get r ''blocking_session_id'') 0 = Inr p"
      using Cons.prems by (cases "greater_than (row_get r ''blocking_session_id'') 0") (auto simp: Let_def)
    let ?b = "if p then case py_int (row_get r ''blocking_session_id'') of Inl _ \<Rightarrow> b0 | Inr i \<Rightarrow> i # b0 else b0"
    have b: "set ?b = set b0 \<union> {i. blocks r i \<and> p}" using False by (auto simp: blocks_def split: sum.splits)
    from Cons.prems p False have "blocking_ids rows (?b, ?d) = Inr (b, d)" by (simp add: Let_def)
    from Cons.IH [OF this] d b p show ?thesis by auto
  qed
qed simp

text \<open>
  The app reports, sorted and without repetition, exactly the sessions that block another one
  and are not blocked themselves.  The page reports every session that blocks another one, also
  those in the middle of a chain, under the same name.
\<close>

theorem head_blockers_exact:
  assumes "true_head_blockers rows = Inr hs"
  shows "sorted hs \<and> distinct hs
    \<and> set hs = {i. (\<exists>r \<in> set rows. blocks r i \<and> greater_than (row_get r ''blocking_session_id'') 0 = Inr True)
                 \<and> \<not> (\<exists>r \<in> set rows. blocked r i)}
    \<and> distinct (lock_head_blockers rows)
    \<and> set (lock_head_blockers rows) = {i. 0 < i \<and> (\<exists>r \<in> set rows. blocks r i)}"
proof -
  obtain b d where bd: "blocking_ids rows ([], []) = Inr (b, d)"
    "hs = sort (remdups (filter (\<lambda>i. i \<notin> set d) b))"
    using assms by (auto simp: true_head_blockers_def bind_res_Inr)
  then show ?thesis
    using blocking_ids_set [OF bd(1)] foldl_add_blocker [of "[]" rows]
    by (auto simp: lock_head_blockers_def)
qed

section \<open>The data endpoint\<close>

definition masked_name :: "string \<Rightarrow> bool" where
  "masked_name m \<longleftrightarrow> m \<in> {''redacted'', ''*'', ''**''} \<or> (\<exists>a b. m = [a] @ ''***'' @ [b])"

lemma redact_login_name_masked: "masked_name (redact_login_name v)"
proof -
  let ?raw = "py_strip (py_str (py_or v (VStr [])))"
  consider "length ?raw = 0" | "length ?raw = 1" | "length ?raw = 2" | "2 < length ?raw" by linarith
  then show ?thesis
    by cases (auto simp: redact_login_name_def masked_name_def Let_def numeral_2_eq_2)
qed

lemma mask_session_login: "row_get (mask_session r) ''login_name'' = VStr (redact_login_name (row_get r ''login_name''))"
  by (simp add: mask_session_def row_get_def dict_get_def)

lemma quiet_fetch_body:
  "quiet (fetch_sessions_dashboard_body cfg db cc nr d m l)"
  unfolding fetch_sessions_dashboard_body_def Let_def by (intro quiet_ops)

text \<open>
  The data endpoint of the app asks nobody who they are: with authentication enforced or not,
  with or without a token, it answers the same, and writes no audit event.  It is charged to the
  session and rate limits under the name the caller gives, and masks every login name.
\<close>

theorem app_data_unauthenticated:
  "fetch_sessions_dashboard_data (cfg\<lparr>sc_auth := auth\<rparr>) db (cc\<lparr>cc_token := token\<rparr>) nr d m l actor s
     = fetch_sessions_dashboard_data cfg db cc nr d m l actor s
   \<and> ss_audit (fst (fetch_sessions_dashboard_data cfg db cc nr d m l actor s)) = ss_audit s
   \<and> (\<forall>payload. snd (fetch_sessions_dashboard_data cfg db cc nr d m l actor s) = Inr payload \<longrightarrow>
        (\<exists>sessions. row_get payload ''active_sessions'' = VList (map VDict sessions)
           \<and> (\<forall>r \<in> set sessions. \<exists>name. row_get r ''login_name'' = VStr name \<and> masked_name name)))"
proof -
  have steps: "step_touch (cc\<lparr>cc_token := token, cc_session_id := None\<rparr>) = step_touch (cc\<lparr>cc_session_id := None\<rparr>)"
    "step_rate (cc\<lparr>cc_token := token\<rparr>) = step_rate cc"
    by (intro ext; simp add: step_touch_def step_rate_def)+
  have same: "fetch_sessions_dashboard_data (cfg\<lparr>sc_auth := auth\<rparr>) db (cc\<lparr>cc_token := token\<rparr>) nr d m l actor s
     = fetch_sessions_dashboard_data cfg db cc nr d m l actor s"
    by (simp add: fetch_sessions_dashboard_data_def fetch_sessions_dashboard_body_def steps)
  let ?t0 = "\<lparr>tr_state = s, run_actor = actor, run_auth = None, run_rows = 0\<rparr>"
  obtain t r where run: "fetch_sessions_dashboard_body cfg db cc nr d m l ?t0 = (t, r)" by force
  have data: "fetch_sessions_dashboard_data cfg db cc nr d m l actor s = (tr_state t, r)"
    by (simp add: fetch_sessions_dashboard_data_def run)
  have "ss_audit (tr_state t) = ss_audit s"
    using quiet_fetch_body [of cfg db cc nr d m l] run unfolding quiet_def by fastforce
  moreover have "\<exists>sessions. row_get payload ''active_sessions'' = VList (map VDict sessions)
           \<and> (\<forall>r \<in> set sessions. \<exists>name. row_get r ''login_name'' = VStr name \<and> masked_name name)"
    if ok: "r = Inr payload" for payload
  proof -
    obtain dn sess locks ch hs where "payload = app_payload (cc_utc_now cc) nr dn m (map mask_session sess) locks ch hs"
      using run ok unfolding fetch_sessions_dashboard_body_def
      by (auto simp: tool_bind_def tool_return_def Let_def split: prod.splits sum.splits if_splits)
    then show ?thesis
      by (intro exI [of _ "map mask_session sess"])
        (auto simp: app_payload_def row_get_Cons rows_list_def mask_session_login redact_login_name_masked)
  qed
  ultimately show ?thesis using same data by simp
qed

section \<open>Concrete runs\<close>

definition example_store :: "real \<Rightarrow> store_context" where
  "example_store now = \<lparr>sx_base_url = None, sx_now = now, sx_expiry_now = now, sx_iso = (\<lambda>_. ''t'')\<rparr>"

theorem dashboard_call_safe_witness:
  "\<exists>e. ss_audit (fst (sessions_dashboard_tool example_config steady_db (example_store 0) example_call ''tool''
     ''primary'' 1 ''master'' 15 False ''bob'' [] example_state)) = [e] \<and> ae_tool e = ''tool''"
proof -
  obtain s' pages' r where run: "sessions_dashboard_tool example_config steady_db (example_store 0) example_call ''tool''
     ''primary'' 1 ''master'' 15 False ''bob'' [] example_state = (s', pages', r)"
    by (metis prod_cases3)
  from dashboard_call_safe [OF run] run show ?thesis by (auto simp: example_state_def)
qed

theorem head_blockers_exact_witness:
  "true_head_blockers [[(''session_id'', VInt 7), (''blocking_session_id'', VInt 5)],
     [(''session_id'', VInt 9), (''blocking_session_id'', VInt 7)]] = Inr [5]
   \<and> set (lock_head_blockers [[(''session_id'', VInt 7), (''blocking_session_id'', VInt 5)],
     [(''session_id'', VInt 9), (''blocking_session_id'', VInt 7)]]) = {5, 7}"
proof -
  let ?rows = "[[(''session_id'', VInt 7), (''blocking_session_id'', VInt 5)],
     [(''session_id'', VInt 9), (''blocking_session_id'', VInt 7)]]"
  have h: "true_head_blockers ?rows = Inr [5]" by code_simp
  have "{i. 0 < i \<and> (\<exists>r \<in> set ?rows. blocks r i)} = {5, 7}"
    by (auto simp: blocks_def row_get_Cons py_int_def)
  with head_blockers_exact [OF h] h show ?thesis by simp
qed

lemma app_data_ok: "is_ok (snd (fetch_sessions_dashboard_data example_config steady_db example_call 1 ''master'' 15
     (VStr '' NO'') ''bob'' example_state))"
  by code_simp

theorem app_data_unauthenticated_witness:
  "\<exists>payload sessions. snd (fetch_sessions_dashboard_data example_config steady_db example_call 1 ''master'' 15
      (VStr '' NO'') ''bob'' example_state) = Inr payload
    \<and> row_get payload ''active_sessions'' = VList (map VDict sessions)
    \<and> (\<forall>r \<in> set sessions. \<exists>name. row_get r ''login_name'' = VStr name \<and> masked_name name)"
proof -
  obtain payload where r: "snd (fetch_sessions_dashboard_data example_config steady_db example_call 1 ''master'' 15
      (VStr '' NO'') ''bob'' example_state) = Inr payload"
    using app_data_ok by (metis is_ok_simps(1) sumE)
  with app_data_unauthenticated [where cfg = example_config and db = steady_db and cc = example_call
      and nr = 1 and d = "''master''" and m = 15 and l = "VStr '' NO''" and actor = "''bob''"
      and s = example_state]
  show ?thesis by blast
qed

text \<open>A call all of whose parts succeed returns a page.\<close>

lemma dashboard_html_valid: "validate_html (dashboard_document g di recs) = Inr (dashboard_document g di recs)"
proof -
  have "CHR ''<'' \<in> set (dashboard_document g di recs)" by (simp add: dashboard_document_def)
  moreover have "\<not> is_space (CHR ''<'')" by (simp add: is_space_def)
  ultimately show ?thesis by (auto simp: validate_html_def py_strip_def strip_by_eq_Nil)
qed

lemma dashboard_tool_succeeds:
  assumes "validate_database_name d = Inr db_name" "1 \<le> m" "m \<le> 1440"
    and "admit_call cfg cc ''read'' \<lparr>tr_state = s, run_actor = actor, run_auth = None, run_rows = 0\<rparr> = (t1, Inr ())"
    and "enforce (sc_guard cfg) tool ''SELECT 1'' = Inr ()"
    and "collect_rows (sc_cm cfg) db inst db_name l (ss_history (tr_state t1)) = (h', Inr dr)"
    and "long_waits (dr_waiting dr) = Inr waits" and "validate_request_id (cc_request_id cc) = Inr ()"
    and "pages_wf pages"
  shows "\<exists>s' pages' payload. sessions_dashboard_tool cfg db sx cc tool inst nr d m l actor pages s = (s', pages', Inr payload)"
proof -
  obtain recs where recs: "dashboard_recommendations (lock_head_blockers (dr_locks dr)) (dr_waiting dr) = Inr recs"
    using assms(7) by (simp add: dashboard_recommendations_def Let_def)
  let ?di = "dashboard_input_of nr db_name (cc_request_id cc) dr"
  have build: "build_sessions_dashboard_full (cc_utc_now cc) ?di
      = Inr [(''content_type'', VStr ''text/html''), (''html'', VStr (dashboard_document (cc_utc_now cc) ?di recs)),
             (''data'', VDict (dashboard_data (cc_utc_now cc) ?di recs))]"
    using recs by (simp add: build_sessions_dashboard_full_def dashboard_input_of_def)
  let ?meta = "dashboard_metadata inst nr db_name m l" and ?html = "dashboard_document (cc_utc_now cc) ?di recs"
  have ttl: "validate_ttl_seconds 900 = Inr 900" by (simp add: validate_ttl_seconds_def max_ttl_seconds_def)
  note reg = register_ok [OF dashboard_html_valid ttl assms(8), of "sx_base_url sx" "sx_now sx" "cc_utc_now cc" ?di recs "Some ?meta" pages]
  have "is_ok (fst (get_dashboard_page_expiry (sx_expiry_now sx) (cc_request_id cc) pages'))" for pages'
    using assms(8) by (auto simp: get_dashboard_page_expiry_def get_valid_entry_def Let_def split: option.splits prod.splits)
  then obtain expires pages2 where ex: "get_dashboard_page_expiry (sx_expiry_now sx) (cc_request_id cc)
      (put_page (sx_now sx) (cc_request_id cc) (real_of_int 900) (?html, Some ?meta) pages) = (Inr expires, pages2)"
    by (metis is_ok_simps(1) prod.collapse sumE)
  show ?thesis
    using assms(1-6) build reg ex
    by (simp add: sessions_dashboard_tool_def run_tool_def sessions_dashboard_body_def tool_bind_def tool_return_def
        step_db_def set_rows_def row_get_Cons py_str_def validate_positive_int_def Let_def)
qed

lemma example_admit: "is_ok (snd (admit_call example_config example_call ''read''
    \<lparr>tr_state = example_state, run_actor = ''bob'', run_auth = None, run_rows = 0\<rparr>))"
  by code_simp

lemma example_collect:
  "(case collect_rows example_cm steady_db ''primary'' ''master'' False [] of (_, Inr dr) \<Rightarrow> dr_waiting dr = [] | _ \<Rightarrow> False)"
  by code_simp

lemma example_dashboard:
  "\<exists>s' pages' payload. sessions_dashboard_tool example_config steady_db (example_store 0) example_call ''tool''
     ''primary'' 1 ''master'' 15 False ''bob'' [] example_state = (s', pages', Inr payload)"
proof -
  let ?t0 = "\<lparr>tr_state = example_state, run_actor = ''bob'', run_auth = None, run_rows = 0\<rparr>"
  obtain t1 where t1: "admit_call example_config example_call ''read'' ?t0 = (t1, Inr ())"
    using example_admit by (cases "admit_call example_config example_call ''read'' ?t0"; cases "snd (admit_call example_config example_call ''read'' ?t0)") auto
  have h: "ss_history (tr_state t1) = []"
    using silent_admit [of example_config example_call "''read''"] t1
    unfolding silent_def sent_def by (metis example_state_def fst_conv server_state.select_convs(4) tool_run.select_convs(1))
  obtain h' dr where c: "collect_rows example_cm steady_db ''primary'' ''master'' False [] = (h', Inr dr)" "dr_waiting dr = []"
    using example_collect by (auto split: prod.splits sum.splits)
  have "validate_database_name ''master'' = Inr ''master''" "enforce (sc_guard example_config) ''tool'' ''SELECT 1'' = Inr ()"
    "validate_request_id (cc_request_id example_call) = Inr ()"
    by code_simp+
  then show ?thesis
    using c h by (intro dashboard_tool_succeeds [OF _ _ _ t1]) (auto simp: example_config_def pages_wf_def)
qed

theorem dashboard_page_refreshable_witness:
  "\<exists>pages html. snd (dashboard_page_route (example_store 60) ''r1'' pages) = HttpOk html
     \<and> (\<forall>n msg. snd (refresh_dashboard_route example_config flaky_db (example_store 60) ''t'' ''r1'' (pages, []))
          \<noteq> HttpError n msg)"
proof -
  obtain s' pages' payload where run: "sessions_dashboard_tool example_config steady_db (example_store 0) example_call
     ''tool'' ''primary'' 1 ''master'' 15 False ''bob'' [] example_state = (s', pages', Inr payload)"
    using example_dashboard by blast
  have strip: "py_strip ''primary'' = ''primary''" by code_simp
  have id: "cc_request_id example_call = ''r1''" by (simp add: example_call_def)
  show ?thesis
    using dashboard_page_refreshable [OF run _ strip, where sx' = "example_store 60" and cfg' = example_config
        and db' = flaky_db and g = "''t''" and h = "[]"]
    unfolding id by (auto simp: pages_wf_def example_store_def)
qed

lemma refresh_succeeds:
  assumes "live_page pages (sx_expiry_now sx) k old metadata" "refresh_request metadata = Inr (inst, nr, d, l)"
    and "enforce (sc_guard cfg) ''sessions_dashboard_page_refresh'' ''SELECT 1'' = Inr ()"
    and "collect_rows (sc_cm cfg) db inst d l h = (h', Inr dr)" "long_waits (dr_waiting dr) = Inr waits"
  shows "\<exists>pages' html. refresh_dashboard_route cfg db sx g k (pages, h) = ((pages', h'), HttpOk html)"
proof -
  have k: "valid_route_id k" "pages_wf pages" "validate_request_id k = Inr ()"
    using assms(1) valid_route_id_validate by (simp_all add: live_page_def)
  have m: "get_dashboard_page_metadata (sx_expiry_now sx) k pages
      = (Inr (Some metadata), cleanup_expired (sx_expiry_now sx) pages)"
    using get_dashboard_page_at(2,4) [OF k(2,3), of "sx_expiry_now sx"] assms(1)
    by (simp add: live_page_def prod_eq_iff)
  obtain recs where recs: "dashboard_recommendations (lock_head_blockers (dr_locks dr)) (dr_waiting dr) = Inr recs"
    using assms(5) by (simp add: dashboard_recommendations_def Let_def)
  have ttl: "validate_ttl_seconds 900 = Inr 900" by (simp add: validate_ttl_seconds_def max_ttl_seconds_def)
  note reg = register_ok [OF dashboard_html_valid ttl k(3)]
  show ?thesis
    using assms(2-4) m k(1) recs reg
    by (simp add: refresh_dashboard_route_def refresh_dashboard_html_def build_sessions_dashboard_full_def
        dashboard_input_of_def row_get_Cons py_str_def Let_def)
qed

theorem refresh_reads_and_renews_witness:
  "\<exists>pages html. snd (dashboard_page_route (example_store 1000) ''r1'' pages) = HttpOk html
     \<and> (\<exists>metadata. page_at 1000 ''r1'' pages = Some (html, Some metadata))"
proof -
  let ?meta = "dashboard_metadata ''primary'' 1 ''master'' 15 False"
  let ?pages = "put_page 0 ''r1'' 900 (''page'', Some ?meta) []"
  have wf: "pages_wf []" by (simp add: pages_wf_def)
  have id: "validate_request_id ''r1'' = Inr ()" "validate_database_name ''master'' = Inr ''master''"
    "py_strip ''primary'' = ''primary''"
    "enforce (sc_guard example_config) ''sessions_dashboard_page_refresh'' ''SELECT 1'' = Inr ()"
    by code_simp+
  have live: "live_page ?pages (sx_expiry_now (example_store 600)) ''r1'' ''page'' ?meta"
    using put_page_live [OF wf id(1), of 0 600 900 "''page''" ?meta] by (simp add: example_store_def)
  have req: "refresh_request ?meta = Inr (''primary'', 1, ''master'', False)"
    by (rule refresh_request_metadata [OF id(2,3)]) simp_all
  obtain h' dr where c: "collect_rows (sc_cm example_config) steady_db ''primary'' ''master'' False [] = (h', Inr dr)"
    "dr_waiting dr = []"
    using example_collect by (auto simp: example_config_def split: prod.splits sum.splits)
  then have "long_waits (dr_waiting dr) = Inr []" by simp
  from refresh_succeeds [OF live req id(4) c(1) this, of "''t''"] obtain pages' html where
    run: "refresh_dashboard_route example_config steady_db (example_store 600) ''t'' ''r1'' (?pages, []) = ((pages', h'), HttpOk html)"
    by blast
  have "pages_wf ?pages" using live by (simp add: live_page_def)
  with conjunct2 [OF refresh_reads_and_renews [OF run], rule_format, where sx' = "example_store 1000" and html = html]
  show ?thesis by (auto simp: example_store_def)
qed

end
