(* ===== verification/Report_Tools.thy ===== *)
theory Report_Tools
  imports Catalog_Reads Analysis_Contracts
begin

text \<open>
  What the analysis tools of \<open>src/tools/sql_tools.py\<close> share: numbers and text read from rows, a
  finding together with its recommendation, and a check that a failing statement leaves without a
  finding.
\<close>

section \<open>Values of rows\<close>

text \<open>\<open>v >= n\<close> for a value that may be no number.\<close>

definition py_num :: "pyval \<Rightarrow> real result" where
  "py_num v = (case v of VBool b \<Rightarrow> Inr (if b then 1 else 0) | VInt i \<Rightarrow> Inr (of_int i) | VFloat r _ \<Rightarrow> Inr r
     | _ \<Rightarrow> Inl (type_error ''operand does not support comparison with a number''))"

definition or_zero :: "row \<Rightarrow> string \<Rightarrow> pyval" where
  "or_zero r key = py_or (row_get r key) (VInt 0)"

text \<open>\<open>a == b\<close>: numbers compare by value, whatever their type.\<close>

definition py_eq :: "pyval \<Rightarrow> pyval \<Rightarrow> bool" where
  "py_eq v w = (case (py_num v, py_num w) of (Inr x, Inr y) \<Rightarrow> x = y | _ \<Rightarrow> v = w)"

text \<open>\<open>str(r.get(key, ""))\<close>\<close>

definition text_of :: "row \<Rightarrow> string \<Rightarrow> string" where
  "text_of r key = py_str (row_get_or r key (VStr []))"

section \<open>Findings with recommendations\<close>

type_synonym advice = "finding \<times> recommendation"

text \<open>\<open>findings.append(build_finding(...)); recommendations.append(build_recommendation(...))\<close>\<close>

definition advise ::
  "string \<Rightarrow> string \<Rightarrow> string \<Rightarrow> string \<Rightarrow> row list \<Rightarrow> string \<Rightarrow> string \<Rightarrow> string \<Rightarrow> advice result" where
  "advise code severity title detail evidence priority action rationale =
     bind_res (build_finding code severity title detail evidence) (\<lambda>f.
       bind_res (build_recommendation priority action rationale) (\<lambda>r. Inr (f, r)))"

text \<open>The sections are entered for a non-empty selection only.\<close>

definition section_for :: "'a list \<Rightarrow> ('a list \<Rightarrow> advice result) \<Rightarrow> advice list result" where
  "section_for selected advice_of =
     (if selected = [] then Inr [] else bind_res (advice_of selected) (\<lambda>a. Inr [a]))"

lemma normalize_severity_literals [simp]:
  "normalize_severity ''high'' = Inr ''high''" "normalize_severity ''medium'' = Inr ''medium''"
  "normalize_severity ''info'' = Inr ''info''" "normalize_severity ''low'' = Inr ''low''"
  "normalize_severity ''critical'' = Inr ''critical''"
  "normalize_severity ''error'' = Inl (value_error (''INVALID_INPUT: unsupported severity '' @ str_repr ''error''))"
  by code_simp+

lemma section_for_Inr:
  "section_for sel adv = Inr as \<longleftrightarrow> (if sel = [] then as = [] else \<exists>a. adv sel = Inr a \<and> as = [a])"
  by (auto simp: section_for_def bind_res_Inr)

lemma bind_filter_res:
  "bind_res (filter_res p xs) f = Inr y \<longleftrightarrow> (\<forall>x \<in> set xs. is_ok (p x)) \<and> f (filter (\<lambda>x. p x = Inr True) xs) = Inr y"
  by (auto simp: bind_res_Inr filter_res_Inr)

lemma bind_section_for:
  "bind_res (section_for sel adv) f = Inr y \<longleftrightarrow> (\<exists>as. section_for sel adv = Inr as \<and> f as = Inr y)"
  by (rule bind_res_Inr)

text \<open>A recommendation is as urgent as its finding.\<close>

definition matched :: "string \<Rightarrow> advice \<Rightarrow> bool" where
  "matched code a \<longleftrightarrow> f_code (fst a) = code \<and> f_severity (fst a) \<in> set valid_severities
     \<and> r_priority (snd a) = f_severity (fst a)"

lemma advise_matched:
  "advise code severity title detail evidence severity action rationale = Inr a \<Longrightarrow> matched code a"
  by (auto simp: advise_def build_finding_def build_recommendation_def matched_def bind_res_Inr
      normalize_severity_Inr)

lemma section_matched:
  "section_for sel adv = Inr as \<Longrightarrow> (\<And>a. adv sel = Inr a \<Longrightarrow> matched code a) \<Longrightarrow> list_all (matched code) as"
  by (auto simp: section_for_Inr split: if_splits)

section \<open>Checks that may fail\<close>

text \<open>
  One step of a subtool: \<open>try: rows = ...; count = ...; findings.append(...) except Exception: log\<close>.
  The assessment gives the count and the findings of the rows kept.
\<close>

definition catalog_check ::
  "connection_manager \<Rightarrow> database \<Rightarrow> string \<Rightarrow> string \<Rightarrow> string result \<Rightarrow> int \<Rightarrow> (row \<Rightarrow> bool)
     \<Rightarrow> (row list \<Rightarrow> nat \<times> advice list result) \<Rightarrow> (nat \<times> advice list) db_op" where
  "catalog_check cm db inst db_name query max_rows keep assess =
     db_try (run_catalog cm db inst db_name query max_rows)
       (\<lambda>_. db_return (Inr (0, [])))
       (\<lambda>rows. case assess (filter keep rows) of
          (n, Inr advice) \<Rightarrow> db_return (Inr (n, advice)) | (n, Inl _) \<Rightarrow> db_return (Inr (n, [])))"

text \<open>\<open>if schema_filter: rows = [r for r in rows if str(r.get(key, "")).lower() == ...]\<close>\<close>

definition in_schema :: "string option \<Rightarrow> string list \<Rightarrow> row \<Rightarrow> bool" where
  "in_schema schema_filter keys r = (case schema_filter of None \<Rightarrow> True
     | Some s \<Rightarrow> s = [] \<or> list_ex (\<lambda>key. py_lower (text_of r key) = py_lower s) keys)"

definition counted :: "(row list \<Rightarrow> advice result) \<Rightarrow> row list \<Rightarrow> nat \<times> advice list result" where
  "counted advice_of rows = (length rows, section_for rows advice_of)"

lemma reads_only_check:
  assumes "\<And>sql. q = Inr sql \<Longrightarrow> sql \<in> sqls"
  shows "reads_only sqls (catalog_check cm db inst d q m keep assess)"
  unfolding catalog_check_def
  by (intro reads_only_ops reads_only_catalog assms, assumption)
    (auto intro: reads_only_return split: prod.splits sum.splits)

text \<open>A check always answers.\<close>

lemma catalog_check_Inr:
  "\<exists>h' n advice. catalog_check cm db inst d q m keep assess h = (h', Inr (n, advice))"
  by (auto simp: catalog_check_def db_try_def db_return_def split: prod.splits sum.splits)

text \<open>What holds of all that an assessment says holds of all that the check says.\<close>

lemma catalog_check_all:
  assumes "catalog_check cm db inst d q m keep assess h = (h', Inr (n, advice))"
    and "\<And>rows n as. assess rows = (n, Inr as) \<Longrightarrow> list_all P as"
  shows "list_all P advice"
  using assms by (auto simp: catalog_check_def db_try_def db_return_def split: prod.splits sum.splits)

section \<open>Taking a successful call apart\<close>

lemma run_tool_answer:
  assumes "run_tool (wrap_errors K) cc tool inst sql actor body s = (s', Inr x)"
  obtains t' where "body (start_run s actor) = (t', Inr x)" "sent t' = ss_history s'"
proof -
  obtain t' where t': "body (start_run s actor) = (t', Inr x)"
    using assms by (auto simp: run_tool_def start_run_def wrap_errors_def Let_def split: prod.splits sum.splits if_splits)
  moreover have "sent t' = ss_history s'"
    using run_tool_history [of "wrap_errors K" cc tool inst sql actor body s] assms t' by simp
  ultimately show ?thesis by (rule that)
qed

text \<open>One statement of a handler after the other: checks, the admission, what the database answers.\<close>

lemma tool_check_answer:
  assumes "tool_bind (tool_return r) f t = (t', Inr x)"
  obtains y where "r = Inr y" "f y t = (t', Inr x)"
  using assms by (auto simp: tool_bind_def tool_return_def split: sum.splits)

lemma tool_admit_answer:
  assumes "tool_bind (admit_call cfg cc p) f t = (t', Inr x)"
  obtains t1 u where "sent t1 = sent t" "f u t1 = (t', Inr x)"
proof -
  obtain t1 r where a: "admit_call cfg cc p t = (t1, r)" by force
  then have "sent t1 = sent t" using silent_admit [of cfg cc p] unfolding silent_def by (metis fst_conv)
  with assms a that show ?thesis by (auto simp: tool_bind_def split: sum.splits)
qed

lemma tool_db_answer:
  assumes "tool_bind (step_db op) f t = (t', Inr x)"
  obtains t1 y where "op (sent t) = (sent t1, Inr y)" "f y t1 = (t', Inr x)"
proof -
  obtain h r where op: "op (sent t) = (h, r)" by force
  let ?t = "t\<lparr>tr_state := (tr_state t)\<lparr>ss_history := h\<rparr>\<rparr>"
  have "step_db op t = (?t, r)" using op by (simp add: step_db_def sent_def)
  with assms obtain y where "r = Inr y" "f y ?t = (t', Inr x)"
    by (auto simp: tool_bind_def split: sum.splits)
  with op that [of ?t y] show ?thesis by (simp add: sent_def)
qed

lemma tool_rows_answer:
  assumes "tool_bind (set_rows n) f t = (t', Inr x)"
  obtains t1 u where "sent t1 = sent t" "f u t1 = (t', Inr x)"
proof
  show "sent (t\<lparr>run_rows := n\<rparr>) = sent t" by (simp add: sent_def)
  show "f () (t\<lparr>run_rows := n\<rparr>) = (t', Inr x)"
    using assms by (simp add: tool_bind_def set_rows_def)
qed

lemma tool_return_answer:
  assumes "tool_return r t = (t', Inr x)"
  obtains "r = Inr x" "sent t' = sent t"
  using assms by (auto simp: tool_return_def)

lemmas tool_answers = tool_check_answer tool_admit_answer tool_db_answer tool_rows_answer tool_return_answer

section \<open>Example databases\<close>

lemma run_tool_succeeds:
  "is_ok (snd (body (start_run s actor))) \<Longrightarrow> is_ok (snd (run_tool oe cc tool inst sql actor body s))"
  by (auto simp: run_tool_def is_ok_def start_run_def split: prod.splits sum.splits)

text \<open>A database without rows, and one that refuses every statement.\<close>

definition empty_db :: database where
  "empty_db h ev = Inr \<lparr>cur_description = [VStr ''query_id''], cur_rows = [], cur_rowcount = 0\<rparr>"

lemma empty_catalog:
  "\<exists>h'. run_catalog example_cm empty_db ''primary'' ''master'' (Inr sql) m h = (h', Inr [])"
proof -
  have "snd (run_catalog example_cm empty_db ''primary'' ''master'' (Inr sql) m h) = Inr []"
    by code_simp
  then show ?thesis by (metis prod.collapse)
qed

definition refusing_db :: database where
  "refusing_db h ev = (case ev of
     DbExec conn sql ps \<Rightarrow> Inl (mk_exc OtherErr ''ProgrammingError'' ''VIEW SERVER STATE permission was denied'')
   | _ \<Rightarrow> Inr example_cursor)"

lemma refusing_db_refuses: "refuses refusing_db"
  by (simp add: refuses_def refusing_db_def)

lemma example_admitted: "\<exists>t. admit_call example_config example_call ''read'' (start_run example_state ''bob'') = (t, Inr ())"
proof -
  have "snd (admit_call example_config example_call ''read'' (start_run example_state ''bob'')) = Inr ()" by code_simp
  then show ?thesis by (metis prod.collapse)
qed

lemma example_checks: "validate_database_name ''master'' = Inr ''master''"
  "enforce (sc_guard example_config) ''tool'' ''SELECT 1'' = Inr ()"
  by code_simp+

lemma example_config_cm: "sc_cm example_config = example_cm"
  by (simp add: example_config_def)

end
