(* ===== verification/Top_Statements.thy ===== *)
theory Top_Statements
  imports Report_Tools
begin

text \<open>
  The \<open>top_statements\<close> tool of \<open>src/tools/sql_tools.py\<close>: collecting statement metrics with a
  fallback, normalising the rows, and turning them into findings and recommendations.

  \<open>float_text\<close> is \<open>float\<close> on text (\<open>None\<close> where it raises \<open>ValueError\<close>), \<open>sqlstate_attr\<close> the
  \<open>sqlstate\<close> attribute of an exception (empty if it has none).  Floats are their exact
  values, the thresholds \<open>0.80\<close> and \<open>0.9\<close> included; the rounding of the product inside the format
  \<open>:.0%\<close> is not modelled, and the en dash of two texts, which lies outside the modelled characters, is
  written as a hyphen.
\<close>

section \<open>Numbers in rows\<close>

definition at_least :: "real \<Rightarrow> pyval \<Rightarrow> bool result" where
  "at_least n v = bind_res (py_num v) (\<lambda>x. Inr (n \<le> x))"

definition to_float :: "(string \<Rightarrow> real option) \<Rightarrow> pyval \<Rightarrow> real option" where
  "to_float float_text v = (case v of VBool b \<Rightarrow> Some (if b then 1 else 0) | VInt i \<Rightarrow> Some (of_int i)
     | VFloat r _ \<Rightarrow> Some r | VStr s \<Rightarrow> float_text s | _ \<Rightarrow> None)"

text \<open>\<open>v // 1000\<close> and the format \<open>:.0%\<close> and \<open>:,\<close> of a number.\<close>

definition thousandths :: "pyval \<Rightarrow> string" where
  "thousandths v = (case v of VInt i \<Rightarrow> int_str (i div 1000) | VBool b \<Rightarrow> ''0''
     | VFloat r _ \<Rightarrow> int_str \<lfloor>r / 1000\<rfloor> @ ''.0'' | _ \<Rightarrow> [])"

definition round_half_even :: "real \<Rightarrow> int" where
  "round_half_even x = (let f = \<lfloor>x\<rfloor>; d = x - of_int f in
     if d < 1 / 2 then f else if d > 1 / 2 then f + 1 else if even f then f else f + 1)"

definition percent_str :: "pyval \<Rightarrow> string" where
  "percent_str v = (case py_num v of Inr x \<Rightarrow> int_str (round_half_even (100 * x)) @ ''%'' | Inl _ \<Rightarrow> [])"

fun group_digits_rev :: "string \<Rightarrow> string" where
  "group_digits_rev (a # b # c # d # r) = a # b # c # CHR '','' # group_digits_rev (d # r)"
| "group_digits_rev s = s"

definition thousands_str :: "pyval \<Rightarrow> string" where
  "thousands_str v =
     (let s = (case v of VBool b \<Rightarrow> if b then ''1'' else ''0'' | _ \<Rightarrow> py_str v);
          digits = takeWhile is_dec s
      in rev (group_digits_rev (rev digits)) @ dropWhile is_dec s)"

text \<open>\<open>(r.get("query_sql_text", "") or "")[:500]\<close>\<close>

definition sql_fragment :: "row \<Rightarrow> pyval result" where
  "sql_fragment r = (case py_or (row_get_or r ''query_sql_text'' (VStr [])) (VStr []) of
       VStr s \<Rightarrow> Inr (VStr (take 500 s))
     | VList xs \<Rightarrow> Inr (VList (take 500 xs))
     | _ \<Rightarrow> Inl (type_error ''object is not subscriptable''))"

section \<open>Collecting the metrics\<close>

definition query_store_unavailable :: "(pyexc \<Rightarrow> string) \<Rightarrow> pyexc \<Rightarrow> bool" where
  "query_store_unavailable sqlstate_attr exc =
     (let sql_state = sqlstate_attr exc; exc_str = py_lower (exc_text exc) in
      sql_state \<in> {''42S02'', ''42000''} \<or> sublist ''query_store'' exc_str
      \<or> sublist ''invalid object name'' exc_str \<or> sublist ''permission'' exc_str)"

definition statement_rows ::
  "(pyexc \<Rightarrow> string) \<Rightarrow> connection_manager \<Rightarrow> database \<Rightarrow> string \<Rightarrow> string \<Rightarrow> int \<Rightarrow> int
     \<Rightarrow> (row list \<times> string) db_op" where
  "statement_rows sqlstate_attr cm db inst db_name top_n lookback_minutes =
     db_try (run_catalog cm db inst db_name (top_statements_query_store_query (VInt top_n) (VInt lookback_minutes))
         top_n)
       (\<lambda>exc.
          if \<not> query_store_unavailable sqlstate_attr exc then db_return (Inl exc)
          else db_try (run_catalog cm db inst db_name (top_statements_dmv_fallback_query (VInt top_n)) top_n)
            (\<lambda>_. db_return (Inr ([], ''unavailable'')))
            (\<lambda>rows. db_return (Inr (rows, ''dmv_fallback''))))
       (\<lambda>rows. db_return (Inr (rows, ''query_store'')))"

definition object_pressure_rows ::
  "connection_manager \<Rightarrow> database \<Rightarrow> string \<Rightarrow> string \<Rightarrow> int \<Rightarrow> row list db_op" where
  "object_pressure_rows cm db inst db_name top_n =
     db_try (run_catalog cm db inst db_name (top_statements_object_pressure_query (VInt top_n)) top_n)
       (\<lambda>_. db_return (Inr [])) (\<lambda>rows. db_return (Inr rows))"

definition normalize_object_pressure_rows :: "row list \<Rightarrow> row list" where
  "normalize_object_pressure_rows rows =
     map (map (\<lambda>(key, val).
       (key, if val = VNone
             then if key \<in> {''user_seeks'', ''user_scans'', ''user_lookups'', ''user_updates'', ''row_count''}
               then VInt 0 else if key = ''scan_ratio'' then VFloat 0 ''0.0'' else val
             else val))) rows"

definition numeric_metrics :: "string list" where
  "numeric_metrics = [''weighted_avg_duration_us'', ''max_duration_us'', ''execution_count'',
     ''weighted_avg_cpu_time_us'', ''weighted_avg_logical_reads'', ''weighted_avg_physical_reads'',
     ''weighted_avg_log_bytes'']"

definition normalize_statement_value :: "(string \<Rightarrow> real option) \<Rightarrow> string \<Rightarrow> pyval \<Rightarrow> pyval" where
  "normalize_statement_value float_text key val =
     (if val = VNone then VNone
      else if key \<in> set numeric_metrics
      then (case to_float float_text val of Some x \<Rightarrow> VInt (trunc_real x) | None \<Rightarrow> VInt 0)
      else case val of VStr s \<Rightarrow> if key = ''query_sql_text'' then VStr (take 4000 s) else val | _ \<Rightarrow> val)"

definition normalize_top_statement_rows :: "(string \<Rightarrow> real option) \<Rightarrow> row list \<Rightarrow> row list" where
  "normalize_top_statement_rows float_text rows =
     map (map (\<lambda>(key, val). (key, normalize_statement_value float_text key val))) rows"

definition collect_top_statement_metrics ::
  "(string \<Rightarrow> real option) \<Rightarrow> (pyexc \<Rightarrow> string) \<Rightarrow> connection_manager \<Rightarrow> database \<Rightarrow> string \<Rightarrow> string \<Rightarrow> int \<Rightarrow> int
     \<Rightarrow> (row list \<times> row list \<times> string) db_op" where
  "collect_top_statement_metrics float_text sqlstate_attr cm db inst db_name top_n lookback_minutes =
     db_bind (statement_rows sqlstate_attr cm db inst db_name top_n lookback_minutes) (\<lambda>(stmt_rows, data_source).
       db_bind (object_pressure_rows cm db inst db_name top_n) (\<lambda>obj_rows.
         db_return (Inr (normalize_top_statement_rows float_text stmt_rows,
           normalize_object_pressure_rows obj_rows, data_source))))"

section \<open>Findings and recommendations\<close>

definition statement_evidence :: "(row \<Rightarrow> (string \<times> pyval) list) \<Rightarrow> row list \<Rightarrow> row list result" where
  "statement_evidence columns_of rows = map_res (\<lambda>r.
     bind_res (sql_fragment r) (\<lambda>fragment. Inr (columns_of r @ [(''sql_fragment'', fragment)]))) (take 10 rows)"

definition duration_advice :: "row list \<Rightarrow> advice result" where
  "duration_advice high_duration =
     bind_res (statement_evidence (\<lambda>r. [(''query_id'', row_get r ''query_id''),
         (''duration_us'', row_get r ''weighted_avg_duration_us''),
         (''execution_count'', row_get r ''execution_count'')]) high_duration) (\<lambda>evidence.
       let top_dur = hd high_duration in
       advise ''TOP_STMT_HIGH_DURATION'' ''high'' ''Long-running statements detected''
         (''Top statement averaged '' @ thousandths (or_zero top_dur ''weighted_avg_duration_us'')
            @ '' ms and executed '' @ py_str (or_zero top_dur ''execution_count'') @ '' times.'')
         evidence ''high''
         (''Review execution plans for the listed high-duration statements. '' @
          ''Consider index additions, query rewrites, or partitioning to reduce scan cost.'')
         ''Statements exceeding 5 seconds average duration indicate potential I/O or plan inefficiencies.'')"

definition execution_advice :: "row list \<Rightarrow> advice result" where
  "execution_advice high_exec =
     bind_res (statement_evidence (\<lambda>r. [(''query_id'', row_get r ''query_id''),
         (''execution_count'', row_get r ''execution_count'')]) high_exec) (\<lambda>evidence.
       advise ''TOP_STMT_HIGH_EXECUTION_COUNT'' ''medium'' ''High-frequency statements identified''
         (''Top statement executed '' @ py_str (or_zero (hd high_exec) ''execution_count'') @ '' times.'')
         evidence ''medium''
         (''Consider parameterized queries for high-frequency statements. '' @
          ''Evaluate plan guide or OPTIMIZE FOR hints where parameter sniffing causes variance.'')
         ''Thousands of executions can amplify small inefficiencies into measurable resource pressure.'')"

text \<open>The doubles \<open>0.80\<close> and \<open>0.9\<close>.\<close>

definition scan_ratio_high :: real where
  "scan_ratio_high = 3602879701896397 / 2 ^ 52"

definition scan_ratio_severe :: real where
  "scan_ratio_severe = 8106479329266893 / 2 ^ 53"

definition table_text :: "row \<Rightarrow> string" where
  "table_text r = ''Table '' @ py_str (row_get r ''schema_name'') @ ''.'' @ py_str (row_get r ''table_name'')"

definition scan_advice :: "row list \<Rightarrow> advice result" where
  "scan_advice high_scan =
     (let top_scan = hd high_scan; ratio = or_zero top_scan ''scan_ratio'' in
      bind_res (at_least scan_ratio_severe ratio) (\<lambda>severe.
      bind_res (at_least scan_ratio_severe (row_get_or top_scan ''scan_ratio'' (VInt 0))) (\<lambda>urgent.
        advise ''TOP_STMT_HIGH_SCAN_PRESSURE'' (if severe then ''high'' else ''medium'')
          ''Objects with dominant scan access patterns''
          (table_text top_scan @ '' has '' @ percent_str ratio @ '' scan ratio.'')
          (take 10 high_scan) (if urgent then ''high'' else ''medium'')
          (''Add targeted nonclustered indexes on scan-heavy tables. '' @
           ''Evaluate covering indexes for the correlated high-duration statements above.'')
          ''Scan-dominated workloads can benefit from indexes that satisfy predicates and reduce I/O.'')))"

definition partition_advice :: "row list \<Rightarrow> advice result" where
  "partition_advice large_tables =
     advise ''TOP_STMT_LARGE_TABLE_CANDIDATE'' ''medium'' ''Large tables identified as partition candidates''
       (table_text (hd large_tables) @ '' has '' @ thousands_str (or_zero (hd large_tables) ''row_count'') @ '' rows.'')
       (take 10 large_tables) ''medium''
       (''Evaluate table partitioning strategy for tables exceeding 10M rows. '' @
        ''Consider partition-aligned indexes and sliding-window maintenance.'')
       ''Partitioning reduces scan range and facilitates faster data archival/retention for large tables.''"

definition rewrite_advice :: "row list \<Rightarrow> advice result" where
  "rewrite_advice medium_duration =
     bind_res (statement_evidence (\<lambda>r. [(''query_id'', row_get r ''query_id''),
         (''duration_us'', or_zero r ''weighted_avg_duration_us'')]) medium_duration) (\<lambda>evidence.
       advise ''TOP_STMT_REWRITE_CANDIDATE'' ''medium''
         ''Medium-duration statements may benefit from rewrites or hints''
         (nat_str (length medium_duration) @ '' statements fall in the 1s-5s average-duration range.'')
         evidence ''medium''
         (''Review query structure for medium-duration statements. '' @
          ''Consider CTE or temp-table rewrites, query hints (HASH/LOOP/MERGE JOIN, '' @
          ''MAXDOP, RECOMPILE) where plan instability is observed.'')
         ''Statements in the 1-5 second range often respond well to targeted tuning without schema changes.'')"

definition recommend_top_statement_actions ::
  "row list \<Rightarrow> row list \<Rightarrow> (finding list \<times> recommendation list) result" where
  "recommend_top_statement_actions stmt_rows obj_rows =
     (if stmt_rows = [] \<and> obj_rows = [] then Inr ([], [])
      else
        bind_res (filter_res (\<lambda>r. at_least 5000000 (or_zero r ''weighted_avg_duration_us'')) stmt_rows)
          (\<lambda>high_duration.
        bind_res (filter_res (\<lambda>r. bind_res (py_num (or_zero r ''weighted_avg_duration_us''))
            (\<lambda>x. Inr (1000000 \<le> x \<and> x < 5000000))) stmt_rows) (\<lambda>medium_duration.
        bind_res (filter_res (\<lambda>r. at_least 10000 (or_zero r ''execution_count'')) stmt_rows) (\<lambda>high_exec.
        bind_res (section_for high_duration duration_advice) (\<lambda>a1.
        bind_res (section_for high_exec execution_advice) (\<lambda>a2.
        bind_res (filter_res (\<lambda>r. bind_res (at_least scan_ratio_high (or_zero r ''scan_ratio'')) (\<lambda>scanned.
            if scanned then bind_res (py_num (or_zero r ''row_count'')) (\<lambda>n. Inr (n > 0)) else Inr False))
            obj_rows) (\<lambda>high_scan.
        bind_res (filter_res (\<lambda>r. at_least 10000000 (or_zero r ''row_count'')) obj_rows) (\<lambda>large_tables.
        bind_res (section_for high_scan scan_advice) (\<lambda>a3.
        bind_res (section_for large_tables partition_advice) (\<lambda>a4.
        bind_res (section_for medium_duration rewrite_advice) (\<lambda>a5.
          let advice = a1 @ a2 @ a3 @ a4 @ a5 in Inr (map fst advice, map snd advice))))))))))))"

section \<open>The tool\<close>

definition default_findings :: "string \<Rightarrow> finding list \<Rightarrow> finding list result" where
  "default_findings data_source findings =
     (if findings \<noteq> [] then Inr findings
      else bind_res
        (if data_source = ''unavailable''
         then build_finding ''TOP_STMT_TELEMETRY_UNAVAILABLE'' ''error''
           ''Statement telemetry source unavailable''
           (''Both Query Store and DMV data sources are unavailable for this database. '' @
            ''No statement performance analysis can be performed.'') []
         else build_finding ''TOP_STMT_NO_CRITICAL_ISSUES'' ''info''
           ''No critical statement performance issues detected''
           ''Current analysis did not identify high-severity statement patterns.'' [])
        (\<lambda>f. Inr [f]))"

definition top_statements_body ::
  "(string \<Rightarrow> real option) \<Rightarrow> (pyexc \<Rightarrow> string) \<Rightarrow> server_config \<Rightarrow> database \<Rightarrow> call_context \<Rightarrow> string \<Rightarrow> string
     \<Rightarrow> int \<Rightarrow> string \<Rightarrow> int \<Rightarrow> int \<Rightarrow> string \<Rightarrow> (report \<times> row list \<times> string) tool_op" where
  "top_statements_body float_text sqlstate_attr cfg db cc tool inst instance_number database_name top_n
       lookback_minutes view_mode =
     tool_bind (tool_return (validate_database_name database_name)) (\<lambda>db_name.
     tool_bind (tool_return (validate_positive_int top_n ''top_n'' 1 500)) (\<lambda>size'.
     tool_bind (tool_return (validate_positive_int lookback_minutes ''lookback_minutes'' 1 10080)) (\<lambda>lb_minutes.
     tool_bind (tool_return
       (if py_upper (py_strip view_mode) \<notin> {''FULL'', ''COMPACT''}
        then Inl (value_error ''INVALID_INPUT: view_mode must be FULL or COMPACT'') else Inr ())) (\<lambda>_.
     tool_bind (admit_call cfg cc ''read'') (\<lambda>_.
     tool_bind (tool_return (enforce (sc_guard cfg) tool ''SELECT 1'')) (\<lambda>_.
     tool_bind (step_db (collect_top_statement_metrics float_text sqlstate_attr (sc_cm cfg) db inst db_name
         size' lb_minutes)) (\<lambda>(stmt_rows, obj_rows, data_source).
     tool_bind (tool_return (bind_res (recommend_top_statement_actions stmt_rows obj_rows)
         (\<lambda>(findings, recommendations). bind_res (default_findings data_source findings)
            (\<lambda>findings. Inr (findings, recommendations))))) (\<lambda>(findings, recommendations).
     tool_bind (set_rows (length stmt_rows + length obj_rows)) (\<lambda>_.
     tool_return (Inr
       (build_report_envelope (cc_utc_now cc) instance_number db_name tool
          [(''statements_analyzed'', VInt (int (length stmt_rows))),
           (''objects_checked'', VInt (int (length obj_rows))),
           (''lookback_minutes'', VInt lb_minutes), (''data_source'', VStr data_source)]
          findings recommendations,
        take (nat size') stmt_rows, data_source)))))))))))"

definition top_statements_tool ::
  "(string \<Rightarrow> real option) \<Rightarrow> (pyexc \<Rightarrow> string) \<Rightarrow> server_config \<Rightarrow> database \<Rightarrow> call_context \<Rightarrow> string \<Rightarrow> string
     \<Rightarrow> int \<Rightarrow> string \<Rightarrow> int \<Rightarrow> int \<Rightarrow> string \<Rightarrow> string \<Rightarrow> server_state
     \<Rightarrow> server_state \<times> (report \<times> row list \<times> string) result" where
  "top_statements_tool float_text sqlstate_attr cfg db cc tool inst instance_number database_name top_n
       lookback_minutes view_mode actor s =
     run_tool (wrap_errors {ValueErr, PermissionErr}) cc tool inst ''TOP_STATEMENTS'' actor
       (top_statements_body float_text sqlstate_attr cfg db cc tool inst instance_number database_name top_n
          lookback_minutes view_mode) s"


section \<open>What the recommendations are\<close>

text \<open>
  A finding and its recommendation on a selection of rows: severity and priority agree, and the
  evidence is the first ten rows of the selection.
\<close>

definition advice_on :: "string \<Rightarrow> row list \<Rightarrow> advice \<Rightarrow> bool" where
  "advice_on code selected a \<longleftrightarrow> f_code (fst a) = code \<and> f_severity (fst a) \<in> {''high'', ''medium''}
     \<and> r_priority (snd a) = f_severity (fst a) \<and> length (f_evidence (fst a)) = min 10 (length selected)"

lemma advise_Inr:
  "advise code severity title detail evidence severity action rationale = Inr a \<Longrightarrow>
   severity \<in> {''high'', ''medium''} \<Longrightarrow> length evidence = min 10 (length selected) \<Longrightarrow>
   advice_on code selected a"
  by (auto simp: advise_def build_finding_def build_recommendation_def advice_on_def)

lemma statement_evidence_length:
  "statement_evidence f selected = Inr evidence \<Longrightarrow> length evidence = min 10 (length selected)"
  unfolding statement_evidence_def map_res_Inr by (auto dest: list_all2_lengthD)

lemma duration_advice_on: "duration_advice sel = Inr a \<Longrightarrow> advice_on ''TOP_STMT_HIGH_DURATION'' sel a"
  by (auto simp: duration_advice_def bind_res_Inr Let_def intro: advise_Inr dest: statement_evidence_length)

lemma execution_advice_on: "execution_advice sel = Inr a \<Longrightarrow> advice_on ''TOP_STMT_HIGH_EXECUTION_COUNT'' sel a"
  by (auto simp: execution_advice_def bind_res_Inr Let_def intro: advise_Inr dest: statement_evidence_length)

lemma rewrite_advice_on: "rewrite_advice sel = Inr a \<Longrightarrow> advice_on ''TOP_STMT_REWRITE_CANDIDATE'' sel a"
  by (auto simp: rewrite_advice_def bind_res_Inr Let_def intro: advise_Inr dest: statement_evidence_length)

lemma partition_advice_on: "partition_advice sel = Inr a \<Longrightarrow> advice_on ''TOP_STMT_LARGE_TABLE_CANDIDATE'' sel a"
  by (auto simp: partition_advice_def intro: advise_Inr)

text \<open>A selected ratio is no falsy value, so both readings of it agree.\<close>

lemma ratio_reading:
  assumes "at_least scan_ratio_high (or_zero r ''scan_ratio'') = Inr True"
  shows "row_get_or r ''scan_ratio'' (VInt 0) = or_zero r ''scan_ratio''"
proof -
  have "truthy (row_get r ''scan_ratio'')"
    using assms by (auto simp: at_least_def or_zero_def py_or_def py_num_def scan_ratio_high_def split: if_splits)
  then show ?thesis
    by (auto simp: or_zero_def py_or_def row_get_def row_get_or_def dict_get_def truthy_def split: option.splits)
qed

lemma scan_advice_on:
  assumes "scan_advice sel = Inr a" "at_least scan_ratio_high (or_zero (hd sel) ''scan_ratio'') = Inr True"
  shows "advice_on ''TOP_STMT_HIGH_SCAN_PRESSURE'' sel a"
  using assms(1) unfolding scan_advice_def Let_def ratio_reading [OF assms(2)]
  by (auto simp: bind_res_Inr intro: advise_Inr split: if_splits)

text \<open>The value of a metric the code compares: \<open>r.get(key) or 0\<close>.\<close>

definition metric :: "row \<Rightarrow> string \<Rightarrow> real \<Rightarrow> bool" where
  "metric r key x \<longleftrightarrow> py_num (or_zero r key) = Inr x"

definition reaches :: "string \<Rightarrow> real \<Rightarrow> row \<Rightarrow> bool" where
  "reaches key n r \<longleftrightarrow> (\<exists>x. metric r key x \<and> n \<le> x)"

definition scan_heavy :: "row \<Rightarrow> bool" where
  "scan_heavy r \<longleftrightarrow> reaches ''scan_ratio'' scan_ratio_high r \<and> (\<exists>n. metric r ''row_count'' n \<and> 0 < n)"

definition medium_slow :: "row \<Rightarrow> bool" where
  "medium_slow r \<longleftrightarrow> (\<exists>x. metric r ''weighted_avg_duration_us'' x \<and> 1000000 \<le> x \<and> x < 5000000)"

lemma selection_conditions:
  "at_least n (or_zero r key) = Inr True \<longleftrightarrow> reaches key n r"
  "bind_res (at_least scan_ratio_high (or_zero r ''scan_ratio'')) (\<lambda>scanned.
      if scanned then bind_res (py_num (or_zero r ''row_count'')) (\<lambda>n. Inr (n > 0)) else Inr False) = Inr True
    \<longleftrightarrow> scan_heavy r"
  "bind_res (py_num (or_zero r ''weighted_avg_duration_us'')) (\<lambda>x. Inr (1000000 \<le> x \<and> x < 5000000)) = Inr True
    \<longleftrightarrow> medium_slow r"
  by (auto simp: at_least_def metric_def reaches_def bind_res_Inr scan_heavy_def medium_slow_def split: if_splits)

definition selects :: "string \<Rightarrow> row list \<Rightarrow> advice list \<Rightarrow> bool" where
  "selects code sel as \<longleftrightarrow> map (f_code \<circ> fst) as = (if sel = [] then [] else [code])
     \<and> (\<forall>a \<in> set as. advice_on code sel a)"

lemma selectsI:
  "section_for sel adv = Inr as \<Longrightarrow> (\<And>a. sel \<noteq> [] \<Longrightarrow> adv sel = Inr a \<Longrightarrow> advice_on code sel a) \<Longrightarrow> selects code sel as"
  by (auto simp: section_for_Inr selects_def advice_on_def split: if_splits)

definition present :: "string \<Rightarrow> bool \<Rightarrow> string list" where
  "present code b = (if b then [code] else [])"

lemma selects_codes: "selects code (filter P rows) as \<Longrightarrow> map (f_code \<circ> fst) as = present code (\<exists>r \<in> set rows. P r)"
  by (auto simp: selects_def present_def filter_empty_conv)

definition sound_advice :: "advice \<Rightarrow> bool" where
  "sound_advice a \<longleftrightarrow> f_severity (fst a) \<in> {''high'', ''medium''} \<and> r_priority (snd a) = f_severity (fst a)
     \<and> f_evidence (fst a) \<noteq> [] \<and> length (f_evidence (fst a)) \<le> 10"

lemma selects_sound: "selects code sel as \<Longrightarrow> list_all sound_advice as"
  by (cases sel) (auto simp: selects_def advice_on_def sound_advice_def list_all_iff)

lemma recommend_sections:
  assumes "recommend_top_statement_actions stmts objs = Inr (fs, rs)" "stmts \<noteq> [] \<or> objs \<noteq> []"
  shows "\<exists>a1 a2 a3 a4 a5.
      section_for (filter (reaches ''weighted_avg_duration_us'' 5000000) stmts) duration_advice = Inr a1
    \<and> section_for (filter (reaches ''execution_count'' 10000) stmts) execution_advice = Inr a2
    \<and> section_for (filter scan_heavy objs) scan_advice = Inr a3
    \<and> section_for (filter (reaches ''row_count'' 10000000) objs) partition_advice = Inr a4
    \<and> section_for (filter medium_slow stmts) rewrite_advice = Inr a5
    \<and> fs = map fst (a1 @ a2 @ a3 @ a4 @ a5) \<and> rs = map snd (a1 @ a2 @ a3 @ a4 @ a5)"
  using assms
  by (simp add: recommend_top_statement_actions_def bind_filter_res bind_section_for Let_def selection_conditions
      split: if_splits) blast+

lemma recommend_selects:
  assumes "recommend_top_statement_actions stmts objs = Inr (fs, rs)"
  shows "\<exists>a1 a2 a3 a4 a5. fs = map fst (a1 @ a2 @ a3 @ a4 @ a5) \<and> rs = map snd (a1 @ a2 @ a3 @ a4 @ a5)
    \<and> selects ''TOP_STMT_HIGH_DURATION'' (filter (reaches ''weighted_avg_duration_us'' 5000000) stmts) a1
    \<and> selects ''TOP_STMT_HIGH_EXECUTION_COUNT'' (filter (reaches ''execution_count'' 10000) stmts) a2
    \<and> selects ''TOP_STMT_HIGH_SCAN_PRESSURE'' (filter scan_heavy objs) a3
    \<and> selects ''TOP_STMT_LARGE_TABLE_CANDIDATE'' (filter (reaches ''row_count'' 10000000) objs) a4
    \<and> selects ''TOP_STMT_REWRITE_CANDIDATE'' (filter medium_slow stmts) a5"
proof (cases "stmts = [] \<and> objs = []")
  case True
  with assms show ?thesis by (auto simp: recommend_top_statement_actions_def selects_def)
next
  case False
  then obtain a1 a2 a3 a4 a5 where parts:
      "section_for (filter (reaches ''weighted_avg_duration_us'' 5000000) stmts) duration_advice = Inr a1"
      "section_for (filter (reaches ''execution_count'' 10000) stmts) execution_advice = Inr a2"
      "section_for (filter scan_heavy objs) scan_advice = Inr a3"
      "section_for (filter (reaches ''row_count'' 10000000) objs) partition_advice = Inr a4"
      "section_for (filter medium_slow stmts) rewrite_advice = Inr a5"
      "fs = map fst (a1 @ a2 @ a3 @ a4 @ a5)" "rs = map snd (a1 @ a2 @ a3 @ a4 @ a5)"
    using recommend_sections [OF assms] by blast
  have scan: "advice_on ''TOP_STMT_HIGH_SCAN_PRESSURE'' (filter scan_heavy objs) a"
    if "filter scan_heavy objs \<noteq> []" "scan_advice (filter scan_heavy objs) = Inr a" for a
    using hd_in_set [OF that(1)] scan_advice_on [OF that(2)] by (simp add: scan_heavy_def selection_conditions)
  show ?thesis
    using selectsI [OF parts(1) duration_advice_on] selectsI [OF parts(2) execution_advice_on]
      selectsI [OF parts(3) scan] selectsI [OF parts(4) partition_advice_on]
      selectsI [OF parts(5) rewrite_advice_on] parts(6,7) by blast
qed

text \<open>
  C32: the report carries exactly the findings its rows call for, in a fixed order: a code is present
  if and only if some row reaches the thresholds of that code.  Every finding has a recommendation
  of the same urgency and between one and ten rows of evidence.
\<close>

theorem recommendations_exact:
  assumes "recommend_top_statement_actions stmts objs = Inr (fs, rs)"
  shows "map f_code fs =
      present ''TOP_STMT_HIGH_DURATION'' (\<exists>r \<in> set stmts. reaches ''weighted_avg_duration_us'' 5000000 r)
      @ present ''TOP_STMT_HIGH_EXECUTION_COUNT'' (\<exists>r \<in> set stmts. reaches ''execution_count'' 10000 r)
      @ present ''TOP_STMT_HIGH_SCAN_PRESSURE'' (\<exists>r \<in> set objs. scan_heavy r)
      @ present ''TOP_STMT_LARGE_TABLE_CANDIDATE'' (\<exists>r \<in> set objs. reaches ''row_count'' 10000000 r)
      @ present ''TOP_STMT_REWRITE_CANDIDATE'' (\<exists>r \<in> set stmts. medium_slow r)
    \<and> map r_priority rs = map f_severity fs
    \<and> (\<forall>f \<in> set fs. f_severity f \<in> {''high'', ''medium''} \<and> f_evidence f \<noteq> [] \<and> length (f_evidence f) \<le> 10)"
proof -
  from recommend_selects [OF assms] obtain a1 a2 a3 a4 a5 where
    parts: "fs = map fst (a1 @ a2 @ a3 @ a4 @ a5)" "rs = map snd (a1 @ a2 @ a3 @ a4 @ a5)" and
    sel: "selects ''TOP_STMT_HIGH_DURATION'' (filter (reaches ''weighted_avg_duration_us'' 5000000) stmts) a1"
      "selects ''TOP_STMT_HIGH_EXECUTION_COUNT'' (filter (reaches ''execution_count'' 10000) stmts) a2"
      "selects ''TOP_STMT_HIGH_SCAN_PRESSURE'' (filter scan_heavy objs) a3"
      "selects ''TOP_STMT_LARGE_TABLE_CANDIDATE'' (filter (reaches ''row_count'' 10000000) objs) a4"
      "selects ''TOP_STMT_REWRITE_CANDIDATE'' (filter medium_slow stmts) a5"
    by blast
  have sound: "list_all sound_advice (a1 @ a2 @ a3 @ a4 @ a5)" using sel [THEN selects_sound] by simp
  have "map r_priority rs = map f_severity fs"
    using sound by (simp only: parts map_map) (rule map_cong, auto simp: list_all_iff sound_advice_def)
  moreover have "\<forall>f \<in> set fs. f_severity f \<in> {''high'', ''medium''} \<and> f_evidence f \<noteq> [] \<and> length (f_evidence f) \<le> 10"
    using sound unfolding parts list_all_iff set_map ball_simps by (metis (no_types, lifting) sound_advice_def)
  ultimately show ?thesis using sel [THEN selects_codes] by (simp add: parts)
qed

text \<open>
  The lookback window never reaches the Query Store statement: its placeholder stands in a part of
  the text that is no format string.
\<close>

lemma lookback_ignored:
  "is_ok (validate_lookback_minutes v) \<Longrightarrow> is_ok (validate_lookback_minutes w) \<Longrightarrow>
   top_statements_query_store_query n v = top_statements_query_store_query n w"
  by (cases "validate_lookback_minutes v"; cases "validate_lookback_minutes w"; cases "validate_top_n n")
    (simp_all add: top_statements_query_store_query_def)

section \<open>Calls of the tool\<close>

definition top_statement_sql :: "int \<Rightarrow> int \<Rightarrow> string set" where
  "top_statement_sql top_n lookback_minutes = {sql. Inr sql \<in> {
     top_statements_query_store_query (VInt top_n) (VInt lookback_minutes),
     top_statements_dmv_fallback_query (VInt top_n), top_statements_object_pressure_query (VInt top_n)}}"

lemma statement_rows_reads: "reads_only (top_statement_sql n l) (statement_rows sqlstate_attr cm db inst d n l)"
  unfolding statement_rows_def
  by (intro reads_only_ops reads_only_catalog) (simp_all add: top_statement_sql_def)

lemma object_pressure_rows_reads: "reads_only (top_statement_sql n l) (object_pressure_rows cm db inst d n)"
  unfolding object_pressure_rows_def
  by (intro reads_only_ops reads_only_catalog) (simp_all add: top_statement_sql_def)

lemma collect_metrics_reads:
  "reads_only (top_statement_sql n l) (collect_top_statement_metrics ft sa cm db inst d n l)"
  unfolding collect_top_statement_metrics_def
  by (intro reads_only_ops statement_rows_reads object_pressure_rows_reads)

lemma quiet_top_statements: "quiet (top_statements_body ft sa cfg db cc tool inst nr d n l vm)"
  unfolding top_statements_body_def Let_def by (intro quiet_ops)

lemma top_statements_reads:
  "tool_reads (top_statement_sql n l) (top_statements_body ft sa cfg db cc tool inst nr d n l vm)"
  unfolding top_statements_body_def Let_def
  by (intro tool_reads_checked tool_reads_bind tool_reads_case_prod tool_reads_db tool_reads_silent silent_ops)
    (auto simp: validate_positive_int_Inr intro!: collect_metrics_reads)

lemma top_statements_used:
  assumes "sent (fst (top_statements_body ft sa cfg db cc tool inst nr d n l vm t)) \<noteq> sent t"
  shows "admitted cfg cc ''read'' (run_actor t) (tr_state t)"
  using assms unfolding top_statements_body_def
  by (drule_tac used_return, elim exE conjE, drule_tac used_return, elim exE conjE,
      drule_tac used_return, elim exE conjE, drule_tac used_return, elim exE conjE, drule_tac used_admit, blast)

text \<open>
  A call of \<open>top_statements\<close> is audited exactly once, with the decision \<open>allow\<close> exactly when it
  returns a report, and it uses the database only if it was admitted with read privilege, and then
  only to read with the three catalogue statements; it never commits.
\<close>

theorem top_statements_call_safe:
  assumes "top_statements_tool ft sa cfg db cc tool inst nr d n l vm actor s = (s', r)"
  shows "catalogue_call_ok cfg cc tool actor (top_statement_sql n l) (is_ok r) s s'"
  using run_catalogue_call [OF quiet_top_statements top_statements_reads _ assms [unfolded top_statements_tool_def]]
    top_statements_used by blast

lemma default_findings_cases:
  "default_findings src fs = Inr fs' \<Longrightarrow>
     if fs \<noteq> [] then fs' = fs
     else src \<noteq> ''unavailable'' \<and> (\<exists>f. fs' = [f] \<and> f_code f = ''TOP_STMT_NO_CRITICAL_ISSUES'' \<and> f_severity f = ''info'')"
  by (auto simp: default_findings_def build_finding_def split: if_splits)

lemma statement_rows_source:
  "statement_rows sa cm db inst d n l h = (h', Inr (rows, src)) \<Longrightarrow>
     src \<in> {''query_store'', ''dmv_fallback'', ''unavailable''} \<and> (src = ''unavailable'' \<longrightarrow> rows = [])"
  by (auto simp: statement_rows_def db_try_def db_return_def split: prod.splits sum.splits if_splits)

lemma collected_source:
  "collect_top_statement_metrics ft sa cm db inst d n l h = (h', Inr (stmts, objs, src)) \<Longrightarrow>
     src \<in> {''query_store'', ''dmv_fallback'', ''unavailable''} \<and> (src = ''unavailable'' \<longrightarrow> stmts = [])"
  unfolding collect_top_statement_metrics_def db_bind_def db_return_def
  by (auto simp: normalize_top_statement_rows_def dest!: statement_rows_source split: prod.splits sum.splits)

lemma top_statements_body_Inr:
  assumes "top_statements_body ft sa cfg db cc tool inst nr d n l vm t = (t', Inr (rep, shown, src))"
  shows "\<exists>dn h h' stmts objs fs. 1 \<le> n \<and> n \<le> 500 \<and> 1 \<le> l \<and> l \<le> 10080
     \<and> collect_top_statement_metrics ft sa (sc_cm cfg) db inst dn n l h = (h', Inr (stmts, objs, src))
     \<and> recommend_top_statement_actions stmts objs = Inr (fs, rep_recommendations rep)
     \<and> default_findings src fs = Inr (rep_findings rep) \<and> shown = take (nat n) stmts"
  using assms unfolding top_statements_body_def
  by (auto simp: tool_bind_def tool_return_def bind_res_Inr validate_positive_int_Inr step_db_def
      split: prod.splits sum.splits if_splits) blast+

text \<open>
  A report names its source; it shows at most \<open>top_n\<close> statements, always has a finding, and every
  severity is a valid one.  If no statement source was available, it has no statement and its
  findings are about tables only, so at least one table reached a threshold.
\<close>

theorem top_statements_report:
  assumes "top_statements_tool ft sa cfg db cc tool inst nr d n l vm actor s = (s', Inr (rep, shown, src))"
  shows "src \<in> {''query_store'', ''dmv_fallback'', ''unavailable''} \<and> length shown \<le> nat n \<and> nat n \<le> 500
    \<and> rep_findings rep \<noteq> [] \<and> (\<forall>f \<in> set (rep_findings rep). f_severity f \<in> {''high'', ''medium'', ''info''})
    \<and> (src = ''unavailable'' \<longrightarrow> shown = [] \<and> (\<forall>f \<in> set (rep_findings rep).
         f_code f \<in> {''TOP_STMT_HIGH_SCAN_PRESSURE'', ''TOP_STMT_LARGE_TABLE_CANDIDATE''}))"
proof -
  obtain t t' where "top_statements_body ft sa cfg db cc tool inst nr d n l vm t = (t', Inr (rep, shown, src))"
    using run_tool_Inr [OF assms [unfolded top_statements_tool_def]] by blast
  from top_statements_body_Inr [OF this] obtain dn h h' stmts objs fs where
    n: "n \<le> 500" "shown = take (nat n) stmts" and
    c: "collect_top_statement_metrics ft sa (sc_cm cfg) db inst dn n l h = (h', Inr (stmts, objs, src))" and
    r: "recommend_top_statement_actions stmts objs = Inr (fs, rep_recommendations rep)"
       "default_findings src fs = Inr (rep_findings rep)"
    by blast
  have "stmts = [] \<Longrightarrow> set (map f_code fs) \<subseteq> {''TOP_STMT_HIGH_SCAN_PRESSURE'', ''TOP_STMT_LARGE_TABLE_CANDIDATE''}"
    using recommendations_exact [OF r(1)] by (auto simp: present_def)
  moreover have "\<forall>f \<in> set fs. f_severity f \<in> {''high'', ''medium''}"
    using recommendations_exact [OF r(1)] by blast
  ultimately show ?thesis
    using n collected_source [OF c] default_findings_cases [OF r(2)] by (auto split: if_splits)
qed

lemma refused_recommendation:
  "refuses db \<Longrightarrow> collect_top_statement_metrics ft sa cm db inst d n l h = (h', Inr (stmts, objs, src)) \<Longrightarrow>
     stmts = [] \<and> objs = [] \<and> src = ''unavailable''"
  using refused_catalog [of db] unfolding never_ok_def
  by (auto simp: collect_top_statement_metrics_def statement_rows_def object_pressure_rows_def db_try_def
      db_return_def db_bind_def normalize_top_statement_rows_def normalize_object_pressure_rows_def
      split: prod.splits sum.splits if_splits)

text \<open>
  When the database refuses every statement, the tool returns no report: the report it would
  give carries the severity \<open>error\<close>, which is not a severity, so the call ends as a denied one.
\<close>

theorem refused_telemetry_denied:
  assumes "refuses db" "top_statements_tool ft sa cfg db cc tool inst nr d n l vm actor s = (s', r)"
  shows "\<not> is_ok r \<and> (\<exists>e. ss_audit s' = ss_audit s @ [e] \<and> ae_tool e = tool \<and> ae_decision e \<noteq> ''allow'')"
proof -
  have "False" if ok: "r = Inr x" for x
  proof -
    obtain t t' where "top_statements_body ft sa cfg db cc tool inst nr d n l vm t = (t', Inr (fst x, fst (snd x), snd (snd x)))"
      using run_tool_Inr [OF assms(2) [unfolded top_statements_tool_def ok]] by auto
    from top_statements_body_Inr [OF this] obtain dn h h' stmts objs fs where
      c: "collect_top_statement_metrics ft sa (sc_cm cfg) db inst dn n l h = (h', Inr (stmts, objs, snd (snd x)))" and
      r: "recommend_top_statement_actions stmts objs = Inr (fs, rep_recommendations (fst x))"
         "default_findings (snd (snd x)) fs = Inr (rep_findings (fst x))"
      by blast
    from refused_recommendation [OF assms(1) c] r show False
      by (auto simp: recommend_top_statement_actions_def dest!: default_findings_cases)
  qed
  then have "\<not> is_ok r" by (cases r) auto
  then show ?thesis
    using top_statements_call_safe [OF assms(2)] unfolding catalogue_call_ok_def by auto
qed

section \<open>Concrete runs\<close>

abbreviation example_top_statements :: "database \<Rightarrow> server_state \<times> (report \<times> row list \<times> string) result" where
  "example_top_statements db \<equiv> top_statements_tool (\<lambda>_. None) (\<lambda>_. []) example_config db example_call ''tool''
     ''primary'' 1 ''master'' 5 60 ''compact'' ''bob'' example_state"

theorem top_statements_call_safe_witness:
  "\<exists>e. ss_audit (fst (example_top_statements steady_db)) = [e] \<and> ae_tool e = ''tool''"
proof -
  obtain s' r where run: "example_top_statements steady_db = (s', r)" by force
  from top_statements_call_safe [OF run] run show ?thesis
    by (auto simp: catalogue_call_ok_def example_state_def)
qed

theorem refused_telemetry_denied_witness:
  "\<not> is_ok (snd (example_top_statements refusing_db))"
proof -
  obtain s' r where run: "example_top_statements refusing_db = (s', r)" by force
  from refused_telemetry_denied [OF refusing_db_refuses run] run show ?thesis by simp
qed

lemmas recommendation_run = recommend_top_statement_actions_def section_for_def at_least_def or_zero_def py_or_def
  truthy_def py_num_def row_get_def dict_get_def Let_def duration_advice_def execution_advice_def rewrite_advice_def
  statement_evidence_def sql_fragment_def row_get_or_def advise_def build_finding_def build_recommendation_def

theorem recommendations_exact_witness:
  "map f_code (fst (projr (recommend_top_statement_actions
     [[(''weighted_avg_duration_us'', VInt 6000000)],
      [(''weighted_avg_duration_us'', VInt 1000000), (''execution_count'', VInt 10000)]] [])))
   = [''TOP_STMT_HIGH_DURATION'', ''TOP_STMT_HIGH_EXECUTION_COUNT'', ''TOP_STMT_REWRITE_CANDIDATE'']"
  (is "map f_code (fst (projr (recommend_top_statement_actions ?stmts []))) = _")
proof -
  have "is_ok (recommend_top_statement_actions ?stmts [])" by (simp add: recommendation_run)
  then obtain fs rs where run: "recommend_top_statement_actions ?stmts [] = Inr (fs, rs)"
    by (cases "recommend_top_statement_actions ?stmts []") auto
  have reached: "reaches ''weighted_avg_duration_us'' 5000000 (hd ?stmts)" "reaches ''execution_count'' 10000 (?stmts ! 1)"
    "medium_slow (?stmts ! 1)"
    by (simp_all add: reaches_def medium_slow_def metric_def recommendation_run)
  from recommendations_exact [OF run] have "map f_code fs
    = [''TOP_STMT_HIGH_DURATION'', ''TOP_STMT_HIGH_EXECUTION_COUNT'', ''TOP_STMT_REWRITE_CANDIDATE'']"
    using reached by (simp add: present_def)
  then show ?thesis unfolding run by simp
qed

lemma empty_metrics:
  "\<exists>h'. collect_top_statement_metrics (\<lambda>_. None) (\<lambda>_. []) example_cm empty_db ''primary'' ''master'' 5 60 h
     = (h', Inr ([], [], ''query_store''))"
proof -
  have "is_ok (top_statements_query_store_query (VInt 5) (VInt 60))" by code_simp
  then obtain q1 where q1: "top_statements_query_store_query (VInt 5) (VInt 60) = Inr q1"
    by (cases "top_statements_query_store_query (VInt 5) (VInt 60)") auto
  have "is_ok (top_statements_object_pressure_query (VInt 5))" by code_simp
  then obtain q2 where q2: "top_statements_object_pressure_query (VInt 5) = Inr q2"
    by (cases "top_statements_object_pressure_query (VInt 5)") auto
  obtain h1 where h1: "run_catalog example_cm empty_db ''primary'' ''master'' (Inr q1) 5 h = (h1, Inr [])"
    using empty_catalog by blast
  obtain h2 where h2: "run_catalog example_cm empty_db ''primary'' ''master'' (Inr q2) 5 h1 = (h2, Inr [])"
    using empty_catalog by blast
  show ?thesis
    by (simp add: collect_top_statement_metrics_def db_bind_def statement_rows_def object_pressure_rows_def
        db_try_def q1 q2 h1 h2 db_return_def normalize_top_statement_rows_def normalize_object_pressure_rows_def)
qed

lemma empty_report: "is_ok (snd (example_top_statements empty_db))"
proof -
  let ?t = "start_run example_state ''bob''"
  have checks: "validate_database_name ''master'' = Inr ''master''" "validate_positive_int 5 ''top_n'' 1 500 = Inr 5"
    "validate_positive_int 60 ''lookback_minutes'' 1 10080 = Inr 60" "py_upper (py_strip ''compact'') = ''COMPACT''"
    "enforce (sc_guard example_config) ''tool'' ''SELECT 1'' = Inr ()"
    by code_simp+
  have cm: "sc_cm example_config = example_cm" by (simp add: example_config_def)
  have "snd (admit_call example_config example_call ''read'' ?t) = Inr ()" by code_simp
  then obtain t1 where admit: "admit_call example_config example_call ''read'' ?t = (t1, Inr ())"
    by (metis prod.collapse)
  obtain h where h: "collect_top_statement_metrics (\<lambda>_. None) (\<lambda>_. []) example_cm empty_db ''primary'' ''master'' 5 60
     (ss_history (tr_state t1)) = (h, Inr ([], [], ''query_store''))"
    using empty_metrics by blast
  have "is_ok (snd (top_statements_body (\<lambda>_. None) (\<lambda>_. []) example_config empty_db example_call ''tool''
     ''primary'' 1 ''master'' 5 60 ''compact'' ?t))"
    by (simp add: top_statements_body_def checks tool_bind_def tool_return_def admit step_db_def h set_rows_def
        cm recommend_top_statement_actions_def default_findings_def build_finding_def)
  then show ?thesis unfolding top_statements_tool_def by (rule run_tool_succeeds)
qed

theorem top_statements_report_witness:
  "\<exists>rep shown src. snd (example_top_statements empty_db) = Inr (rep, shown, src) \<and> rep_findings rep \<noteq> []"
proof -
  obtain s' rep shown src where run: "example_top_statements empty_db = (s', Inr (rep, shown, src))"
    using empty_report by (cases "example_top_statements empty_db"; cases "snd (example_top_statements empty_db)") auto
  from top_statements_report [OF run] run show ?thesis by simp
qed

end
