(* ===== verification/Model_Report.thy ===== *)
theory Model_Report
  imports Report_Tools Model_Graph
begin

text \<open>
  The \<open>analyze_db_data_model\<close> tool of \<open>src/tools/sql_tools.py\<close>: the four subtools on indexes,
  normalisation, anomalies and data types, and the report built from them and from the foreign-key
  graph.  A failing statement of a subtool leaves its findings out; the graph query has no such
  fallback.
\<close>

section \<open>Indexes\<close>

record subtool_result =
  st_findings :: "finding list"
  st_recommendations :: "recommendation list"
  st_summary :: row

definition subtool_of :: "advice list \<Rightarrow> (string \<times> nat) list \<Rightarrow> subtool_result" where
  "subtool_of advice counts = \<lparr>st_findings = map fst advice, st_recommendations = map snd advice,
     st_summary = map (\<lambda>(key, n). (key, VInt (int n))) counts\<rparr>"

definition table_value :: "string \<Rightarrow> string \<Rightarrow> row \<Rightarrow> string \<times> pyval" where
  "table_value schema_key table_key r = (''table'', VStr (text_of r schema_key @ ''.'' @ text_of r table_key))"

definition schema_table :: "row \<Rightarrow> string \<times> pyval" where
  "schema_table r = table_value ''schema_name'' ''table_name'' r"

definition copied :: "row \<Rightarrow> string \<Rightarrow> string \<times> pyval" where
  "copied r key = (key, row_get r key)"

definition missing_index_advice :: "row list \<Rightarrow> advice result" where
  "missing_index_advice rows =
     (let sev = (if length rows \<ge> 5 then ''high'' else ''medium'') in
      advise ''INDEX_MISSING_QUERY'' sev
        (nat_str (length rows) @ '' missing index(es) identified by SQL Server optimizer'')
        (''SQL Server DMV analysis detected indexes whose creation would significantly '' @
         ''reduce query cost. Sorted by estimated_impact descending.'')
        (map (\<lambda>r. schema_table r # map (copied r) [''equality_columns'', ''inequality_columns'',
           ''included_columns'', ''estimated_impact'']) (take 10 rows))
        sev
        (''Create the top missing indexes (highest estimated_impact first). '' @
         ''Validate impact in non-production before applying to production.'')
        ''Missing indexes cause full or partial scans, increasing I/O, CPU, and query latency under load.'')"

definition missing_fk_advice :: "row list \<Rightarrow> advice result" where
  "missing_fk_advice rows =
     advise ''INDEX_MISSING_FK'' ''medium''
       (nat_str (length rows) @ '' FK column(s) lack a supporting index'')
       (''Foreign key columns without an index force full scans during joins, '' @
        ''cascade deletes, and parent updates.'')
       (map (\<lambda>r. [table_value ''parent_schema'' ''parent_table'' r, copied r ''fk_column'',
          (''constraint'', row_get r ''fk_constraint_name'')]) (take 20 rows))
       ''medium''
       ''Create a nonclustered index on each FK column listed in the evidence.''
       ''Indexed FK columns reduce lookup cost during joins, cascades, and parent-row deletes.''"

definition redundant_advice :: "row list \<Rightarrow> advice result" where
  "redundant_advice rows =
     advise ''INDEX_REDUNDANT'' ''low''
       (nat_str (length rows) @ '' redundant index pair(s) detected'')
       (''Index pairs sharing the same leading key column add write overhead '' @
        ''without additional read benefit.'')
       (map (\<lambda>r. [schema_table r, copied r ''index_a'', copied r ''index_b'',
          (''shared_leading_key'', row_get r ''shared_leading_key_column'')]) (take 20 rows))
       ''low''
       (''Review each redundant pair; remove the less selective index after '' @
        ''confirming no exclusive usage.'')
       ''Redundant indexes increase INSERT/UPDATE/DELETE maintenance cost and waste storage.''"

definition unused_advice :: "row list \<Rightarrow> advice result" where
  "unused_advice rows =
     advise ''INDEX_UNUSED'' ''low''
       (nat_str (length rows) @ '' unused nonclustered index(es) detected'')
       (''Indexes with zero reads but positive write counts incur maintenance cost '' @
        ''with no query benefit.'')
       (map (\<lambda>r. [schema_table r, (''index'', row_get r ''index_name''), copied r ''total_writes''])
          (take 20 rows))
       ''low''
       ''Confirm index is unnecessary after a full workload cycle, then drop unused indexes.''
       ''Unused indexes waste I/O on every write and consume storage without improving any query.''"

definition subtool_analyze_indexes ::
  "connection_manager \<Rightarrow> database \<Rightarrow> string \<Rightarrow> string \<Rightarrow> string option \<Rightarrow> subtool_result db_op" where
  "subtool_analyze_indexes cm db inst db_name schema_filter =
     db_bind (catalog_check cm db inst db_name (missing_index_dmv_query (VInt 50)) 50
       (in_schema schema_filter [''schema_name'']) (counted missing_index_advice)) (\<lambda>(missing_optimizer_count, a1).
     db_bind (catalog_check cm db inst db_name (Inr missing_fk_index_query) 200
       (in_schema schema_filter [''parent_schema'']) (counted missing_fk_advice)) (\<lambda>(missing_fk_count, a2).
     db_bind (catalog_check cm db inst db_name (redundant_indexes_query (VInt 100)) 100
       (in_schema schema_filter [''schema_name'']) (counted redundant_advice)) (\<lambda>(redundant_count, a3).
     db_bind (catalog_check cm db inst db_name (unused_indexes_query (VInt 100)) 100
       (in_schema schema_filter [''schema_name'']) (counted unused_advice)) (\<lambda>(unused_count, a4).
     db_return (Inr (subtool_of (a1 @ a2 @ a3 @ a4)
       [(''missing_optimizer_count'', missing_optimizer_count), (''missing_fk_index_count'', missing_fk_count),
        (''redundant_count'', redundant_count), (''unused_count'', unused_count)]))))))"

section \<open>Normalisation\<close>

definition overlap_groups :: "row list \<Rightarrow> string list dict" where
  "overlap_groups rows = foldl (\<lambda>table_map r.
       let key = text_of r ''child_schema'' @ ''.'' @ text_of r ''child_table''
       in dict_set key (dict_get table_map key [] @ [text_of r ''overlapping_column'']) table_map) [] rows"

definition transitive_advice :: "string list dict \<Rightarrow> advice result" where
  "transitive_advice table_map =
     (let sev = (if length table_map \<ge> 3 then ''medium'' else ''low'') in
      advise ''NORM_VIOLATION_TRANSITIVE'' sev
        (nat_str (length table_map) @ '' table(s) with potential transitive dependency (3NF violation)'')
        (''These child tables contain non-key columns whose names match non-key columns in the '' @
         ''referenced parent table. This pattern suggests denormalized copies that violate 3NF.'')
        (map (\<lambda>(tbl, cols). [(''table'', VStr tbl), (''overlapping_columns'', VList (map VStr cols))])
           (take 15 table_map))
        sev
        (''Review overlapping columns per table. If the child table duplicates data from the parent, '' @
         ''remove the copy and rely on the FK join to retrieve parent attributes.'')
        (''Denormalized copies of parent attributes create update anomalies: '' @
         ''a change in the parent must be propagated to every child row manually.''))"

definition subtool_analyze_normalization ::
  "connection_manager \<Rightarrow> database \<Rightarrow> string \<Rightarrow> string \<Rightarrow> string option \<Rightarrow> subtool_result db_op" where
  "subtool_analyze_normalization cm db inst db_name schema_filter =
     db_bind (catalog_check cm db inst db_name (Inr normalization_column_overlap_query) 200
       (in_schema schema_filter [''child_schema'', ''parent_schema''])
       (\<lambda>rows. let table_map = overlap_groups rows in (length table_map, section_for table_map transitive_advice)))
       (\<lambda>(transitive_count, advice).
     db_return (Inr (subtool_of advice [(''transitive_dependency_tables'', transitive_count)])))"

section \<open>Anomalies\<close>

definition update_anomaly_advice :: "row list \<Rightarrow> advice result" where
  "update_anomaly_advice rows =
     advise ''ANOMALY_UPDATE_WITHOUT_DELETE'' ''medium''
       (nat_str (length rows) @ '' table(s) with abnormally high write-to-read ratio'')
       (''These tables receive many more writes than reads. This may indicate data being '' @
        ''overwritten in-place (update anomaly) rather than versioned or appended.'')
       (map (\<lambda>r. schema_table r # map (copied r) [''total_reads'', ''total_writes'', ''write_read_ratio''])
          (take 10 rows))
       ''medium''
       (''Evaluate whether high-write tables should use append-only/event-sourced '' @
        ''patterns or audit trails.'')
       (''In-place updates without audit history violate auditability requirements '' @
        ''and hide data lineage.'')"

definition soft_delete_advice :: "row list \<Rightarrow> advice result" where
  "soft_delete_advice rows =
     advise ''ANOMALY_SOFT_DELETE_NO_AUDIT'' ''medium''
       (nat_str (length rows) @ '' table(s) use soft-delete without a corresponding audit/history table'')
       (''Soft-delete columns were detected, but no matching audit, history, or log table '' @
        ''exists in the same schema. Deleted records remain in the main table with no '' @
        ''immutable audit trail.'')
       (map (\<lambda>r. schema_table r # map (copied r) [''soft_delete_column'', ''column_type'']) (take 20 rows))
       ''medium''
       (''Add a corresponding _Audit or _History table, or implement temporal tables '' @
        ''(system-versioned) for soft-delete entities.'')
       (''Soft deletes without audit tables violate data governance requirements '' @
        ''and complicate compliance reporting.'')"

definition heap_advice :: "row list \<Rightarrow> advice result" where
  "heap_advice rows =
     advise ''ANOMALY_INSERT_INEFFICIENT'' ''low''
       (nat_str (length rows) @ '' heap table(s) detected (no clustered index)'')
       (''Heap tables accumulate forwarded records on updates and become fragmented over time, '' @
        ''causing insert anomalies and degraded scan performance.'')
       (map (\<lambda>r. [schema_table r, copied r ''row_count'']) (take 20 rows))
       ''low''
       (''Add a clustered index (ideally on a natural key or sequential surrogate) '' @
        ''to heap tables.'')
       (''A clustered index eliminates forwarded records, reduces fragmentation, '' @
        ''and improves range-scan efficiency.'')"

definition subtool_analyze_anomalies ::
  "connection_manager \<Rightarrow> database \<Rightarrow> string \<Rightarrow> string \<Rightarrow> string option \<Rightarrow> subtool_result db_op" where
  "subtool_analyze_anomalies cm db inst db_name schema_filter =
     db_bind (catalog_check cm db inst db_name (update_heavy_tables_query (VInt 50)) 50
       (in_schema schema_filter [''schema_name'']) (counted update_anomaly_advice)) (\<lambda>(update_anomaly_count, a1).
     db_bind (catalog_check cm db inst db_name (Inr soft_delete_columns_query) 200
       (in_schema schema_filter [''schema_name'']) (counted soft_delete_advice)) (\<lambda>(delete_anomaly_count, a2).
     db_bind (catalog_check cm db inst db_name (Inr heap_tables_query) 200
       (in_schema schema_filter [''schema_name'']) (counted heap_advice)) (\<lambda>(insert_anomaly_count, a3).
     db_return (Inr (subtool_of (a1 @ a2 @ a3)
       [(''update_anomaly_tables'', update_anomaly_count), (''soft_delete_no_audit_tables'', delete_anomaly_count),
        (''heap_tables'', insert_anomaly_count)])))))"

section \<open>Data types\<close>

definition shown :: "row \<Rightarrow> string \<Rightarrow> string" where
  "shown r key = py_str (row_get r key)"

definition column_text :: "string \<Rightarrow> row \<Rightarrow> string" where
  "column_text side r = shown r (side @ ''_schema'') @ ''.'' @ shown r (side @ ''_table'') @ ''.''
     @ shown r (side @ ''_column'')"

definition type_mismatch :: "row \<Rightarrow> bool" where
  "type_mismatch r \<longleftrightarrow> \<not> py_eq (row_get r ''child_type'') (row_get r ''parent_type'')"

definition length_mismatch :: "row \<Rightarrow> bool" where
  "length_mismatch r \<longleftrightarrow> py_eq (row_get r ''child_type'') (row_get r ''parent_type'')
     \<and> (\<not> py_eq (row_get r ''child_max_length'') (row_get r ''parent_max_length'')
        \<or> \<not> py_eq (row_get r ''child_precision'') (row_get r ''parent_precision''))"

definition type_mismatch_advice :: "row list \<Rightarrow> advice result" where
  "type_mismatch_advice type_mismatches =
     (let sev = (if length type_mismatches \<ge> 3 then ''high'' else ''medium'');
          side = (\<lambda>s r. (s, VStr (column_text s r @ '' ('' @ shown r (s @ ''_type'') @ '')''))) in
      advise ''DATATYPE_INCONSISTENCY_EXPLICIT'' sev
        (nat_str (length type_mismatches) @ '' FK relationship(s) with mismatched base types'')
        (''The child FK column and the referenced parent column have different base types. '' @
         ''SQL Server performs implicit conversion on every join, reducing plan quality '' @
         ''and causing index scan instead of seek.'')
        (map (\<lambda>r. [(''fk'', row_get r ''fk_name''), side ''child'' r, side ''parent'' r]) (take 20 type_mismatches))
        sev
        ''Align FK column types to match the referenced parent column type exactly.''
        (''Implicit type conversions in FK joins prevent index seeks, increasing CPU and I/O '' @
         ''for every join query.''))"

definition length_mismatch_advice :: "row list \<Rightarrow> advice result" where
  "length_mismatch_advice length_mismatches =
     (let side = (\<lambda>s r. (s, VStr (column_text s r @ '' ('' @ shown r (s @ ''_type'') @ '' len=''
            @ shown r (s @ ''_max_length'') @ '' prec='' @ shown r (s @ ''_precision'') @ '')''))) in
      advise ''DATATYPE_INCONSISTENCY_IMPLICIT'' ''low''
        (nat_str (length length_mismatches) @ '' FK relationship(s) with mismatched length or precision'')
        (''The child FK column shares the same base type as the parent but differs in max_length '' @
         ''or precision. This can cause silent truncation or implicit conversions.'')
        (map (\<lambda>r. [(''fk'', row_get r ''fk_name''), side ''child'' r, side ''parent'' r]) (take 20 length_mismatches))
        ''low''
        ''Standardize FK column lengths and precision to match the referenced column definition.''
        (''Consistent column sizes prevent silent truncation and avoid conversion overhead '' @
         ''in join predicates.''))"

definition subtool_analyze_datatype_consistency ::
  "connection_manager \<Rightarrow> database \<Rightarrow> string \<Rightarrow> string \<Rightarrow> string option \<Rightarrow> subtool_result db_op" where
  "subtool_analyze_datatype_consistency cm db inst db_name schema_filter =
     db_bind (catalog_check cm db inst db_name (datatype_inconsistency_query (VInt 200)) 200
       (in_schema schema_filter [''child_schema'', ''parent_schema''])
       (\<lambda>rows. (length rows,
          bind_res (section_for (filter type_mismatch rows) type_mismatch_advice) (\<lambda>a1.
          bind_res (section_for (filter length_mismatch rows) length_mismatch_advice) (\<lambda>a2. Inr (a1 @ a2))))))
       (\<lambda>(mismatch_count, advice).
     db_return (Inr (subtool_of advice [(''fk_datatype_mismatches'', mismatch_count)])))"

section \<open>The report\<close>

text \<open>The findings on the graph itself.\<close>

definition circular_advice :: "string list \<Rightarrow> advice result" where
  "circular_advice tables =
     advise ''DATA_MODEL_CIRCULAR_DEPENDENCY'' ''high'' ''Circular foreign-key dependencies detected''
       ''Cyclic dependencies increase migration and delete/update complexity.''
       (map (\<lambda>t. [(''table'', VStr t)]) tables)
       ''high'' ''Refactor cyclic relationships or introduce nullable staging keys.''
       ''Breaking FK cycles simplifies deployment and data lifecycle operations.''"

definition no_fk_advice :: "advice result" where
  "no_fk_advice =
     advise ''DATA_MODEL_NO_FK_RELATIONSHIPS'' ''medium'' ''No foreign-key relationships detected''
       ''Database appears to have no declared FK relationships.'' []
       ''medium'' ''Define explicit foreign keys for core entity relationships.''
       ''Declared constraints improve integrity and query plan quality.''"

definition graph_advice :: "fk_graph \<Rightarrow> advice list result" where
  "graph_advice graph =
     bind_res (section_for (circular_dependency_tables graph) circular_advice) (\<lambda>a1.
     bind_res (if edge_count graph = 0 then bind_res no_fk_advice (\<lambda>a. Inr [a]) else Inr []) (\<lambda>a2.
     Inr (a1 @ a2)))"

definition no_model_issues :: "finding result" where
  "no_model_issues = build_finding ''DATA_MODEL_NO_MAJOR_ISSUES'' ''info''
     ''No major data model issues detected''
     (''All data model checks passed without identifying high-risk structural '' @ ''anomalies.'') []"

definition model_findings :: "finding list \<Rightarrow> finding list result" where
  "model_findings findings =
     (if findings \<noteq> [] then Inr findings else bind_res no_model_issues (\<lambda>f. Inr [f]))"

definition edge_dict :: "fk_edge \<Rightarrow> pyval" where
  "edge_dict e = VDict [(''from'', VStr (edge_from e)), (''to'', VStr (edge_to e)),
     (''fk_name'', VStr (edge_fk_name e))]"

definition model_summary ::
  "fk_graph \<Rightarrow> subtool_result \<Rightarrow> subtool_result \<Rightarrow> subtool_result \<Rightarrow> subtool_result \<Rightarrow> row" where
  "model_summary graph index_result norm_result anomaly_result datatype_result =
     [(''model_overview'', VDict
         [(''node_count'', VInt (int (node_count graph))), (''edge_count'', VInt (int (edge_count graph))),
          (''circular_dependency_count'', VInt (int (length (circular_dependency_tables graph)))),
          (''edge_preview'', VList (map edge_dict (take 20 (graph_edges graph))))]),
      (''integrity_findings'', VDict
         [(''missing_optimizer_index_count'', row_get (st_summary index_result) ''missing_optimizer_count''),
          (''missing_fk_index_count'', row_get (st_summary index_result) ''missing_fk_index_count''),
          (''redundant_index_count'', row_get (st_summary index_result) ''redundant_count''),
          (''unused_index_count'', row_get (st_summary index_result) ''unused_count''),
          (''fk_datatype_mismatches'', row_get (st_summary datatype_result) ''fk_datatype_mismatches'')]),
      (''normalization_findings'', VDict
         [(''transitive_dependency_tables'', row_get (st_summary norm_result) ''transitive_dependency_tables''),
          (''update_anomaly_tables'', row_get (st_summary anomaly_result) ''update_anomaly_tables''),
          (''soft_delete_no_audit_tables'', row_get (st_summary anomaly_result) ''soft_delete_no_audit_tables''),
          (''heap_tables'', row_get (st_summary anomaly_result) ''heap_tables'')])]"

definition analyze_db_data_model_body ::
  "server_config \<Rightarrow> database \<Rightarrow> call_context \<Rightarrow> string \<Rightarrow> string \<Rightarrow> int \<Rightarrow> string \<Rightarrow> string option \<Rightarrow> int
     \<Rightarrow> report tool_op" where
  "analyze_db_data_model_body cfg db cc tool inst instance_number database_name schema_filter max_edges =
     tool_bind (tool_return (validate_database_name database_name)) (\<lambda>db_name.
     tool_bind (tool_return (case schema_filter of None \<Rightarrow> Inr None
         | Some s \<Rightarrow> bind_res (validate_identifier s ''schema_filter'') (\<lambda>v. Inr (Some v)))) (\<lambda>schema_filter.
     tool_bind (tool_return (validate_positive_int max_edges ''max_edges'' 1 5000)) (\<lambda>edge_limit.
     tool_bind (admit_call cfg cc ''read'') (\<lambda>_.
     tool_bind (tool_return (enforce (sc_guard cfg) tool ''SELECT 1'')) (\<lambda>_.
     tool_bind (step_db (run_catalog (sc_cm cfg) db inst db_name (Inr fk_graph_query) edge_limit)) (\<lambda>graph_rows.
     let filtered_rows = filter (in_schema schema_filter [''parent_schema'', ''referenced_schema'']) graph_rows;
         graph = build_fk_graph filtered_rows
     in
     tool_bind (tool_return (graph_advice graph)) (\<lambda>advice.
     tool_bind (step_db (subtool_analyze_indexes (sc_cm cfg) db inst db_name schema_filter)) (\<lambda>index_result.
     tool_bind (step_db (subtool_analyze_normalization (sc_cm cfg) db inst db_name schema_filter)) (\<lambda>norm_result.
     tool_bind (step_db (subtool_analyze_anomalies (sc_cm cfg) db inst db_name schema_filter)) (\<lambda>anomaly_result.
     tool_bind (step_db (subtool_analyze_datatype_consistency (sc_cm cfg) db inst db_name schema_filter))
       (\<lambda>datatype_result.
     let subtools = [index_result, norm_result, anomaly_result, datatype_result];
         findings = map fst advice @ concat (map st_findings subtools);
         recommendations = map snd advice @ concat (map st_recommendations subtools)
     in
     tool_bind (tool_return (model_findings findings)) (\<lambda>findings.
     tool_bind (set_rows (length filtered_rows)) (\<lambda>_.
     tool_return (Inr (build_report_envelope (cc_utc_now cc) instance_number db_name tool
       (model_summary graph index_result norm_result anomaly_result datatype_result)
       findings recommendations)))))))))))))))"

definition analyze_db_data_model_tool ::
  "server_config \<Rightarrow> database \<Rightarrow> call_context \<Rightarrow> string \<Rightarrow> string \<Rightarrow> int \<Rightarrow> string \<Rightarrow> string option \<Rightarrow> int \<Rightarrow> string
     \<Rightarrow> server_state \<Rightarrow> server_state \<times> report result" where
  "analyze_db_data_model_tool cfg db cc tool inst instance_number database_name schema_filter max_edges actor s =
     run_tool (wrap_errors {ValueErr, PermissionErr}) cc tool inst ''ANALYZE_DB_DATA_MODEL'' actor
       (analyze_db_data_model_body cfg db cc tool inst instance_number database_name schema_filter max_edges) s"

section \<open>A call of the tool\<close>

definition model_statements :: "string set" where
  "model_statements = {sql. Inr sql \<in> {Inr fk_graph_query, missing_index_dmv_query (VInt 50),
     Inr missing_fk_index_query, redundant_indexes_query (VInt 100), unused_indexes_query (VInt 100),
     Inr normalization_column_overlap_query, update_heavy_tables_query (VInt 50), Inr soft_delete_columns_query,
     Inr heap_tables_query, datatype_inconsistency_query (VInt 200)}}"

lemma subtools_read [reads_only_ops]:
  "reads_only model_statements (subtool_analyze_indexes cm db inst d sf)"
  "reads_only model_statements (subtool_analyze_normalization cm db inst d sf)"
  "reads_only model_statements (subtool_analyze_anomalies cm db inst d sf)"
  "reads_only model_statements (subtool_analyze_datatype_consistency cm db inst d sf)"
  unfolding subtool_analyze_indexes_def subtool_analyze_normalization_def subtool_analyze_anomalies_def
    subtool_analyze_datatype_consistency_def
  by (intro reads_only_ops reads_only_check; simp add: model_statements_def)+

lemma quiet_model_body: "quiet (analyze_db_data_model_body cfg db cc tool inst nr d sf m)"
  unfolding analyze_db_data_model_body_def Let_def by (intro quiet_ops)

lemma model_body_reads: "tool_reads model_statements (analyze_db_data_model_body cfg db cc tool inst nr d sf m)"
  unfolding analyze_db_data_model_body_def Let_def
  by (intro tool_reads_bind tool_reads_db subtools_read reads_only_catalog tool_reads_silent silent_ops)
    (simp add: model_statements_def)

lemma model_body_used:
  assumes "sent (fst (analyze_db_data_model_body cfg db cc tool inst nr d sf m t)) \<noteq> sent t"
  shows "admitted cfg cc ''read'' (run_actor t) (tr_state t)"
  using assms unfolding analyze_db_data_model_body_def
  by (drule_tac used_return, elim exE conjE, drule_tac used_return, elim exE conjE,
      drule_tac used_return, elim exE conjE, drule_tac used_admit, blast)

text \<open>
  A call of the data-model tool is audited exactly once, with \<open>allow\<close> exactly when it returns a
  report; it uses the database only if it was admitted with read privilege, and then only to read
  with its ten catalogue statements.
\<close>

theorem model_call_safe:
  assumes "analyze_db_data_model_tool cfg db cc tool inst nr d sf m actor s = (s', r)"
  shows "catalogue_call_ok cfg cc tool actor model_statements (is_ok r) s s'"
  using run_catalogue_call [OF quiet_model_body model_body_reads _ assms [unfolded analyze_db_data_model_tool_def]]
    model_body_used by blast

section \<open>What the report says\<close>

definition subtool_codes :: "string list" where
  "subtool_codes = [''INDEX_MISSING_QUERY'', ''INDEX_MISSING_FK'', ''INDEX_REDUNDANT'', ''INDEX_UNUSED'',
     ''NORM_VIOLATION_TRANSITIVE'', ''ANOMALY_UPDATE_WITHOUT_DELETE'', ''ANOMALY_SOFT_DELETE_NO_AUDIT'',
     ''ANOMALY_INSERT_INEFFICIENT'', ''DATATYPE_INCONSISTENCY_EXPLICIT'', ''DATATYPE_INCONSISTENCY_IMPLICIT'']"

definition subtool_advice :: "advice \<Rightarrow> bool" where
  "subtool_advice a \<longleftrightarrow> (\<exists>code \<in> set subtool_codes. matched code a)"

lemmas model_advice_defs = missing_index_advice_def missing_fk_advice_def redundant_advice_def unused_advice_def
  transitive_advice_def update_anomaly_advice_def soft_delete_advice_def heap_advice_def
  type_mismatch_advice_def length_mismatch_advice_def

lemma model_advice_matched:
  "missing_index_advice rows = Inr a \<Longrightarrow> subtool_advice a" "missing_fk_advice rows = Inr a \<Longrightarrow> subtool_advice a"
  "redundant_advice rows = Inr a \<Longrightarrow> subtool_advice a" "unused_advice rows = Inr a \<Longrightarrow> subtool_advice a"
  "transitive_advice m = Inr a \<Longrightarrow> subtool_advice a" "update_anomaly_advice rows = Inr a \<Longrightarrow> subtool_advice a"
  "soft_delete_advice rows = Inr a \<Longrightarrow> subtool_advice a" "heap_advice rows = Inr a \<Longrightarrow> subtool_advice a"
  "type_mismatch_advice rows = Inr a \<Longrightarrow> subtool_advice a"
  "length_mismatch_advice rows = Inr a \<Longrightarrow> subtool_advice a"
  unfolding model_advice_defs Let_def by (drule advise_matched, simp add: subtool_advice_def subtool_codes_def)+

lemma counted_advice:
  "counted adv rows = (n, Inr as) \<Longrightarrow> (\<And>a. adv rows = Inr a \<Longrightarrow> P a) \<Longrightarrow> list_all P as"
  by (auto simp: counted_def section_for_Inr split: if_splits)

lemma check_advice:
  "catalog_check cm db inst d q m keep (counted adv) h = (h', Inr (n, as)) \<Longrightarrow>
   (\<And>rows a. adv rows = Inr a \<Longrightarrow> subtool_advice a) \<Longrightarrow> list_all subtool_advice as"
  by (erule catalog_check_all) (erule counted_advice)

lemma checks_sound:
  "catalog_check cm db inst d q m keep (counted missing_index_advice) h = (h', Inr (n, as)) \<Longrightarrow> list_all subtool_advice as"
  "catalog_check cm db inst d q m keep (counted missing_fk_advice) h = (h', Inr (n, as)) \<Longrightarrow> list_all subtool_advice as"
  "catalog_check cm db inst d q m keep (counted redundant_advice) h = (h', Inr (n, as)) \<Longrightarrow> list_all subtool_advice as"
  "catalog_check cm db inst d q m keep (counted unused_advice) h = (h', Inr (n, as)) \<Longrightarrow> list_all subtool_advice as"
  "catalog_check cm db inst d q m keep (counted update_anomaly_advice) h = (h', Inr (n, as)) \<Longrightarrow> list_all subtool_advice as"
  "catalog_check cm db inst d q m keep (counted soft_delete_advice) h = (h', Inr (n, as)) \<Longrightarrow> list_all subtool_advice as"
  "catalog_check cm db inst d q m keep (counted heap_advice) h = (h', Inr (n, as)) \<Longrightarrow> list_all subtool_advice as"
  by (erule check_advice, erule model_advice_matched)+

text \<open>A result that consists of sound advice.\<close>

definition sound_result :: "subtool_result \<Rightarrow> bool" where
  "sound_result st \<longleftrightarrow> (\<exists>as. st_findings st = map fst as \<and> st_recommendations st = map snd as
     \<and> list_all subtool_advice as)"

lemma subtool_of_sound: "list_all subtool_advice as \<Longrightarrow> sound_result (subtool_of as counts)"
  by (auto simp: sound_result_def subtool_of_def)

lemma subtools_sound:
  "subtool_analyze_indexes cm db inst d sf h = (h', Inr st) \<Longrightarrow> sound_result st"
  "subtool_analyze_normalization cm db inst d sf h = (h', Inr st) \<Longrightarrow> sound_result st"
  "subtool_analyze_anomalies cm db inst d sf h = (h', Inr st) \<Longrightarrow> sound_result st"
  "subtool_analyze_datatype_consistency cm db inst d sf h = (h', Inr st) \<Longrightarrow> sound_result st"
proof -
  assume "subtool_analyze_indexes cm db inst d sf h = (h', Inr st)"
  then show "sound_result st"
    unfolding subtool_analyze_indexes_def db_bind_def db_return_def
    by (auto intro!: subtool_of_sound dest!: checks_sound split: prod.splits sum.splits)
next
  assume "subtool_analyze_normalization cm db inst d sf h = (h', Inr st)"
  then show "sound_result st"
    unfolding subtool_analyze_normalization_def db_bind_def db_return_def
    by (auto intro!: subtool_of_sound elim!: catalog_check_all
        simp: Let_def section_for_Inr split: prod.splits sum.splits if_splits dest!: model_advice_matched(5))
next
  assume "subtool_analyze_anomalies cm db inst d sf h = (h', Inr st)"
  then show "sound_result st"
    unfolding subtool_analyze_anomalies_def db_bind_def db_return_def
    by (auto intro!: subtool_of_sound dest!: checks_sound split: prod.splits sum.splits)
next
  assume "subtool_analyze_datatype_consistency cm db inst d sf h = (h', Inr st)"
  then show "sound_result st"
    unfolding subtool_analyze_datatype_consistency_def db_bind_def db_return_def
    by (auto intro!: subtool_of_sound elim!: catalog_check_all
        simp: bind_res_Inr section_for_Inr split: prod.splits sum.splits if_splits dest!: model_advice_matched(9,10))
qed

lemma no_model_issues_Inr:
  "no_model_issues = Inr f \<Longrightarrow> f_code f = ''DATA_MODEL_NO_MAJOR_ISSUES'' \<and> f_severity f = ''info''"
  by (auto simp: no_model_issues_def build_finding_def)

lemma graph_advice_Inr:
  assumes "graph_advice graph = Inr as"
  shows "map (f_code \<circ> fst) as =
      (if circular_dependency_tables graph = [] then [] else [''DATA_MODEL_CIRCULAR_DEPENDENCY''])
      @ (if edge_count graph = 0 then [''DATA_MODEL_NO_FK_RELATIONSHIPS''] else [])
    \<and> list_all (\<lambda>a. matched (f_code (fst a)) a) as"
  using assms
  by (auto simp: graph_advice_def bind_res_Inr section_for_Inr circular_advice_def no_fk_advice_def
      matched_def dest!: advise_matched split: if_splits)

text \<open>The schema filter of a call, as validated.\<close>

definition filter_given :: "string option \<Rightarrow> string option \<Rightarrow> bool" where
  "filter_given schema_filter v \<longleftrightarrow> (case schema_filter of None \<Rightarrow> v = None
     | Some s \<Rightarrow> v = Some (py_strip s) \<and> py_strip s \<noteq> [] \<and> CHR '';'' \<notin> set (py_strip s) \<and> \<not> sublist ''--'' (py_strip s))"

lemma filter_given_validated:
  assumes "(case sf of None \<Rightarrow> Inr None
     | Some s \<Rightarrow> bind_res (validate_identifier s ''schema_filter'') (\<lambda>v. Inr (Some v))) = Inr v"
  shows "filter_given sf v"
  using assms
  by (auto simp: filter_given_def validate_identifier_def Let_def bind_res_Inr split: option.splits if_splits)

lemma model_body_Inr:
  assumes "analyze_db_data_model_body cfg db cc tool inst nr d sf m t = (t', Inr rep)"
  shows "\<exists>dn sf' h rows as h1 i h2 n h3 a dt.
     validate_database_name d = Inr dn \<and> filter_given sf sf'
     \<and> run_catalog (sc_cm cfg) db inst dn (Inr fk_graph_query) m (sent t) = (h, Inr rows)
     \<and> graph_advice (build_fk_graph (filter (in_schema sf' [''parent_schema'', ''referenced_schema'']) rows)) = Inr as
     \<and> subtool_analyze_indexes (sc_cm cfg) db inst dn sf' h = (h1, Inr i)
     \<and> subtool_analyze_normalization (sc_cm cfg) db inst dn sf' h1 = (h2, Inr n)
     \<and> subtool_analyze_anomalies (sc_cm cfg) db inst dn sf' h2 = (h3, Inr a)
     \<and> subtool_analyze_datatype_consistency (sc_cm cfg) db inst dn sf' h3 = (sent t', Inr dt)
     \<and> model_findings (map fst as @ concat (map st_findings [i, n, a, dt])) = Inr (rep_findings rep)
     \<and> rep_recommendations rep = map snd as @ concat (map st_recommendations [i, n, a, dt])
     \<and> rep_summary rep = model_summary (build_fk_graph (filter (in_schema sf' [''parent_schema'', ''referenced_schema'']) rows)) i n a dt"
  using assms unfolding analyze_db_data_model_body_def Let_def
  by (elim tool_answers) (clarsimp dest!: filter_given_validated simp: validate_positive_int_Inr, blast)

lemma sound_result_paired:
  "list_all sound_result sts \<Longrightarrow> map r_priority (concat (map st_recommendations sts)) = map f_severity (concat (map st_findings sts))
     \<and> (\<forall>f \<in> set (concat (map st_findings sts)). f_severity f \<in> set valid_severities \<and> f_code f \<in> set subtool_codes)"
proof (induction sts)
  case (Cons st sts)
  obtain as where as: "st_findings st = map fst as" "st_recommendations st = map snd as" "list_all subtool_advice as"
    using Cons.prems by (auto simp: sound_result_def)
  have "map (r_priority \<circ> snd) as = map (f_severity \<circ> fst) as"
    using as(3) by (induction as) (auto simp: subtool_advice_def matched_def)
  moreover have "\<forall>f \<in> set (st_findings st). f_severity f \<in> set valid_severities \<and> f_code f \<in> set subtool_codes"
    using as by (auto simp: list_all_iff subtool_advice_def matched_def)
  ultimately show ?case using Cons as by auto
qed simp

lemma graph_advice_codes:
  assumes "graph_advice (build_fk_graph fks) = Inr as"
  shows "map (f_code \<circ> fst) as = (if \<exists>v. (v, v) \<in> (fk_rel (map row_edge fks))\<^sup>+ then [''DATA_MODEL_CIRCULAR_DEPENDENCY''] else [])
      @ (if fks = [] then [''DATA_MODEL_NO_FK_RELATIONSHIPS''] else [])"
proof -
  have "circular_dependency_tables (build_fk_graph fks) = [] \<longleftrightarrow> \<not> (\<exists>v. (v, v) \<in> (fk_rel (map row_edge fks))\<^sup>+)"
    using circular_tables_cycles [of fks] by (auto simp flip: set_empty)
  then show ?thesis using graph_advice_Inr [OF assms] by (auto simp: graph_counts)
qed

lemma graph_advice_keeps:
  assumes "graph_advice (build_fk_graph fks) = Inr as" "a \<in> set as"
  shows "f_code (fst a) \<noteq> ''DATA_MODEL_NO_MAJOR_ISSUES''"
proof -
  have "f_code (fst a) \<in> set (map (f_code \<circ> fst) as)" using assms(2) by force
  then show ?thesis unfolding graph_advice_codes [OF assms(1)] by (fastforce split: if_splits)
qed

text \<open>The foreign keys a report is about: with an end in the schema of the filter, if there is one.\<close>

definition concerns :: "string option \<Rightarrow> row \<Rightarrow> bool" where
  "concerns schema_filter fk \<longleftrightarrow> (case schema_filter of None \<Rightarrow> True
     | Some s \<Rightarrow> py_lower s \<in> {py_lower (text_of fk ''parent_schema''), py_lower (text_of fk ''referenced_schema'')})"

lemma concerns_in_schema:
  "filter_given sf sf' \<Longrightarrow> in_schema sf' [''parent_schema'', ''referenced_schema''] fk = concerns sf' fk"
  by (auto simp: filter_given_def in_schema_def concerns_def split: option.splits)

text \<open>
  C30: the report is about the named database and what one reading of its foreign keys gave, of
  which those are kept that have an end in the schema of the filter (in any case; all without a
  filter).  It names circular dependencies exactly when some table is on a cycle of the kept foreign
  keys, and missing relationships exactly when none was kept.  Four groups of checks follow, each on
  the same database and filter and from what was sent before, and nothing else is sent; their
  findings follow those two, and the all-clear stands alone exactly when there is no other finding.
  Every severity is valid, and every finding but the all-clear has its recommendation, in the same
  order and of the same urgency.
\<close>

theorem model_report_exact:
  assumes "analyze_db_data_model_tool cfg db cc tool inst nr d sf m actor s = (s', Inr rep)"
  shows "\<exists>dn sf' h rows fks h1 i h2 n h3 a dt codes.
    validate_database_name d = Inr dn \<and> filter_given sf sf'
    \<and> run_catalog (sc_cm cfg) db inst dn (Inr fk_graph_query) m (ss_history s) = (h, Inr rows)
    \<and> fks = filter (concerns sf') rows
    \<and> subtool_analyze_indexes (sc_cm cfg) db inst dn sf' h = (h1, Inr i)
    \<and> subtool_analyze_normalization (sc_cm cfg) db inst dn sf' h1 = (h2, Inr n)
    \<and> subtool_analyze_anomalies (sc_cm cfg) db inst dn sf' h2 = (h3, Inr a)
    \<and> subtool_analyze_datatype_consistency (sc_cm cfg) db inst dn sf' h3 = (ss_history s', Inr dt)
    \<and> codes = (if \<exists>v. (v, v) \<in> (fk_rel (map row_edge fks))\<^sup>+ then [''DATA_MODEL_CIRCULAR_DEPENDENCY''] else [])
        @ (if fks = [] then [''DATA_MODEL_NO_FK_RELATIONSHIPS''] else [])
        @ map f_code (st_findings i @ st_findings n @ st_findings a @ st_findings dt)
    \<and> map f_code (rep_findings rep) = (if codes = [] then [''DATA_MODEL_NO_MAJOR_ISSUES''] else codes)
    \<and> set codes \<subseteq> set subtool_codes \<union> {''DATA_MODEL_CIRCULAR_DEPENDENCY'', ''DATA_MODEL_NO_FK_RELATIONSHIPS''}
    \<and> (\<forall>f \<in> set (rep_findings rep). f_severity f \<in> set valid_severities)
    \<and> map r_priority (rep_recommendations rep) = (if codes = [] then [] else map f_severity (rep_findings rep))"
proof -
  obtain t' where body: "analyze_db_data_model_body cfg db cc tool inst nr d sf m (start_run s actor) = (t', Inr rep)"
    and sent: "sent t' = ss_history s'"
    by (rule run_tool_answer [OF assms [unfolded analyze_db_data_model_tool_def]])
  obtain dn sf' h rows as h1 i h2 n h3 a dt where
    args: "validate_database_name d = Inr dn" "filter_given sf sf'" and
    rows: "run_catalog (sc_cm cfg) db inst dn (Inr fk_graph_query) m (ss_history s) = (h, Inr rows)" and
    g: "graph_advice (build_fk_graph (filter (in_schema sf' [''parent_schema'', ''referenced_schema'']) rows)) = Inr as" and
    runs: "subtool_analyze_indexes (sc_cm cfg) db inst dn sf' h = (h1, Inr i)"
      "subtool_analyze_normalization (sc_cm cfg) db inst dn sf' h1 = (h2, Inr n)"
      "subtool_analyze_anomalies (sc_cm cfg) db inst dn sf' h2 = (h3, Inr a)"
      "subtool_analyze_datatype_consistency (sc_cm cfg) db inst dn sf' h3 = (ss_history s', Inr dt)" and
    fs: "model_findings (map fst as @ concat (map st_findings [i, n, a, dt])) = Inr (rep_findings rep)" and
    rs: "rep_recommendations rep = map snd as @ concat (map st_recommendations [i, n, a, dt])"
    using model_body_Inr [OF body] unfolding start_run_simps sent by blast
  have st: "list_all sound_result [i, n, a, dt]" using subtools_sound runs by auto
  define fks where "fks = filter (concerns sf') rows"
  define sub where "sub = concat (map st_findings [i, n, a, dt])"
  have g: "graph_advice (build_fk_graph fks) = Inr as"
    using g concerns_in_schema [OF args(2)] by (simp add: fks_def cong: filter_cong)
  have sub: "map r_priority (concat (map st_recommendations [i, n, a, dt])) = map f_severity sub"
    "\<forall>f \<in> set sub. f_severity f \<in> set valid_severities \<and> f_code f \<in> set subtool_codes"
    using sound_result_paired [OF st] unfolding sub_def by blast+
  have pairs: "map (r_priority \<circ> snd) as = map (f_severity \<circ> fst) as" "\<forall>a \<in> set as. f_severity (fst a) \<in> set valid_severities"
    using graph_advice_Inr [OF g] by (auto simp: list_all_iff matched_def)
  define codes where "codes = (if \<exists>v. (v, v) \<in> (fk_rel (map row_edge fks))\<^sup>+ then [''DATA_MODEL_CIRCULAR_DEPENDENCY''] else [])
        @ (if fks = [] then [''DATA_MODEL_NO_FK_RELATIONSHIPS''] else []) @ map f_code sub"
  have codes: "map f_code (map fst as @ sub) = codes"
    using graph_advice_codes [OF g] by (simp add: codes_def)
  then have empty: "map fst as @ sub = [] \<longleftrightarrow> codes = []" by (metis Nil_is_map_conv)
  have all: "if codes = [] then \<exists>f. rep_findings rep = [f] \<and> f_code f = ''DATA_MODEL_NO_MAJOR_ISSUES'' \<and> f_severity f = ''info''
      else rep_findings rep = map fst as @ sub"
    using fs empty unfolding sub_def [symmetric] model_findings_def
    by (cases "codes = []") (auto simp: bind_res_Inr dest!: no_model_issues_Inr intro: sym)
  have names: "map f_code (rep_findings rep) = (if codes = [] then [''DATA_MODEL_NO_MAJOR_ISSUES''] else codes)"
    using all codes by (auto split: if_splits)
  have known: "set codes \<subseteq> set subtool_codes \<union> {''DATA_MODEL_CIRCULAR_DEPENDENCY'', ''DATA_MODEL_NO_FK_RELATIONSHIPS''}"
    using sub(2) by (auto simp: codes_def)
  have severities: "\<forall>f \<in> set (rep_findings rep). f_severity f \<in> set valid_severities"
    using all pairs(2) sub(2) by (auto simp: valid_severities_def split: if_splits)
  have urgency: "map r_priority (rep_recommendations rep) = (if codes = [] then [] else map f_severity (rep_findings rep))"
    using all pairs(1) sub(1) empty by (auto simp: rs split: if_splits)
  have "sub = st_findings i @ st_findings n @ st_findings a @ st_findings dt" by (simp add: sub_def)
  note codes_is = codes_def [unfolded this]
  show ?thesis
    by (intro exI conjI) (rule args rows fks_def runs codes_is names known severities urgency)+
qed

lemma refused_check:
  assumes "refuses db"
  shows "\<exists>h'. catalog_check cm db inst d q m keep assess h = (h', Inr (0, []))"
  using refused_catalog [OF assms, of cm inst d q m] unfolding never_ok_def
  by (cases "run_catalog cm db inst d q m h"; cases "snd (run_catalog cm db inst d q m h)")
    (auto simp: catalog_check_def db_try_def db_return_def)

lemma refused_bind:
  assumes "refuses db" "\<And>h. \<exists>h'. f (0, []) h = (h', Inr x)"
  shows "\<exists>h'. db_bind (catalog_check cm db inst d q m keep assess) f h = (h', Inr x)"
proof -
  obtain h1 where "catalog_check cm db inst d q m keep assess h = (h1, Inr (0, []))"
    using refused_check [OF assms(1)] by blast
  with assms(2) show ?thesis by (auto simp: db_bind_def)
qed

definition zero_counts :: "subtool_result \<Rightarrow> bool" where
  "zero_counts st \<longleftrightarrow> st_findings st = [] \<and> st_recommendations st = [] \<and> (\<forall>(key, v) \<in> set (st_summary st). v = VInt 0)"

text \<open>
  When every statement of a subtool fails, the subtool does not: it answers with no finding, no
  recommendation and the count zero everywhere, which is also what it says of a flawless database.
\<close>

theorem model_checks_fail_silently:
  assumes "refuses db" "subtool \<in> {subtool_analyze_indexes, subtool_analyze_normalization,
     subtool_analyze_anomalies, subtool_analyze_datatype_consistency}"
  shows "\<exists>h' st. subtool cm db inst d sf h = (h', Inr st) \<and> zero_counts st"
proof -
  note steps = refused_bind [OF assms(1)]
  have "\<exists>h'. subtool_analyze_indexes cm db inst d sf h = (h', Inr (subtool_of []
      [(''missing_optimizer_count'', 0), (''missing_fk_index_count'', 0), (''redundant_count'', 0), (''unused_count'', 0)]))"
    unfolding subtool_analyze_indexes_def
    by (rule steps, simp only: prod.case, rule steps, simp only: prod.case, rule steps, simp only: prod.case, rule steps)
      (simp add: db_return_def)
  moreover have "\<exists>h'. subtool_analyze_normalization cm db inst d sf h
      = (h', Inr (subtool_of [] [(''transitive_dependency_tables'', 0)]))"
    unfolding subtool_analyze_normalization_def by (rule steps) (simp add: db_return_def)
  moreover have "\<exists>h'. subtool_analyze_anomalies cm db inst d sf h = (h', Inr (subtool_of []
      [(''update_anomaly_tables'', 0), (''soft_delete_no_audit_tables'', 0), (''heap_tables'', 0)]))"
    unfolding subtool_analyze_anomalies_def
    by (rule steps, simp only: prod.case, rule steps, simp only: prod.case, rule steps) (simp add: db_return_def)
  moreover have "\<exists>h'. subtool_analyze_datatype_consistency cm db inst d sf h
      = (h', Inr (subtool_of [] [(''fk_datatype_mismatches'', 0)]))"
    unfolding subtool_analyze_datatype_consistency_def by (rule steps) (simp add: db_return_def)
  moreover have "zero_counts (subtool_of [] counts)" if "\<forall>(key, n) \<in> set counts. n = 0" for counts
    using that by (auto simp: zero_counts_def subtool_of_def)
  ultimately show ?thesis using assms(2) by fastforce
qed

section \<open>Concrete runs\<close>

lemma subtools_total:
  "\<exists>h' st. subtool_analyze_indexes cm db inst d sf h = (h', Inr st)"
  "\<exists>h' st. subtool_analyze_normalization cm db inst d sf h = (h', Inr st)"
  "\<exists>h' st. subtool_analyze_anomalies cm db inst d sf h = (h', Inr st)"
  "\<exists>h' st. subtool_analyze_datatype_consistency cm db inst d sf h = (h', Inr st)"
proof -
  have bind: "\<exists>h' st. db_bind (catalog_check cm db inst d q m keep assess) f h = (h', Inr st)"
    if "\<And>p h. \<exists>h' st. f p h = (h', Inr st)" for q m keep assess h and f :: "nat \<times> advice list \<Rightarrow> subtool_result db_op"
    using catalog_check_Inr [of cm db inst d q m keep assess h] that by (auto simp: db_bind_def)
  show "\<exists>h' st. subtool_analyze_indexes cm db inst d sf h = (h', Inr st)"
    unfolding subtool_analyze_indexes_def by (rule bind, clarsimp)+ (simp add: db_return_def)
  show "\<exists>h' st. subtool_analyze_normalization cm db inst d sf h = (h', Inr st)"
    unfolding subtool_analyze_normalization_def by (rule bind) (simp add: db_return_def split: prod.splits)
  show "\<exists>h' st. subtool_analyze_anomalies cm db inst d sf h = (h', Inr st)"
    unfolding subtool_analyze_anomalies_def by (rule bind, clarsimp)+ (simp add: db_return_def)
  show "\<exists>h' st. subtool_analyze_datatype_consistency cm db inst d sf h = (h', Inr st)"
    unfolding subtool_analyze_datatype_consistency_def by (rule bind) (simp add: db_return_def split: prod.splits)
qed

abbreviation example_model_call :: "database \<Rightarrow> server_state \<times> report result" where
  "example_model_call db \<equiv> analyze_db_data_model_tool example_config db example_call ''tool'' ''primary'' 1
     ''master'' None 500 ''bob'' example_state"

theorem model_call_safe_witness:
  "\<exists>e. ss_audit (fst (example_model_call empty_db)) = [e] \<and> ae_tool e = ''tool''"
proof -
  obtain s' r where run: "example_model_call empty_db = (s', r)" by force
  from model_call_safe [OF run] run show ?thesis by (auto simp: catalogue_call_ok_def example_state_def)
qed

theorem model_checks_fail_silently_witness:
  "\<exists>h' st. subtool_analyze_anomalies example_cm refusing_db ''primary'' ''master'' None [] = (h', Inr st) \<and> zero_counts st"
  by (rule model_checks_fail_silently [OF refusing_db_refuses]) simp

lemma empty_model_report: "is_ok (snd (example_model_call empty_db))"
proof -
  let ?t = "start_run example_state ''bob''"
  have edges: "validate_positive_int 500 ''max_edges'' 1 5000 = Inr 500" by code_simp
  obtain t1 where admit: "admit_call example_config example_call ''read'' ?t = (t1, Inr ())"
    using example_admitted by blast
  obtain h where h: "run_catalog example_cm empty_db ''primary'' ''master'' (Inr fk_graph_query) 500
     (ss_history (tr_state t1)) = (h, Inr [])"
    using empty_catalog by blast
  obtain h1 i where i: "subtool_analyze_indexes example_cm empty_db ''primary'' ''master'' None h = (h1, Inr i)"
    using subtools_total(1) by blast
  obtain h2 n where n: "subtool_analyze_normalization example_cm empty_db ''primary'' ''master'' None h1 = (h2, Inr n)"
    using subtools_total(2) by blast
  obtain h3 a where a: "subtool_analyze_anomalies example_cm empty_db ''primary'' ''master'' None h2 = (h3, Inr a)"
    using subtools_total(3) by blast
  obtain h4 dt where dt: "subtool_analyze_datatype_consistency example_cm empty_db ''primary'' ''master'' None h3
     = (h4, Inr dt)"
    using subtools_total(4) by blast
  have "is_ok (graph_advice (build_fk_graph []))" by code_simp
  then obtain as where as: "graph_advice (build_fk_graph []) = Inr as"
    by (cases "graph_advice (build_fk_graph [])") auto
  have "as \<noteq> []" using graph_advice_Inr [OF as] by (auto simp: graph_counts)
  then have "is_ok (snd (analyze_db_data_model_body example_config empty_db example_call ''tool'' ''primary'' 1
     ''master'' None 500 ?t))"
    by (simp add: analyze_db_data_model_body_def example_checks example_config_cm edges tool_bind_def
        tool_return_def admit step_db_def h i n a dt as set_rows_def model_findings_def Let_def)
  then show ?thesis unfolding analyze_db_data_model_tool_def by (rule run_tool_succeeds)
qed

theorem model_report_exact_witness:
  "\<exists>rep. snd (example_model_call empty_db) = Inr rep
     \<and> ''DATA_MODEL_NO_FK_RELATIONSHIPS'' \<in> f_code ` set (rep_findings rep)"
proof -
  obtain s' rep where run: "example_model_call empty_db = (s', Inr rep)"
    using empty_model_report by (cases "example_model_call empty_db"; cases "snd (example_model_call empty_db)") auto
  from model_report_exact [OF run] obtain dn sf' h rows fks codes rest where
    r: "validate_database_name ''master'' = Inr dn"
      "run_catalog (sc_cm example_config) empty_db ''primary'' dn (Inr fk_graph_query) 500 (ss_history example_state) = (h, Inr rows)"
      "fks = filter (concerns sf') rows"
      "codes = (if \<exists>v. (v, v) \<in> (fk_rel (map row_edge fks))\<^sup>+ then [''DATA_MODEL_CIRCULAR_DEPENDENCY''] else [])
        @ (if fks = [] then [''DATA_MODEL_NO_FK_RELATIONSHIPS''] else []) @ rest"
      "map f_code (rep_findings rep) = (if codes = [] then [''DATA_MODEL_NO_MAJOR_ISSUES''] else codes)"
    by (elim exE conjE) (rule that)
  have "dn = ''master''" using r(1) example_checks(1) by simp
  then have "fks = []"
    using r(2,3) empty_catalog [of fk_graph_query 500 "ss_history example_state"] by (auto simp: example_config_cm)
  then have "''DATA_MODEL_NO_FK_RELATIONSHIPS'' \<in> set codes" by (simp add: r(4))
  then have "''DATA_MODEL_NO_FK_RELATIONSHIPS'' \<in> set (map f_code (rep_findings rep))"
    unfolding r(5) by (cases "codes = []") simp_all
  with run show ?thesis by simp
qed

end
