(* ===== verification/Security_Report.thy ===== *)
theory Security_Report
  imports Report_Tools
begin

text \<open>
  The \<open>analyze_sec_config\<close> tool of \<open>src/tools/sql_tools.py\<close>: orphan users, elevated roles, backups
  and \<open>xp_cmdshell\<close>.  Only the last check tolerates a failing statement.
\<close>

section \<open>The checks\<close>

definition xp_cmdshell_sql :: string where
  "xp_cmdshell_sql = ''SELECT CAST(value_in_use AS INT) AS value_in_use FROM sys.configurations WHERE name = ''
     @ [squote] @ ''xp_cmdshell'' @ [squote]"

definition xp_cmdshell_check ::
  "connection_manager \<Rightarrow> database \<Rightarrow> string \<Rightarrow> bool \<Rightarrow> (bool \<times> string option) db_op" where
  "xp_cmdshell_check cm db inst include_server_scope =
     (if \<not> include_server_scope then db_return (Inr (False, None))
      else db_try (run_catalog cm db inst ''master'' (Inr xp_cmdshell_sql) 1)
        (\<lambda>exc. db_return (Inr (False, Some (exc_text exc))))
        (\<lambda>rows. db_return (Inr
           (if rows = [] then (False, None)
            else case py_int (row_get_or (hd rows) ''value_in_use'' (VInt 0)) of
                Inr n \<Rightarrow> (n = 1, None) | Inl exc \<Rightarrow> (False, Some (exc_text exc))))))"

definition orphan_advice :: "row list \<Rightarrow> advice result" where
  "orphan_advice rows =
     advise ''SEC_ORPHAN_USERS'' ''medium'' ''Orphan database users detected''
       ''Users exist without matching server principals.'' (redact_sensitive_fields (take 20 rows))
       ''medium'' ''Remap or remove orphan users.''
       ''Orphan users create access ambiguity and incident response overhead.''"

definition elevated_advice :: "row list \<Rightarrow> advice result" where
  "elevated_advice rows =
     advise ''SEC_ELEVATED_ROLE_MEMBERS'' ''high'' ''Elevated database role memberships found''
       ''High-privilege role assignments should be periodically reviewed.''
       (redact_sensitive_fields (take 30 rows))
       ''high'' ''Review and minimize elevated role memberships.''
       ''Least-privilege alignment reduces blast radius.''"

definition xp_cmdshell_advice :: "advice result" where
  "xp_cmdshell_advice =
     advise ''SEC_XP_CMDSHELL_ENABLED'' ''critical'' ''xp_cmdshell is enabled''
       ''xp_cmdshell increases remote-command execution risk on SQL hosts.''
       [[(''name'', VStr ''xp_cmdshell''), (''value_in_use'', VInt 1)]]
       ''critical'' ''Disable xp_cmdshell unless explicitly required and approved.''
       ''Disabling reduces command-injection blast radius.''"

definition security_advice :: "row list \<Rightarrow> row list \<Rightarrow> bool \<Rightarrow> advice list result" where
  "security_advice orphan_users elevated_roles xp_cmdshell_reported =
     bind_res (section_for orphan_users orphan_advice) (\<lambda>a1.
     bind_res (section_for elevated_roles elevated_advice) (\<lambda>a2.
     bind_res (if xp_cmdshell_reported then bind_res xp_cmdshell_advice (\<lambda>a. Inr [a]) else Inr []) (\<lambda>a3.
     Inr (a1 @ a2 @ a3))))"

definition security_findings :: "finding list \<Rightarrow> finding list result" where
  "security_findings findings =
     (if findings \<noteq> [] then Inr findings
      else bind_res (build_finding ''SEC_CONFIG_NO_MAJOR_ISSUES'' ''info''
        ''No major security/configuration issues detected''
        ''Current security checks did not identify critical/high findings.'' []) (\<lambda>f. Inr [f]))"

section \<open>The tool\<close>

definition security_summary ::
  "bool \<Rightarrow> string option \<Rightarrow> row list \<Rightarrow> row list \<Rightarrow> row list \<Rightarrow> recommendation list \<Rightarrow> row" where
  "security_summary xp_cmdshell_enabled xp_cmdshell_error orphan_users elevated_roles backup_rows recommendations =
     [(''server_security'', VDict [(''xp_cmdshell_enabled'', VBool xp_cmdshell_enabled),
         (''xp_cmdshell_check_error'', case xp_cmdshell_error of None \<Rightarrow> VNone | Some e \<Rightarrow> VStr e)]),
      (''database_security'', VDict [(''orphan_user_count'', VInt (int (length orphan_users))),
         (''elevated_role_memberships'', VInt (int (length elevated_roles)))]),
      (''audit_backup'', VDict [(''backup_recency_rows'', VInt (int (length backup_rows)))]),
      (''hardening_actions'', VInt (int (length recommendations)))]"

definition analyze_sec_config_body ::
  "server_config \<Rightarrow> database \<Rightarrow> call_context \<Rightarrow> string \<Rightarrow> string \<Rightarrow> int \<Rightarrow> string \<Rightarrow> bool \<Rightarrow> report tool_op" where
  "analyze_sec_config_body cfg db cc tool inst instance_number database_name include_server_scope =
     tool_bind (tool_return (validate_database_name database_name)) (\<lambda>db_name.
     tool_bind (admit_call cfg cc ''read'') (\<lambda>_.
     tool_bind (tool_return (enforce (sc_guard cfg) tool ''SELECT 1'')) (\<lambda>_.
     tool_bind (step_db (run_catalog (sc_cm cfg) db inst db_name (Inr orphan_user_query) 200)) (\<lambda>orphan_users.
     tool_bind (step_db (run_catalog (sc_cm cfg) db inst db_name (Inr elevated_roles_query) 500)) (\<lambda>elevated_roles.
     tool_bind (step_db (run_catalog (sc_cm cfg) db inst ''master'' (Inr backup_recency_query) 200)) (\<lambda>backup_rows.
     tool_bind (step_db (xp_cmdshell_check (sc_cm cfg) db inst include_server_scope)) (\<lambda>(xp_enabled, xp_error).
     tool_bind (tool_return (security_advice orphan_users elevated_roles (include_server_scope \<and> xp_enabled)))
       (\<lambda>advice.
     let recommendations = map snd advice in
     tool_bind (tool_return (security_findings (map fst advice))) (\<lambda>findings.
     tool_bind (set_rows (length orphan_users + length elevated_roles + length backup_rows)) (\<lambda>_.
     tool_return (Inr (build_report_envelope (cc_utc_now cc) instance_number db_name tool
       (security_summary xp_enabled xp_error orphan_users elevated_roles backup_rows recommendations)
       findings recommendations))))))))))))"

definition analyze_sec_config_tool ::
  "server_config \<Rightarrow> database \<Rightarrow> call_context \<Rightarrow> string \<Rightarrow> string \<Rightarrow> int \<Rightarrow> string \<Rightarrow> bool \<Rightarrow> string
     \<Rightarrow> server_state \<Rightarrow> server_state \<times> report result" where
  "analyze_sec_config_tool cfg db cc tool inst instance_number database_name include_server_scope actor s =
     run_tool (wrap_errors {ValueErr, PermissionErr}) cc tool inst ''ANALYZE_SEC_CONFIG'' actor
       (analyze_sec_config_body cfg db cc tool inst instance_number database_name include_server_scope) s"

section \<open>A call of the tool\<close>

definition security_statements :: "string set" where
  "security_statements = {orphan_user_query, elevated_roles_query, backup_recency_query, xp_cmdshell_sql}"

lemma xp_check_reads [reads_only_ops]: "reads_only security_statements (xp_cmdshell_check cm db inst scope)"
  unfolding xp_cmdshell_check_def
  by (intro reads_only_ops reads_only_catalog) (simp add: security_statements_def)

lemma quiet_security_body: "quiet (analyze_sec_config_body cfg db cc tool inst nr d scope)"
  unfolding analyze_sec_config_body_def Let_def by (intro quiet_ops)

lemma security_body_reads: "tool_reads security_statements (analyze_sec_config_body cfg db cc tool inst nr d scope)"
  unfolding analyze_sec_config_body_def Let_def
  by (intro tool_reads_bind tool_reads_case_prod tool_reads_db xp_check_reads reads_only_catalog
      tool_reads_silent silent_ops) (simp_all add: security_statements_def)

lemma security_body_used:
  assumes "sent (fst (analyze_sec_config_body cfg db cc tool inst nr d scope t)) \<noteq> sent t"
  shows "admitted cfg cc ''read'' (run_actor t) (tr_state t)"
  using assms unfolding analyze_sec_config_body_def
  by (drule_tac used_return, elim exE conjE, drule_tac used_admit, blast)

lemma security_call_safe:
  assumes "analyze_sec_config_tool cfg db cc tool inst nr d scope actor s = (s', r)"
  shows "catalogue_call_ok cfg cc tool actor security_statements (is_ok r) s s'"
  using run_catalogue_call [OF quiet_security_body security_body_reads _ assms [unfolded analyze_sec_config_tool_def]]
    security_body_used by blast

section \<open>What the report says\<close>

text \<open>No value under a sensitive name is left in the evidence.\<close>

definition evidence_redacted :: "finding \<Rightarrow> bool" where
  "evidence_redacted f \<longleftrightarrow> (\<forall>r \<in> set (f_evidence f). \<forall>(key, v) \<in> set r. sensitive_key key \<longrightarrow> v = redacted)"

lemma redacted_rows: "r \<in> set (redact_sensitive_fields rows) \<Longrightarrow> (key, v) \<in> set r \<Longrightarrow> sensitive_key key \<Longrightarrow> v = redacted"
  by (auto simp: redact_sensitive_fields_def redact_row_def split: if_splits)

lemma advise_fields:
  "advise code severity title detail evidence priority action rationale = Inr a \<Longrightarrow>
   f_code (fst a) = code \<and> f_evidence (fst a) = evidence"
  by (auto simp: advise_def build_finding_def bind_res_Inr)

definition safe_advice :: "advice \<Rightarrow> bool" where
  "safe_advice a \<longleftrightarrow> matched (f_code (fst a)) a \<and> evidence_redacted (fst a)"

lemma advise_safe:
  assumes "advise code severity title detail evidence severity action rationale = Inr a"
    and "\<And>r key v. r \<in> set evidence \<Longrightarrow> (key, v) \<in> set r \<Longrightarrow> sensitive_key key \<Longrightarrow> v = redacted"
  shows "f_code (fst a) = code \<and> safe_advice a"
  using advise_matched [OF assms(1)] advise_fields [OF assms(1)] assms(2)
  by (auto simp: safe_advice_def evidence_redacted_def)

lemma plain_keys: "\<not> sensitive_key ''name''" "\<not> sensitive_key ''value_in_use''"
  by code_simp+

lemma security_advice_safe:
  "orphan_advice rows = Inr a \<Longrightarrow> f_code (fst a) = ''SEC_ORPHAN_USERS'' \<and> safe_advice a"
  "elevated_advice rows = Inr a \<Longrightarrow> f_code (fst a) = ''SEC_ELEVATED_ROLE_MEMBERS'' \<and> safe_advice a"
  "xp_cmdshell_advice = Inr a \<Longrightarrow> f_code (fst a) = ''SEC_XP_CMDSHELL_ENABLED'' \<and> safe_advice a"
  unfolding orphan_advice_def elevated_advice_def xp_cmdshell_advice_def
  by (erule advise_safe, (erule (2) redacted_rows)?)+ (auto simp: plain_keys)

lemma security_advice_Inr:
  assumes "security_advice orphans elevated xp = Inr as"
  shows "map (f_code \<circ> fst) as = (if orphans = [] then [] else [''SEC_ORPHAN_USERS''])
      @ (if elevated = [] then [] else [''SEC_ELEVATED_ROLE_MEMBERS''])
      @ (if xp then [''SEC_XP_CMDSHELL_ENABLED''] else [])
    \<and> list_all safe_advice as"
  using assms
  by (auto simp: security_advice_def bind_res_Inr section_for_Inr dest!: security_advice_safe split: if_splits)

lemma security_findings_Inr:
  "security_findings fs = Inr fs' \<Longrightarrow>
     if fs \<noteq> [] then fs' = fs
     else \<exists>f. fs' = [f] \<and> f_code f = ''SEC_CONFIG_NO_MAJOR_ISSUES'' \<and> f_severity f = ''info'' \<and> f_evidence f = []"
  by (auto simp: security_findings_def build_finding_def split: if_splits)

lemma security_body_Inr:
  assumes "analyze_sec_config_body cfg db cc tool inst nr d scope t = (t', Inr rep)"
  shows "\<exists>dn h1 h2 h3 h4 orphans elevated backups enabled err as.
     run_catalog (sc_cm cfg) db inst dn (Inr orphan_user_query) 200 h1 = (h2, Inr orphans)
     \<and> run_catalog (sc_cm cfg) db inst dn (Inr elevated_roles_query) 500 h2 = (h3, Inr elevated)
     \<and> run_catalog (sc_cm cfg) db inst ''master'' (Inr backup_recency_query) 200 h3 = (h4, Inr backups)
     \<and> (\<exists>h5. xp_cmdshell_check (sc_cm cfg) db inst scope h4 = (h5, Inr (enabled, err)))
     \<and> security_advice orphans elevated (scope \<and> enabled) = Inr as
     \<and> security_findings (map fst as) = Inr (rep_findings rep)
     \<and> rep_recommendations rep = map snd as
     \<and> rep_summary rep = security_summary enabled err orphans elevated backups (map snd as)"
  using assms unfolding analyze_sec_config_body_def
  by (clarsimp simp: tool_bind_def tool_return_def step_db_def Let_def split: prod.splits sum.splits) blast

lemma xp_check_scope:
  "xp_cmdshell_check cm db inst scope h = (h', Inr (enabled, err)) \<Longrightarrow> enabled \<Longrightarrow> scope"
  by (auto simp: xp_cmdshell_check_def db_return_def split: if_splits)

text \<open>
  C33: a security report names orphan users, elevated roles and \<open>xp_cmdshell\<close> exactly when the rows
  read or the check of the server say so; no value under a sensitive name appears in its evidence;
  every finding but the all-clear has a recommendation of the same urgency, and the number of
  hardening actions is the number of those findings.
\<close>

theorem security_report_exact:
  assumes "analyze_sec_config_tool cfg db cc tool inst nr d scope actor s = (s', Inr rep)"
  shows "\<exists>dn h1 h2 h3 h4 h5 orphans elevated backups enabled err hardening.
      run_catalog (sc_cm cfg) db inst dn (Inr orphan_user_query) 200 h1 = (h2, Inr orphans)
    \<and> run_catalog (sc_cm cfg) db inst dn (Inr elevated_roles_query) 500 h2 = (h3, Inr elevated)
    \<and> run_catalog (sc_cm cfg) db inst ''master'' (Inr backup_recency_query) 200 h3 = (h4, Inr backups)
    \<and> xp_cmdshell_check (sc_cm cfg) db inst scope h4 = (h5, Inr (enabled, err))
    \<and> rep_summary rep = security_summary enabled err orphans elevated backups (rep_recommendations rep)
    \<and> hardening = (if orphans = [] then [] else [''SEC_ORPHAN_USERS''])
      @ (if elevated = [] then [] else [''SEC_ELEVATED_ROLE_MEMBERS''])
      @ (if enabled then [''SEC_XP_CMDSHELL_ENABLED''] else [])
    \<and> (enabled \<longrightarrow> scope)
    \<and> map f_code (rep_findings rep) = (if hardening = [] then [''SEC_CONFIG_NO_MAJOR_ISSUES''] else hardening)
    \<and> length (rep_recommendations rep) = length hardening
    \<and> (hardening \<noteq> [] \<longrightarrow> map r_priority (rep_recommendations rep) = map f_severity (rep_findings rep))
    \<and> (\<forall>f \<in> set (rep_findings rep). evidence_redacted f)"
proof -
  obtain t t' where "analyze_sec_config_body cfg db cc tool inst nr d scope t = (t', Inr rep)"
    using run_tool_Inr [OF assms [unfolded analyze_sec_config_tool_def]] by blast
  from security_body_Inr [OF this] obtain dn h1 h2 h3 h4 h5 orphans elevated backups enabled err as where
    rows: "run_catalog (sc_cm cfg) db inst dn (Inr orphan_user_query) 200 h1 = (h2, Inr orphans)"
      "run_catalog (sc_cm cfg) db inst dn (Inr elevated_roles_query) 500 h2 = (h3, Inr elevated)"
      "run_catalog (sc_cm cfg) db inst ''master'' (Inr backup_recency_query) 200 h3 = (h4, Inr backups)" and
    xp: "xp_cmdshell_check (sc_cm cfg) db inst scope h4 = (h5, Inr (enabled, err))" and
    as: "security_advice orphans elevated (scope \<and> enabled) = Inr as" and
    fs: "security_findings (map fst as) = Inr (rep_findings rep)" and
    rs: "rep_recommendations rep = map snd as"
      "rep_summary rep = security_summary enabled err orphans elevated backups (map snd as)"
    by blast
  have scope: "(scope \<and> enabled) = enabled" using xp_check_scope [OF xp] by blast
  define hardening where "hardening = (if orphans = [] then [] else [''SEC_ORPHAN_USERS''])
      @ (if elevated = [] then [] else [''SEC_ELEVATED_ROLE_MEMBERS''])
      @ (if enabled then [''SEC_XP_CMDSHELL_ENABLED''] else [])"
  have codes: "map (f_code \<circ> fst) as = hardening" and safe: "list_all safe_advice as"
    using security_advice_Inr [OF as] unfolding scope hardening_def by blast+
  then have empty: "as = [] \<longleftrightarrow> hardening = []" by auto
  have pairs: "map (r_priority \<circ> snd) as = map (f_severity \<circ> fst) as" "\<forall>a \<in> set as. evidence_redacted (fst a)"
    using safe by (auto simp: list_all_iff safe_advice_def matched_def)
  have len: "length as = length hardening" using codes by (metis length_map)
  have all: "if as = [] then \<exists>f. rep_findings rep = [f] \<and> f_code f = ''SEC_CONFIG_NO_MAJOR_ISSUES'' \<and> f_evidence f = []
      else rep_findings rep = map fst as"
    using security_findings_Inr [OF fs] by (auto split: if_splits)
  show ?thesis
  proof (intro exI conjI)
    show "run_catalog (sc_cm cfg) db inst dn (Inr orphan_user_query) 200 h1 = (h2, Inr orphans)"
      "run_catalog (sc_cm cfg) db inst dn (Inr elevated_roles_query) 500 h2 = (h3, Inr elevated)"
      "run_catalog (sc_cm cfg) db inst ''master'' (Inr backup_recency_query) 200 h3 = (h4, Inr backups)"
      "xp_cmdshell_check (sc_cm cfg) db inst scope h4 = (h5, Inr (enabled, err))"
      by (rule rows xp)+
    show "rep_summary rep = security_summary enabled err orphans elevated backups (rep_recommendations rep)"
      by (simp add: rs)
    show "hardening = (if orphans = [] then [] else [''SEC_ORPHAN_USERS''])
      @ (if elevated = [] then [] else [''SEC_ELEVATED_ROLE_MEMBERS''])
      @ (if enabled then [''SEC_XP_CMDSHELL_ENABLED''] else [])"
      by (rule hardening_def)
    show "enabled \<longrightarrow> scope" using scope by blast
    show "map f_code (rep_findings rep) = (if hardening = [] then [''SEC_CONFIG_NO_MAJOR_ISSUES''] else hardening)"
      using all empty codes by (auto split: if_splits)
    show "length (rep_recommendations rep) = length hardening" using len by (simp add: rs)
    show "hardening \<noteq> [] \<longrightarrow> map r_priority (rep_recommendations rep) = map f_severity (rep_findings rep)"
      using all empty pairs(1) by (auto simp: rs split: if_splits)
    show "\<forall>f \<in> set (rep_findings rep). evidence_redacted f"
      using all pairs(2) by (auto simp: evidence_redacted_def split: if_splits)
  qed
qed

abbreviation example_security_call :: "database \<Rightarrow> server_state \<times> report result" where
  "example_security_call db \<equiv> analyze_sec_config_tool example_config db example_call ''tool'' ''primary'' 1
     ''master'' True ''bob'' example_state"

lemma empty_security_report: "is_ok (snd (example_security_call empty_db))"
proof -
  let ?t = "start_run example_state ''bob''"
  obtain t1 where admit: "admit_call example_config example_call ''read'' ?t = (t1, Inr ())"
    using example_admitted by blast
  have read: "\<exists>h'. run_catalog example_cm empty_db ''primary'' ''master'' (Inr sql) m h = (h', Inr [])" for sql m h
    by (rule empty_catalog)
  obtain h1 where h1: "run_catalog example_cm empty_db ''primary'' ''master'' (Inr orphan_user_query) 200
     (ss_history (tr_state t1)) = (h1, Inr [])" using read by blast
  obtain h2 where h2: "run_catalog example_cm empty_db ''primary'' ''master'' (Inr elevated_roles_query) 500 h1
     = (h2, Inr [])" using read by blast
  obtain h3 where h3: "run_catalog example_cm empty_db ''primary'' ''master'' (Inr backup_recency_query) 200 h2
     = (h3, Inr [])" using read by blast
  obtain h4 where h4: "run_catalog example_cm empty_db ''primary'' ''master'' (Inr xp_cmdshell_sql) 1 h3
     = (h4, Inr [])" using read by blast
  have "is_ok (snd (analyze_sec_config_body example_config empty_db example_call ''tool'' ''primary'' 1 ''master'' True ?t))"
    by (simp add: analyze_sec_config_body_def example_checks example_config_cm tool_bind_def tool_return_def admit
        step_db_def h1 h2 h3 h4 xp_cmdshell_check_def db_try_def db_return_def security_advice_def section_for_def
        security_findings_def build_finding_def set_rows_def Let_def)
  then show ?thesis unfolding analyze_sec_config_tool_def by (rule run_tool_succeeds)
qed

theorem security_report_exact_witness:
  "\<exists>rep. snd (example_security_call empty_db) = Inr rep \<and> rep_findings rep \<noteq> []"
proof -
  obtain s' rep where run: "example_security_call empty_db = (s', Inr rep)"
    using empty_security_report
    by (cases "example_security_call empty_db"; cases "snd (example_security_call empty_db)") auto
  from security_report_exact [OF run] obtain hardening where
    "map f_code (rep_findings rep) = (if hardening = [] then [''SEC_CONFIG_NO_MAJOR_ISSUES''] else hardening)"
    by metis
  then have "rep_findings rep \<noteq> []" by (cases "hardening = []") auto
  with run show ?thesis by simp
qed

end
