(* ===== verification/Table_Health.thy ===== *)
theory Table_Health
  imports Report_Tools
begin

text \<open>
  The \<open>analyze_tab_health\<close> tool of \<open>src/tools/sql_tools.py\<close>: table sizes, fragmented indexes,
  missing keys and the state of the statistics.

  The record \<open>number_context\<close> holds what the tool takes from the interpreter: \<open>float_text\<close> is \<open>float\<close>
  on text (\<open>None\<close> where it raises), \<open>utc_seconds\<close> the moment a value denotes
  (\<open>_parse_utc_datetime\<close>, \<open>None\<close> if it denotes none), \<open>now_seconds\<close> the clock and \<open>rounded\<close> the
  float that \<open>round(x, n)\<close> gives.  Other arithmetic on floats is exact, with the decimal
  constants as rational numbers.
\<close>

section \<open>Statistics\<close>

record number_context =
  float_text :: "string \<Rightarrow> real option"
  utc_seconds :: "pyval \<Rightarrow> real option"
  now_seconds :: real
  rounded :: "real \<Rightarrow> nat \<Rightarrow> pyval"

definition safe_float :: "number_context \<Rightarrow> pyval \<Rightarrow> real" where
  "safe_float nc v = (case v of VBool b \<Rightarrow> if b then 1 else 0 | VInt i \<Rightarrow> of_int i | VFloat r _ \<Rightarrow> r
     | VStr s \<Rightarrow> (case float_text nc s of Some x \<Rightarrow> x | None \<Rightarrow> 0) | _ \<Rightarrow> 0)"

definition filter_rows_by_schema_table :: "row list \<Rightarrow> string option \<Rightarrow> string option \<Rightarrow> row list" where
  "filter_rows_by_schema_table rows schema_name table_name =
     (let pick = (\<lambda>key wanted rows. case wanted of None \<Rightarrow> rows
            | Some s \<Rightarrow> if s = [] then rows else filter (\<lambda>r. py_lower (text_of r key) = py_lower s) rows)
      in pick ''table_name'' table_name (pick ''schema_name'' schema_name rows))"

text \<open>\<open>(now - last_updated).days\<close>\<close>

definition days_since_update :: "number_context \<Rightarrow> row \<Rightarrow> int option" where
  "days_since_update nc r =
     map_option (\<lambda>t. \<lfloor>(now_seconds nc - t) / 86400\<rfloor>) (utc_seconds nc (row_get r ''last_updated''))"

definition older_than :: "int \<Rightarrow> int option \<Rightarrow> bool" where
  "older_than n days = (case days of None \<Rightarrow> False | Some d \<Rightarrow> n \<le> d)"

definition enrich :: "row \<Rightarrow> (string \<times> pyval) list \<Rightarrow> row" where
  "enrich r additions = foldl (\<lambda>r (key, v). dict_set key v r) r additions"

definition classify_stale_statistics_row :: "number_context \<Rightarrow> row \<Rightarrow> row option" where
  "classify_stale_statistics_row nc r =
     (let rows_total = safe_float nc (row_get r ''rows'');
          modification_counter = safe_float nc (row_get r ''modification_counter'');
          days = days_since_update nc r;
          is_stale = (modification_counter \<ge> max 500 (1 / 5 * rows_total) \<or> older_than 30 days);
          is_high = (modification_counter \<ge> max 20000 (7 / 20 * rows_total)
            \<or> older_than 90 days \<and> rows_total \<ge> 100000)
      in if rows_total < 1000 then None
         else if \<not> is_stale then None
         else Some (enrich r
           [(''severity'', VStr (if is_high then ''high'' else ''medium'')),
            (''modification_ratio'', rounded nc (modification_counter / rows_total) 4),
            (''days_since_update'', case days of None \<Rightarrow> VNone | Some d \<Rightarrow> VInt d)]))"

definition classify_low_sample_statistics_row :: "number_context \<Rightarrow> row \<Rightarrow> row option" where
  "classify_low_sample_statistics_row nc r =
     (let rows_total = safe_float nc (row_get r ''rows'');
          rows_sampled = safe_float nc (row_get r ''rows_sampled'');
          sample_ratio = rows_sampled / rows_total
      in if rows_total < 10000 then None
         else if sample_ratio \<ge> 1 / 10 then None
         else Some (enrich r
           [(''severity'', VStr (if sample_ratio < 1 / 100 then ''high'' else ''medium'')),
            (''sample_ratio'', rounded nc sample_ratio 4)]))"

section \<open>Findings\<close>

definition severity_if :: "bool \<Rightarrow> string" where
  "severity_if high = (if high then ''high'' else ''medium'')"

definition fragmented_advice :: "row list \<Rightarrow> advice result" where
  "fragmented_advice rows =
     advise ''TAB_HEALTH_FRAGMENTED_INDEXES'' ''high'' ''High index fragmentation detected''
       ''One or more indexes exceed healthy fragmentation levels.'' (take 10 rows)
       ''high'' ''Rebuild/reorganize top fragmented indexes during maintenance windows.''
       (''Highest observed fragmentation: '' @ py_str (row_get (hd rows) ''avg_fragmentation_in_percent'') @ ''%'')"

definition missing_pk_advice :: "row list \<Rightarrow> advice result" where
  "missing_pk_advice rows =
     advise ''TAB_HEALTH_MISSING_PRIMARY_KEY'' ''medium'' ''Tables without primary keys''
       ''Detected tables lacking primary key constraints.'' (take 10 rows)
       ''medium'' ''Define primary keys for unconstrained tables.''
       ''Primary keys improve integrity, optimizer quality, and replication behavior.''"

definition rated_high :: "row \<Rightarrow> bool" where
  "rated_high r = (row_get r ''severity'' = VStr ''high'')"

definition stale_advice :: "row list \<Rightarrow> advice result" where
  "stale_advice classified =
     (let sev = severity_if (list_ex rated_high classified) in
      advise ''TAB_HEALTH_STALE_STATISTICS'' sev ''Potentially stale statistics detected''
        (''Statistics show high change volume or extended age since last update, '' @
         ''which can degrade cardinality estimates and plan quality.'') (take 10 classified)
        sev
        ''Refresh stale statistics for the listed objects during a planned maintenance window.''
        (''Reducing statistics staleness improves cardinality estimates and lowers '' @
         ''plan-regression risk.''))"

definition large_table :: "number_context \<Rightarrow> string \<Rightarrow> row \<Rightarrow> bool" where
  "large_table nc key r = (safe_float nc (row_get r key) \<ge> 100000)"

definition never_updated_advice :: "number_context \<Rightarrow> row list \<Rightarrow> advice result" where
  "never_updated_advice nc rows =
     (let sev = severity_if (list_ex (large_table nc ''rows'') rows) in
      advise ''TAB_HEALTH_STATS_NEVER_UPDATED'' sev ''Statistics with no update history detected''
        (''Some user-table statistics report no last-updated timestamp, indicating they may be '' @
         ''uninitialized or stale.'') (take 10 rows)
        sev
        ''Review auto stats behavior and refresh the listed statistics for active large tables.''
        ''Uninitialized statistics can produce poor row estimates and unstable query plans.'')"

definition low_sample_advice :: "row list \<Rightarrow> advice result" where
  "low_sample_advice classified =
     (let sev = severity_if (list_ex rated_high classified) in
      advise ''TAB_HEALTH_STATS_LOW_SAMPLE_RATIO'' sev ''Low statistics sample ratio detected''
        ''Some statistics were built from weak samples, which can reduce histogram quality.''
        (take 10 classified)
        sev
        (''Consider higher-quality statistics updates (for example, larger sampling or fullscan) '' @
         ''on critical tables.'')
        (''Higher sample quality improves histogram fidelity and plan stability for skewed '' @
         ''distributions.''))"

definition auto_on :: "row \<Rightarrow> string \<Rightarrow> int \<Rightarrow> bool" where
  "auto_on settings_row key fallback = truthy (row_get_or settings_row key (VInt fallback))"

definition settings_flags :: "row \<Rightarrow> (string \<times> pyval) list" where
  "settings_flags settings_row =
     [(''auto_create_statistics_on'', VBool (auto_on settings_row ''auto_create_statistics_on'' 1)),
      (''auto_update_statistics_on'', VBool (auto_on settings_row ''auto_update_statistics_on'' 1)),
      (''auto_update_statistics_async_on'', VBool (auto_on settings_row ''auto_update_statistics_async_on'' 0))]"

definition auto_settings_advice :: "string \<Rightarrow> row \<Rightarrow> advice result" where
  "auto_settings_advice db_name settings_row =
     (let sev = severity_if (\<not> auto_on settings_row ''auto_update_statistics_on'' 1) in
      advise ''TAB_HEALTH_STATS_AUTO_SETTINGS_DISABLED'' sev
        ''Database automatic statistics settings may increase risk''
        ''AUTO_CREATE_STATISTICS or AUTO_UPDATE_STATISTICS is disabled for this database.''
        [(''database_name'', row_get_or settings_row ''database_name'' (VStr db_name)) # settings_flags settings_row]
        sev
        ''Review database auto statistics settings and align with workload requirements.''
        ''Disabled automatic statistics maintenance can increase plan-quality drift over time.'')"

definition coverage_advice :: "number_context \<Rightarrow> row list \<Rightarrow> advice result" where
  "coverage_advice nc rows =
     (let sev = severity_if (list_ex (large_table nc ''row_count'') rows) in
      advise ''TAB_HEALTH_STATS_COVERAGE_HEURISTIC'' sev
        ''Tables with limited statistics coverage (heuristic)''
        (''Metadata suggests some tables have no usable user-table statistics. '' @
         ''This is heuristic analysis and not execution-plan verified.'') (take 10 rows)
        sev
        (''Review statistics coverage for listed tables and refresh/create relevant statistics '' @
         ''during maintenance windows.'')
        (''Insufficient statistics coverage can reduce optimizer accuracy for join and '' @
         ''predicate cardinality.''))"

definition skew_advice :: "row list \<Rightarrow> advice result" where
  "skew_advice histogram_evidence =
     advise ''TAB_HEALTH_STATS_HISTOGRAM_SKEW'' ''medium'' ''Histogram skew indicators detected''
       (''Opt-in histogram inspection found strongly skewed distributions in selected '' @ ''statistics.'')
       (take 10 histogram_evidence)
       ''medium''
       (''Refresh skewed statistics and review parameter-sensitive query paths for the '' @
        ''listed objects.'')
       (''Large histogram skew can increase cardinality-estimation errors for selective '' @
        ''predicates.'')"

section \<open>Histograms\<close>

definition skew_of :: "number_context \<Rightarrow> row list \<Rightarrow> real \<times> real \<times> real" where
  "skew_of nc histogram_rows =
     (let equal_values = map (\<lambda>step. safe_float nc (row_get step ''equal_rows'')) histogram_rows;
          avg_equal = sum_list equal_values / real (length equal_values);
          max_equal = foldr max (tl equal_values) (hd equal_values)
      in (max_equal, avg_equal,
          if avg_equal > 0 then max_equal / avg_equal else if max_equal > 0 then 999 else 0))"

definition skew_evidence :: "number_context \<Rightarrow> row \<Rightarrow> row list \<Rightarrow> row list" where
  "skew_evidence nc candidate histogram_rows =
     (if histogram_rows = [] then []
      else case skew_of nc histogram_rows of (max_equal, avg_equal, skew_ratio) \<Rightarrow>
        if skew_ratio < 10 then []
        else [[(''schema_name'', VStr (text_of candidate ''schema_name'')),
               (''table_name'', VStr (text_of candidate ''table_name'')),
               (''stat_name'', VStr (text_of candidate ''stat_name'')),
               (''histogram_step_count'', VInt (int (length histogram_rows))),
               (''equal_rows_max'', rounded nc max_equal 2), (''equal_rows_avg'', rounded nc avg_equal 2),
               (''skew_ratio'', rounded nc skew_ratio 2)]])"

fun histogram_scan ::
  "number_context \<Rightarrow> connection_manager \<Rightarrow> database \<Rightarrow> string \<Rightarrow> string \<Rightarrow> row list \<Rightarrow> row list db_op" where
  "histogram_scan nc cm db inst db_name [] = db_return (Inr [])"
| "histogram_scan nc cm db inst db_name (candidate # candidates) =
     (let schema_value = text_of candidate ''schema_name'';
          table_value = text_of candidate ''table_name'';
          stat_value = text_of candidate ''stat_name''
      in if schema_value = [] \<or> table_value = [] \<or> stat_value = []
         then histogram_scan nc cm db inst db_name candidates
         else db_bind (run_catalog cm db inst db_name
                (Inr (statistics_histogram_query schema_value table_value stat_value)) 200) (\<lambda>histogram_rows.
              db_bind (histogram_scan nc cm db inst db_name candidates) (\<lambda>evidence.
              db_return (Inr (skew_evidence nc candidate histogram_rows @ evidence)))))"

section \<open>The tool\<close>

text \<open>The rows the catalogue gives, before and after the filter on schema and table.\<close>

record table_metrics =
  m_sizes :: "row list"
  m_fragmented :: "row list"
  m_missing_pk :: "row list"
  m_stale :: "row list"
  m_never_updated :: "row list"
  m_low_sampled :: "row list"
  m_settings :: "row list"
  m_coverage :: "row list"

definition rows_if :: "bool \<Rightarrow> row list db_op \<Rightarrow> row list db_op" where
  "rows_if wanted op = (if wanted then op else db_return (Inr []))"

definition collect_table_metrics ::
  "connection_manager \<Rightarrow> database \<Rightarrow> string \<Rightarrow> string \<Rightarrow> bool \<Rightarrow> bool \<Rightarrow> int \<Rightarrow> table_metrics db_op" where
  "collect_table_metrics cm db inst db_name include_indexes include_statistics size' =
     (let catalog = run_catalog cm db inst db_name; limit = VInt size' in
      db_bind (catalog (table_size_query limit) size') (\<lambda>table_sizes.
      db_bind (rows_if include_indexes (catalog (fragmented_indexes_query limit) size')) (\<lambda>fragmented.
      db_bind (catalog (Inr missing_pk_query) size') (\<lambda>missing_pk.
      db_bind (rows_if include_statistics (catalog (stale_statistics_query limit) size')) (\<lambda>stale_stats.
      db_bind (rows_if include_statistics (catalog (statistics_never_updated_query limit) size')) (\<lambda>never_updated_stats.
      db_bind (rows_if include_statistics (catalog (low_sampled_statistics_query limit) size')) (\<lambda>low_sampled_stats.
      db_bind (rows_if include_statistics (catalog (Inr database_statistics_settings_query) 1)) (\<lambda>db_stats_settings.
      db_bind (rows_if include_statistics (catalog (missing_statistics_coverage_candidate_query limit) size'))
        (\<lambda>missing_stats_coverage.
      db_return (Inr \<lparr>m_sizes = table_sizes, m_fragmented = fragmented, m_missing_pk = missing_pk,
        m_stale = stale_stats, m_never_updated = never_updated_stats, m_low_sampled = low_sampled_stats,
        m_settings = db_stats_settings, m_coverage = missing_stats_coverage\<rparr>))))))))))"

definition filter_metrics :: "string option \<Rightarrow> string option \<Rightarrow> table_metrics \<Rightarrow> table_metrics" where
  "filter_metrics schema_name table_name m =
     (let pick = (\<lambda>rows. filter_rows_by_schema_table rows schema_name table_name) in
      m\<lparr>m_sizes := pick (m_sizes m), m_fragmented := pick (m_fragmented m), m_missing_pk := pick (m_missing_pk m),
        m_stale := pick (m_stale m), m_never_updated := pick (m_never_updated m),
        m_low_sampled := pick (m_low_sampled m), m_coverage := pick (m_coverage m)\<rparr>)"

definition settings_row_of :: "table_metrics \<Rightarrow> row" where
  "settings_row_of m = (if m_settings m = [] then [] else hd (m_settings m))"

definition classified_stale :: "number_context \<Rightarrow> table_metrics \<Rightarrow> row list" where
  "classified_stale nc m = List.map_filter (classify_stale_statistics_row nc) (m_stale m)"

definition classified_low_sample :: "number_context \<Rightarrow> table_metrics \<Rightarrow> row list" where
  "classified_low_sample nc m = List.map_filter (classify_low_sample_statistics_row nc) (m_low_sampled m)"

definition table_advice ::
  "number_context \<Rightarrow> string \<Rightarrow> bool \<Rightarrow> bool \<Rightarrow> table_metrics \<Rightarrow> advice list result" where
  "table_advice nc db_name include_indexes include_statistics m =
     (let settings_row = settings_row_of m;
          auto_off = (\<not> auto_on settings_row ''auto_create_statistics_on'' 1
            \<or> \<not> auto_on settings_row ''auto_update_statistics_on'' 1)
      in
      bind_res (section_for (if include_indexes then m_fragmented m else []) fragmented_advice) (\<lambda>a1.
      bind_res (section_for (m_missing_pk m) missing_pk_advice) (\<lambda>a2.
      bind_res (section_for (classified_stale nc m) stale_advice) (\<lambda>a3.
      bind_res (section_for (m_never_updated m) (never_updated_advice nc)) (\<lambda>a4.
      bind_res (section_for (classified_low_sample nc m) low_sample_advice) (\<lambda>a5.
      bind_res (section_for (if include_statistics \<and> auto_off then [settings_row] else [])
        (\<lambda>_. auto_settings_advice db_name settings_row)) (\<lambda>a6.
      bind_res (section_for (m_coverage m) (coverage_advice nc)) (\<lambda>a7.
      Inr (a1 @ a2 @ a3 @ a4 @ a5 @ a6 @ a7)))))))))"

definition histogram_candidates ::
  "number_context \<Rightarrow> bool \<Rightarrow> bool \<Rightarrow> int \<Rightarrow> table_metrics \<Rightarrow> row list" where
  "histogram_candidates nc include_statistics include_histogram_analysis histogram_limit m =
     (if include_statistics \<and> include_histogram_analysis
      then take (nat histogram_limit) (classified_stale nc m @ classified_low_sample nc m) else [])"

definition table_findings :: "finding list \<Rightarrow> finding list result" where
  "table_findings findings =
     (if findings \<noteq> [] then Inr findings
      else bind_res (build_finding ''TAB_HEALTH_NO_MAJOR_ISSUES'' ''info''
        ''No major table health issues detected''
        ''Current checks did not identify critical, high, or medium table health findings.'' []) (\<lambda>f. Inr [f]))"

definition table_summary :: "number_context \<Rightarrow> table_metrics \<Rightarrow> row list \<Rightarrow> row" where
  "table_summary nc m histogram_evidence =
     (let count = (\<lambda>rows. VInt (int (length rows))); preview = (\<lambda>rows. rows_value (take 5 rows)) in
      [(''table_count_scanned'', count (m_sizes m)), (''fragmented_index_rows'', count (m_fragmented m)),
       (''missing_primary_key_tables'', count (m_missing_pk m)),
       (''stale_statistics_count'', count (classified_stale nc m)),
       (''never_updated_statistics_count'', count (m_never_updated m)),
       (''low_sampled_statistics_count'', count (classified_low_sample nc m)),
       (''missing_statistics_coverage_candidates'', count (m_coverage m)),
       (''database_statistics_settings'', VDict (settings_flags (settings_row_of m))),
       (''statistics_preview'', VDict
          [(''stale_statistics'', preview (classified_stale nc m)),
           (''never_updated_statistics'', preview (m_never_updated m)),
           (''low_sampled_statistics'', preview (classified_low_sample nc m)),
           (''histogram_skew'', preview histogram_evidence)]),
       (''table_size_preview'', rows_value (take 10 (m_sizes m)))])"

definition optional_identifier :: "string option \<Rightarrow> string \<Rightarrow> string option result" where
  "optional_identifier name field_name = (case name of None \<Rightarrow> Inr None
     | Some s \<Rightarrow> bind_res (validate_identifier s field_name) (\<lambda>v. Inr (Some v)))"

definition analyze_tab_health_body ::
  "number_context \<Rightarrow> server_config \<Rightarrow> database \<Rightarrow> call_context \<Rightarrow> string \<Rightarrow> string \<Rightarrow> int \<Rightarrow> string
     \<Rightarrow> string option \<Rightarrow> string option \<Rightarrow> bool \<Rightarrow> bool \<Rightarrow> bool \<Rightarrow> int \<Rightarrow> int \<Rightarrow> report tool_op" where
  "analyze_tab_health_body nc cfg db cc tool inst instance_number database_name schema_name table_name
       include_indexes include_statistics include_histogram_analysis histogram_top_n top_n =
     tool_bind (tool_return (validate_database_name database_name)) (\<lambda>db_name.
     tool_bind (tool_return (optional_identifier schema_name ''schema_name'')) (\<lambda>schema_name.
     tool_bind (tool_return (optional_identifier table_name ''table_name'')) (\<lambda>table_name.
     tool_bind (tool_return (validate_positive_int top_n ''top_n'' 1 500)) (\<lambda>size'.
     tool_bind (tool_return (validate_positive_int histogram_top_n ''histogram_top_n'' 1 100)) (\<lambda>histogram_limit.
     tool_bind (admit_call cfg cc ''read'') (\<lambda>_.
     tool_bind (tool_return (enforce (sc_guard cfg) tool ''SELECT 1'')) (\<lambda>_.
     tool_bind (step_db (collect_table_metrics (sc_cm cfg) db inst db_name include_indexes include_statistics size'))
       (\<lambda>collected.
     let m = filter_metrics schema_name table_name collected in
     tool_bind (tool_return (table_advice nc db_name include_indexes include_statistics m)) (\<lambda>advice.
     tool_bind (step_db (histogram_scan nc (sc_cm cfg) db inst db_name
         (histogram_candidates nc include_statistics include_histogram_analysis histogram_limit m)))
       (\<lambda>histogram_evidence.
     tool_bind (tool_return (section_for histogram_evidence skew_advice)) (\<lambda>skew.
     tool_bind (tool_return (table_findings (map fst (advice @ skew)))) (\<lambda>findings.
     tool_bind (set_rows (length (m_sizes m) + length (m_fragmented m) + length (m_missing_pk m) + length (m_stale m)
         + length (m_never_updated m) + length (m_low_sampled m) + length (m_coverage m))) (\<lambda>_.
     tool_return (Inr (build_report_envelope (cc_utc_now cc) instance_number db_name tool
       (table_summary nc m histogram_evidence) findings (map snd (advice @ skew)))))))))))))))))"

definition analyze_tab_health_tool ::
  "number_context \<Rightarrow> server_config \<Rightarrow> database \<Rightarrow> call_context \<Rightarrow> string \<Rightarrow> string \<Rightarrow> int \<Rightarrow> string
     \<Rightarrow> string option \<Rightarrow> string option \<Rightarrow> bool \<Rightarrow> bool \<Rightarrow> bool \<Rightarrow> int \<Rightarrow> int \<Rightarrow> string
     \<Rightarrow> server_state \<Rightarrow> server_state \<times> report result" where
  "analyze_tab_health_tool nc cfg db cc tool inst instance_number database_name schema_name table_name
       include_indexes include_statistics include_histogram_analysis histogram_top_n top_n actor s =
     run_tool (wrap_errors {ValueErr, PermissionErr}) cc tool inst ''ANALYZE_TAB_HEALTH'' actor
       (analyze_tab_health_body nc cfg db cc tool inst instance_number database_name schema_name table_name
          include_indexes include_statistics include_histogram_analysis histogram_top_n top_n) s"

section \<open>A call of the tool\<close>

definition table_statements :: "int \<Rightarrow> string set" where
  "table_statements n = {sql. Inr sql \<in> {table_size_query (VInt n), fragmented_indexes_query (VInt n),
       Inr missing_pk_query, stale_statistics_query (VInt n), statistics_never_updated_query (VInt n),
       low_sampled_statistics_query (VInt n), Inr database_statistics_settings_query,
       missing_statistics_coverage_candidate_query (VInt n)}}
     \<union> {statistics_histogram_query s t st | s t st. s \<noteq> [] \<and> t \<noteq> [] \<and> st \<noteq> []}"

lemma rows_if_reads: "reads_only sqls op \<Longrightarrow> reads_only sqls (rows_if b op)"
  by (auto simp: rows_if_def intro: reads_only_return)

lemma collect_table_metrics_reads:
  "reads_only (table_statements n) (collect_table_metrics cm db inst d ii is n)"
  unfolding collect_table_metrics_def Let_def
  by (intro reads_only_ops rows_if_reads reads_only_catalog) (simp_all add: table_statements_def)

lemma histogram_scan_reads: "reads_only (table_statements n) (histogram_scan nc cm db inst d candidates)"
proof (induction candidates)
  case (Cons c cs)
  show ?case
    unfolding histogram_scan.simps Let_def
    by (intro reads_only_ops reads_only_catalog Cons) (auto simp: table_statements_def)
qed (simp add: reads_only_return)

lemma quiet_table_body: "quiet (analyze_tab_health_body nc cfg db cc tool inst nr d sn tn ii is ih hn n)"
  unfolding analyze_tab_health_body_def Let_def by (intro quiet_ops)

lemma table_body_reads:
  "tool_reads (table_statements n) (analyze_tab_health_body nc cfg db cc tool inst nr d sn tn ii is ih hn n)"
  unfolding analyze_tab_health_body_def Let_def
  by (intro tool_reads_checked tool_reads_bind tool_reads_db histogram_scan_reads tool_reads_silent silent_ops)
    (auto simp: validate_positive_int_Inr intro!: collect_table_metrics_reads)

lemma table_body_used:
  assumes "sent (fst (analyze_tab_health_body nc cfg db cc tool inst nr d sn tn ii is ih hn n t)) \<noteq> sent t"
  shows "admitted cfg cc ''read'' (run_actor t) (tr_state t)"
  using assms unfolding analyze_tab_health_body_def
  by (drule_tac used_return, elim exE conjE, drule_tac used_return, elim exE conjE,
      drule_tac used_return, elim exE conjE, drule_tac used_return, elim exE conjE,
      drule_tac used_return, elim exE conjE, drule_tac used_admit, blast)

lemma table_call_safe:
  assumes "analyze_tab_health_tool nc cfg db cc tool inst nr d sn tn ii is ih hn n actor s = (s', r)"
  shows "catalogue_call_ok cfg cc tool actor (table_statements n) (is_ok r) s s'"
  using run_catalogue_call [OF quiet_table_body table_body_reads _ assms [unfolded analyze_tab_health_tool_def]]
    table_body_used by blast

section \<open>How much a call reads\<close>

lemma rows_if_sends: "sends_at_most n op \<Longrightarrow> sends_at_most n (rows_if b op)"
  by (simp add: rows_if_def sends_at_most_return)

lemma collect_table_metrics_sends: "sends_at_most 16 (collect_table_metrics cm db inst d ii is n)"
proof -
  have "sends_at_most (2 + (2 + (2 + (2 + (2 + (2 + (2 + (2 + 0)))))))) (collect_table_metrics cm db inst d ii is n)"
    unfolding collect_table_metrics_def Let_def
    by (intro sends_at_most_bind rows_if_sends sends_at_most_catalog sends_at_most_return)
  then show ?thesis by simp
qed

lemma histogram_scan_sends: "sends_at_most (2 * length candidates) (histogram_scan nc cm db inst d candidates)"
proof (induction candidates)
  case (Cons c cs)
  have "sends_at_most (2 + (2 * length cs + 0)) (db_bind (run_catalog cm db inst d q 200) (\<lambda>rows.
      db_bind (histogram_scan nc cm db inst d cs) (\<lambda>evidence. db_return (f rows evidence))))" for q and f :: "_ \<Rightarrow> _ \<Rightarrow> row list result"
    by (intro sends_at_most_bind sends_at_most_catalog sends_at_most_return Cons)
  moreover have "sends_at_most (2 * length (c # cs)) (histogram_scan nc cm db inst d cs)"
    by (rule sends_at_most_mono [OF Cons]) simp
  ultimately show ?case by (simp add: Let_def)
qed (simp add: sends_at_most_return)

lemma histogram_candidates_bound: "length (histogram_candidates nc is ih k m) \<le> nat k"
  unfolding histogram_candidates_def by (simp del: take_append)

lemma table_body_sends:
  "tool_sends_at_most (16 + 2 * nat hn) (analyze_tab_health_body nc cfg db cc tool inst nr d sn tn ii is ih hn n)"
proof -
  have scan: "tool_sends_at_most (2 * nat hn) (step_db (histogram_scan nc cm db inst dn (histogram_candidates nc is ih hn m)))"
    for cm dn m
    by (intro tool_sends_db sends_at_most_mono [OF histogram_scan_sends]) (simp add: histogram_candidates_bound)
  have rest: "silent op \<Longrightarrow> tool_sends_at_most k op" for k and op :: "report tool_op"
    by (rule tool_sends_silent)
  have "tool_sends_at_most (16 + (2 * nat hn + 0))
    (analyze_tab_health_body nc cfg db cc tool inst nr d sn tn ii is ih hn n)"
    unfolding analyze_tab_health_body_def Let_def
    apply (rule tool_sends_checked)+
    apply (rule tool_sends_silent_bind, rule silent_ops)
    apply (rule tool_sends_checked)
    apply (rule tool_sends_bind, rule tool_sends_db, rule collect_table_metrics_sends)
    apply (rule tool_sends_checked)
    apply (rule tool_sends_bind)
     apply (simp add: validate_positive_int_Inr scan)
    apply (rule rest, intro silent_ops)
    done
  then show ?thesis by simp
qed

text \<open>
  A call of the table-health tool sends at most sixteen statements for the catalogue and two for
  every histogram it may look at, whatever the size of the database.
\<close>

theorem table_health_bounded:
  "\<exists>evs. ss_history (fst (analyze_tab_health_tool nc cfg db cc tool inst nr d sn tn ii is ih hn n actor s))
       = ss_history s @ evs \<and> execs evs \<le> 16 + 2 * nat hn"
proof -
  have "ss_history (fst (analyze_tab_health_tool nc cfg db cc tool inst nr d sn tn ii is ih hn n actor s))
      = sent (fst (analyze_tab_health_body nc cfg db cc tool inst nr d sn tn ii is ih hn n (start_run s actor)))"
    unfolding analyze_tab_health_tool_def by (rule run_tool_history)
  then show ?thesis using table_body_sends unfolding tool_sends_at_most_def by (metis start_run_simps(1))
qed

section \<open>What the report says\<close>

text \<open>How bad a statistics object looks: not reported, medium, high.\<close>

definition level :: "row option \<Rightarrow> nat" where
  "level classified = (case classified of None \<Rightarrow> 0 | Some e \<Rightarrow> if rated_high e then 2 else 1)"

definition at_least_as_old :: "int option \<Rightarrow> int option \<Rightarrow> bool" where
  "at_least_as_old old young = (case young of None \<Rightarrow> True | Some d \<Rightarrow> older_than d old)"

lemma enriched_get: "row_get (enrich r [(k1, v1), (k2, v2)]) key = (if key = k2 then v2 else if key = k1 then v1 else row_get r key)"
  "row_get (enrich r [(k1, v1), (k2, v2), (k3, v3)]) key
     = (if key = k3 then v3 else if key = k2 then v2 else if key = k1 then v1 else row_get r key)"
  by (simp_all add: enrich_def row_get_def dict_get_def)

definition stale_high :: "number_context \<Rightarrow> row \<Rightarrow> bool" where
  "stale_high nc r \<longleftrightarrow> safe_float nc (row_get r ''modification_counter'')
       \<ge> max 20000 (7 / 20 * safe_float nc (row_get r ''rows''))
     \<or> older_than 90 (days_since_update nc r) \<and> safe_float nc (row_get r ''rows'') \<ge> 100000"

lemma stale_level:
  "level (classify_stale_statistics_row nc r) =
     (if safe_float nc (row_get r ''rows'') < 1000 then 0 else if stale_high nc r then 2
      else if safe_float nc (row_get r ''modification_counter'') \<ge> max 500 (1 / 5 * safe_float nc (row_get r ''rows''))
        \<or> older_than 30 (days_since_update nc r) then 1 else 0)"
proof -
  have "older_than 90 x \<Longrightarrow> older_than 30 x" for x by (auto simp: older_than_def split: option.splits)
  moreover have "max 20000 (7 / 20 * (n::real)) \<ge> max 500 (1 / 5 * n)" if "n \<ge> 0" for n using that by auto
  ultimately show ?thesis
    by (auto simp: classify_stale_statistics_row_def stale_high_def level_def rated_high_def enriched_get Let_def)
qed

lemma low_sample_level:
  "level (classify_low_sample_statistics_row nc r) =
     (let ratio = safe_float nc (row_get r ''rows_sampled'') / safe_float nc (row_get r ''rows'') in
      if safe_float nc (row_get r ''rows'') < 10000 \<or> ratio \<ge> 1 / 10 then 0 else if ratio < 1 / 100 then 2 else 1)"
  by (auto simp: classify_low_sample_statistics_row_def level_def rated_high_def enriched_get Let_def)

text \<open>
  The rating of a statistics object is monotone: with the same number of rows, more
  modifications and an older update never make it look better, and a smaller sample never makes a
  sample ratio look better.
\<close>

theorem statistics_rating_monotone:
  assumes "safe_float nc (row_get r ''rows'') = safe_float nc (row_get r' ''rows'')"
    and "safe_float nc (row_get r ''modification_counter'') \<le> safe_float nc (row_get r' ''modification_counter'')"
    and "at_least_as_old (days_since_update nc r') (days_since_update nc r)"
    and "safe_float nc (row_get r' ''rows_sampled'') \<le> safe_float nc (row_get r ''rows_sampled'')"
  shows "level (classify_stale_statistics_row nc r) \<le> level (classify_stale_statistics_row nc r')
    \<and> level (classify_low_sample_statistics_row nc r) \<le> level (classify_low_sample_statistics_row nc r')"
proof
  have old: "older_than n (days_since_update nc r) \<Longrightarrow> older_than n (days_since_update nc r')" for n
    using assms(3) by (auto simp: at_least_as_old_def older_than_def split: option.splits)
  have "stale_high nc r \<Longrightarrow> stale_high nc r'"
    using assms(1,2) old by (auto simp: stale_high_def)
  then show "level (classify_stale_statistics_row nc r) \<le> level (classify_stale_statistics_row nc r')"
    using assms(1,2) old [of 30] unfolding stale_level by auto
  let ?n = "safe_float nc (row_get r' ''rows'')"
  define q q' where "q = safe_float nc (row_get r ''rows_sampled'') / ?n"
    and "q' = safe_float nc (row_get r' ''rows_sampled'') / ?n"
  have "q' \<le> q" if "\<not> ?n < 10000"
    using assms(4) that by (simp add: q_def q'_def divide_right_mono)
  then show "level (classify_low_sample_statistics_row nc r) \<le> level (classify_low_sample_statistics_row nc r')"
    unfolding low_sample_level assms(1) q_def [symmetric] q'_def [symmetric] Let_def by auto
qed

text \<open>The thresholds of the two ratings, in numbers.\<close>

definition stale_statistic :: "number_context \<Rightarrow> row \<Rightarrow> bool" where
  "stale_statistic nc r \<longleftrightarrow>
     (let size' = safe_float nc (row_get r ''rows'');
          changed = safe_float nc (row_get r ''modification_counter'')
      in 1000 \<le> size' \<and> (500 \<le> changed \<and> size' \<le> 5 * changed
           \<or> (\<exists>t. utc_seconds nc (row_get r ''last_updated'') = Some t \<and> 30 * 86400 \<le> now_seconds nc - t)))"

definition low_sample_statistic :: "number_context \<Rightarrow> row \<Rightarrow> bool" where
  "low_sample_statistic nc r \<longleftrightarrow> 10000 \<le> safe_float nc (row_get r ''rows'')
     \<and> 10 * safe_float nc (row_get r ''rows_sampled'') < safe_float nc (row_get r ''rows'')"

text \<open>A histogram whose longest bar is ten times the average one, or the only one above zero.\<close>

definition skewed_histogram :: "number_context \<Rightarrow> row list \<Rightarrow> bool" where
  "skewed_histogram nc steps \<longleftrightarrow> steps \<noteq> [] \<and>
     (let bars = map (\<lambda>step. safe_float nc (row_get step ''equal_rows'')) steps
      in if 0 < sum_list bars then 10 * sum_list bars \<le> real (length bars) * Max (set bars) else 0 < Max (set bars))"

text \<open>Which statistics object a row is about.\<close>

definition statistic_key :: "row \<Rightarrow> string \<times> string \<times> string" where
  "statistic_key r = (text_of r ''schema_name'', text_of r ''table_name'', text_of r ''stat_name'')"

definition named_key :: "string \<times> string \<times> string \<Rightarrow> bool" where
  "named_key = (\<lambda>(s, t, n). s \<noteq> [] \<and> t \<noteq> [] \<and> n \<noteq> [])"

text \<open>Reading the histograms of statistics objects one after the other, 200 steps at most of each.\<close>

inductive histograms_read ::
  "connection_manager \<Rightarrow> database \<Rightarrow> string \<Rightarrow> string \<Rightarrow> (string \<times> string \<times> string) list \<Rightarrow> history \<Rightarrow> history
     \<Rightarrow> row list list \<Rightarrow> bool" for cm db inst dn where
  histograms_none: "histograms_read cm db inst dn [] h h []"
| histograms_next: "run_catalog cm db inst dn (Inr (statistics_histogram_query s t n)) 200 h = (h1, Inr steps) \<Longrightarrow>
    histograms_read cm db inst dn keys h1 h2 hists \<Longrightarrow>
    histograms_read cm db inst dn ((s, t, n) # keys) h h2 (steps # hists)"

lemma older_than_days: "older_than n (days_since_update nc r) \<longleftrightarrow>
    (\<exists>t. utc_seconds nc (row_get r ''last_updated'') = Some t \<and> of_int n * 86400 \<le> now_seconds nc - t)"
  by (auto simp: older_than_def days_since_update_def le_floor_iff pos_le_divide_eq split: option.splits)

lemma enriched_key:
  "statistic_key (enrich r [(''severity'', a), (''modification_ratio'', b), (''days_since_update'', c)]) = statistic_key r"
  "statistic_key (enrich r [(''severity'', a), (''sample_ratio'', b)]) = statistic_key r"
  by (simp_all add: statistic_key_def text_of_def enrich_def row_get_or_def dict_get_def)

lemma classify_stale:
  "classify_stale_statistics_row nc r = None \<longleftrightarrow> \<not> stale_statistic nc r"
  "classify_stale_statistics_row nc r = Some e \<Longrightarrow> statistic_key e = statistic_key r"
  by (auto simp: classify_stale_statistics_row_def stale_statistic_def older_than_days Let_def enriched_key
      split: if_splits)

lemma classify_low_sample:
  "classify_low_sample_statistics_row nc r = None \<longleftrightarrow> \<not> low_sample_statistic nc r"
  "classify_low_sample_statistics_row nc r = Some e \<Longrightarrow> statistic_key e = statistic_key r"
  by (auto simp: classify_low_sample_statistics_row_def low_sample_statistic_def Let_def enriched_key
      divide_le_eq le_divide_eq split: if_splits)

lemma map_filter_keys:
  assumes "\<And>r. f r = None \<longleftrightarrow> \<not> P r" "\<And>r e. f r = Some e \<Longrightarrow> statistic_key e = statistic_key r"
  shows "map statistic_key (List.map_filter f rs) = map statistic_key (filter P rs)"
proof (induction rs)
  case (Cons r rs)
  then show ?case using assms [of r] by (cases "f r") (auto simp: List.map_filter_def)
qed (simp add: List.map_filter_def)

lemma classified_keys:
  "map statistic_key (classified_stale nc m) = map statistic_key (filter (stale_statistic nc) (m_stale m))"
  "map statistic_key (classified_low_sample nc m)
     = map statistic_key (filter (low_sample_statistic nc) (m_low_sampled m))"
  unfolding classified_stale_def classified_low_sample_def
  by (rule map_filter_keys; simp add: classify_stale classify_low_sample)+

lemma foldr_max: "foldr max xs (x :: real) = Max (insert x (set xs))"
proof (induction xs)
  case (Cons y ys)
  have "Max (insert x (insert y (set ys))) = max y (Max (insert x (set ys)))"
    by (simp add: insert_commute [of x y])
  with Cons show ?case by simp
qed simp

lemma skew_of_threshold:
  assumes "steps \<noteq> []"
  shows "skewed_histogram nc steps \<longleftrightarrow> \<not> snd (snd (skew_of nc steps)) < 10"
proof -
  define bars where "bars = map (\<lambda>step. safe_float nc (row_get step ''equal_rows'')) steps"
  have ne: "bars \<noteq> []" using assms by (simp add: bars_def)
  then have mx: "foldr max (tl bars) (hd bars) = Max (set bars)"
    by (cases bars) (simp_all add: foldr_max)
  define n where "n = real (length bars)"
  have n: "0 < n" using ne by (simp add: n_def)
  have ratio: "10 \<le> Max (set bars) / (sum_list bars / n) \<longleftrightarrow> 10 * sum_list bars \<le> n * Max (set bars)"
    if "0 < sum_list bars" using n that by (simp add: field_simps)
  have "snd (snd (skew_of nc steps)) = (if 0 < sum_list bars / n then Max (set bars) / (sum_list bars / n)
      else if 0 < Max (set bars) then 999 else 0)"
    by (simp add: skew_of_def Let_def mx flip: bars_def n_def)
  moreover have "0 < sum_list bars / n \<longleftrightarrow> 0 < sum_list bars" using n by (simp add: zero_less_divide_iff)
  moreover have "skewed_histogram nc steps \<longleftrightarrow>
      (if 0 < sum_list bars then 10 * sum_list bars \<le> n * Max (set bars) else 0 < Max (set bars))"
    using assms by (simp add: skewed_histogram_def Let_def flip: bars_def n_def)
  ultimately show ?thesis using ratio by (simp add: not_less)
qed

lemma skew_evidence_keys:
  "map statistic_key (skew_evidence nc c steps) = (if skewed_histogram nc steps then [statistic_key c] else [])"
proof (cases "steps = []")
  case False
  obtain mx av q where s: "skew_of nc steps = (mx, av, q)" by (cases "skew_of nc steps")
  with skew_of_threshold [OF False, of nc] have "skewed_histogram nc steps \<longleftrightarrow> \<not> q < 10" by simp
  with s False show ?thesis
    by (simp add: skew_evidence_def statistic_key_def text_of_def row_get_or_def dict_get_def py_str_def)
qed (simp add: skew_evidence_def skewed_histogram_def)

lemma histogram_scan_Inr:
  assumes "histogram_scan nc cm db inst dn cs h = (h', Inr evidence)"
  shows "\<exists>hists. histograms_read cm db inst dn (filter named_key (map statistic_key cs)) h h' hists
    \<and> map statistic_key evidence
        = map fst (filter (\<lambda>(key, steps). skewed_histogram nc steps) (zip (filter named_key (map statistic_key cs)) hists))"
  using assms
proof (induction cs arbitrary: h evidence)
  case Nil
  then have "h' = h \<and> evidence = []" by (simp add: db_return_def)
  with histograms_none [of cm db inst dn h] show ?case by auto
next
  case (Cons c cs)
  let ?q = "statistics_histogram_query (text_of c ''schema_name'') (text_of c ''table_name'') (text_of c ''stat_name'')"
  show ?case
  proof (cases "named_key (statistic_key c)")
    case False
    then have "histogram_scan nc cm db inst dn cs h = (h', Inr evidence)"
      using Cons.prems by (auto simp: named_key_def statistic_key_def Let_def)
    from Cons.IH [OF this] False show ?thesis by simp
  next
    case True
    then obtain h1 steps ev where steps: "run_catalog cm db inst dn (Inr ?q) 200 h = (h1, Inr steps)"
      and rest: "histogram_scan nc cm db inst dn cs h1 = (h', Inr ev)"
      and ev: "evidence = skew_evidence nc c steps @ ev"
      using Cons.prems
      by (auto simp: named_key_def statistic_key_def Let_def db_bind_def db_return_def split: prod.splits sum.splits)
    obtain hists where hists: "histograms_read cm db inst dn (filter named_key (map statistic_key cs)) h1 h' hists"
      "map statistic_key ev
        = map fst (filter (\<lambda>(key, steps). skewed_histogram nc steps) (zip (filter named_key (map statistic_key cs)) hists))"
      using Cons.IH [OF rest] by blast
    have "histograms_read cm db inst dn (filter named_key (map statistic_key (c # cs))) h h' (steps # hists)"
      using True histograms_next [OF steps hists(1)] by (simp add: statistic_key_def)
    with True hists(2) ev show ?thesis
      by (intro exI [of _ "steps # hists"]) (simp add: skew_evidence_keys)
  qed
qed

text \<open>
  A report names exactly the codes whose rows are there, each with its recommendation.
\<close>

definition health_codes :: "number_context \<Rightarrow> bool \<Rightarrow> bool \<Rightarrow> table_metrics \<Rightarrow> string list" where
  "health_codes nc ii is m =
     (if ii \<and> m_fragmented m \<noteq> [] then [''TAB_HEALTH_FRAGMENTED_INDEXES''] else [])
   @ (if m_missing_pk m \<noteq> [] then [''TAB_HEALTH_MISSING_PRIMARY_KEY''] else [])
   @ (if list_ex (stale_statistic nc) (m_stale m) then [''TAB_HEALTH_STALE_STATISTICS''] else [])
   @ (if m_never_updated m \<noteq> [] then [''TAB_HEALTH_STATS_NEVER_UPDATED''] else [])
   @ (if list_ex (low_sample_statistic nc) (m_low_sampled m) then [''TAB_HEALTH_STATS_LOW_SAMPLE_RATIO''] else [])
   @ (if is \<and> (\<not> truthy (row_get_or (settings_row_of m) ''auto_create_statistics_on'' (VInt 1))
             \<or> \<not> truthy (row_get_or (settings_row_of m) ''auto_update_statistics_on'' (VInt 1)))
      then [''TAB_HEALTH_STATS_AUTO_SETTINGS_DISABLED''] else [])
   @ (if m_coverage m \<noteq> [] then [''TAB_HEALTH_STATS_COVERAGE_HEURISTIC''] else [])"

lemma classified_empty:
  "classified_stale nc m = [] \<longleftrightarrow> \<not> list_ex (stale_statistic nc) (m_stale m)"
  "classified_low_sample nc m = [] \<longleftrightarrow> \<not> list_ex (low_sample_statistic nc) (m_low_sampled m)"
proof -
  have none: "List.map_filter f rs = [] \<longleftrightarrow> (\<forall>r \<in> set rs. f r = None)" for f :: "row \<Rightarrow> row option" and rs
    by (induction rs) (auto simp: List.map_filter_def)
  show "classified_stale nc m = [] \<longleftrightarrow> \<not> list_ex (stale_statistic nc) (m_stale m)"
    "classified_low_sample nc m = [] \<longleftrightarrow> \<not> list_ex (low_sample_statistic nc) (m_low_sampled m)"
    by (simp_all add: classified_stale_def classified_low_sample_def none classify_stale(1) classify_low_sample(1)
        list_ex_iff)
qed

lemmas table_advice_defs = fragmented_advice_def missing_pk_advice_def stale_advice_def never_updated_advice_def
  low_sample_advice_def auto_settings_advice_def coverage_advice_def skew_advice_def

definition coded :: "string \<Rightarrow> bool \<Rightarrow> advice list \<Rightarrow> bool" where
  "coded code present as \<longleftrightarrow> map (f_code \<circ> fst) as = (if present then [code] else [])
     \<and> map (r_priority \<circ> snd) as = map (f_severity \<circ> fst) as
     \<and> (\<forall>a \<in> set as. f_severity (fst a) \<in> set valid_severities)"

lemma section_coded:
  "section_for rows adv = Inr as \<Longrightarrow> (\<And>a. adv rows = Inr a \<Longrightarrow> matched code a) \<Longrightarrow> coded code (rows \<noteq> []) as"
  by (fastforce simp: section_for_Inr coded_def matched_def split: if_splits)

lemma table_sections:
  "section_for rows fragmented_advice = Inr as \<Longrightarrow> coded ''TAB_HEALTH_FRAGMENTED_INDEXES'' (rows \<noteq> []) as"
  "section_for rows missing_pk_advice = Inr as \<Longrightarrow> coded ''TAB_HEALTH_MISSING_PRIMARY_KEY'' (rows \<noteq> []) as"
  "section_for rows stale_advice = Inr as \<Longrightarrow> coded ''TAB_HEALTH_STALE_STATISTICS'' (rows \<noteq> []) as"
  "section_for rows (never_updated_advice nc) = Inr as \<Longrightarrow> coded ''TAB_HEALTH_STATS_NEVER_UPDATED'' (rows \<noteq> []) as"
  "section_for rows low_sample_advice = Inr as \<Longrightarrow> coded ''TAB_HEALTH_STATS_LOW_SAMPLE_RATIO'' (rows \<noteq> []) as"
  "section_for rows (\<lambda>_. auto_settings_advice d r) = Inr as \<Longrightarrow>
     coded ''TAB_HEALTH_STATS_AUTO_SETTINGS_DISABLED'' (rows \<noteq> []) as"
  "section_for rows (coverage_advice nc) = Inr as \<Longrightarrow> coded ''TAB_HEALTH_STATS_COVERAGE_HEURISTIC'' (rows \<noteq> []) as"
  "section_for rows skew_advice = Inr as \<Longrightarrow> coded ''TAB_HEALTH_STATS_HISTOGRAM_SKEW'' (rows \<noteq> []) as"
  by (erule section_coded, simp add: table_advice_defs Let_def, erule advise_matched)+

lemma table_advice_Inr:
  assumes "table_advice nc d ii is m = Inr as"
  shows "map (f_code \<circ> fst) as = health_codes nc ii is m \<and> map (r_priority \<circ> snd) as = map (f_severity \<circ> fst) as
    \<and> (\<forall>a \<in> set as. f_severity (fst a) \<in> set valid_severities)"
proof -
  let ?s = "settings_row_of m"
  let ?off = "is \<and> (\<not> auto_on ?s ''auto_create_statistics_on'' 1 \<or> \<not> auto_on ?s ''auto_update_statistics_on'' 1)"
  obtain a1 a2 a3 a4 a5 a6 a7 where sections:
    "section_for (if ii then m_fragmented m else []) fragmented_advice = Inr a1"
    "section_for (m_missing_pk m) missing_pk_advice = Inr a2"
    "section_for (classified_stale nc m) stale_advice = Inr a3"
    "section_for (m_never_updated m) (never_updated_advice nc) = Inr a4"
    "section_for (classified_low_sample nc m) low_sample_advice = Inr a5"
    "section_for (if ?off then [?s] else []) (\<lambda>_. auto_settings_advice d ?s) = Inr a6"
    "section_for (m_coverage m) (coverage_advice nc) = Inr a7"
    "as = a1 @ a2 @ a3 @ a4 @ a5 @ a6 @ a7"
    using assms unfolding table_advice_def Let_def bind_section_for by blast
  show ?thesis
    using table_sections(1) [OF sections(1)] table_sections(2) [OF sections(2)] table_sections(3) [OF sections(3)]
      table_sections(4) [OF sections(4)] table_sections(5) [OF sections(5)] table_sections(6) [OF sections(6)]
      table_sections(7) [OF sections(7)]
    by (simp add: sections(8) coded_def health_codes_def ball_Un classified_empty auto_on_def)
qed

lemma table_findings_Inr:
  "table_findings fs = Inr fs' \<Longrightarrow>
     if fs \<noteq> [] then fs' = fs
     else \<exists>f. fs' = [f] \<and> f_code f = ''TAB_HEALTH_NO_MAJOR_ISSUES'' \<and> f_severity f = ''info''"
  by (auto simp: table_findings_def build_finding_def split: if_splits)

lemma table_body_Inr:
  assumes "analyze_tab_health_body nc cfg db cc tool inst nr d sn tn ii is ih hn n t = (t', Inr rep)"
  shows "\<exists>dn sn' tn' h collected as evidence skew.
     validate_database_name d = Inr dn
     \<and> optional_identifier sn ''schema_name'' = Inr sn' \<and> optional_identifier tn ''table_name'' = Inr tn'
     \<and> collect_table_metrics (sc_cm cfg) db inst dn ii is n (sent t) = (h, Inr collected)
     \<and> table_advice nc dn ii is (filter_metrics sn' tn' collected) = Inr as
     \<and> histogram_scan nc (sc_cm cfg) db inst dn
         (histogram_candidates nc is ih hn (filter_metrics sn' tn' collected)) h = (sent t', Inr evidence)
     \<and> section_for evidence skew_advice = Inr skew
     \<and> table_findings (map fst (as @ skew)) = Inr (rep_findings rep)
     \<and> rep_recommendations rep = map snd (as @ skew)
     \<and> rep_summary rep = table_summary nc (filter_metrics sn' tn' collected) evidence"
  using assms unfolding analyze_tab_health_body_def Let_def
proof (elim tool_answers, goal_cases)
  case (1 dn sn' tn' top hist t1 u g t2 collected as t3 evidence skew fs t4 w)
  then have "top = n" "hist = hn" "sent t1 = sent t" "sent t' = sent t3" by (simp_all add: validate_positive_int_Inr)
  with 1 show ?case
    by (intro exI [of _ dn] exI [of _ sn'] exI [of _ tn'] exI [of _ "sent t2"] exI [of _ collected] exI [of _ as]
        exI [of _ evidence] exI [of _ skew]) auto
qed

text \<open>The statistics objects whose histograms are looked at.\<close>

definition histogram_keys ::
  "number_context \<Rightarrow> bool \<Rightarrow> int \<Rightarrow> table_metrics \<Rightarrow> (string \<times> string \<times> string) list" where
  "histogram_keys nc wanted k m = (if wanted
     then filter named_key (map statistic_key (take (nat k)
       (filter (stale_statistic nc) (m_stale m) @ filter (low_sample_statistic nc) (m_low_sampled m))))
     else [])"

lemma histogram_candidate_keys:
  "filter named_key (map statistic_key (histogram_candidates nc is ih k m)) = histogram_keys nc (is \<and> ih) k m"
  by (simp add: histogram_candidates_def histogram_keys_def classified_keys take_map [symmetric]
      del: take_append)

text \<open>
  C31: a table-health report is about the named database and one reading of the catalogue, filtered
  by the validated schema and table; it names exactly the problems these rows show, in a fixed order:
  a statistic is stale from 1000 rows with 500 and a fifth of them modified, or thirty days old,
  and badly sampled from 10000 rows with less than a tenth read.  Histograms are looked at only
  on request, of the first stale and badly sampled objects, and otherwise nothing more is sent; the
  skew it names is that of exactly those objects whose histogram, as read, has a bar ten times the
  average.  The all-clear stands alone exactly when there is no problem, and each problem has a
  recommendation of its urgency.
\<close>

theorem table_report_exact:
  assumes "analyze_tab_health_tool nc cfg db cc tool inst nr d sn tn ii is ih hn n actor s = (s', Inr rep)"
  shows "\<exists>dn sn' tn' h collected m keys hists evidence codes.
      validate_database_name d = Inr dn
    \<and> optional_identifier sn ''schema_name'' = Inr sn' \<and> optional_identifier tn ''table_name'' = Inr tn'
    \<and> collect_table_metrics (sc_cm cfg) db inst dn ii is n (ss_history s) = (h, Inr collected)
    \<and> m = filter_metrics sn' tn' collected
    \<and> keys = histogram_keys nc (is \<and> ih) hn m
    \<and> histograms_read (sc_cm cfg) db inst dn keys h (ss_history s') hists
    \<and> (is \<and> ih \<or> ss_history s' = h)
    \<and> map statistic_key evidence = map fst (filter (\<lambda>(key, steps). skewed_histogram nc steps) (zip keys hists))
    \<and> codes = health_codes nc ii is m @ (if evidence \<noteq> [] then [''TAB_HEALTH_STATS_HISTOGRAM_SKEW''] else [])
    \<and> map f_code (rep_findings rep) = (if codes = [] then [''TAB_HEALTH_NO_MAJOR_ISSUES''] else codes)
    \<and> map r_priority (rep_recommendations rep) = (if codes = [] then [] else map f_severity (rep_findings rep))
    \<and> rep_summary rep = table_summary nc m evidence"
proof -
  obtain t' where body: "analyze_tab_health_body nc cfg db cc tool inst nr d sn tn ii is ih hn n (start_run s actor) = (t', Inr rep)"
    and sent: "sent t' = ss_history s'"
    by (rule run_tool_answer [OF assms [unfolded analyze_tab_health_tool_def]])
  obtain dn sn' tn' h collected as evidence skew where
    ids: "validate_database_name d = Inr dn" "optional_identifier sn ''schema_name'' = Inr sn'"
      "optional_identifier tn ''table_name'' = Inr tn'" and
    rows: "collect_table_metrics (sc_cm cfg) db inst dn ii is n (ss_history s) = (h, Inr collected)" and
    as: "table_advice nc dn ii is (filter_metrics sn' tn' collected) = Inr as" and
    scan: "histogram_scan nc (sc_cm cfg) db inst dn
         (histogram_candidates nc is ih hn (filter_metrics sn' tn' collected)) h = (ss_history s', Inr evidence)" and
    skew: "section_for evidence skew_advice = Inr skew" and
    fs: "table_findings (map fst (as @ skew)) = Inr (rep_findings rep)" and
    rs: "rep_recommendations rep = map snd (as @ skew)"
      "rep_summary rep = table_summary nc (filter_metrics sn' tn' collected) evidence"
    using table_body_Inr [OF body] unfolding start_run_simps sent by blast
  define m where "m = filter_metrics sn' tn' collected"
  define keys where "keys = histogram_keys nc (is \<and> ih) hn m"
  define codes where "codes = health_codes nc ii is m @ (if evidence \<noteq> [] then [''TAB_HEALTH_STATS_HISTOGRAM_SKEW''] else [])"
  obtain hists where hists: "histograms_read (sc_cm cfg) db inst dn keys h (ss_history s') hists"
    "map statistic_key evidence = map fst (filter (\<lambda>(key, steps). skewed_histogram nc steps) (zip keys hists))"
    using histogram_scan_Inr [OF scan] unfolding histogram_candidate_keys keys_def m_def by blast
  have quiet: "is \<and> ih \<or> ss_history s' = h"
    using scan by (auto simp: histogram_candidates_def db_return_def split: if_splits)
  have all: "map (f_code \<circ> fst) (as @ skew) = codes" "map (r_priority \<circ> snd) (as @ skew) = map (f_severity \<circ> fst) (as @ skew)"
    using table_advice_Inr [OF as] table_sections(8) [OF skew] by (auto simp: codes_def m_def coded_def)
  then have empty: "as @ skew = [] \<longleftrightarrow> codes = []" by (metis Nil_is_map_conv)
  have findings: "if codes \<noteq> [] then rep_findings rep = map fst (as @ skew)
      else \<exists>f. rep_findings rep = [f] \<and> f_code f = ''TAB_HEALTH_NO_MAJOR_ISSUES''"
    using table_findings_Inr [OF fs] empty by (auto split: if_splits)
  have names: "map f_code (rep_findings rep) = (if codes = [] then [''TAB_HEALTH_NO_MAJOR_ISSUES''] else codes)"
    using findings all(1) by (auto split: if_splits)
  have urgency: "map r_priority (rep_recommendations rep) = (if codes = [] then [] else map f_severity (rep_findings rep))"
    using findings all(2) empty by (auto simp: rs split: if_splits)
  show ?thesis
    by (intro exI conjI)
      (rule ids rows m_def keys_def hists quiet codes_def names urgency rs(2) [folded m_def])+
qed

section \<open>Concrete runs\<close>

abbreviation example_numbers :: number_context where
  "example_numbers \<equiv> \<lparr>float_text = (\<lambda>_. None), utc_seconds = (\<lambda>v. case v of VInt i \<Rightarrow> Some (of_int i) | _ \<Rightarrow> None),
     now_seconds = 0, rounded = (\<lambda>x _. VFloat x ''ratio'')\<rparr>"

theorem statistics_rating_monotone_witness:
  "level (classify_stale_statistics_row example_numbers [(''rows'', VInt 5000), (''modification_counter'', VInt 900)])
   \<le> level (classify_stale_statistics_row example_numbers [(''rows'', VInt 5000), (''modification_counter'', VInt 1000)])"
  by (rule conjunct1 [OF statistics_rating_monotone])
    (simp_all add: safe_float_def row_get_def dict_get_def days_since_update_def at_least_as_old_def)

abbreviation example_table_call :: "database \<Rightarrow> server_state \<times> report result" where
  "example_table_call db \<equiv> analyze_tab_health_tool example_numbers example_config db example_call ''tool'' ''primary'' 1
     ''master'' None None False False False 10 5 ''bob'' example_state"

lemma empty_table_report: "is_ok (snd (example_table_call empty_db))"
proof -
  let ?t = "start_run example_state ''bob''"
  have limits: "validate_positive_int 5 ''top_n'' 1 500 = Inr 5" "validate_positive_int 10 ''histogram_top_n'' 1 100 = Inr 10"
    by code_simp+
  obtain t1 where admit: "admit_call example_config example_call ''read'' ?t = (t1, Inr ())"
    using example_admitted by blast
  have read: "\<exists>h'. run_catalog example_cm empty_db ''primary'' ''master'' (Inr sql) m h = (h', Inr [])" for sql m h
    by (rule empty_catalog)
  have "is_ok (table_size_query (VInt 5))" by code_simp
  then obtain q where q: "table_size_query (VInt 5) = Inr q" by (cases "table_size_query (VInt 5)") auto
  obtain h1 where h1: "run_catalog example_cm empty_db ''primary'' ''master'' (Inr q) 5
     (ss_history (tr_state t1)) = (h1, Inr [])" using read by blast
  obtain h2 where h2: "run_catalog example_cm empty_db ''primary'' ''master'' (Inr missing_pk_query) 5 h1
     = (h2, Inr [])" using read by blast
  have "is_ok (snd (analyze_tab_health_body example_numbers example_config empty_db example_call ''tool'' ''primary'' 1
     ''master'' None None False False False 10 5 ?t))"
    by (simp add: analyze_tab_health_body_def example_checks example_config_cm limits tool_bind_def tool_return_def admit
        step_db_def q h1 h2 collect_table_metrics_def rows_if_def db_bind_def db_return_def table_advice_def
        section_for_def table_findings_def build_finding_def set_rows_def Let_def optional_identifier_def
        filter_metrics_def filter_rows_by_schema_table_def classified_stale_def classified_low_sample_def
        histogram_candidates_def List.map_filter_def)
  then show ?thesis unfolding analyze_tab_health_tool_def by (rule run_tool_succeeds)
qed

theorem table_report_exact_witness:
  "\<exists>rep. snd (example_table_call empty_db) = Inr rep \<and> rep_findings rep \<noteq> []"
proof -
  obtain s' rep where run: "example_table_call empty_db = (s', Inr rep)"
    using empty_table_report
    by (cases "example_table_call empty_db"; cases "snd (example_table_call empty_db)") auto
  from table_report_exact [OF run] obtain codes where
    "map f_code (rep_findings rep) = (if codes = [] then [''TAB_HEALTH_NO_MAJOR_ISSUES''] else codes)"
    by metis
  then have "rep_findings rep \<noteq> []" by (cases "codes = []") auto
  with run show ?thesis by simp
qed

end
