(* ===== verification/Audit_Log.thy ===== *)
theory Audit_Log
  imports Tool_Safety Usage_Summary
begin

text \<open>
  \<open>src/middleware/audit_logger.py\<close>, and the way from a tool call to the usage summary: the handler's
  \<open>finally\<close> clause hands an event to \<open>log_event\<close>, which appends a line to the audit file, which
  \<open>summarize_audit_events\<close> reads back.

  \<open>json_dumps\<close>, \<open>json_loads\<close> and SHA-256 are arguments, and so are the clock readings of a line
  (\<open>stamp\<close>: the time and the latency).  The lock serialises the writers, so a file is the list of
  its lines.
\<close>

section \<open>The logger\<close>

record log_context =
  hash_sql :: "string \<Rightarrow> string"
  json_dumps :: "row \<Rightarrow> string"

type_synonym stamp = "string \<times> int"

definition group_match_value :: "group_match \<Rightarrow> pyval" where
  "group_match_value g = VDict [(''group_authorization_enabled'', VBool (gm_enabled g)),
     (''matched_read_groups'', VList (map VStr (gm_matched_read g))),
     (''matched_write_groups'', VList (map VStr (gm_matched_write g)))]"

text \<open>\<open>if value is not None: event[key] = value\<close> for the four optional fields.\<close>

definition auth_fields :: "auth_ctx option \<Rightarrow> row" where
  "auth_fields auth_ctx = (case auth_ctx of None \<Rightarrow> []
     | Some ax \<Rightarrow> filter (\<lambda>(_, v). v \<noteq> VNone)
         [(''auth_mode'', VStr (ax_mode ax)), (''auth_subject'', ax_subject ax),
          (''privilege_level'', VStr (ax_privilege ax)),
          (''group_match_result'', case ax_groups ax of None \<Rightarrow> VNone | Some g \<Rightarrow> group_match_value g)])"

definition event_row :: "log_context \<Rightarrow> stamp \<Rightarrow> audit_event \<Rightarrow> row" where
  "event_row lc stamp ev =
     [(''ts_utc'', VStr (fst stamp)), (''request_id'', VStr (ae_request_id ev)), (''actor'', VStr (ae_actor ev)),
      (''tool'', VStr (ae_tool ev)), (''instance'', VStr (ae_instance ev)),
      (''sql_hash'', VStr (hash_sql lc (ae_sql ev))), (''decision'', VStr (ae_decision ev)),
      (''latency_ms'', VInt (snd stamp)), (''rows'', VInt (int (ae_rows ev))),
      (''error_code'', case ae_error_code ev of None \<Rightarrow> VNone | Some e \<Rightarrow> VStr e)]
     @ auth_fields (ae_auth ev)"

text \<open>\<open>handle.write(line + "\n")\<close>: the file gets one more line.\<close>

definition log_event :: "log_context \<Rightarrow> stamp \<Rightarrow> audit_event \<Rightarrow> string list \<Rightarrow> string list" where
  "log_event lc stamp ev file = file @ [json_dumps lc (event_row lc stamp ev) @ [CHR 0x0A]]"

definition log_all :: "log_context \<Rightarrow> (stamp \<times> audit_event) list \<Rightarrow> string list \<Rightarrow> string list" where
  "log_all lc = fold (\<lambda>(stamp, ev). log_event lc stamp ev)"

section \<open>Reading the file back\<close>

text \<open>
  What the logger relies on: a dumped event is a line without surrounding white space, and loading
  it gives the event.
\<close>

definition json_inverse :: "log_context \<Rightarrow> (string \<Rightarrow> pyval result) \<Rightarrow> row \<Rightarrow> bool" where
  "json_inverse lc json_loads r \<longleftrightarrow> json_dumps lc r \<noteq> [] \<and> py_strip (json_dumps lc r @ [CHR 0x0A]) = json_dumps lc r
     \<and> json_loads (json_dumps lc r) = Inr (VDict r)"

definition count_row :: "(string \<times> string) \<Rightarrow> decision_counts dict \<Rightarrow> nat" where
  "count_row k d = dict_get (dict_get d (fst k) no_decisions) (snd k) 0"

lemma log_all_lines:
  "log_all lc evs lines = lines @ map (\<lambda>(stamp, ev). json_dumps lc (event_row lc stamp ev) @ [CHR 0x0A]) evs"
  unfolding log_all_def by (induction evs arbitrary: lines) (auto simp: log_event_def)

lemma summarize_logged:
  assumes "\<forall>(stamp, ev) \<in> set evs. json_inverse lc json_loads (event_row lc stamp ev)"
  shows "summarize_lines json_loads (log_all lc evs []) us
    = Inr (fold (\<lambda>(stamp, ev). count_event (event_row lc stamp ev)) evs us)"
  using assms unfolding log_all_lines
  by (induction evs arbitrary: us) (auto simp: json_inverse_def Let_def)

lemma event_row_reads:
  "py_str (row_get_or (event_row lc stamp ev) ''tool'' d) = ae_tool ev"
  "py_str (row_get_or (event_row lc stamp ev) ''decision'' d) = ae_decision ev"
  by (simp_all add: event_row_def row_get_or_def dict_get_def py_str_def)

lemma count_row_bump:
  assumes "decision \<in> {''allow'', ''deny''}" "counts_ok d"
  shows "count_row (tool', dec') (bump tool decision d)
    = count_row (tool', dec') d + (if tool' = tool \<and> dec' = decision then 1 else 0)"
proof -
  define inner where "inner = dict_get d tool no_decisions"
  have "map fst inner = [''allow'', ''deny'', ''unknown'']"
    using assms(2) unfolding inner_def counts_ok_def
    by (auto simp: dict_get_def no_decisions_def split: option.splits dest!: map_of_SomeD)
  then have slot: "map_of inner decision \<noteq> None"
    using assms(1) by (auto simp: map_of_eq_None_iff simp flip: set_map)
  show ?thesis
    using slot unfolding count_row_def bump_def Let_def inner_def [symmetric]
    by (auto simp: inner_def dict_get_def)
qed

lemma folded_counts:
  assumes "\<forall>(stamp, ev) \<in> set evs. ae_decision ev \<in> {''allow'', ''deny''}" "summary_ok us"
  shows "us_events (fold (\<lambda>(stamp, ev). count_event (event_row lc stamp ev)) evs us) = us_events us + length evs
    \<and> us_deny_total (fold (\<lambda>(stamp, ev). count_event (event_row lc stamp ev)) evs us)
        = us_deny_total us + length (filter (\<lambda>(_, ev). ae_decision ev = ''deny'') evs)
    \<and> count_row (tool, dec) (us_by_tool (fold (\<lambda>(stamp, ev). count_event (event_row lc stamp ev)) evs us))
        = count_row (tool, dec) (us_by_tool us)
          + length (filter (\<lambda>(_, ev). ae_tool ev = tool \<and> ae_decision ev = dec) evs)"
  using assms
proof (induction evs arbitrary: us)
  case (Cons x evs)
  obtain stamp ev where x: "x = (stamp, ev)" by (cases x)
  define us1 where "us1 = count_event (event_row lc stamp ev) us"
  have ok: "summary_ok us1" unfolding us1_def by (rule count_event_ok [OF Cons.prems(2)])
  have dec: "ae_decision ev \<in> {''allow'', ''deny''}" using Cons.prems(1) x by auto
  have tools: "counts_ok (us_by_tool us)" using Cons.prems(2) by (simp add: summary_ok_def)
  have one: "us_events us1 = us_events us + 1"
    "us_deny_total us1 = us_deny_total us + (if ae_decision ev = ''deny'' then 1 else 0)"
    "count_row (tool, dec) (us_by_tool us1) = count_row (tool, dec) (us_by_tool us)
       + (if tool = ae_tool ev \<and> dec = ae_decision ev then 1 else 0)"
    using count_row_bump [OF dec tools]
    by (simp_all add: us1_def count_event_def Let_def event_row_reads)
  show ?case
    using Cons.IH [OF _ ok] Cons.prems(1) one by (auto simp: x us1_def [symmetric])
qed simp

lemma audit_round_trip:
  assumes "\<forall>(stamp, ev) \<in> set evs. json_inverse lc json_loads (event_row lc stamp ev)"
    and "\<forall>(stamp, ev) \<in> set evs. ae_decision ev \<in> {''allow'', ''deny''}"
  shows "\<exists>us. summarize_audit_events json_loads (Some (log_all lc evs [])) = Inr us \<and> us_events us = length evs
    \<and> us_deny_total us = length (filter (\<lambda>(_, ev). ae_decision ev = ''deny'') evs)
    \<and> (\<forall>tool dec. dec \<in> {''allow'', ''deny''} \<longrightarrow> count_row (tool, dec) (us_by_tool us)
        = length (filter (\<lambda>(_, ev). ae_tool ev = tool \<and> ae_decision ev = dec) evs))"
proof -
  have start: "summary_ok empty_summary"
    by (simp add: summary_ok_def empty_summary_def counts_ok_def total_of_def total_denied_def)
  have none: "dec \<in> {''allow'', ''deny''} \<Longrightarrow> count_row (tool, dec) (us_by_tool empty_summary) = 0" for tool dec
    by (auto simp: empty_summary_def count_row_def dict_get_def no_decisions_def)
  show ?thesis
    using summarize_logged [OF assms(1), of empty_summary] folded_counts [OF assms(2) start] none
    by (simp add: summarize_audit_events_def empty_summary_def)
qed

section \<open>The log of a server\<close>

definition request_of :: "audit_event \<Rightarrow> string \<times> string \<times> string" where
  "request_of e = (ae_tool e, ae_instance e, ae_decision e)"

lemma reach_audit:
  "server_reach cfg db sm rl s \<Longrightarrow>
     map request_of (ss_audit s) = ss_requests s \<and> (\<forall>e \<in> set (ss_audit s). ae_decision e \<in> {''allow'', ''deny''})
     \<and> ss_denied s \<le> length (filter (\<lambda>e. ae_decision e = ''deny'') (ss_audit s))"
proof (induction rule: server_reach.induct)
  case (server_call s tb cc actor req)
  obtain s' r where run: "serve cfg db tb cc actor req s = (s', r)" by force
  with serve_audited [OF run] obtain ok where "audited (tb_tool tb) (tb_instance tb) ok s s'" by blast
  with server_call.IH run show ?case
    unfolding audited_def by (cases ok) (auto simp: request_of_def)
qed simp

lemma zip_filter_snd:
  "length xs = length ys \<Longrightarrow> length (filter (\<lambda>(_, y). P y) (zip xs ys)) = length (filter P ys)"
  by (induction xs ys rule: list_induct2) auto



end
