(* ===== verification/Diagnostics.thy ===== *)
theory Diagnostics
  imports Audit_Log Catalog_Reads
begin

text \<open>
  \<open>src/diagnostics/routes.py\<close> without the dashboard routes (those are in \<open>Sessions_Dashboard\<close>), the
  health check of \<open>ConnectionManager\<close> (\<open>src/db/connection_manager.py\<close>), and the secret resolver of
  \<open>src/server.py\<close>.  The time and the latency of a check are an argument; the policy file's checksum
  and the uptime are too.
\<close>

section \<open>Health of the instances\<close>

definition health_row :: "stamp \<Rightarrow> string \<Rightarrow> pyval \<Rightarrow> row" where
  "health_row stamp state error = [(''state'', VStr state), (''checked_at'', VStr (fst stamp)),
     (''latency_ms'', VInt (snd stamp)), (''error'', error)]"

definition healthcheck_instance ::
  "connection_manager \<Rightarrow> database \<Rightarrow> stamp \<Rightarrow> string \<Rightarrow> row db_op" where
  "healthcheck_instance cm db stamp instance_id =
     db_try (with_connection cm db instance_id None (\<lambda>conn. db_do db (DbExec conn ''SELECT 1'' [])))
       (\<lambda>exc. db_return (Inr (health_row stamp ''unhealthy'' (VStr (exc_text exc)))))
       (\<lambda>_. db_return (Inr (health_row stamp ''healthy'' VNone)))"

fun healthcheck_each ::
  "connection_manager \<Rightarrow> database \<Rightarrow> (string \<Rightarrow> stamp) \<Rightarrow> string list \<Rightarrow> row dict db_op" where
  "healthcheck_each cm db stamps [] = db_return (Inr [])"
| "healthcheck_each cm db stamps (instance_id # ids) =
     db_bind (healthcheck_instance cm db (stamps instance_id) instance_id) (\<lambda>r.
     db_bind (healthcheck_each cm db stamps ids) (\<lambda>rs. db_return (Inr ((instance_id, r) # rs))))"

definition healthcheck_all :: "connection_manager \<Rightarrow> database \<Rightarrow> (string \<Rightarrow> stamp) \<Rightarrow> row dict db_op" where
  "healthcheck_all cm db stamps = healthcheck_each cm db stamps (list_enabled_instances cm)"

section \<open>The routes\<close>

definition instances_value :: "row dict \<Rightarrow> pyval" where
  "instances_value h = VDict (map (\<lambda>(k, r). (k, VDict r)) h)"

definition health_route ::
  "connection_manager \<Rightarrow> database \<Rightarrow> (string \<Rightarrow> stamp) \<Rightarrow> string \<Rightarrow> int \<Rightarrow> row db_op" where
  "health_route cm db stamps version uptime =
     db_bind (healthcheck_all cm db stamps) (\<lambda>h. db_return (Inr
       [(''status'', VStr ''ok''), (''version'', VStr version), (''uptime_seconds'', VInt uptime),
        (''instances'', instances_value h)]))"

definition readiness_route :: "connection_manager \<Rightarrow> database \<Rightarrow> (string \<Rightarrow> stamp) \<Rightarrow> row db_op" where
  "readiness_route cm db stamps =
     db_bind (healthcheck_all cm db stamps) (\<lambda>health. db_return (Inr
       [(''ready'', VBool (list_all (\<lambda>(_, v). row_get v ''state'' = VStr ''healthy'') health)),
        (''components'', VDict [(''config_loaded'', VBool True), (''policy_active'', VBool True),
           (''rate_limiter_active'', VBool True), (''session_manager_active'', VBool True)]),
        (''instances'', instances_value health)]))"

definition advanced_tools :: "string list \<Rightarrow> string list" where
  "advanced_tools registered = filter (\<lambda>nm. sublist ''_analyze_'' nm \<or> suffix ''_dashboard'' nm) registered"

definition auth_summary :: "auth_config \<Rightarrow> row" where
  "auth_summary auth =
     [(''auth_mode'', VStr (auth_mode auth)), (''azure_auth_enabled'', VBool (azure_auth_enabled auth)),
      (''azure_group_authorization_enabled'', VBool (azure_group_authorization_enabled auth)),
      (''required_scopes'', VList (map VStr (azure_required_scopes auth))),
      (''read_group_count'', VInt (int (length (azure_read_groups auth)))),
      (''write_group_count'', VInt (int (length (azure_write_groups auth))))]"

definition security_route ::
  "server_config \<Rightarrow> auth_config \<Rightarrow> string \<Rightarrow> bool \<Rightarrow> string \<Rightarrow> string \<Rightarrow> string list \<Rightarrow> server_state \<Rightarrow> row" where
  "security_route cfg auth backend flag_env checksum last_refresh registered s =
     [(''write_mode_default'', VStr (write_mode_default (sc_policy cfg))), (''rate_limit_backend'', VStr backend),
      (''tool_flag_env_applied'', VBool flag_env), (''policy_checksum_sha256'', VStr checksum),
      (''denied_requests'', VInt (int (ss_denied s))),
      (''registered_tools_count'', VInt (int (length registered))),
      (''registered_tools'', VList (map VStr registered)),
      (''advanced_tools_count'', VInt (int (length (advanced_tools registered)))),
      (''advanced_tools'', VList (map VStr (advanced_tools registered))),
      (''last_secret_refresh_utc'', VStr last_refresh), (''auth'', VDict (auth_summary auth))]"

text \<open>The two routes over the audit file.\<close>

definition audit_summary_route ::
  "(string \<Rightarrow> pyval result) \<Rightarrow> string list option \<Rightarrow> row result" where
  "audit_summary_route json_loads audit_file =
     bind_res (summarize_audit_events json_loads audit_file) (\<lambda>summary. Inr
       [(''events'', VInt (int (us_events summary))),
        (''latest'', case us_latest summary of None \<Rightarrow> VNone | Some r \<Rightarrow> VDict r)])"

definition tool_usage_summary_route ::
  "(string \<Rightarrow> pyval result) \<Rightarrow> string list option \<Rightarrow> usage_summary result" where
  "tool_usage_summary_route json_loads audit_file = summarize_audit_events json_loads audit_file"

section \<open>Secrets\<close>

text \<open>\<open>os.getenv(name, default)\<close> on the environment.\<close>

definition secret_resolver :: "string dict \<Rightarrow> string \<Rightarrow> row" where
  "secret_resolver environ secret_ref =
     (let env_name = map (\<lambda>c. if c = CHR ''/'' then CHR ''_'' else c) (py_upper secret_ref)
      in [(''username'', VStr (dict_get environ (env_name @ ''_USERNAME'') ''readonly_user'')),
          (''password'', VStr (dict_get environ (env_name @ ''_PASSWORD'') ''change-me''))])"

section \<open>Properties\<close>

text \<open>
  One check from the history \<open>h\<close>: what it sends (\<open>es\<close>) and whether it succeeds.  Without a
  connection string it sends nothing; it fails if the connection fails, or if \<open>SELECT 1\<close> fails,
  which is rolled back.
\<close>

definition health_check_at ::
  "connection_manager \<Rightarrow> database \<Rightarrow> string \<Rightarrow> history \<Rightarrow> db_event list \<Rightarrow> bool \<Rightarrow> bool" where
  "health_check_at cm db i h es ok \<longleftrightarrow>
     (\<forall>inst. map_of (cm_instances cm) i = Some inst \<longrightarrow> \<not> is_ok (connection_string cm inst None))
       \<and> es = [] \<and> \<not> ok
     \<or> (\<exists>inst conn. map_of (cm_instances cm) i = Some inst \<and> connection_string cm inst None = Inr conn
         \<and> (let select = DbExec conn ''SELECT 1'' [] in
            \<not> is_ok (db h (DbConnect conn)) \<and> es = [DbConnect conn] \<and> \<not> ok
            \<or> is_ok (db h (DbConnect conn)) \<and> \<not> is_ok (db (h @ [DbConnect conn]) select)
              \<and> es = [DbConnect conn, select, DbRollback conn] \<and> \<not> ok
            \<or> is_ok (db h (DbConnect conn)) \<and> is_ok (db (h @ [DbConnect conn]) select)
              \<and> es = [DbConnect conn, select] \<and> ok))"

lemma healthcheck_instance_exact:
  "\<exists>es r. healthcheck_instance cm db stamp i h = (h @ es, Inr r)
     \<and> row_get r ''state'' \<in> {VStr ''healthy'', VStr ''unhealthy''}
     \<and> health_check_at cm db i h es (row_get r ''state'' = VStr ''healthy'')"
proof -
  have state: "row_get (health_row stamp s e) ''state'' = VStr s" for s e
    by (simp add: health_row_def row_get_def dict_get_def)
  note run = healthcheck_instance_def db_try_def db_return_def with_connection_def db_do_def
  show ?thesis
  proof (cases "map_of (cm_instances cm) i")
    case None
    then show ?thesis by (simp add: run state health_check_at_def)
  next
    case inst: (Some inst)
    show ?thesis
    proof (cases "connection_string cm inst None")
      case (Inl e)
      with inst show ?thesis by (simp add: run state health_check_at_def)
    next
      case conn: (Inr conn)
      show ?thesis
        using inst conn
        by (cases "db h (DbConnect conn)"; cases "db (h @ [DbConnect conn]) (DbExec conn ''SELECT 1'' [])")
          (simp_all add: run state health_check_at_def Let_def)
    qed
  qed
qed

lemma healthcheck_each_exact:
  "\<exists>ess rs. healthcheck_each cm db stamps ids h = (h @ concat ess, Inr rs) \<and> map fst rs = ids
     \<and> length ess = length ids
     \<and> (\<forall>k < length ids. row_get (snd (rs ! k)) ''state'' \<in> {VStr ''healthy'', VStr ''unhealthy''}
          \<and> health_check_at cm db (ids ! k) (h @ concat (take k ess)) (ess ! k)
              (row_get (snd (rs ! k)) ''state'' = VStr ''healthy''))"
proof (induction ids arbitrary: h)
  case (Cons i ids)
  obtain es r where r: "healthcheck_instance cm db (stamps i) i h = (h @ es, Inr r)"
    "row_get r ''state'' \<in> {VStr ''healthy'', VStr ''unhealthy''}"
    "health_check_at cm db i h es (row_get r ''state'' = VStr ''healthy'')"
    using healthcheck_instance_exact by blast
  obtain ess rs where rs: "healthcheck_each cm db stamps ids (h @ es) = ((h @ es) @ concat ess, Inr rs)"
    "map fst rs = ids" "length ess = length ids"
    and each: "\<forall>k < length ids. row_get (snd (rs ! k)) ''state'' \<in> {VStr ''healthy'', VStr ''unhealthy''}
          \<and> health_check_at cm db (ids ! k) ((h @ es) @ concat (take k ess)) (ess ! k)
              (row_get (snd (rs ! k)) ''state'' = VStr ''healthy'')"
    using Cons.IH [of "h @ es"] by blast
  have "healthcheck_each cm db stamps (i # ids) h = (h @ concat (es # ess), Inr ((i, r) # rs))"
    by (simp add: r(1) rs(1) [simplified] db_bind_def db_return_def)
  with r(2,3) rs(2,3) each show ?case
    by (intro exI [of _ "es # ess"] exI [of _ "(i, r) # rs"]) (auto simp: nth_Cons split: nat.splits)
qed (simp add: db_return_def)


text \<open>One instance, which answers.\<close>

definition example_default_conn :: string where
  "example_default_conn =
     ''DRIVER={drv};SERVER=h,1433;DATABASE=master;UID=u;PWD={p};Encrypt=no;TrustServerCertificate=yes;''"

lemma example_default_connection:
  "map_of (cm_instances example_cm) ''primary'' = Some example_instance"
  "connection_string example_cm example_instance None = Inr example_default_conn"
  by code_simp+


text \<open>
  The security route tells how the server authorizes without telling for whom: it depends on
  the groups of the configuration only through their number, and on no credential at all.
\<close>

theorem security_hides_groups:
  assumes "auth' = auth\<lparr>azure_tenant_id := tenant, azure_client_id := client, azure_client_secret_ref := secret,
      azure_base_url := base, azure_identifier_uri := uri, azure_read_groups := rgs, azure_write_groups := wgs\<rparr>"
    and "length rgs = length (azure_read_groups auth)" "length wgs = length (azure_write_groups auth)"
  shows "security_route (cfg\<lparr>sc_cm := cm\<rparr>) auth' backend env checksum refresh registered s
    = security_route cfg auth backend env checksum refresh registered s"
  by (simp add: security_route_def auth_summary_def assms)

text \<open>An instance whose secret is not configured is tried with a fixed name and password.\<close>

lemma unset_secret_has_default:
  assumes "map_of environ (map (\<lambda>c. if c = CHR ''/'' then CHR ''_'' else c) (py_upper ref) @ ''_PASSWORD'') = None"
  shows "row_get (secret_resolver environ ref) ''password'' = VStr ''change-me''"
  using assms by (simp add: secret_resolver_def Let_def row_get_def dict_get_def)

theorem security_hides_groups_witness:
  "security_route example_config (default_auth\<lparr>azure_client_id := Some ''x''\<rparr>) ''local'' False ''c'' ''t'' [] example_state
   = security_route example_config default_auth ''local'' False ''c'' ''t'' [] example_state"
  using security_hides_groups [where auth = default_auth and auth' = "default_auth\<lparr>azure_client_id := Some ''x''\<rparr>"
    and tenant = "azure_tenant_id default_auth" and client = "Some ''x''"
    and secret = "azure_client_secret_ref default_auth" and base = "azure_base_url default_auth"
    and uri = "azure_identifier_uri default_auth" and rgs = "azure_read_groups default_auth"
    and wgs = "azure_write_groups default_auth" and cfg = example_config and cm = "sc_cm example_config"]
  by simp

end
