(* ===== verification/Redis_Limiter.thy ===== *)
theory Redis_Limiter
  imports Rate_Limiter
begin

text \<open>
  \<open>src/middleware/rate_limiter.py\<close>: the limiter shared through Redis and the choice of the limiter.
  The Lua script is the source's; the Redis commands are an argument (\<open>redis_ops\<close>), and so is the
  time that Redis lets pass between two scripts (\<open>elapse\<close>, in milliseconds), because keys expire.
  \<open>redis_laws\<close> states what the commands are documented to do, in terms of \<open>ZSCORE\<close> and \<open>PTTL\<close>.
\<close>

section \<open>The Redis commands\<close>

record 's redis_ops =
  zremrangebyscore :: "string \<Rightarrow> int \<Rightarrow> int \<Rightarrow> 's \<Rightarrow> 's"
  zcard :: "string \<Rightarrow> 's \<Rightarrow> int"
  zadd :: "string \<Rightarrow> int \<Rightarrow> string \<Rightarrow> 's \<Rightarrow> 's"
  expire :: "string \<Rightarrow> int \<Rightarrow> 's \<Rightarrow> 's"
  elapse :: "int \<Rightarrow> 's \<Rightarrow> 's"
  zscore :: "string \<Rightarrow> string \<Rightarrow> 's \<Rightarrow> int option"
  pttl :: "string \<Rightarrow> 's \<Rightarrow> int option"

definition redis_laws :: "'s redis_ops \<Rightarrow> bool" where
  "redis_laws R \<longleftrightarrow>
     (\<forall>k lo hi s k' m. zscore R k' m (zremrangebyscore R k lo hi s) =
        (case zscore R k' m s of Some u \<Rightarrow> if k' = k \<and> lo \<le> u \<and> u \<le> hi then None else Some u | None \<Rightarrow> None))
     \<and> (\<forall>k lo hi s k'. pttl R k' (zremrangebyscore R k lo hi s) \<in> {None, pttl R k' s})
     \<and> (\<forall>k s. zcard R k s = int (card {m. zscore R k m s \<noteq> None}))
     \<and> (\<forall>k u m s k' m'. zscore R k' m' (zadd R k u m s) = (if k' = k \<and> m' = m then Some u else zscore R k' m' s))
     \<and> (\<forall>k u m s k'. pttl R k' (zadd R k u m s) = pttl R k' s)
     \<and> (\<forall>k t s k' m. zscore R k' m (expire R k t s) = (if k' = k \<and> t \<le> 0 then None else zscore R k' m s))
     \<and> (\<forall>k t s k'. pttl R k' (expire R k t s) \<in> (if k' = k then {None, Some (t * 1000)} else {pttl R k' s}))
     \<and> (\<forall>d s k m. zscore R k m (elapse R d s) =
          (if \<exists>t. pttl R k s = Some t \<and> t \<le> d then None else zscore R k m s))
     \<and> (\<forall>d s k. pttl R k (elapse R d s) =
          (case pttl R k s of Some t \<Rightarrow> if t \<le> d then None else Some (t - d) | None \<Rightarrow> None))"

section \<open>The limiter\<close>

text \<open>\<open>_LUA\<close>: the code it returns and the new store.\<close>

definition limiter_script ::
  "'s redis_ops \<Rightarrow> string \<Rightarrow> string \<Rightarrow> int \<Rightarrow> int \<Rightarrow> int \<Rightarrow> int \<Rightarrow> string \<Rightarrow> int \<Rightarrow> 's \<Rightarrow> int \<times> 's" where
  "limiter_script R actor_key global_key actor_max global_max now_ms window_ms member ttl_sec s =
     (let cutoff = now_ms - window_ms;
          s1 = zremrangebyscore R actor_key 0 cutoff s;
          s2 = zremrangebyscore R global_key 0 cutoff s1
      in if zcard R actor_key s2 \<ge> actor_max then (2, s2)
         else if zcard R global_key s2 \<ge> global_max then (3, s2)
         else (1, expire R global_key ttl_sec (expire R actor_key ttl_sec
                (zadd R global_key now_ms member (zadd R actor_key now_ms member s2)))))"

record redis_limiter =
  rd_actor_limit :: int
  rd_global_limit :: int
  rd_namespace :: string
  rd_window_ms :: int
  rd_ttl_sec :: int

definition redis_limiter_init :: "int \<Rightarrow> int \<Rightarrow> int \<Rightarrow> int \<Rightarrow> string \<Rightarrow> redis_limiter" where
  "redis_limiter_init actor_rpm actor_burst global_rpm global_burst namespace =
     \<lparr>rd_actor_limit = actor_rpm + actor_burst, rd_global_limit = global_rpm + global_burst,
      rd_namespace = namespace, rd_window_ms = 60000, rd_ttl_sec = 120\<rparr>"

text \<open>A call: the actor, \<open>time.time()\<close> and \<open>uuid.uuid4().hex\<close>.  \<open>int()\<close> truncates.\<close>

type_synonym redis_call = "string \<times> real \<times> string"

definition epoch_ms :: "real \<Rightarrow> int" where
  "epoch_ms t = (if t < 0 then \<lceil>t * 1000\<rceil> else \<lfloor>t * 1000\<rfloor>)"

definition member_of :: "redis_call \<Rightarrow> string" where
  "member_of q = int_str (epoch_ms (fst (snd q))) @ '':'' @ snd (snd q)"

definition actor_key :: "redis_limiter \<Rightarrow> string \<Rightarrow> string" where
  "actor_key rl actor = rd_namespace rl @ '':actor:'' @ actor"

definition global_key :: "redis_limiter \<Rightarrow> string" where
  "global_key rl = rd_namespace rl @ '':global''"

definition redis_allow :: "'s redis_ops \<Rightarrow> redis_limiter \<Rightarrow> redis_call \<Rightarrow> 's \<Rightarrow> unit result \<times> 's" where
  "redis_allow R rl q s =
     (let (code, s') = limiter_script R (actor_key rl (fst q)) (global_key rl) (rd_actor_limit rl)
            (rd_global_limit rl) (epoch_ms (fst (snd q))) (rd_window_ms rl) (member_of q) (rd_ttl_sec rl) s
      in (if code = 2 then Inl (permission_error ''RATE_LIMIT_EXCEEDED: actor quota exceeded'')
          else if code = 3 then Inl (permission_error ''RATE_LIMIT_EXCEEDED: global quota exceeded'')
          else if code \<noteq> 1 then Inl (permission_error ''RATE_LIMIT_EXCEEDED: backend returned unknown result'')
          else Inr (), s'))"

section \<open>The choice of the limiter\<close>

datatype limiter = In_Process rate_limiter | Shared string redis_limiter

text \<open>Whether the \<open>redis\<close> package is installed is an argument.\<close>

definition build_rate_limiter ::
  "bool \<Rightarrow> string \<Rightarrow> int \<Rightarrow> int \<Rightarrow> int \<Rightarrow> int \<Rightarrow> string option \<Rightarrow> string \<Rightarrow> limiter result" where
  "build_rate_limiter has_redis backend actor_rpm actor_burst global_rpm global_burst redis_url namespace =
     (if py_lower (py_strip backend) = ''redis''
      then if redis_url = None \<or> redis_url = Some []
           then Inl (value_error ''FASTMCP_REDIS_URL is required when FASTMCP_RATE_LIMIT_BACKEND=redis'')
           else if \<not> has_redis
           then Inl (runtime_error ''Redis backend requested but redis package is not installed'')
           else Inr (Shared (the redis_url)
                  (redis_limiter_init actor_rpm actor_burst global_rpm global_burst namespace))
      else Inr (In_Process (rate_limiter_init actor_rpm actor_burst global_rpm global_burst)))"

section \<open>A run and its specification\<close>

text \<open>The admitted calls of a run, with the time between the calls passing in Redis.\<close>

fun run_redis :: "'s redis_ops \<Rightarrow> redis_limiter \<Rightarrow> int \<Rightarrow> redis_call list \<Rightarrow> 's \<Rightarrow> redis_call list" where
  "run_redis R rl prev [] s = []"
| "run_redis R rl prev (q # qs) s =
     (let now = epoch_ms (fst (snd q)); (r, s') = redis_allow R rl q (elapse R (now - prev) s)
      in (if is_ok r then [q] else []) @ run_redis R rl now qs s')"

definition recent_ms :: "int \<Rightarrow> redis_call list \<Rightarrow> redis_call list" where
  "recent_ms now hist = filter (\<lambda>(_, t, _). now - 60000 < epoch_ms t) hist"

definition redis_admits :: "int \<Rightarrow> int \<Rightarrow> redis_call \<Rightarrow> redis_call list \<Rightarrow> bool" where
  "redis_admits al gl q hist \<longleftrightarrow>
     int (length (filter (\<lambda>(a, _). a = fst q) (recent_ms (epoch_ms (fst (snd q))) hist))) < al
     \<and> int (length (recent_ms (epoch_ms (fst (snd q))) hist)) < gl"

fun redis_spec :: "int \<Rightarrow> int \<Rightarrow> redis_call list \<Rightarrow> redis_call list \<Rightarrow> redis_call list" where
  "redis_spec al gl [] hist = []"
| "redis_spec al gl (q # qs) hist =
     (if redis_admits al gl q hist then q # redis_spec al gl qs (hist @ [q]) else redis_spec al gl qs hist)"

section \<open>What a key holds\<close>

text \<open>
  \<open>H\<close> are the members ever added to the key with their scores.  Those of the window are in the
  set; whatever is in the set was added; and the key does not expire before its members are old.
\<close>

definition zrel :: "'s redis_ops \<Rightarrow> int \<Rightarrow> 's \<Rightarrow> string \<Rightarrow> (string \<times> int) list \<Rightarrow> bool" where
  "zrel R now s k H \<longleftrightarrow>
     (\<forall>m u. (m, u) \<in> set H \<longrightarrow> 0 \<le> u \<and> u \<le> now)
     \<and> (\<forall>m u. (m, u) \<in> set H \<longrightarrow> now - 60000 < u \<longrightarrow> zscore R k m s = Some u)
     \<and> (\<forall>m u. zscore R k m s = Some u \<longrightarrow> (m, u) \<in> set H)
     \<and> (\<forall>t m u. pttl R k s = Some t \<longrightarrow> (m, u) \<in> set H \<longrightarrow> u + 120000 \<le> now + t)"

lemma zrelI:
  assumes "\<And>m u. (m, u) \<in> set H \<Longrightarrow> 0 \<le> u \<and> u \<le> now"
    "\<And>m u. (m, u) \<in> set H \<Longrightarrow> now - 60000 < u \<Longrightarrow> zscore R k m s = Some u"
    "\<And>m u. zscore R k m s = Some u \<Longrightarrow> (m, u) \<in> set H"
    "\<And>t m u. pttl R k s = Some t \<Longrightarrow> (m, u) \<in> set H \<Longrightarrow> u + 120000 \<le> now + t"
  shows "zrel R now s k H"
  unfolding zrel_def using assms by blast

lemma zrelD:
  assumes "zrel R now s k H"
  shows "(m, u) \<in> set H \<Longrightarrow> 0 \<le> u" "(m, u) \<in> set H \<Longrightarrow> u \<le> now"
    "(m, u) \<in> set H \<Longrightarrow> now - 60000 < u \<Longrightarrow> zscore R k m s = Some u"
    "zscore R k m s = Some u \<Longrightarrow> (m, u) \<in> set H"
    "pttl R k s = Some t \<Longrightarrow> (m, u) \<in> set H \<Longrightarrow> u + 120000 \<le> now + t"
  using assms unfolding zrel_def by blast+

lemma redis_lawsD:
  assumes "redis_laws R"
  shows "zscore R k' m (zremrangebyscore R k lo hi s) =
      (case zscore R k' m s of Some u \<Rightarrow> if k' = k \<and> lo \<le> u \<and> u \<le> hi then None else Some u | None \<Rightarrow> None)"
    "pttl R k' (zremrangebyscore R k lo hi s) \<in> {None, pttl R k' s}"
    "zcard R k s = int (card {m. zscore R k m s \<noteq> None})"
    "zscore R k' m' (zadd R k u m s) = (if k' = k \<and> m' = m then Some u else zscore R k' m' s)"
    "pttl R k' (zadd R k u m s) = pttl R k' s"
    "zscore R k' m (expire R k t s) = (if k' = k \<and> t \<le> 0 then None else zscore R k' m s)"
    "pttl R k' (expire R k t s) \<in> (if k' = k then {None, Some (t * 1000)} else {pttl R k' s})"
    "zscore R k m (elapse R d s) = (if \<exists>t. pttl R k s = Some t \<and> t \<le> d then None else zscore R k m s)"
    "pttl R k (elapse R d s) = (case pttl R k s of Some t \<Rightarrow> if t \<le> d then None else Some (t - d) | None \<Rightarrow> None)"
proof -
  note laws = assms [unfolded redis_laws_def]
  show "zscore R k' m (zremrangebyscore R k lo hi s) =
      (case zscore R k' m s of Some u \<Rightarrow> if k' = k \<and> lo \<le> u \<and> u \<le> hi then None else Some u | None \<Rightarrow> None)"
    by (rule laws [THEN conjunct1, rule_format])
  show "pttl R k' (zremrangebyscore R k lo hi s) \<in> {None, pttl R k' s}" by (rule laws [THEN conjunct2, THEN conjunct1, rule_format])
  show "zcard R k s = int (card {m. zscore R k m s \<noteq> None})" by (rule laws [THEN conjunct2, THEN conjunct2, THEN conjunct1, rule_format])
  show "zscore R k' m' (zadd R k u m s) = (if k' = k \<and> m' = m then Some u else zscore R k' m' s)"
    by (rule laws [THEN conjunct2, THEN conjunct2, THEN conjunct2, THEN conjunct1, rule_format])
  show "pttl R k' (zadd R k u m s) = pttl R k' s" by (rule laws [THEN conjunct2, THEN conjunct2, THEN conjunct2, THEN conjunct2, THEN conjunct1, rule_format])
  show "zscore R k' m (expire R k t s) = (if k' = k \<and> t \<le> 0 then None else zscore R k' m s)"
    by (rule laws [THEN conjunct2, THEN conjunct2, THEN conjunct2, THEN conjunct2, THEN conjunct2, THEN conjunct1, rule_format])
  show "pttl R k' (expire R k t s) \<in> (if k' = k then {None, Some (t * 1000)} else {pttl R k' s})"
    by (rule laws [THEN conjunct2, THEN conjunct2, THEN conjunct2, THEN conjunct2, THEN conjunct2, THEN conjunct2, THEN conjunct1, rule_format])
  show "zscore R k m (elapse R d s) = (if \<exists>t. pttl R k s = Some t \<and> t \<le> d then None else zscore R k m s)"
    by (rule laws [THEN conjunct2, THEN conjunct2, THEN conjunct2, THEN conjunct2, THEN conjunct2, THEN conjunct2, THEN conjunct2, THEN conjunct1, rule_format])
  show "pttl R k (elapse R d s) = (case pttl R k s of Some t \<Rightarrow> if t \<le> d then None else Some (t - d) | None \<Rightarrow> None)"
    by (rule laws [THEN conjunct2, THEN conjunct2, THEN conjunct2, THEN conjunct2, THEN conjunct2, THEN conjunct2, THEN conjunct2, THEN conjunct2, rule_format])
qed

lemma zrel_elapse:
  assumes "redis_laws R" "zrel R prev s k H" "prev \<le> now"
  shows "zrel R now (elapse R (now - prev) s) k H"
proof -
  note rel = zrelD [OF assms(2)]
  have sc: "zscore R k m (elapse R (now - prev) s)
      = (if \<exists>t. pttl R k s = Some t \<and> t \<le> now - prev then None else zscore R k m s)" for m
    using assms(1) by (simp add: redis_laws_def)
  have tt: "pttl R k (elapse R (now - prev) s)
      = (case pttl R k s of Some t \<Rightarrow> if t \<le> now - prev then None else Some (t - (now - prev)) | None \<Rightarrow> None)"
    using assms(1) by (simp add: redis_laws_def)
  show ?thesis
  proof (rule zrelI)
    fix m u assume m: "(m, u) \<in> set H"
    show "0 \<le> u \<and> u \<le> now" using rel(1,2) [OF m] assms(3) by simp
    show "zscore R k m (elapse R (now - prev) s) = Some u" if "now - 60000 < u"
    proof -
      have "\<not> (\<exists>t. pttl R k s = Some t \<and> t \<le> now - prev)" using rel(5) [OF _ m] that by force
      then show ?thesis using rel(3) [OF m] that assms(3) by (simp add: sc)
    qed
    show "u + 120000 \<le> now + t" if "pttl R k (elapse R (now - prev) s) = Some t" for t
      using that rel(5) [OF _ m] by (auto simp: tt split: option.splits if_splits)
  next
    fix m u assume "zscore R k m (elapse R (now - prev) s) = Some u"
    then show "(m, u) \<in> set H" using rel(4) by (simp add: sc split: if_splits)
  qed
qed

lemma zrel_frame:
  assumes "zrel R now s k H" "\<And>m. zscore R k m s' = zscore R k m s" "pttl R k s' \<in> {None, pttl R k s}"
  shows "zrel R now s' k H"
proof (rule zrelI)
  note rel = zrelD [OF assms(1)]
  fix m u assume m: "(m, u) \<in> set H"
  show "0 \<le> u \<and> u \<le> now" using rel(1,2) [OF m] by simp
  show "zscore R k m s' = Some u" if "now - 60000 < u" unfolding assms(2) by (rule rel(3) [OF m that])
  show "u + 120000 \<le> now + t" if "pttl R k s' = Some t" for t
    by (rule rel(5) [OF _ m]) (use that assms(3) in force)
next
  fix m u assume "zscore R k m s' = Some u"
  then show "(m, u) \<in> set H" unfolding assms(2) by (rule zrelD(4) [OF assms(1)])
qed

lemma zrel_prune:
  assumes "redis_laws R" "zrel R now s k H"
  shows "zrel R now (zremrangebyscore R k' 0 (now - 60000) s) k H"
proof -
  note rel = zrelD [OF assms(2)]
  have sc: "zscore R k m (zremrangebyscore R k' 0 (now - 60000) s) =
      (case zscore R k m s of Some u \<Rightarrow> if k = k' \<and> 0 \<le> u \<and> u \<le> now - 60000 then None else Some u | None \<Rightarrow> None)" for m
    using assms(1) by (simp add: redis_laws_def)
  have tt: "pttl R k (zremrangebyscore R k' 0 (now - 60000) s) \<in> {None, pttl R k s}"
    using assms(1) by (simp add: redis_laws_def)
  show ?thesis
  proof (rule zrelI)
    fix m u assume "zscore R k m (zremrangebyscore R k' 0 (now - 60000) s) = Some u"
    then show "(m, u) \<in> set H" by (auto intro: rel(4) simp: sc split: option.splits if_splits)
  next
    fix t m u assume "pttl R k (zremrangebyscore R k' 0 (now - 60000) s) = Some t" "(m, u) \<in> set H"
    then show "u + 120000 \<le> now + t" using tt rel(5) by force
  next
    fix m u assume m: "(m, u) \<in> set H"
    show "0 \<le> u \<and> u \<le> now" using rel(1,2) [OF m] by simp
    show "zscore R k m (zremrangebyscore R k' 0 (now - 60000) s) = Some u" if "now - 60000 < u"
      using rel(3) [OF m that] that by (simp add: sc)
  qed
qed

lemma zrel_add:
  assumes "zrel R now s k H" "0 \<le> now" "\<And>m'. zscore R k m' s' = (if m' = m then Some now else zscore R k m' s)"
    "pttl R k s' \<in> {None, Some 120000}" "m \<notin> fst ` set H"
  shows "zrel R now s' k (H @ [(m, now)])"
proof -
  note rel = zrelD [OF assms(1)]
  show ?thesis
  proof (rule zrelI)
    fix m' u assume m: "(m', u) \<in> set (H @ [(m, now)])"
    then show "0 \<le> u \<and> u \<le> now" using rel(1,2) assms(2) by auto
    have "m' \<noteq> m" if "(m', u) \<in> set H" using that assms(5) by force
    then show "zscore R k m' s' = Some u" if "now - 60000 < u"
      using m that rel(3) by (auto simp: assms(3))
    show "u + 120000 \<le> now + t" if "pttl R k s' = Some t" for t
      using that assms(4) m rel(2) by fastforce
  next
    fix m' u assume "zscore R k m' s' = Some u"
    then show "(m', u) \<in> set (H @ [(m, now)])" using rel(4) by (auto simp: assms(3) split: if_splits)
  qed
qed

lemma zcard_window:
  assumes laws: "redis_laws R" and rel: "zrel R now s k H" and dist: "distinct (map fst H)"
    and pruned: "\<And>m u. zscore R k m s = Some u \<Longrightarrow> now - 60000 < u"
  shows "zcard R k s = int (length (filter (\<lambda>(m, u). now - 60000 < u) H))"
proof -
  let ?W = "filter (\<lambda>(m, u). now - 60000 < u) H"
  have "zscore R k m s \<noteq> None \<longleftrightarrow> m \<in> fst ` set ?W" for m
  proof
    assume "zscore R k m s \<noteq> None"
    then obtain u where u: "zscore R k m s = Some u" by blast
    then have "(m, u) \<in> set ?W" using zrelD(4) [OF rel u] pruned [OF u] by simp
    then show "m \<in> fst ` set ?W" by (rule rev_image_eqI) simp
  next
    assume "m \<in> fst ` set ?W"
    then obtain u where "(m, u) \<in> set H" "now - 60000 < u" by auto
    then show "zscore R k m s \<noteq> None" using zrelD(3) [OF rel] by simp
  qed
  then have "{m. zscore R k m s \<noteq> None} = set (map fst ?W)" by auto
  moreover have "distinct (map fst ?W)"
    by (rule distinct_map_filter [OF dist])
  moreover have "zcard R k s = int (card {m. zscore R k m s \<noteq> None})"
    using laws by (rule redis_lawsD)
  ultimately show ?thesis
    using distinct_card [of "map fst ?W"] by simp
qed

section \<open>One call\<close>

lemma actor_key_inject [simp]: "actor_key rl a = actor_key rl b \<longleftrightarrow> a = b"
  by (simp add: actor_key_def)

lemma actor_key_global [simp]: "actor_key rl a \<noteq> global_key rl" "global_key rl \<noteq> actor_key rl a"
  by (simp_all add: actor_key_def global_key_def)

definition key_events :: "redis_limiter \<Rightarrow> string \<Rightarrow> redis_call list \<Rightarrow> (string \<times> int) list" where
  "key_events rl k hist = map (\<lambda>q. (member_of q, epoch_ms (fst (snd q))))
     (filter (\<lambda>q. k = global_key rl \<or> k = actor_key rl (fst q)) hist)"

lemma key_events_distinct: "distinct (map member_of hist) \<Longrightarrow> distinct (map fst (key_events rl k hist))"
  by (simp add: key_events_def comp_def distinct_map_filter)

lemma key_events_snoc:
  "key_events rl k (hist @ [q]) = key_events rl k hist @
     (if k = global_key rl \<or> k = actor_key rl (fst q) then [(member_of q, epoch_ms (fst (snd q)))] else [])"
  by (simp add: key_events_def)

lemma key_events_members: "fst ` set (key_events rl k hist) \<subseteq> set (map member_of hist)"
  by (auto simp: key_events_def)

lemma actor_window:
  "length (filter (\<lambda>(m, u). now - 60000 < u) (key_events rl (actor_key rl a) hist))
   = length (filter (\<lambda>(b, _). b = a) (recent_ms now hist))"
  by (induction hist) (auto simp: key_events_def recent_ms_def)

lemma global_window:
  "length (filter (\<lambda>(m, u). now - 60000 < u) (key_events rl (global_key rl) hist)) = length (recent_ms now hist)"
  by (induction hist) (auto simp: key_events_def recent_ms_def)

definition redis_rel :: "'s redis_ops \<Rightarrow> redis_limiter \<Rightarrow> int \<Rightarrow> 's \<Rightarrow> redis_call list \<Rightarrow> bool" where
  "redis_rel R rl now s hist \<longleftrightarrow>
     (\<forall>k \<in> insert (global_key rl) (range (actor_key rl)). zrel R now s k (key_events rl k hist))"

definition pruned_store :: "'s redis_ops \<Rightarrow> redis_limiter \<Rightarrow> int \<Rightarrow> string \<Rightarrow> 's \<Rightarrow> 's" where
  "pruned_store R rl now a s = zremrangebyscore R (global_key rl) 0 (now - 60000)
     (zremrangebyscore R (actor_key rl a) 0 (now - 60000) s)"

lemma pruned_rel:
  assumes "redis_laws R" "redis_rel R rl now s hist"
  shows "redis_rel R rl now (pruned_store R rl now a s) hist"
  using assms(2) zrel_prune [OF assms(1)] unfolding redis_rel_def pruned_store_def by blast

lemma pruned_young:
  assumes "redis_laws R" "redis_rel R rl now s hist" "k \<in> {actor_key rl a, global_key rl}"
    and "zscore R k m (pruned_store R rl now a s) = Some u"
  shows "now - 60000 < u"
proof -
  have "zrel R now s k (key_events rl k hist)" using assms(2,3) unfolding redis_rel_def by blast
  then have "0 \<le> u" if "zscore R k m s = Some u" using zrelD(1,4) that by metis
  then show ?thesis
    using assms(3,4) by (auto simp: pruned_store_def redis_lawsD(1) [OF assms(1)] split: option.splits if_splits)
qed

lemma pruned_counts:
  assumes "redis_laws R" "redis_rel R rl now s hist" "distinct (map member_of hist)"
  shows "zcard R (actor_key rl a) (pruned_store R rl now a s)
      = int (length (filter (\<lambda>(b, _). b = a) (recent_ms now hist)))"
    and "zcard R (global_key rl) (pruned_store R rl now a s) = int (length (recent_ms now hist))"
proof -
  have "zcard R k (pruned_store R rl now a s)
      = int (length (filter (\<lambda>(m, u). now - 60000 < u) (key_events rl k hist)))"
    if "k \<in> {actor_key rl a, global_key rl}" for k
    by (rule zcard_window [OF assms(1) _ key_events_distinct [OF assms(3)] pruned_young [OF assms(1,2) that]])
      (use pruned_rel [OF assms(1,2)] that in \<open>auto simp: redis_rel_def\<close>)
  then show "zcard R (actor_key rl a) (pruned_store R rl now a s)
      = int (length (filter (\<lambda>(b, _). b = a) (recent_ms now hist)))"
    "zcard R (global_key rl) (pruned_store R rl now a s) = int (length (recent_ms now hist))"
    by (simp_all add: actor_window global_window)
qed

definition added_store :: "'s redis_ops \<Rightarrow> redis_limiter \<Rightarrow> redis_call \<Rightarrow> 's \<Rightarrow> 's" where
  "added_store R rl q s = (let ak = actor_key rl (fst q); gk = global_key rl; now = epoch_ms (fst (snd q)) in
     expire R gk 120 (expire R ak 120 (zadd R gk now (member_of q) (zadd R ak now (member_of q) s))))"

lemma added_rel:
  assumes laws: "redis_laws R" and rel: "redis_rel R rl (epoch_ms (fst (snd q))) s hist"
    and "0 \<le> epoch_ms (fst (snd q))" "member_of q \<notin> set (map member_of hist)"
  shows "redis_rel R rl (epoch_ms (fst (snd q))) (added_store R rl q s) (hist @ [q])"
  unfolding redis_rel_def
proof
  let ?now = "epoch_ms (fst (snd q))"
  fix k assume k: "k \<in> insert (global_key rl) (range (actor_key rl))"
  then have zrel: "zrel R ?now s k (key_events rl k hist)" using rel unfolding redis_rel_def by blast
  have sc: "zscore R k m (added_store R rl q s) =
      (if (k = global_key rl \<or> k = actor_key rl (fst q)) \<and> m = member_of q then Some ?now else zscore R k m s)" for m
    by (auto simp: added_store_def Let_def redis_lawsD(4,6) [OF laws])
  have tt: "pttl R k (added_store R rl q s) \<in>
      (if k = global_key rl \<or> k = actor_key rl (fst q) then {None, Some 120000} else {pttl R k s})"
    using redis_lawsD(7) [OF laws, of k "global_key rl" 120
        "expire R (actor_key rl (fst q)) 120 (zadd R (global_key rl) ?now (member_of q)
          (zadd R (actor_key rl (fst q)) ?now (member_of q) s))"]
      redis_lawsD(7) [OF laws, of k "actor_key rl (fst q)" 120
        "zadd R (global_key rl) ?now (member_of q) (zadd R (actor_key rl (fst q)) ?now (member_of q) s)"]
    by (auto simp: added_store_def Let_def redis_lawsD(5) [OF laws] split: if_splits)
  show "zrel R ?now (added_store R rl q s) k (key_events rl k (hist @ [q]))"
  proof (cases "k = global_key rl \<or> k = actor_key rl (fst q)")
    case True
    then show ?thesis
      unfolding key_events_snoc
      by (simp only: if_True) (rule zrel_add [OF zrel assms(3)],
        use True sc tt assms(4) key_events_members [of rl k hist] in auto)
  next
    case False
    then show ?thesis
      unfolding key_events_snoc
      by (simp only: if_False append_Nil2) (rule zrel_frame [OF zrel], use False sc tt in auto)
  qed
qed

abbreviation configured :: "redis_limiter \<Rightarrow> bool" where
  "configured rl \<equiv> rd_window_ms rl = 60000 \<and> rd_ttl_sec rl = 120"

lemma redis_allow_result:
  assumes "redis_laws R" "redis_rel R rl (epoch_ms (fst (snd q))) s hist" "distinct (map member_of hist)"
    and "configured rl"
  shows "redis_allow R rl q s =
     (let now = epoch_ms (fst (snd q)); s' = pruned_store R rl now (fst q) s
      in if int (length (filter (\<lambda>(b, _). b = fst q) (recent_ms now hist))) \<ge> rd_actor_limit rl
         then (Inl (permission_error ''RATE_LIMIT_EXCEEDED: actor quota exceeded''), s')
         else if int (length (recent_ms now hist)) \<ge> rd_global_limit rl
         then (Inl (permission_error ''RATE_LIMIT_EXCEEDED: global quota exceeded''), s')
         else (Inr (), added_store R rl q s'))"
  using assms(4)
  by (simp add: redis_allow_def limiter_script_def Let_def pruned_store_def [symmetric]
      pruned_counts [OF assms(1-3)] added_store_def)

lemma redis_step:
  assumes laws: "redis_laws R" and rel: "redis_rel R rl prev s hist" and conf: "configured rl"
    and dist: "distinct (map member_of (hist @ [q]))" and le: "prev \<le> epoch_ms (fst (snd q))" "0 \<le> prev"
  defines "r \<equiv> redis_allow R rl q (elapse R (epoch_ms (fst (snd q)) - prev) s)"
    and "admits \<equiv> redis_admits (rd_actor_limit rl) (rd_global_limit rl) q hist"
  shows "is_ok (fst r) = admits"
    and "redis_rel R rl (epoch_ms (fst (snd q))) (snd r) (if admits then hist @ [q] else hist)"
proof -
  let ?now = "epoch_ms (fst (snd q))"
  let ?s = "elapse R (?now - prev) s"
  have d: "distinct (map member_of hist)" "member_of q \<notin> set (map member_of hist)" using dist by auto
  have rel': "redis_rel R rl ?now ?s hist"
    using rel zrel_elapse [OF laws _ le(1)] unfolding redis_rel_def by blast
  note res = redis_allow_result [OF laws rel' d(1) conf]
  show "is_ok (fst r) = admits"
    by (simp add: r_def admits_def res Let_def redis_admits_def not_le)
  have p: "redis_rel R rl ?now (pruned_store R rl ?now (fst q) ?s) hist"
    by (rule pruned_rel [OF laws rel'])
  show "redis_rel R rl ?now (snd r) (if admits then hist @ [q] else hist)"
    using p added_rel [OF laws p _ d(2)] le
    by (auto simp: r_def admits_def res Let_def redis_admits_def not_le)
qed

lemma redis_run:
  assumes "redis_laws R" "configured rl" "redis_rel R rl prev s hist" "0 \<le> prev"
    and "sorted (prev # map (\<lambda>q. epoch_ms (fst (snd q))) qs)" "distinct (map member_of (hist @ qs))"
  shows "run_redis R rl prev qs s = redis_spec (rd_actor_limit rl) (rd_global_limit rl) qs hist"
  using assms(3-6)
proof (induction qs arbitrary: prev s hist)
  case (Cons q qs)
  have le: "prev \<le> epoch_ms (fst (snd q))" using Cons.prems(3) by simp
  have d: "distinct (map member_of (hist @ [q]))" using Cons.prems(4) by auto
  note step = redis_step [OF assms(1) Cons.prems(1) assms(2) d le Cons.prems(2)]
  have rest: "0 \<le> epoch_ms (fst (snd q))" "sorted (epoch_ms (fst (snd q)) # map (\<lambda>q. epoch_ms (fst (snd q))) qs)"
    using Cons.prems(2,3) by auto
  show ?case
    using Cons.IH [OF step(2) rest] Cons.prems(4) step(1) by (auto simp: Let_def split_beta split: if_splits)
qed simp

section \<open>The two limiters\<close>

lemma member_distinct:
  assumes "\<forall>q \<in> set qs. length (snd (snd q)) = 32" "distinct (map (\<lambda>q. snd (snd q)) qs)"
  shows "distinct (map member_of qs)"
  unfolding distinct_map
proof
  show "distinct qs" using assms(2) by (simp add: distinct_map)
  show "inj_on member_of (set qs)"
  proof (rule inj_onI)
    fix q q' assume q: "q \<in> set qs" "q' \<in> set qs" and eq: "member_of q = member_of q'"
    have "take 32 (rev (member_of q)) = rev (snd (snd q))" "take 32 (rev (member_of q')) = rev (snd (snd q'))"
      using assms(1) q by (simp_all add: member_of_def)
    then have "snd (snd q) = snd (snd q')" using eq by simp
    then show "q = q'" using assms(2) q by (auto simp: distinct_map inj_on_def)
  qed
qed

lemma epoch_ms_mono: "0 \<le> t \<Longrightarrow> t \<le> u \<Longrightarrow> epoch_ms t \<le> epoch_ms u"
  by (auto simp: epoch_ms_def intro!: floor_mono)

lemma epoch_ms_nonneg: "0 \<le> t \<Longrightarrow> 0 \<le> epoch_ms t"
  by (simp add: epoch_ms_def)

lemma redis_spec_run:
  assumes "redis_laws R" "\<forall>k m. zscore R k m s = None"
    and "sorted (0 # map (\<lambda>q. fst (snd q)) qs)"
    and "\<forall>q \<in> set qs. length (snd (snd q)) = 32" "distinct (map (\<lambda>q. snd (snd q)) qs)"
  shows "run_redis R (redis_limiter_init ar ab gr gb ns) 0 qs s = redis_spec (ar + ab) (gr + gb) qs []"
proof -
  have "zrel R 0 s k []" for k using assms(2) by (simp add: zrel_def)
  then have "redis_rel R (redis_limiter_init ar ab gr gb ns) 0 s []"
    by (simp add: redis_rel_def key_events_def)
  moreover have "sorted (0 # map (\<lambda>q. epoch_ms (fst (snd q))) qs)"
    using assms(3) by (induction qs) (auto intro!: epoch_ms_mono epoch_ms_nonneg)
  ultimately show ?thesis
    using redis_run [OF assms(1), of "redis_limiter_init ar ab gr gb ns" 0 s "[]" qs]
      member_distinct [OF assms(4,5)]
    by (simp add: redis_limiter_init_def)
qed

text \<open>
  C19: on any Redis that keeps the documented laws of its commands and starts without keys, when the
  clock readings the calls bring never decrease (one clock, or servers whose clocks agree) and their
  member ids are distinct texts of 32 characters (uuid4().hex), the script, with the members and
  expiry times the limiter gives it, admits exactly the calls for which fewer than the actor's limit
  were admitted for the actor, and fewer than the global limit overall, in the last 60 000
  milliseconds; that the keys expire never loses a call of the window.
\<close>

theorem redis_refines_window_spec:
  assumes "redis_laws R" "\<forall>k m. zscore R k m s = None"
    and "sorted (0 # map (\<lambda>q. fst (snd q)) qs)"
    and "\<forall>q \<in> set qs. length (snd (snd q)) = 32" "distinct (map (\<lambda>q. snd (snd q)) qs)"
  shows "run_redis R (redis_limiter_init ar ab gr gb ns) 0 qs s = redis_spec (ar + ab) (gr + gb) qs []"
  using assms by (rule redis_spec_run)

text \<open>A Redis of lists: the members of a key with their scores, newest first, and its expiry.\<close>

type_synonym zstore = "string \<Rightarrow> (string \<times> int) list \<times> int option"

definition zmembers :: "(string \<times> int) list \<Rightarrow> (string \<times> int) list" where
  "zmembers l = map (\<lambda>m. (m, the (map_of l m))) (remdups (map fst l))"

definition list_redis :: "zstore redis_ops" where
  "list_redis = \<lparr>
     zremrangebyscore = (\<lambda>k lo hi s. s(k := (filter (\<lambda>(_, u). \<not> (lo \<le> u \<and> u \<le> hi)) (zmembers (fst (s k))), snd (s k)))),
     zcard = (\<lambda>k s. int (length (zmembers (fst (s k))))),
     zadd = (\<lambda>k u m s. s(k := ((m, u) # fst (s k), snd (s k)))),
     expire = (\<lambda>k t s. if t \<le> 0 then s(k := ([], None)) else s(k := (fst (s k), Some (t * 1000)))),
     elapse = (\<lambda>d s k. case snd (s k) of None \<Rightarrow> s k
        | Some t \<Rightarrow> if t \<le> d then ([], None) else (fst (s k), Some (t - d))),
     zscore = (\<lambda>k m s. map_of (fst (s k)) m),
     pttl = (\<lambda>k s. snd (s k))\<rparr>"

lemma map_of_filter_zmembers:
  "map_of (filter P (zmembers l)) m = (case map_of l m of None \<Rightarrow> None | Some u \<Rightarrow> if P (m, u) then Some u else None)"
proof -
  have "map_of (filter P (map (\<lambda>m. (m, f m)) xs)) m = (if m \<in> set xs \<and> P (m, f m) then Some (f m) else None)"
    for f :: "string \<Rightarrow> int" and xs
    by (induction xs) auto
  then show ?thesis
    by (auto simp: zmembers_def map_of_eq_None_iff split: option.splits)
      (metis map_of_eq_None_iff option.distinct(1))+
qed

lemma length_zmembers: "length (zmembers l) = card {m. \<exists>u. map_of l m = Some u}"
  using dom_map_of_conv_image_fst [of l] by (simp add: zmembers_def dom_def length_remdups_card_conv)

lemma list_redis_laws: "redis_laws list_redis"
  by (simp add: redis_laws_def list_redis_def length_zmembers)
    (auto simp: map_of_filter_zmembers split: option.splits)

lemmas limiter_run_simps = redis_allow_def limiter_script_def Let_def actor_key_def global_key_def
  redis_limiter_init_def member_of_def epoch_ms_def list_redis_def zmembers_def

text \<open>Two calls of an actor a minute apart, a refused one between them.\<close>

theorem redis_refines_window_spec_witness:
  "run_redis list_redis (redis_limiter_init 1 0 5 0 ''ns'') 0
     [(''a'', 0, replicate 32 CHR ''0''), (''a'', 1, replicate 32 CHR ''1''), (''a'', 60, replicate 32 CHR ''2'')]
     (\<lambda>_. ([], None))
   = [(''a'', 0, replicate 32 CHR ''0''), (''a'', 60, replicate 32 CHR ''2'')]"
proof -
  have "run_redis list_redis (redis_limiter_init 1 0 5 0 ''ns'') 0
      [(''a'', 0, replicate 32 CHR ''0''), (''a'', 1, replicate 32 CHR ''1''), (''a'', 60, replicate 32 CHR ''2'')]
      (\<lambda>_. ([], None))
    = redis_spec (1 + 0) (5 + 0)
      [(''a'', 0, replicate 32 CHR ''0''), (''a'', 1, replicate 32 CHR ''1''), (''a'', 60, replicate 32 CHR ''2'')] []"
    by (rule redis_refines_window_spec [OF list_redis_laws])
      (simp_all add: list_redis_def numeral_eq_Suc)
  also have "\<dots> = [(''a'', 0, replicate 32 CHR ''0''), (''a'', 60, replicate 32 CHR ''2'')]"
    by (simp add: redis_admits_def recent_ms_def epoch_ms_def)
  finally show ?thesis .
qed

section \<open>The two backends agree\<close>

abbreviation local_call :: "redis_call \<Rightarrow> rate_call" where
  "local_call q \<equiv> (fst q, fst (snd q))"

lemma recents_agree:
  assumes "\<forall>h \<in> set hist. t - 60 \<le> fst (snd h) \<longleftrightarrow> n - 60000 < epoch_ms (fst (snd h))"
  shows "recent t (map local_call hist) = map local_call (recent_ms n hist)"
  using assms by (induction hist) (auto simp: recent_def recent_ms_def split_beta)

lemma filter_local:
  "length (filter (\<lambda>(b, _). b = a) (map local_call hist)) = length (filter (\<lambda>(b, _). b = a) hist)"
  by (induction hist) auto

lemma specs_agree:
  assumes "\<forall>q \<in> set qs. \<forall>h \<in> set (hist @ qs).
      fst (snd q) - 60 \<le> fst (snd h) \<longleftrightarrow> epoch_ms (fst (snd q)) - 60000 < epoch_ms (fst (snd h))"
  shows "spec_run al gl (map local_call qs) (map local_call hist) = map local_call (hist @ redis_spec al gl qs hist)"
  using assms
proof (induction qs arbitrary: hist)
  case (Cons q qs)
  have "recent (fst (snd q)) (map local_call hist) = map local_call (recent_ms (epoch_ms (fst (snd q))) hist)"
    by (rule recents_agree) (use Cons.prems in auto)
  then have "spec_admits al gl (local_call q) (map local_call hist) = redis_admits al gl q hist"
    by (simp only: spec_admits_def redis_admits_def filter_local fst_conv snd_conv length_map)
  moreover have "spec_run al gl (map local_call qs) (map local_call hist) = map local_call (hist @ redis_spec al gl qs hist)"
    by (rule Cons.IH) (use Cons.prems in auto)
  moreover have "spec_run al gl (map local_call qs) (map local_call (hist @ [q]))
      = map local_call ((hist @ [q]) @ redis_spec al gl qs (hist @ [q]))"
    by (rule Cons.IH) (use Cons.prems in auto)
  ultimately show ?case by simp
qed simp

text \<open>
  C20: the two backends are interchangeable: on calls at whole milliseconds no two of which are
  exactly a minute apart, whose clock readings never decrease and whose member ids are distinct texts
  of 32 characters, the limiter in the process and the one in Redis (which keeps the documented laws
  of its commands and starts without keys) admit the same calls.
\<close>

theorem backends_agree:
  assumes "redis_laws R" "\<forall>k m. zscore R k m s = None"
    and "sorted (0 # map (\<lambda>q. fst (snd q)) qs)"
    and "\<forall>q \<in> set qs. length (snd (snd q)) = 32" "distinct (map (\<lambda>q. snd (snd q)) qs)"
    and ms: "\<forall>q \<in> set qs. fst (snd q) * 1000 = real_of_int (epoch_ms (fst (snd q)))"
    and apart: "\<forall>q \<in> set qs. \<forall>q' \<in> set qs. fst (snd q) - fst (snd q') \<noteq> 60"
  shows "fst (run_calls (map local_call qs) (rate_limiter_init ar ab gr gb))
    = map local_call (run_redis R (redis_limiter_init ar ab gr gb ns) 0 qs s)"
proof -
  have "fst (snd q) - 60 \<le> fst (snd h) \<longleftrightarrow> epoch_ms (fst (snd q)) - 60000 < epoch_ms (fst (snd h))"
    if "q \<in> set qs" "h \<in> set qs" for q h
  proof -
    have "epoch_ms (fst (snd q)) - 60000 < epoch_ms (fst (snd h))
        \<longleftrightarrow> real_of_int (epoch_ms (fst (snd q))) - 60000 < real_of_int (epoch_ms (fst (snd h)))"
      by linarith
    also have "\<dots> \<longleftrightarrow> fst (snd q) * 1000 - 60000 < fst (snd h) * 1000" using ms that by simp
    also have "\<dots> \<longleftrightarrow> fst (snd q) - 60 < fst (snd h)" by linarith
    also have "\<dots> \<longleftrightarrow> fst (snd q) - 60 \<le> fst (snd h)" 
    proof -
      have "fst (snd q) - fst (snd h) \<noteq> 60" using apart that by blast
      then show ?thesis by linarith
    qed
    finally show ?thesis by simp
  qed
  then have "spec_run (ar + ab) (gr + gb) (map local_call qs) [] = map local_call (redis_spec (ar + ab) (gr + gb) qs [])"
    using specs_agree [of qs "[]"] by simp
  moreover have "sorted (map snd (map local_call qs))" using assms(3) by (simp add: comp_def)
  ultimately show ?thesis
    by (simp only: run_calls_spec redis_spec_run [OF assms(1-5)])
qed

theorem backends_agree_witness:
  "fst (run_calls (map local_call [(''a'', 0, replicate 32 CHR ''0''), (''a'', 1, replicate 32 CHR ''1'')])
      (rate_limiter_init 1 0 5 0))
   = map local_call (run_redis list_redis (redis_limiter_init 1 0 5 0 ''ns'') 0
      [(''a'', 0, replicate 32 CHR ''0''), (''a'', 1, replicate 32 CHR ''1'')] (\<lambda>_. ([], None)))"
  by (rule backends_agree [OF list_redis_laws]) (simp_all add: list_redis_def numeral_eq_Suc epoch_ms_def)

text \<open>At exactly a minute they differ: the deque still holds the older call, the sorted set does not.\<close>

lemma backends_differ_at_a_minute:
  "fst (run_calls [(''a'', 0), (''a'', 60)] (rate_limiter_init 1 0 5 0)) = [(''a'', 0)]"
  "redis_spec (1 + 0) (5 + 0) [(''a'', 0, u), (''a'', 60, v)] [] = [(''a'', 0, u), (''a'', 60, v)]"
  by (subst run_calls_spec, simp_all add: spec_admits_def recent_def redis_admits_def recent_ms_def epoch_ms_def)

section \<open>The choice\<close>

text \<open>Anything but \<open>redis\<close> selects the limiter in the process, a misspelt name too.\<close>

lemma unknown_backend_is_local:
  assumes "py_lower (py_strip backend) \<noteq> ''redis''"
  shows "build_rate_limiter has_redis backend ar ab gr gb url ns = Inr (In_Process (rate_limiter_init ar ab gr gb))"
  using assms by (simp add: build_rate_limiter_def)

lemma shared_limiter_needs_url:
  "build_rate_limiter has_redis backend ar ab gr gb url ns = Inr (Shared u rl)
   \<Longrightarrow> url = Some u \<and> u \<noteq> [] \<and> has_redis \<and> rl = redis_limiter_init ar ab gr gb ns"
  by (auto simp: build_rate_limiter_def split: if_splits)

end
