(* ===== verification/Pool_Liveness.thy ===== *)
theory Pool_Liveness
  imports Connection_Pool
begin

text \<open>
  Progress of \<open>_acquire_connection\<close> (\<open>src/db/connection_manager.py\<close>): the loop of a thread whose
  deadline has passed ends, with a connection or with the exception, after a number of its own steps
  that the idle connections, and those the other threads put back meanwhile, bound.
\<close>

section \<open>Steps of one acquisition\<close>

fun acquiring :: "real \<Rightarrow> phase \<Rightarrow> bool" where
  "acquiring d (Acquiring e) = (d = e)"
| "acquiring d (Waiting e) = (d = e)"
| "acquiring d (Probing e c) = (d = e)"
| "acquiring d (Creating e) = (d = e)"
| "acquiring d _ = False"

text \<open>A step of the system that thread \<open>i\<close> takes inside its loop.\<close>

definition acquire_step ::
  "sql_instance_config \<Rightarrow> nat \<Rightarrow> real \<Rightarrow> pool_system \<Rightarrow> pool_system \<Rightarrow> bool" where
  "acquire_step inst i d s s' \<longleftrightarrow> pool_step inst s s' \<and> acquiring d (phases s ! i)
     \<and> phases s' ! i \<noteq> phases s ! i"

fun loop_weight :: "phase \<Rightarrow> nat" where
  "loop_weight (Waiting d) = 3"
| "loop_weight (Acquiring d) = 2"
| "loop_weight (Probing d c) = 3"
| "loop_weight (Creating d) = 1"
| "loop_weight _ = 0"

definition loop_rank :: "nat \<Rightarrow> pool_system \<Rightarrow> nat" where
  "loop_rank i s = 2 * length (available (pool s)) + loop_weight (phases s ! i)"

lemma acquire_section_expired:
  assumes "acquire_section inst d now st = (st', out)" "d \<le> now"
  shows "loop_weight (after_acquire d out) + 2 * length (available st') < 2 + 2 * length (available st)
    \<and> after_acquire d out \<noteq> Waiting e
    \<and> (acquiring d (after_acquire d out) \<or> after_acquire d out = Idle)"
  using assms by (cases "available st") (auto simp: acquire_section_def after_acquire_def Let_def split: if_splits)

lemma moved_phase: "i < length (phases s) \<Longrightarrow> phases (move j ph st s) ! i = (if i = j then ph else phases s ! i)"
  by (simp add: move_def nth_list_update)

text \<open>
  Every step of the loop leaves its phase for one of smaller rank, still within the deadline or
  done, and costs no time.
\<close>

lemma acquire_step_rank:
  assumes "acquire_step inst i d s s'" "i < length (phases s)" "d \<le> clock s"
  shows "loop_rank i s' < loop_rank i s" "clock s' = clock s" "length (phases s') = length (phases s)"
    and "acquiring d (phases s' ! i) \<or> phases s' ! i = Idle \<or> (\<exists>c. phases s' ! i = Holding c)"
proof -
  have step: "pool_step inst s s'" and acq: "acquiring d (phases s ! i)" and moved: "phases s' ! i \<noteq> phases s ! i"
    using assms(1) by (simp_all add: acquire_step_def)
  have "loop_rank i s' < loop_rank i s \<and> clock s' = clock s \<and> length (phases s') = length (phases s)
      \<and> (acquiring d (phases s' ! i) \<or> phases s' ! i = Idle \<or> (\<exists>c. phases s' ! i = Holding c))"
    using step
  proof cases
    case (step_acquire j e st out)
    have ji: "j = i" using moved assms(2) by (auto simp: step_acquire(1) moved_phase split: if_splits)
    then have e: "e = d" using acq step_acquire(3) by simp
    show ?thesis
      using acquire_section_expired [OF step_acquire(4) [unfolded e] assms(3), of 0] assms(2) step_acquire(3)
      by (auto simp: step_acquire(1) ji e loop_rank_def move_def)
  next
    case (step_call j)
    then have "j = i" using moved assms(2) by (auto simp: moved_phase split: if_splits)
    with step_call acq show ?thesis by simp
  next
    case (step_wake j e)
    then have "j = i" using moved assms(2) by (auto simp: moved_phase split: if_splits)
    with step_wake acq assms(2) show ?thesis by (auto simp: loop_rank_def move_def)
  next
    case (step_usable j e c)
    then have "j = i" using moved assms(2) by (auto simp: moved_phase split: if_splits)
    with step_usable acq assms(2) show ?thesis by (auto simp: loop_rank_def move_def)
  next
    case (step_unusable j e c)
    then have "j = i" using moved assms(2) by (auto simp: moved_phase split: if_splits)
    with step_unusable acq assms(2) show ?thesis
      by (auto simp: loop_rank_def move_def discard_section_def remove_in_use_connection_def Let_def)
  next
    case (step_created j e)
    then have "j = i" using moved assms(2) by (auto simp: move_def nth_list_update split: if_splits)
    with step_created acq assms(2) show ?thesis by (auto simp: loop_rank_def move_def created_section_def)
  next
    case (step_create_fails j e)
    then have "j = i" using moved assms(2) by (auto simp: moved_phase split: if_splits)
    with step_create_fails acq assms(2) show ?thesis by (auto simp: loop_rank_def move_def)
  next
    case (step_leave j c b)
    then have "j = i" using moved assms(2) by (auto simp: moved_phase split: if_splits)
    with step_leave acq show ?thesis by simp
  next
    case (step_release j c b ok st cn)
    then have "j = i" using moved assms(2) by (auto simp: moved_phase split: if_splits)
    with step_release acq show ?thesis by simp
  next
    case (step_clock t)
    with moved show ?thesis by simp
  qed
  then show "loop_rank i s' < loop_rank i s" "clock s' = clock s" "length (phases s') = length (phases s)"
    "acquiring d (phases s' ! i) \<or> phases s' ! i = Idle \<or> (\<exists>c. phases s' ! i = Holding c)"
    by blast+
qed

text \<open>Inside the loop there is always a step.\<close>

lemma acquire_step_enabled:
  assumes "acquiring d (phases s ! i)" "i < length (phases s)"
  shows "\<exists>s'. acquire_step inst i d s s'"
proof (cases "phases s ! i")
  case (Acquiring e)
  obtain st out where out: "acquire_section inst e (clock s) (pool s) = (st, out)" by force
  have "after_acquire e out \<noteq> Acquiring e" by (cases out) (simp_all add: after_acquire_def)
  with step_acquire [OF assms(2) Acquiring out] show ?thesis
    using assms Acquiring by (auto simp: acquire_step_def moved_phase)
next
  case (Waiting e)
  with step_wake [OF assms(2), of e inst] show ?thesis using assms by (auto simp: acquire_step_def moved_phase)
next
  case (Probing e c)
  with step_usable [OF assms(2), of e c inst] show ?thesis using assms by (auto simp: acquire_step_def moved_phase)
next
  case (Creating e)
  with step_create_fails [OF assms(2), of e inst] show ?thesis using assms by (auto simp: acquire_step_def moved_phase)
qed (use assms in simp_all)

section \<open>Steps of the other threads\<close>

text \<open>
  What happens between two steps of thread \<open>i\<close>: a step of another thread, the clock, or
  \<open>close_all_pools\<close>.
\<close>

definition others_step :: "sql_instance_config \<Rightarrow> nat \<Rightarrow> pool_system \<Rightarrow> pool_system \<Rightarrow> bool" where
  "others_step inst i s s' \<longleftrightarrow> phases s' ! i = phases s ! i
     \<and> (pool_step inst s s' \<or> s' = s\<lparr>pool := fst (close_all_pools (pool s))\<rparr>)"

text \<open>The idle connections a step adds.\<close>

definition put_back :: "pool_system \<Rightarrow> pool_system \<Rightarrow> nat" where
  "put_back s s' = length (available (pool s')) - length (available (pool s))"

lemma others_step_frame:
  assumes "others_step inst i s s'"
  shows "length (phases s') = length (phases s)" "clock s \<le> clock s'"
    and "loop_rank i s' \<le> loop_rank i s + 2 * put_back s s'"
proof -
  have "length (phases s') = length (phases s) \<and> clock s \<le> clock s'"
    using assms unfolding others_step_def by (auto elim!: pool_step.cases simp: move_def)
  then show "length (phases s') = length (phases s)" "clock s \<le> clock s'" by blast+
  show "loop_rank i s' \<le> loop_rank i s + 2 * put_back s s'"
    using assms by (simp add: others_step_def loop_rank_def put_back_def)
qed

section \<open>The loop ends\<close>

text \<open>
  A run of the system seen from thread \<open>i\<close>: \<open>n\<close> steps of its loop, any number of steps of the
  others between them, which put \<open>m\<close> connections back.
\<close>

inductive acquire_run ::
  "sql_instance_config \<Rightarrow> nat \<Rightarrow> real \<Rightarrow> nat \<Rightarrow> nat \<Rightarrow> pool_system \<Rightarrow> pool_system \<Rightarrow> bool"
  for inst i d where
  run_none: "acquire_run inst i d 0 0 s s"
| run_own: "acquire_run inst i d n m s s1 \<Longrightarrow> acquire_step inst i d s1 s' \<Longrightarrow>
    acquire_run inst i d (Suc n) m s s'"
| run_others: "acquire_run inst i d n m s s1 \<Longrightarrow> others_step inst i s1 s' \<Longrightarrow>
    acquire_run inst i d n (m + put_back s1 s') s s'"

lemma acquire_run_rank:
  assumes "acquire_run inst i d n m s s'" "i < length (phases s)" "d \<le> clock s"
    "acquiring d (phases s ! i)"
  shows "n + loop_rank i s' \<le> loop_rank i s + 2 * m \<and> i < length (phases s') \<and> d \<le> clock s'
    \<and> (acquiring d (phases s' ! i) \<or> phases s' ! i = Idle \<or> (\<exists>c. phases s' ! i = Holding c))"
  using assms
proof (induction rule: acquire_run.induct)
  case (run_own n m s s1 s')
  then have "i < length (phases s1)" "d \<le> clock s1" by blast+
  note step = acquire_step_rank [OF run_own.hyps(2) this]
  show ?case using run_own.IH [OF run_own.prems] step by auto
next
  case (run_others n m s s1 s')
  note step = others_step_frame [OF run_others.hyps(2)]
  have "phases s' ! i = phases s1 ! i" using run_others.hyps(2) by (simp add: others_step_def)
  then show ?case using run_others.IH [OF run_others.prems] step by auto
qed simp

lemma acquire_run_first:
  assumes "acquire_run inst i d n m s1 s'" "acquire_step inst i d s s1"
  shows "acquire_run inst i d (Suc n) m s s'"
  using assms by (induction rule: acquire_run.induct)
    (blast intro: acquire_run.intros)+

lemma acquire_run_complete:
  assumes "i < length (phases s)" "d \<le> clock s" "acquiring d (phases s ! i)"
  shows "\<exists>n s'. acquire_run inst i d n 0 s s' \<and> \<not> acquiring d (phases s' ! i)"
  using assms
proof (induction "loop_rank i s" arbitrary: s rule: less_induct)
  case less
  obtain s1 where s1: "acquire_step inst i d s s1"
    using acquire_step_enabled [OF less.prems(3,1)] by blast
  note step = acquire_step_rank [OF s1 less.prems(1,2)]
  show ?case
  proof (cases "acquiring d (phases s1 ! i)")
    case True
    then obtain n s' where "acquire_run inst i d n 0 s1 s'" "\<not> acquiring d (phases s' ! i)"
      using less.hyps [OF step(1)] step(2,3) less.prems(1,2) by auto
    then show ?thesis using acquire_run_first [OF _ s1] by blast
  next
    case False
    then show ?thesis using run_own [OF run_none s1] by blast
  qed
qed

text \<open>
  C15: once the deadline of a thread in the pool's loop has passed, then, however the critical
  sections of the other threads (and \<open>close_all_pools\<close>) fall between its own steps, it takes at most \<open>2 (a + m) + 3\<close> steps, where \<open>a\<close> connections
  were idle and the others put back \<open>m\<close> meanwhile (each of which the thread may find dead); until it
  has left the loop it can always take a step; it leaves it with a connection or with the
  exception; and, left alone at any point, it does leave it.
\<close>

theorem acquire_returns:
  assumes "i < length (phases s)" "d \<le> clock s" "acquiring d (phases s ! i)"
    and "acquire_run inst i d n m s s'"
  shows "n \<le> 2 * (length (available (pool s)) + m) + 3
    \<and> (acquiring d (phases s' ! i) \<and> (\<exists>s''. acquire_step inst i d s' s'')
         \<or> phases s' ! i = Idle \<or> (\<exists>c. phases s' ! i = Holding c))
    \<and> (\<exists>k s''. acquire_run inst i d k 0 s' s''
         \<and> (phases s'' ! i = Idle \<or> (\<exists>c. phases s'' ! i = Holding c)))"
proof (intro conjI)
  note run = acquire_run_rank [OF assms(4,1-3)]
  have "loop_weight (phases s ! i) \<le> 3" by (cases "phases s ! i") simp_all
  with run show "n \<le> 2 * (length (available (pool s)) + m) + 3" by (simp add: loop_rank_def)
  show "acquiring d (phases s' ! i) \<and> (\<exists>s''. acquire_step inst i d s' s'')
      \<or> phases s' ! i = Idle \<or> (\<exists>c. phases s' ! i = Holding c)"
    using run acquire_step_enabled by blast
  show "\<exists>k s''. acquire_run inst i d k 0 s' s''
      \<and> (phases s'' ! i = Idle \<or> (\<exists>c. phases s'' ! i = Holding c))"
  proof (cases "acquiring d (phases s' ! i)")
    case True
    with run acquire_run_complete acquire_run_rank show ?thesis by meson
  next
    case False
    with run run_none show ?thesis by blast
  qed
qed

text \<open>
  Two threads: the first waits at a full pool, at its deadline; the other leaves its block and puts
  its connection back, which the first then takes.
\<close>

theorem acquire_returns_witness:
  "\<exists>s1 s2 k. acquire_run example_instance 0 5 2 1
      \<lparr>pool = empty_pool\<lparr>in_use := [7]\<rparr>, phases = [Waiting 5, Releasing 7 False], clock = 5, next_conn = 8\<rparr> s1
    \<and> phases s1 ! 0 = Probing 5 7 \<and> acquire_run example_instance 0 5 k 0 s1 s2
    \<and> (phases s2 ! 0 = Idle \<or> (\<exists>c. phases s2 ! 0 = Holding c))"
proof -
  let ?p = "empty_pool\<lparr>in_use := [7]\<rparr>" and ?p1 = "empty_pool\<lparr>available := [7]\<rparr>"
    and ?p3 = "empty_pool\<lparr>in_use := [7], reused_total := 1\<rparr>"
  let ?s = "\<lparr>pool = ?p, phases = [Waiting 5, Releasing 7 False], clock = 5, next_conn = 8\<rparr>"
  let ?s1 = "\<lparr>pool = ?p1, phases = [Waiting 5, Idle], clock = 5, next_conn = 8\<rparr>"
  let ?s2 = "\<lparr>pool = ?p1, phases = [Acquiring 5, Idle], clock = 5, next_conn = 8\<rparr>"
  let ?s3 = "\<lparr>pool = ?p3, phases = [Probing 5 7, Idle], clock = 5, next_conn = 8\<rparr>"
  have rel: "release_section example_instance 7 False True ?p = (?p1, False)"
    by (simp add: release_section_def remove_in_use_connection_def pool_cap_def empty_pool_def Let_def)
  have acq: "acquire_section example_instance 5 5 ?p1 = (?p3, Reuse 7)"
    by (simp add: acquire_section_def empty_pool_def Let_def)
  have "pool_step example_instance ?s (move 1 Idle ?p1 ?s)"
    by (rule step_release [where should_discard = False and ok = True and close_now = False and c = 7])
      (simp_all add: rel)
  then have "others_step example_instance 0 ?s ?s1" by (simp add: others_step_def move_def)
  moreover have "put_back ?s ?s1 = 1" by (simp add: put_back_def empty_pool_def)
  ultimately have run1: "acquire_run example_instance 0 5 0 1 ?s ?s1"
    using run_others [OF run_none, of example_instance 0 ?s ?s1 5] by simp
  have "pool_step example_instance ?s1 (move 0 (Acquiring 5) ?p1 ?s1)"
    using step_wake [of 0 ?s1 5 example_instance] by simp
  then have "acquire_step example_instance 0 5 ?s1 ?s2" by (simp add: acquire_step_def move_def)
  then have run2: "acquire_run example_instance 0 5 (Suc 0) 1 ?s ?s2" by (rule run_own [OF run1])
  have "pool_step example_instance ?s2 (move 0 (after_acquire 5 (Reuse 7)) ?p3 ?s2)"
    by (rule step_acquire) (simp_all add: acq)
  then have "acquire_step example_instance 0 5 ?s2 ?s3"
    by (simp add: acquire_step_def move_def after_acquire_def)
  then have run: "acquire_run example_instance 0 5 2 1 ?s ?s3"
    using run_own [OF run2] by (simp add: numeral_2_eq_2)
  from acquire_returns [OF _ _ _ run]
  have "\<exists>k s''. acquire_run example_instance 0 5 k 0 ?s3 s''
      \<and> (phases s'' ! 0 = Idle \<or> (\<exists>c. phases s'' ! 0 = Holding c))"
    by simp
  moreover have "phases ?s3 ! 0 = Probing 5 7" by simp
  ultimately show ?thesis using run by blast
qed

end
