(* ===== verification/Server_Assembly.thy ===== *)
theory Server_Assembly
  imports Config_Loader Auth_Provider Diagnostics Redis_Limiter
begin

text \<open>
  \<open>build_fastapi_app\<close> of \<open>src/server.py\<close>: how the components are built from the configuration, and
  \<open>register_sql_tools\<close> of \<open>src/tools/sql_tools.py\<close>: which tools exist.  The file readers, the models'
  validators, the regular-expression compiler, the creation of the audit directory, the construction
  of the framework's objects (before the end of the \<open>try\<close>: \<open>su_frameworks\<close>; after it, the HTTP app,
  the routers and the mount: \<open>su_mount\<close>) and \<open>asyncio.run(shared_http_client.aclose())\<close> are arguments
  (\<open>startup\<close>): each may raise.
\<close>

section \<open>Tool registration\<close>

text \<open>
  The first loop decorates a handler for seven of the generated tools and appends the name of every
  enabled one.  The result: the names exposed by the framework and the names in the registry.
\<close>

definition decorated_toolnames :: "string list" where
  "decorated_toolnames = [''select'', ''exec_proc'', ''latency_report'', ''block_report'',
     ''top_queries_report'', ''active_sessions_report'', ''index_health_report'']"

fun register_specs :: "runtime_policy \<Rightarrow> tool_spec list \<Rightarrow> string list \<times> string list" where
  "register_specs policy [] = ([], [])"
| "register_specs policy (spec # specs) =
     (let (exposed, registered) = register_specs policy specs
      in if \<not> is_tool_enabled policy (spec_instance spec) (spec_toolname spec) then (exposed, registered)
         else ((if spec_toolname spec \<in> set decorated_toolnames then [full_name spec] else []) @ exposed,
               full_name spec # registered))"

text \<open>The second loop: four tools for every instance and the flagged ones, named by its number.\<close>

definition unconditional_toolnames :: "string list" where
  "unconditional_toolnames = [''ping'', ''list_tools'', ''list_object'', ''execute_query'']"

definition flagged_toolnames :: "string list" where
  "flagged_toolnames = [''analyze_tab_health'', ''analyze_db_data_model'', ''analyze_sec_config'',
     ''sessions_dashboard'', ''top_statements'']"

definition numbered_name :: "nat \<Rightarrow> string \<Rightarrow> string" where
  "numbered_name nr toolname = ''db_'' @ nat_str nr @ ''_sql2019_'' @ toolname"

fun register_numbered :: "runtime_policy \<Rightarrow> nat \<Rightarrow> string list \<Rightarrow> string list" where
  "register_numbered policy nr [] = []"
| "register_numbered policy nr (instance_id # ids) =
     map (numbered_name nr) (unconditional_toolnames @
       filter (is_tool_enabled policy instance_id) flagged_toolnames) @ register_numbered policy (Suc nr) ids"

definition register_sql_tools :: "runtime_policy \<Rightarrow> string list \<Rightarrow> string list \<times> string list" where
  "register_sql_tools policy ids =
     (let (exposed, registered) = register_specs policy (generate_tool_specs ids);
          numbered = register_numbered policy 1 ids
      in (exposed @ numbered, registered @ numbered))"

section \<open>Construction\<close>

record startup =
  su_environ :: "string dict"
  su_models :: config_models
  su_json_loads :: "string \<Rightarrow> pyval result"
  su_safe_load :: "string \<Rightarrow> pyval result"
  su_has_redis :: bool
  su_compile :: "string \<Rightarrow> (string \<Rightarrow> bool) result"
  su_audit_dir :: "unit result"
  su_frameworks :: "token_verifier option \<Rightarrow> unit result"
  su_aclose :: "unit result"
  su_mount :: "string list \<Rightarrow> unit result"
  su_odbc_driver :: string

record server_runtime =
  rt_config :: server_config
  rt_limiter :: limiter
  rt_sessions :: session_manager
  rt_verifier :: "token_verifier option"
  rt_exposed :: "string list"
  rt_registered :: "string list"
  rt_backend :: string
  rt_flag_env :: bool

text \<open>The shared HTTP client: its three limits while it is open.\<close>

datatype http_client = Not_Opened | Opened int int int | Closed

definition startup_config :: "startup \<Rightarrow> app_config result" where
  "startup_config su = load_config (su_models su) (su_json_loads su) (su_safe_load su) (su_environ su)
     (dict_get (su_environ su) ''FASTMCP_CONFIG_PATH'' ''config/instances.yaml'')
     (dict_get (su_environ su) ''FASTMCP_POLICY_PATH'' ''config/runtime-policy.yaml'')
     (dict_get (su_environ su) ''FASTMCP_RATE_LIMIT_PATH'' ''config/rate-limit.yaml'')"

definition startup_limiter :: "startup \<Rightarrow> rate_limit_config \<Rightarrow> limiter result" where
  "startup_limiter su rate = build_rate_limiter (su_has_redis su)
     (dict_get (su_environ su) ''FASTMCP_RATE_LIMIT_BACKEND'' ''local'')
     (rate_rpm (rate_actor rate)) (rate_burst (rate_actor rate))
     (rate_rpm (rate_global rate)) (rate_burst (rate_global rate))
     (map_of (su_environ su) ''FASTMCP_REDIS_URL'')
     (dict_get (su_environ su) ''FASTMCP_REDIS_NAMESPACE'' ''mcp:ratelimit'')"

definition startup_sessions :: "session_limits \<Rightarrow> session_manager" where
  "startup_sessions limits =
     session_manager_init (lim_ttl_minutes limits) (lim_inactivity_minutes limits) (lim_concurrent limits)"

definition build_state :: "startup \<Rightarrow> app_config \<Rightarrow> server_runtime result" where
  "build_state su cfg =
     (let cm = connection_manager_init (app_instances cfg) (\<lambda>ref. Inr (secret_resolver (su_environ su) ref))
            (su_odbc_driver su);
          policy = app_policy cfg;
          tools = register_sql_tools policy (list_enabled_instances cm)
      in bind_res (startup_limiter su (app_rate_limit cfg)) (\<lambda>chosen.
         bind_res (map_res (su_compile su) (blocked_sql_patterns policy)) (\<lambda>_.
         bind_res (su_audit_dir su) (\<lambda>_.
         bind_res (build_auth_provider (app_auth cfg)) (\<lambda>verifier.
         bind_res (su_frameworks su verifier) (\<lambda>_. Inr
           \<lparr>rt_config = \<lparr>sc_auth = Some (app_auth cfg), sc_policy = policy,
              sc_guard = write_guard_init (\<lambda>p. projr (su_compile su p)) policy, sc_cm = cm\<rparr>,
            rt_limiter = chosen, rt_sessions = startup_sessions (rate_session (app_rate_limit cfg)),
            rt_verifier = verifier, rt_exposed = fst tools, rt_registered = snd tools,
            rt_backend = dict_get (su_environ su) ''FASTMCP_RATE_LIMIT_BACKEND'' ''local'',
            rt_flag_env = (dict_get (su_environ su) ''FASTMCP_TOOL_ENABLE_FLAGS_JSON'' [] \<noteq> []
              \<or> dict_get (su_environ su) ''FASTMCP_INSTANCE_TOOL_ENABLE_FLAGS_JSON'' [] \<noteq> [])\<rparr>))))))"

text \<open>
  \<open>except Exception\<close>: the client is closed before the exception goes on, if closing it succeeds.
  The code after the \<open>try\<close> statement has no handler.
\<close>

definition build_fastapi_app :: "startup \<Rightarrow> http_client \<times> server_runtime result" where
  "build_fastapi_app su =
     (case startup_config su of
        Inl e \<Rightarrow> (Not_Opened, Inl e)
      | Inr cfg \<Rightarrow>
          let max_connections = pool_max_connections (app_auth cfg);
              max_keepalive = min (pool_max_keepalive_connections (app_auth cfg)) max_connections;
              shared_http_client = Opened max_connections max_keepalive (pool_timeout_seconds (app_auth cfg))
          in case build_state su cfg of
               Inl e \<Rightarrow>
                 (case su_aclose su of
                    Inr _ \<Rightarrow> (Closed, Inl e)
                  | Inl e' \<Rightarrow> (shared_http_client, Inl e'))
             | Inr rt \<Rightarrow>
                 (case su_mount su (rt_registered rt) of
                    Inr _ \<Rightarrow> (shared_http_client, Inr rt)
                  | Inl e \<Rightarrow> (shared_http_client, Inl e)))"

section \<open>Which tools exist\<close>

lemma register_specs_map:
  "register_specs policy specs =
     (let enabled = filter (\<lambda>s. is_tool_enabled policy (spec_instance s) (spec_toolname s)) specs
      in (map full_name (filter (\<lambda>s. spec_toolname s \<in> set decorated_toolnames) enabled), map full_name enabled))"
  by (induction specs) (auto simp: Let_def split_beta)

lemma register_numbered_set:
  "nm \<in> set (register_numbered policy nr ids) \<longleftrightarrow>
     (\<exists>k < length ids. \<exists>t. nm = numbered_name (nr + k) t \<and> (t \<in> set unconditional_toolnames
        \<or> t \<in> set flagged_toolnames \<and> is_tool_enabled policy (ids ! k) t))"
proof (induction ids arbitrary: nr)
  case (Cons i ids)
  have "nm \<in> set (register_numbered policy nr (i # ids)) \<longleftrightarrow>
      (\<exists>t. nm = numbered_name nr t \<and> (t \<in> set unconditional_toolnames
        \<or> t \<in> set flagged_toolnames \<and> is_tool_enabled policy i t))
      \<or> nm \<in> set (register_numbered policy (Suc nr) ids)"
    by auto
  then show ?case
    unfolding Cons.IH list.size add_0_right add_Suc_right Ex_less_Suc2 by simp
qed simp

text \<open>No tool name is the end of another one, so a full name tells its tool.\<close>

definition all_toolnames :: "string list" where
  "all_toolnames = decorated_toolnames @ unconditional_toolnames @ flagged_toolnames"

lemma toolnames_suffix_free:
  assumes "t \<in> set all_toolnames" "u \<in> set all_toolnames" "suffix t u"
  shows "t = u"
proof -
  have "list_all (\<lambda>t. list_all (\<lambda>u. suffix t u \<longrightarrow> t = u) all_toolnames) all_toolnames" by code_simp
  then show ?thesis using assms by (auto simp: list_all_iff)
qed

definition tool_full :: "string \<Rightarrow> string \<Rightarrow> string" where
  "tool_full i t = ''db_'' @ i @ ''_sql2019_'' @ t"

lemma tool_full_inject:
  assumes "t \<in> set all_toolnames" "u \<in> set all_toolnames" "tool_full i t = tool_full j u"
  shows "i = j" "t = u"
proof -
  have "(''db_'' @ i @ ''_sql2019_'') @ t = (''db_'' @ j @ ''_sql2019_'') @ u"
    using assms(3) by (simp add: tool_full_def)
  then have "suffix t u \<or> suffix u t" unfolding suffix_def append_eq_append_conv2 by metis
  then show "t = u" using toolnames_suffix_free assms(1,2) by metis
  then show "i = j" using assms(3) by (simp add: tool_full_def)
qed

lemma numbered_name_full: "numbered_name n t = tool_full (nat_str n) t"
  by (simp add: numbered_name_def tool_full_def)

lemma full_name_full: "full_name s = tool_full (spec_instance s) (spec_toolname s)"
  by (simp add: full_name_def tool_full_def)

lemma toolname_lists:
  "set decorated_toolnames \<inter> set unconditional_toolnames = {}"
  "set decorated_toolnames \<inter> set flagged_toolnames = {}"
  "set unconditional_toolnames \<inter> set flagged_toolnames = {}"
  "set spec_toolnames = set decorated_toolnames \<union> set flagged_toolnames"
  "distinct all_toolnames" "distinct spec_toolnames"
  by (code_simp+)

lemma all_toolnames_set:
  "set all_toolnames = set decorated_toolnames \<union> set unconditional_toolnames \<union> set flagged_toolnames"
  by (auto simp: all_toolnames_def)

lemma exposed_set:
  "nm \<in> set (fst (register_sql_tools policy ids)) \<longleftrightarrow>
     (\<exists>i \<in> set ids. \<exists>t \<in> set decorated_toolnames. nm = tool_full i t \<and> is_tool_enabled policy i t)
     \<or> (\<exists>k < length ids. \<exists>t. nm = tool_full (nat_str (Suc k)) t \<and> (t \<in> set unconditional_toolnames
        \<or> t \<in> set flagged_toolnames \<and> is_tool_enabled policy (ids ! k) t))"
proof -
  have "nm \<in> full_name ` {s \<in> set (generate_tool_specs ids). is_tool_enabled policy (spec_instance s) (spec_toolname s)
        \<and> spec_toolname s \<in> set decorated_toolnames}
      \<longleftrightarrow> (\<exists>i \<in> set ids. \<exists>t \<in> set decorated_toolnames. nm = tool_full i t \<and> is_tool_enabled policy i t)"
  proof
    assume "\<exists>i \<in> set ids. \<exists>t \<in> set decorated_toolnames. nm = tool_full i t \<and> is_tool_enabled policy i t"
    then obtain i t where it: "i \<in> set ids" "t \<in> set decorated_toolnames" "nm = tool_full i t" "is_tool_enabled policy i t"
      by blast
    show "nm \<in> full_name ` {s \<in> set (generate_tool_specs ids). is_tool_enabled policy (spec_instance s) (spec_toolname s)
        \<and> spec_toolname s \<in> set decorated_toolnames}"
      by (rule image_eqI [of _ _ "\<lparr>spec_instance = i, spec_toolname = t\<rparr>"])
        (use it toolname_lists(4) in \<open>auto simp: full_name_full generate_tool_specs_set\<close>)
  qed (auto simp: full_name_full generate_tool_specs_set)
  then show ?thesis
    by (simp add: register_sql_tools_def register_specs_map Let_def register_numbered_set numbered_name_full image_iff)
qed

lemma distinct_tool_specs: "distinct ids \<Longrightarrow> distinct (generate_tool_specs ids)"
proof (induction ids)
  case (Cons i ids)
  have "distinct (map (\<lambda>t. \<lparr>spec_instance = i, spec_toolname = t\<rparr>) spec_toolnames)"
    using toolname_lists(6) by (simp add: distinct_map inj_on_def)
  with Cons show ?case by (auto simp: generate_tool_specs_set)
qed simp

lemma distinct_specs_names:
  assumes "distinct ids"
  shows "distinct (map full_name (filter P (generate_tool_specs ids)))"
  unfolding distinct_map
proof
  show "distinct (filter P (generate_tool_specs ids))" by (simp add: distinct_tool_specs [OF assms])
  show "inj_on full_name (set (filter P (generate_tool_specs ids)))"
  proof (rule inj_onI)
    fix s s' assume s: "s \<in> set (filter P (generate_tool_specs ids))" "s' \<in> set (filter P (generate_tool_specs ids))"
      and eq: "full_name s = full_name s'"
    have "spec_toolname s \<in> set all_toolnames" "spec_toolname s' \<in> set all_toolnames"
      using s toolname_lists(4) by (auto simp: generate_tool_specs_set all_toolnames_set)
    from tool_full_inject [OF this eq [unfolded full_name_full]] show "s = s'" by simp
  qed
qed

lemma numbered_toolnames: "t \<in> set (unconditional_toolnames @ filter P flagged_toolnames) \<Longrightarrow> t \<in> set all_toolnames"
  by (auto simp: all_toolnames_set)

lemma distinct_numbered: "distinct (register_numbered policy nr ids)"
proof (induction ids arbitrary: nr)
  case (Cons i ids)
  let ?ts = "unconditional_toolnames @ filter (is_tool_enabled policy i) flagged_toolnames"
  have "distinct ?ts" using toolname_lists(3,5) by (auto simp: all_toolnames_def)
  moreover have "inj_on (numbered_name nr) (set ?ts)"
    by (rule inj_onI) (metis numbered_name_full numbered_toolnames tool_full_inject(2))
  ultimately have one: "distinct (map (numbered_name nr) ?ts)" unfolding distinct_map by blast
  have "nm \<notin> set (map (numbered_name nr) ?ts)" if nm: "nm \<in> set (register_numbered policy (Suc nr) ids)" for nm
  proof
    assume "nm \<in> set (map (numbered_name nr) ?ts)"
    then obtain t where t: "nm = tool_full (nat_str nr) t" "t \<in> set all_toolnames"
      using numbered_toolnames by (auto simp: numbered_name_full)
    obtain k u where "nm = tool_full (nat_str (Suc nr + k)) u" "u \<in> set all_toolnames"
      using nm unfolding register_numbered_set by (auto simp: numbered_name_full all_toolnames_set)
    then have "nat_str nr = nat_str (Suc nr + k)" using tool_full_inject(1) t by metis
    then show False by (simp del: add_Suc)
  qed
  then have "set (map (numbered_name nr) ?ts) \<inter> set (register_numbered policy (Suc nr) ids) = {}" by blast
  with one Cons.IH show ?case unfolding register_numbered.simps distinct_append by blast
qed simp

lemma specs_numbered_disjoint:
  assumes "nm = tool_full i t" "t \<in> set decorated_toolnames" "nm = tool_full (nat_str k) u"
    "u \<in> set unconditional_toolnames \<union> set flagged_toolnames"
  shows False
proof -
  have "t = u" using assms by (intro tool_full_inject(2) [of t u i "nat_str k"]) (auto simp: all_toolnames_set)
  then show False using assms(2,4) toolname_lists(1,2) by blast
qed

lemma distinct_exposed:
  assumes "distinct ids"
  shows "distinct (fst (register_sql_tools policy ids))"
proof -
  have "nm \<notin> set (register_numbered policy 1 ids)"
    if nm: "nm \<in> set (fst (register_specs policy (generate_tool_specs ids)))" for nm
  proof
    assume "nm \<in> set (register_numbered policy 1 ids)"
    then obtain k u where "nm = tool_full (nat_str k) u" "u \<in> set unconditional_toolnames \<union> set flagged_toolnames"
      unfolding register_numbered_set by (auto simp: numbered_name_full)
    moreover obtain i t where "nm = tool_full i t" "t \<in> set decorated_toolnames"
      using nm by (auto simp: register_specs_map Let_def full_name_full)
    ultimately show False using specs_numbered_disjoint by blast
  qed
  moreover have "distinct (fst (register_specs policy (generate_tool_specs ids)))"
    using distinct_specs_names [OF assms] by (simp add: register_specs_map Let_def)
  ultimately show ?thesis
    using distinct_numbered [of policy 1 ids] by (auto simp: register_sql_tools_def split_beta Let_def)
qed

lemma instance_not_number: "i \<in> {''primary'', ''secondary''} \<Longrightarrow> i \<noteq> nat_str k"
  using nat_str_digits [of k] by (auto simp: is_dec_def)

lemma registered_set:
  "nm \<in> set (snd (register_sql_tools policy ids)) \<longleftrightarrow> nm \<in> set (fst (register_sql_tools policy ids))
     \<or> (\<exists>i \<in> set ids. \<exists>t \<in> set flagged_toolnames. nm = tool_full i t \<and> is_tool_enabled policy i t)"
proof -
  have "nm \<in> full_name ` {s \<in> set (generate_tool_specs ids). is_tool_enabled policy (spec_instance s) (spec_toolname s)}
      \<longleftrightarrow> (\<exists>i \<in> set ids. \<exists>t \<in> set spec_toolnames. nm = tool_full i t \<and> is_tool_enabled policy i t)" (is "?L \<longleftrightarrow> ?R")
  proof
    assume ?R
    then obtain i t where it: "i \<in> set ids" "t \<in> set spec_toolnames" "nm = tool_full i t" "is_tool_enabled policy i t"
      by blast
    show ?L
      by (rule image_eqI [of _ _ "\<lparr>spec_instance = i, spec_toolname = t\<rparr>"])
        (use it in \<open>auto simp: full_name_full generate_tool_specs_set\<close>)
  qed (auto simp: full_name_full generate_tool_specs_set)
  then show ?thesis
    unfolding exposed_set
    by (simp add: register_sql_tools_def register_specs_map Let_def register_numbered_set numbered_name_full
        toolname_lists(4)) blast
qed

text \<open>
  C10: for the two instance names the configuration admits, no tool name is exposed twice; a flag
  decides alone whether its tool is exposed (under the instance's name for the seven generated
  handlers, under its number for the five analysis tools); the four basic tools are always there;
  and the registry holds, besides what is exposed, exactly the names of the enabled analysis tools
  under the instance's name, which no handler answers.
\<close>

theorem tool_registry_exact:
  assumes "distinct ids" "set ids \<subseteq> {''primary'', ''secondary''}"
  shows "let (exposed, registered) = register_sql_tools policy ids in
     distinct exposed \<and> set exposed \<subseteq> set registered
   \<and> (\<forall>i \<in> set ids. \<forall>t \<in> set decorated_toolnames. tool_full i t \<in> set exposed \<longleftrightarrow> is_tool_enabled policy i t)
   \<and> (\<forall>k < length ids. \<forall>t \<in> set flagged_toolnames.
        numbered_name (Suc k) t \<in> set exposed \<longleftrightarrow> is_tool_enabled policy (ids ! k) t)
   \<and> (\<forall>k < length ids. \<forall>t \<in> set unconditional_toolnames. numbered_name (Suc k) t \<in> set exposed)
   \<and> set registered - set exposed
        = {tool_full i t | i t. i \<in> set ids \<and> t \<in> set flagged_toolnames \<and> is_tool_enabled policy i t}"
proof -
  obtain exposed registered where r: "register_sql_tools policy ids = (exposed, registered)" by force
  note ex = exposed_set [of _ policy ids, unfolded r fst_conv]
  note reg = registered_set [of _ policy ids, unfolded r fst_conv snd_conv]
  have known: "t \<in> set all_toolnames" if "t \<in> set decorated_toolnames \<or> t \<in> set flagged_toolnames \<or> t \<in> set unconditional_toolnames" for t
    using that by (auto simp: all_toolnames_set)
  have own: "tool_full i t \<in> set exposed \<longleftrightarrow> is_tool_enabled policy i t"
    if "i \<in> set ids" "t \<in> set decorated_toolnames" for i t
  proof
    assume "tool_full i t \<in> set exposed"
    then consider j u where "tool_full i t = tool_full j u" "u \<in> set decorated_toolnames" "is_tool_enabled policy j u"
      | k u where "tool_full i t = tool_full (nat_str k) u" "u \<in> set unconditional_toolnames \<union> set flagged_toolnames"
      unfolding ex by blast
    then show "is_tool_enabled policy i t"
      by cases (metis known that(2) tool_full_inject, metis that(2) specs_numbered_disjoint)
  qed (use that in \<open>auto simp: ex\<close>)
  have num: "numbered_name (Suc k) t \<in> set exposed \<longleftrightarrow> is_tool_enabled policy (ids ! k) t"
    if k: "k < length ids" and t: "t \<in> set flagged_toolnames" for k t
  proof
    assume "numbered_name (Suc k) t \<in> set exposed"
    then consider j u where "tool_full j u = tool_full (nat_str (Suc k)) t" "u \<in> set decorated_toolnames"
      | l u where "tool_full (nat_str (Suc k)) t = tool_full (nat_str (Suc l)) u" "u \<in> set unconditional_toolnames"
      | l u where "tool_full (nat_str (Suc k)) t = tool_full (nat_str (Suc l)) u" "u \<in> set flagged_toolnames"
          "is_tool_enabled policy (ids ! l) u"
      unfolding ex numbered_name_full by metis
    then show "is_tool_enabled policy (ids ! k) t"
    proof cases
      case 1
      then show ?thesis using specs_numbered_disjoint t by blast
    next
      case 2
      then have "t = u" using tool_full_inject(2) known t by metis
      then show ?thesis using 2 t toolname_lists(3) by blast
    next
      case 3
      then have "t = u" "nat_str (Suc k) = nat_str (Suc l)" using tool_full_inject known t by metis+
      then show ?thesis using 3 by simp
    qed
  qed (use k t in \<open>auto simp: ex numbered_name_full\<close>)
  have phantom: "tool_full i t \<notin> set exposed" if "i \<in> set ids" "t \<in> set flagged_toolnames" for i t
  proof
    assume "tool_full i t \<in> set exposed"
    then consider j u where "tool_full i t = tool_full j u" "u \<in> set decorated_toolnames"
      | k u where "tool_full i t = tool_full (nat_str k) u" "u \<in> set unconditional_toolnames \<union> set flagged_toolnames"
      unfolding ex by blast
    then show False
    proof cases
      case 1
      then show ?thesis using tool_full_inject(2) known that(2) toolname_lists(2) by (metis disjoint_iff)
    next
      case 2
      then have "i = nat_str k" using tool_full_inject(1) known that(2) by (metis Un_iff)
      then show ?thesis using instance_not_number that(1) assms(2) by blast
    qed
  qed
  have "distinct exposed" using distinct_exposed [OF assms(1), of policy] by (simp add: r)
  moreover have "set exposed \<subseteq> set registered" using reg by blast
  moreover have "\<forall>k < length ids. \<forall>t \<in> set unconditional_toolnames. numbered_name (Suc k) t \<in> set exposed"
    by (auto simp: ex numbered_name_full)
  moreover have "set registered - set exposed
      = {tool_full i t | i t. i \<in> set ids \<and> t \<in> set flagged_toolnames \<and> is_tool_enabled policy i t}"
    using reg phantom by blast
  ultimately show ?thesis using own num by (simp add: r)
qed

theorem tool_registry_exact_witness:
  "distinct (fst (register_sql_tools default_policy [''primary'', ''secondary'']))
   \<and> tool_full ''primary'' ''analyze_db_data_model''
       \<in> set (snd (register_sql_tools default_policy [''primary'', ''secondary'']))
         - set (fst (register_sql_tools default_policy [''primary'', ''secondary'']))"
proof -
  have "distinct [''primary'', ''secondary'']" "set [''primary'', ''secondary''] \<subseteq> {''primary'', ''secondary''}" by simp_all
  from tool_registry_exact [OF this, of default_policy] have
    "distinct (fst (register_sql_tools default_policy [''primary'', ''secondary'']))"
    "set (snd (register_sql_tools default_policy [''primary'', ''secondary'']))
       - set (fst (register_sql_tools default_policy [''primary'', ''secondary'']))
     = {tool_full i t | i t. i \<in> set [''primary'', ''secondary''] \<and> t \<in> set flagged_toolnames \<and> is_tool_enabled default_policy i t}"
    by (simp_all add: split_beta Let_def del: register_specs.simps register_numbered.simps)
  moreover have "''analyze_db_data_model'' \<in> set flagged_toolnames" "is_tool_enabled default_policy ''primary'' ''analyze_db_data_model''"
    by (code_simp+)
  ultimately show ?thesis by (simp only: mem_Collect_eq) auto
qed

section \<open>What a started server is\<close>

lemma build_app_Inr:
  assumes "build_fastapi_app su = (client, Inr rt)"
  obtains cfg where "startup_config su = Inr cfg" "build_state su cfg = Inr rt"
    "client = Opened (pool_max_connections (app_auth cfg))
       (min (pool_max_keepalive_connections (app_auth cfg)) (pool_max_connections (app_auth cfg)))
       (pool_timeout_seconds (app_auth cfg))"
  using assms by (auto simp: build_fastapi_app_def Let_def split: sum.splits old.unit.splits)

lemma build_app_Inl:
  assumes "build_fastapi_app su = (client, Inl e)"
  shows "client = Not_Opened \<or> client = Closed \<or> \<not> is_ok (su_aclose su)
    \<or> (\<exists>tools exc. su_mount su tools = Inl exc)"
  using assms by (auto simp: build_fastapi_app_def Let_def split: sum.splits)

lemma build_state_Inr:
  assumes "build_state su cfg = Inr rt"
  shows "startup_limiter su (app_rate_limit cfg) = Inr (rt_limiter rt)"
    "rt_sessions rt = startup_sessions (rate_session (app_rate_limit cfg))"
    "build_auth_provider (app_auth cfg) = Inr (rt_verifier rt)"
    "sc_auth (rt_config rt) = Some (app_auth cfg)" "wg_policy (sc_guard (rt_config rt)) = app_policy cfg"
    "(rt_exposed rt, rt_registered rt)
       = register_sql_tools (app_policy cfg) (list_enabled_instances (sc_cm (rt_config rt)))"
  using assms by (auto simp: build_state_def Let_def bind_res_Inr write_guard_init_def)

lemma local_limiter:
  assumes "startup_limiter su rate = Inr (In_Process rl)"
  shows "rl = rate_limiter_init (rate_rpm (rate_actor rate)) (rate_burst (rate_actor rate))
    (rate_rpm (rate_global rate)) (rate_burst (rate_global rate))"
  using assms by (auto simp: startup_limiter_def build_rate_limiter_def split: if_splits)

text \<open>
  C9: a server that starts without Redis enforces what its files and variables configure: after any
  sequence of calls no actor has more sessions and no more recent calls than the loaded limits
  allow; the guard works with the loaded policy; a token verifier exists exactly if the handlers
  demand tokens; and the shared HTTP client never keeps more idle connections than it may open.
\<close>

theorem started_server_configured:
  assumes "build_fastapi_app su = (client, Inr rt)" "rt_limiter rt = In_Process rl"
    and "server_reach (rt_config rt) db (rt_sessions rt) rl s"
  shows "\<exists>cfg m k t. startup_config su = Inr cfg \<and> client = Opened m k t \<and> k \<le> m
    \<and> int (length (sessions_of a (ss_sessions s))) \<le> max 0 (lim_concurrent (rate_session (app_rate_limit cfg)))
    \<and> int (length (bucket_of a (ss_rate s)))
        \<le> max 0 (rate_rpm (rate_actor (app_rate_limit cfg)) + rate_burst (rate_actor (app_rate_limit cfg)))
    \<and> int (length (rl_global_events (ss_rate s)))
        \<le> max 0 (rate_rpm (rate_global (app_rate_limit cfg)) + rate_burst (rate_global (app_rate_limit cfg)))
    \<and> wg_policy (sc_guard (rt_config rt)) = app_policy cfg
    \<and> (rt_verifier rt \<noteq> None \<longleftrightarrow> auth_enforced (sc_auth (rt_config rt)))"
proof -
  obtain cfg where cfg: "startup_config su = Inr cfg" "build_state su cfg = Inr rt"
    "client = Opened (pool_max_connections (app_auth cfg))
       (min (pool_max_keepalive_connections (app_auth cfg)) (pool_max_connections (app_auth cfg)))
       (pool_timeout_seconds (app_auth cfg))"
    by (rule build_app_Inr [OF assms(1)])
  note parts = build_state_Inr [OF cfg(2)]
  let ?rate = "app_rate_limit cfg"
  have rl: "rl = rate_limiter_init (rate_rpm (rate_actor ?rate)) (rate_burst (rate_actor ?rate))
      (rate_rpm (rate_global ?rate)) (rate_burst (rate_global ?rate))"
    using local_limiter parts(1) assms(2) by simp
  note limits = server_limits [OF assms(3) [unfolded parts(2) startup_sessions_def rl], of a]
  have "(rt_verifier rt \<noteq> None) = auth_enforced (sc_auth (rt_config rt))"
    using provider_iff_enforced [OF parts(3)] by (simp add: parts(4))
  with cfg(1,3) limits parts(5) show ?thesis
    by (intro exI [of _ cfg] exI conjI) (rule cfg refl | simp)+
qed

text \<open>Settings that contradict each other.\<close>

definition contradictory :: "startup \<Rightarrow> app_config \<Rightarrow> bool" where
  "contradictory su cfg \<longleftrightarrow>
     py_lower (py_strip (dict_get (su_environ su) ''FASTMCP_RATE_LIMIT_BACKEND'' ''local'')) = ''redis''
       \<and> map_of (su_environ su) ''FASTMCP_REDIS_URL'' \<in> {None, Some []}
     \<or> auth_mode (app_auth cfg) \<notin> {''azure_token_verifier'', ''disabled''}
     \<or> auth_enforced (Some (app_auth cfg))
       \<and> (azure_tenant_id (app_auth cfg) \<in> {None, Some []} \<or> azure_client_id (app_auth cfg) \<in> {None, Some []})"

lemma contradictory_no_state:
  assumes "contradictory su cfg"
  obtains e where "build_state su cfg = Inl e"
proof (cases "build_state su cfg")
  case (Inr rt)
  note parts = build_state_Inr [OF Inr]
  have "\<not> (py_lower (py_strip (dict_get (su_environ su) ''FASTMCP_RATE_LIMIT_BACKEND'' ''local'')) = ''redis''
          \<and> map_of (su_environ su) ''FASTMCP_REDIS_URL'' \<in> {None, Some []})"
    using parts(1) by (auto simp: startup_limiter_def build_rate_limiter_def split: if_splits)
  moreover have "auth_mode (app_auth cfg) \<in> {''azure_token_verifier'', ''disabled''}"
    using parts(3) by (auto simp: build_auth_provider_def split: if_splits)
  moreover have "\<not> (auth_enforced (Some (app_auth cfg))
          \<and> (azure_tenant_id (app_auth cfg) \<in> {None, Some []} \<or> azure_client_id (app_auth cfg) \<in> {None, Some []}))"
    using provider_iff_enforced [OF parts(3)] by auto
  ultimately show ?thesis using assms unfolding contradictory_def by blast
qed (rule that)

text \<open>
  C21: settings that contradict each other stop the start: a Redis backend without its address, an
  unknown authentication mode, or authentication without tenant or client identifier; and the HTTP
  client opened before is closed again, if closing it succeeds.  A client stays open after a failed
  start exactly in two cases: closing it raised, or everything up to the end of the \<open>try\<close> statement
  was built and the code after it (the HTTP app, the routers, the mount) raised, which no handler
  cleans up after.
\<close>

theorem bad_settings_refused:
  shows "(\<forall>cfg. startup_config su = Inr cfg \<and> contradictory su cfg \<longrightarrow>
         (\<exists>e. snd (build_fastapi_app su) = Inl e)
         \<and> (is_ok (su_aclose su) \<longrightarrow> fst (build_fastapi_app su) = Closed))
    \<and> ((\<exists>m k t e. build_fastapi_app su = (Opened m k t, Inl e)) \<longleftrightarrow>
         (\<exists>cfg. startup_config su = Inr cfg
            \<and> (\<not> is_ok (build_state su cfg) \<and> \<not> is_ok (su_aclose su)
               \<or> (\<exists>rt. build_state su cfg = Inr rt \<and> \<not> is_ok (su_mount su (rt_registered rt))))))"
proof (intro conjI allI impI)
  fix cfg assume h: "startup_config su = Inr cfg \<and> contradictory su cfg"
  obtain e where e: "build_state su cfg = Inl e" using contradictory_no_state h by blast
  show "\<exists>e. snd (build_fastapi_app su) = Inl e"
    using h e by (cases "su_aclose su") (simp_all add: build_fastapi_app_def Let_def)
  show "fst (build_fastapi_app su) = Closed" if "is_ok (su_aclose su)"
    using h e that by (cases "su_aclose su") (simp_all add: build_fastapi_app_def Let_def)
next
  show "(\<exists>m k t e. build_fastapi_app su = (Opened m k t, Inl e)) \<longleftrightarrow>
         (\<exists>cfg. startup_config su = Inr cfg
            \<and> (\<not> is_ok (build_state su cfg) \<and> \<not> is_ok (su_aclose su)
               \<or> (\<exists>rt. build_state su cfg = Inr rt \<and> \<not> is_ok (su_mount su (rt_registered rt)))))"
    by (auto simp: build_fastapi_app_def Let_def split: sum.splits)
qed

section \<open>Examples\<close>

definition example_startup :: startup where
  "example_startup = \<lparr>su_environ = [],
     su_models = \<lparr>validate_instance = (\<lambda>_. Inr example_instance), validate_policy = (\<lambda>_. Inr default_policy),
       validate_auth = (\<lambda>_. Inr default_auth),
       validate_rate_limit = (\<lambda>_. Inr \<lparr>rate_global = \<lparr>rate_rpm = 10, rate_burst = 0\<rparr>,
          rate_actor = \<lparr>rate_rpm = 5, rate_burst = 0\<rparr>, rate_session = default_session_limits\<rparr>)\<rparr>,
     su_json_loads = (\<lambda>_. Inr VNone), su_safe_load = (\<lambda>_. Inr (VDict [(''instances'', VList [VNone])])),
     su_has_redis = False, su_compile = (\<lambda>_. Inr (\<lambda>_. False)), su_audit_dir = Inr (), su_frameworks = (\<lambda>_. Inr ()),
     su_aclose = Inr (), su_mount = (\<lambda>_. Inr ()), su_odbc_driver = ''drv''\<rparr>"

fun starts_local :: "http_client \<times> server_runtime result \<Rightarrow> bool" where
  "starts_local (client, Inr rt) = (case rt_limiter rt of In_Process _ \<Rightarrow> True | Shared _ _ \<Rightarrow> False)"
| "starts_local (client, Inl e) = False"

lemma example_starts:
  obtains client rt rl where "build_fastapi_app example_startup = (client, Inr rt)" "rt_limiter rt = In_Process rl"
proof -
  have "starts_local (build_fastapi_app example_startup)" by code_simp
  then show ?thesis
    by (cases "build_fastapi_app example_startup"; cases "snd (build_fastapi_app example_startup)")
      (auto split: limiter.splits intro: that)
qed

theorem started_server_configured_witness:
  "\<exists>client rt cfg m k t. build_fastapi_app example_startup = (client, Inr rt) \<and> client = Opened m k t \<and> k \<le> m
    \<and> startup_config example_startup = Inr cfg \<and> wg_policy (sc_guard (rt_config rt)) = app_policy cfg"
proof -
  obtain client rt rl where run: "build_fastapi_app example_startup = (client, Inr rt)" "rt_limiter rt = In_Process rl"
    by (rule example_starts)
  from started_server_configured [OF run server_init, of "''bob''"] obtain cfg m k u where
    "startup_config example_startup = Inr cfg" "client = Opened m k u" "k \<le> m"
    "wg_policy (sc_guard (rt_config rt)) = app_policy cfg"
    by (elim exE conjE) (rule that)
  with run(1) show ?thesis by blast
qed

definition redis_without_url :: startup where
  "redis_without_url = example_startup\<lparr>su_environ := [(''FASTMCP_RATE_LIMIT_BACKEND'', ''Redis'')]\<rparr>"

theorem bad_settings_refused_witness:
  "\<exists>e. build_fastapi_app redis_without_url = (Closed, Inl e)"
proof -
  have "is_ok (startup_config redis_without_url)" by code_simp
  then obtain cfg where cfg: "startup_config redis_without_url = Inr cfg"
    by (cases "startup_config redis_without_url") auto
  have "py_lower (py_strip (dict_get (su_environ redis_without_url) ''FASTMCP_RATE_LIMIT_BACKEND'' ''local'')) = ''redis''"
    "map_of (su_environ redis_without_url) ''FASTMCP_REDIS_URL'' = None" "is_ok (su_aclose redis_without_url)"
    by code_simp+
  then have "contradictory redis_without_url cfg" by (simp only: contradictory_def insert_iff simp_thms)
  with bad_settings_refused [of redis_without_url] cfg \<open>is_ok (su_aclose redis_without_url)\<close>
  show ?thesis by (metis prod.collapse)
qed

text \<open>
  The load test under \<open>scripts/\<close> calls \<open>db_primary_sql2019_analyze_db_data_model\<close>: a name of the registry
  that no handler answers.
\<close>

lemma stress_tool_not_exposed:
  assumes "distinct ids" "set ids \<subseteq> {''primary'', ''secondary''}"
  shows "tool_full ''primary'' ''analyze_db_data_model'' \<notin> set (fst (register_sql_tools policy ids))"
proof
  assume "tool_full ''primary'' ''analyze_db_data_model'' \<in> set (fst (register_sql_tools policy ids))"
  then consider j u where "tool_full ''primary'' ''analyze_db_data_model'' = tool_full j u" "u \<in> set decorated_toolnames"
    | k u where "tool_full ''primary'' ''analyze_db_data_model'' = tool_full (nat_str k) u" "u \<in> set all_toolnames"
    unfolding exposed_set all_toolnames_set by blast
  moreover have known: "''analyze_db_data_model'' \<in> set all_toolnames" "''analyze_db_data_model'' \<notin> set decorated_toolnames"
    by code_simp+
  ultimately show False
  proof cases
    case 1
    then show ?thesis using known tool_full_inject(2) by (metis UnI1 all_toolnames_set)
  next
    case 2
    then show ?thesis using known(1) tool_full_inject(1) instance_not_number by (metis insertI1)
  qed
qed

end
