(* ===== verification/Dashboard_App.thy ===== *)
theory Dashboard_App
  imports Sessions_Dashboard
begin

text \<open>
  The interface of \<open>src/tools/sessions_dashboard_app.py\<close>: the tree of components the provider builds,
  the state it starts with, and the provider's registration.  The components are data for a framework
  outside the repository; what they bind to, the fields of the data endpoint and the columns of the
  statements, is checked here.
\<close>

section \<open>Components\<close>

datatype ui =
    Heading string "nat option"
  | Text string string
  | Bound string string string
  | Separator
  | Button string
  | SelectOption string pyval
  | Input string string string bool
  | Select string string "ui list"
  | Row nat "string option" string "ui list"
  | Column nat string "ui list"
  | Form string string string string "ui list"
  | ForEach string string "ui list"

text \<open>
  The arguments are, in order: the text and level of a heading; text and style; variable, field and
  style of a bound text; name, label, value and necessity of an input; name, label and options of a
  selection; gap, alignment, style and contents of a row; tool, result key and the two toasts of a
  form; path and variable of a loop.
\<close>

definition session_fields :: "(string \<times> string) list" where
  "session_fields = [(''session_id'', ''w-16 font-mono''), (''login_name'', ''w-24''),
     (''session_database_name'', ''w-24 text-sm''), (''status'', ''w-16 text-sm''), (''command'', ''w-24 text-sm''),
     (''wait_type'', ''w-24 text-sm text-orange-600''), (''sql_command'', ''flex-1 font-mono text-xs truncate''),
     (''login_time'', ''w-32 font-mono text-xs''), (''start_time'', ''w-32 font-mono text-xs'')]"

definition session_headers :: "(string \<times> string) list" where
  "session_headers = [(''Session ID'', ''w-16''), (''Login'', ''w-24''), (''Database'', ''w-24''), (''Status'', ''w-16''),
     (''Command'', ''w-24''), (''Wait Type'', ''w-24''), (''SQL Command'', ''flex-1 truncate''),
     (''Session Created'', ''w-32''), (''Statement Started'', ''w-32'')]"

definition refresh_form :: "nat list \<Rightarrow> ui" where
  "refresh_form numbers =
     Form ''fetch_sessions_dashboard_data'' ''dashboard'' ''Dashboard refreshed'' ''Failed to refresh dashboard''
       [Row 3 None []
          [Select ''instance_number'' ''Instance Number''
             (map (\<lambda>n. SelectOption (nat_str n) (VStr (nat_str n))) numbers),
           Input ''database_name'' ''Database'' ''master'' True,
           Input ''lookback_minutes'' ''Lookback Minutes'' ''15'' True,
           Select ''include_locks'' ''Include Locks''
             [SelectOption ''Yes'' (VBool True), SelectOption ''No'' (VBool False)]],
        Button ''Refresh'']"

definition sessions_dashboard_view :: "nat list \<Rightarrow> ui" where
  "sessions_dashboard_view numbers = Column 6 ''p-6''
     [Heading ''SQL Sessions Dashboard'' None,
      Text ''Interactive diagnostics for active sessions and lock chains.'' [],
      refresh_form numbers,
      Separator,
      Heading ''Summary'' (Some 3),
      Row 4 None [] [Text ''Instance: {dashboard.instance_number} | DB: {dashboard.database_name}'' [],
        Text ''Head blockers: {dashboard.head_blockers}'' []],
      Text ''Last refreshed: {dashboard.generated_at_utc}'' ''text-sm text-gray-600'',
      Separator,
      Heading ''Active Sessions'' (Some 3),
      Row 2 (Some ''center'') ''font-bold bg-gray-100 p-2 rounded'' (map (\<lambda>(t, c). Text t c) session_headers),
      ForEach ''dashboard.active_sessions'' ''sess''
        [Row 2 (Some ''start'') ''border-b p-2 hover:bg-gray-50'' (map (\<lambda>(f, c). Bound ''sess'' f c) session_fields)],
      Separator,
      Heading ''Lock Chains'' (Some 3),
      ForEach ''dashboard.lock_chains'' ''lock''
        [Row 2 (Some ''center'') [] [Text ''Session:'' [], Bound ''lock'' ''session_id'' [],
           Text ''Blocking:'' [], Bound ''lock'' ''blocking_session_id'' [],
           Text ''Type:'' [], Bound ''lock'' ''wait_type'' []]],
      Separator,
      Heading ''Recommendations'' (Some 3),
      ForEach ''dashboard.recommendations'' ''rec''
        [Row 2 (Some ''center'') [] [Text ''Priority:'' [], Bound ''rec'' ''priority'' [],
           Text ''Action:'' [], Bound ''rec'' ''action'' []]]]"

definition initial_dashboard :: "string \<Rightarrow> nat list \<Rightarrow> row" where
  "initial_dashboard generated_at numbers =
     [(''generated_at_utc'', VStr generated_at),
      (''instance_number'', case numbers of [] \<Rightarrow> VStr [] | n # _ \<Rightarrow> VInt (int n)),
      (''database_name'', VStr ''master''), (''lookback_minutes'', VInt 15),
      (''active_sessions'', VList []), (''lock_chains'', VList []), (''blocking_chains'', VList []),
      (''head_blockers'', VList []),
      (''recommendations'', VList [VDict [(''priority'', VStr ''info''),
         (''action'', VStr ''Click Refresh to load dashboard data.''),
         (''rationale'', VStr ''No initial server-side fetch is performed.'')]])]"

definition available_instance_numbers :: "connection_manager \<Rightarrow> nat list" where
  "available_instance_numbers cm = map Suc [0..<length (list_enabled_instances cm)]"

text \<open>What the application gives the framework when it is opened.\<close>

definition sessions_dashboard_app :: "nat list \<Rightarrow> string \<Rightarrow> ui \<times> row" where
  "sessions_dashboard_app numbers generated_at =
     (sessions_dashboard_view numbers, initial_dashboard generated_at numbers)"

text \<open>
  The registration: a provider is its two functions, closed over the instance numbers.  The result
  is the server's providers and whether one was added; whether the optional packages can be imported
  is an argument.
\<close>

definition register_sessions_dashboard_app_provider ::
  "bool \<Rightarrow> connection_manager \<Rightarrow> nat list list \<Rightarrow> nat list list \<times> bool" where
  "register_sessions_dashboard_app_provider installed cm providers =
     (if \<not> installed then (providers, False) else (providers @ [available_instance_numbers cm], True))"

section \<open>What the components bind to\<close>

text \<open>The names between braces.\<close>

fun braced :: "string \<Rightarrow> string list" where
  "braced [] = []"
| "braced (c # cs) = (if c = CHR ''{'' then [takeWhile (\<lambda>x. x \<noteq> CHR ''}'') cs] else []) @ braced cs"

text \<open>The paths of the state that a component shows, and the fields of a loop's rows.\<close>

fun state_paths :: "ui \<Rightarrow> string list" where
  "state_paths (Text t css) = braced t"
| "state_paths (Heading t l) = braced t"
| "state_paths (ForEach path var us) = path # concat (map state_paths us)"
| "state_paths (Row g a c us) = concat (map state_paths us)"
| "state_paths (Column g c us) = concat (map state_paths us)"
| "state_paths (Form tool k a b us) = concat (map state_paths us)"
| "state_paths (Select n l us) = concat (map state_paths us)"
| "state_paths _ = []"

fun row_fields :: "string \<Rightarrow> ui \<Rightarrow> (string \<times> string) list" where
  "row_fields path (Bound var f css) = [(path, f)]"
| "row_fields path (ForEach p var us) = concat (map (row_fields p) us)"
| "row_fields path (Row g a c us) = concat (map (row_fields path) us)"
| "row_fields path (Column g c us) = concat (map (row_fields path) us)"
| "row_fields path (Form tool k a b us) = concat (map (row_fields path) us)"
| "row_fields path _ = []"

fun field_names :: "ui \<Rightarrow> string list" where
  "field_names (Input n l v r) = [n]"
| "field_names (Select n l us) = [n]"
| "field_names (Row g a c us) = concat (map field_names us)"
| "field_names (Column g c us) = concat (map field_names us)"
| "field_names (Form tool k a b us) = concat (map field_names us)"
| "field_names _ = []"

definition fetch_parameters :: "string list" where
  "fetch_parameters = [''instance_number'', ''database_name'', ''lookback_minutes'', ''include_locks'', ''actor'']"

text \<open>A statement selects a field: one of its columns is the field's or has it as its alias.\<close>

definition selects :: "string \<Rightarrow> string \<Rightarrow> bool" where
  "selects sql f \<longleftrightarrow> (\<exists>n cols rest. sql = ''SELECT TOP '' @ n @ '' '' @ join_with '', '' cols @ '' FROM '' @ rest
     \<and> (\<exists>c \<in> set cols. suffix (''.'' @ f) c \<or> suffix ('' AS '' @ f) c))"

definition session_columns :: "string list" where
  "session_columns = [''s.session_id'', ''s.login_name'', ''s.host_name'', ''s.program_name'', ''s.status'',
     ''DB_NAME(s.database_id) AS session_database_name'', ''s.open_transaction_count'', ''s.login_time'',
     ''s.last_request_start_time'', ''r.command'', ''r.wait_type'', ''r.wait_time'', ''r.cpu_time'',
     ''r.blocking_session_id'', ''r.start_time'', ''SUBSTRING(st.text, 1, 500) AS sql_command'']"

definition lock_columns :: "string list" where
  "lock_columns = [''wt.session_id'', ''wt.blocking_session_id'', ''wt.wait_type'', ''wt.wait_duration_ms'',
     ''wt.resource_description'']"

lemma active_sessions_columns:
  "active_sessions_query (VInt 200) = Inr (''SELECT TOP '' @ ''200'' @ '' '' @ join_with '', '' session_columns @ '' FROM ''
     @ ''sys.dm_exec_sessions s LEFT JOIN sys.dm_exec_requests r ON s.session_id = r.session_id ''
     @ ''OUTER APPLY sys.dm_exec_sql_text(r.sql_handle) st WHERE s.is_user_process = 1 ''
     @ ''ORDER BY r.wait_time DESC, s.session_id OPTION (RECOMPILE)'')"
  by code_simp

lemma lock_chain_columns:
  "lock_chain_query (VInt 200) = Inr (''SELECT TOP '' @ ''200'' @ '' '' @ join_with '', '' lock_columns @ '' FROM ''
     @ ''sys.dm_os_waiting_tasks wt WHERE wt.blocking_session_id IS NOT NULL ''
     @ ''ORDER BY wt.wait_duration_ms DESC OPTION (RECOMPILE)'')"
  by code_simp

lemma selects_column:
  assumes "sql = ''SELECT TOP '' @ n @ '' '' @ join_with '', '' cols @ '' FROM '' @ rest"
    "list_ex (\<lambda>c. suffix (''.'' @ f) c \<or> suffix ('' AS '' @ f) c) cols"
  shows "selects sql f"
  unfolding selects_def using assms by (intro exI conjI) (auto simp: list_ex_iff)

lemma session_fields_selected:
  "list_all (selects (projr (active_sessions_query (VInt 200)))) (map fst session_fields)"
proof -
  have "list_all (\<lambda>f. list_ex (\<lambda>c. suffix (''.'' @ f) c \<or> suffix ('' AS '' @ f) c) session_columns) (map fst session_fields)"
    by code_simp
  then show ?thesis
    unfolding active_sessions_columns sum.sel by (rule list.pred_mono_strong) (rule selects_column [OF refl])
qed

lemma lock_fields_selected:
  "list_all (selects (projr (lock_chain_query (VInt 200)))) [''session_id'', ''blocking_session_id'', ''wait_type'']"
proof -
  have "list_all (\<lambda>f. list_ex (\<lambda>c. suffix (''.'' @ f) c \<or> suffix ('' AS '' @ f) c) lock_columns)
      [''session_id'', ''blocking_session_id'', ''wait_type'']"
    by code_simp
  then show ?thesis
    unfolding lock_chain_columns sum.sel by (rule list.pred_mono_strong) (rule selects_column [OF refl])
qed

lemma view_paths:
  "set (state_paths (sessions_dashboard_view numbers)) = (\<lambda>k. ''dashboard.'' @ k) `
     {''instance_number'', ''database_name'', ''head_blockers'', ''generated_at_utc'', ''active_sessions'', ''lock_chains'',
      ''recommendations''}"
  by (simp add: sessions_dashboard_view_def refresh_form_def session_headers_def session_fields_def comp_def)

lemma view_fields:
  "row_fields [] (sessions_dashboard_view numbers) =
     map (Pair ''dashboard.active_sessions'') (map fst session_fields)
     @ map (Pair ''dashboard.lock_chains'') [''session_id'', ''blocking_session_id'', ''wait_type'']
     @ map (Pair ''dashboard.recommendations'') [''priority'', ''action'']"
  by (simp add: sessions_dashboard_view_def refresh_form_def session_headers_def session_fields_def)

lemma view_form: "field_names (sessions_dashboard_view numbers)
    = [''instance_number'', ''database_name'', ''lookback_minutes'', ''include_locks'']"
  by (simp add: sessions_dashboard_view_def refresh_form_def session_headers_def)

lemma fetched_payload:
  assumes "snd (fetch_sessions_dashboard_data cfg db cc nr d m l actor s) = Inr payload"
  obtains dn sess locks ch hs where
    "payload = app_payload (cc_utc_now cc) nr dn m (map mask_session sess) locks ch hs"
    "1 \<le> nr" "nr \<le> int (length (list_enabled_instances (sc_cm cfg)))"
proof -
  let ?t0 = "\<lparr>tr_state = s, run_actor = actor, run_auth = None, run_rows = 0\<rparr>"
  obtain t r where run: "fetch_sessions_dashboard_body cfg db cc nr d m l ?t0 = (t, r)" by force
  have "r = Inr payload" using assms by (simp add: fetch_sessions_dashboard_data_def run)
  with run show ?thesis
    unfolding fetch_sessions_dashboard_body_def
    by (auto simp: tool_bind_def tool_return_def Let_def split: prod.splits sum.splits if_splits intro: that)
qed

text \<open>
  The interface fits the data it shows: every path of the view is a key of the state, at the
  start and after every successful refresh; every field it shows of a session or a lock is selected
  by the statement that reads these rows, and every field of a recommendation is one of its keys;
  the form's fields are parameters of the tool it calls; and the numbers it offers are those of the
  configured instances, the only ones for which the tool answers.
\<close>

theorem dashboard_app_consistent:
  "(\<forall>p \<in> set (state_paths (fst (sessions_dashboard_app (available_instance_numbers (sc_cm cfg)) t))).
      \<exists>k. p = ''dashboard.'' @ k \<and> k \<in> fst ` set (snd (sessions_dashboard_app (available_instance_numbers (sc_cm cfg)) t))
        \<and> (\<forall>db cc nr d m l actor s payload. snd (fetch_sessions_dashboard_data cfg db cc nr d m l actor s) = Inr payload
             \<longrightarrow> k \<in> fst ` set payload))
   \<and> (\<forall>(p, f) \<in> set (row_fields [] (fst (sessions_dashboard_app (available_instance_numbers (sc_cm cfg)) t))).
        p = ''dashboard.active_sessions'' \<and> selects (projr (active_sessions_query (VInt 200))) f
        \<or> p = ''dashboard.lock_chains'' \<and> selects (projr (lock_chain_query (VInt 200))) f
        \<or> p = ''dashboard.recommendations'' \<and> f \<in> {''priority'', ''action'', ''rationale''})
   \<and> set (field_names (fst (sessions_dashboard_app (available_instance_numbers (sc_cm cfg)) t))) \<subseteq> set fetch_parameters
   \<and> (\<forall>db cc nr d m l actor s payload. snd (fetch_sessions_dashboard_data cfg db cc nr d m l actor s) = Inr payload
        \<longrightarrow> nat nr \<in> set (available_instance_numbers (sc_cm cfg)))"
proof (intro conjI)
  have keys: "fst ` set (initial_dashboard t ns) = {''generated_at_utc'', ''instance_number'', ''database_name'', ''lookback_minutes'',
      ''active_sessions'', ''lock_chains'', ''blocking_chains'', ''head_blockers'', ''recommendations''}" for ns
    by (simp add: initial_dashboard_def)
  have payload_keys: "fst ` set payload = {''generated_at_utc'', ''instance_number'', ''database_name'', ''lookback_minutes'',
      ''active_sessions'', ''lock_chains'', ''blocking_chains'', ''head_blockers'', ''recommendations''}"
    if ok: "snd (fetch_sessions_dashboard_data cfg db cc nr d m l actor s) = Inr payload" for db cc nr d m l actor s payload
    by (rule fetched_payload [OF ok]) (simp add: app_payload_def)
  show "\<forall>p \<in> set (state_paths (fst (sessions_dashboard_app (available_instance_numbers (sc_cm cfg)) t))).
      \<exists>k. p = ''dashboard.'' @ k \<and> k \<in> fst ` set (snd (sessions_dashboard_app (available_instance_numbers (sc_cm cfg)) t))
        \<and> (\<forall>db cc nr d m l actor s payload. snd (fetch_sessions_dashboard_data cfg db cc nr d m l actor s) = Inr payload
             \<longrightarrow> k \<in> fst ` set payload)"
  proof
    fix p assume "p \<in> set (state_paths (fst (sessions_dashboard_app (available_instance_numbers (sc_cm cfg)) t)))"
    then obtain k where k: "p = ''dashboard.'' @ k" "k \<in> {''instance_number'', ''database_name'', ''head_blockers'',
        ''generated_at_utc'', ''active_sessions'', ''lock_chains'', ''recommendations''}"
      unfolding sessions_dashboard_app_def fst_conv view_paths by (elim imageE) (rule that)
    show "\<exists>k. p = ''dashboard.'' @ k \<and> k \<in> fst ` set (snd (sessions_dashboard_app (available_instance_numbers (sc_cm cfg)) t))
        \<and> (\<forall>db cc nr d m l actor s payload. snd (fetch_sessions_dashboard_data cfg db cc nr d m l actor s) = Inr payload
             \<longrightarrow> k \<in> fst ` set payload)"
    proof (intro exI [of _ k] conjI allI impI)
      have known: "k \<in> {''generated_at_utc'', ''instance_number'', ''database_name'', ''lookback_minutes'',
          ''active_sessions'', ''lock_chains'', ''blocking_chains'', ''head_blockers'', ''recommendations''}"
        using k(2) by (elim insertE) simp_all
      then show "k \<in> fst ` set (snd (sessions_dashboard_app (available_instance_numbers (sc_cm cfg)) t))" unfolding sessions_dashboard_app_def snd_conv keys .
      fix db cc nr d m l actor s payload
      assume ok: "snd (fetch_sessions_dashboard_data cfg db cc nr d m l actor s) = Inr payload"
      show "k \<in> fst ` set payload" unfolding payload_keys [OF ok] by (rule known)
    qed (rule k(1))
  qed
  show "\<forall>(p, f) \<in> set (row_fields [] (fst (sessions_dashboard_app (available_instance_numbers (sc_cm cfg)) t))).
        p = ''dashboard.active_sessions'' \<and> selects (projr (active_sessions_query (VInt 200))) f
        \<or> p = ''dashboard.lock_chains'' \<and> selects (projr (lock_chain_query (VInt 200))) f
        \<or> p = ''dashboard.recommendations'' \<and> f \<in> {''priority'', ''action'', ''rationale''}"
    unfolding sessions_dashboard_app_def fst_conv view_fields set_append ball_Un using session_fields_selected lock_fields_selected by (simp add: list_all_iff)
  show "set (field_names (fst (sessions_dashboard_app (available_instance_numbers (sc_cm cfg)) t))) \<subseteq> set fetch_parameters"
    by (simp add: sessions_dashboard_app_def view_form fetch_parameters_def)
  show "\<forall>db cc nr d m l actor s payload. snd (fetch_sessions_dashboard_data cfg db cc nr d m l actor s) = Inr payload
        \<longrightarrow> nat nr \<in> set (available_instance_numbers (sc_cm cfg))"
  proof (intro allI impI)
    fix db cc nr d m l actor s payload
    assume ok: "snd (fetch_sessions_dashboard_data cfg db cc nr d m l actor s) = Inr payload"
    show "nat nr \<in> set (available_instance_numbers (sc_cm cfg))"
      by (rule fetched_payload [OF ok]) (auto simp: available_instance_numbers_def image_iff intro: bexI [of _ "nat nr - 1"])
  qed
qed

theorem dashboard_app_consistent_witness:
  "\<exists>payload. snd (fetch_sessions_dashboard_data example_config steady_db example_call 1 ''master'' 15 (VStr '' NO'') ''bob''
      example_state) = Inr payload
    \<and> set (field_names (fst (sessions_dashboard_app (available_instance_numbers (sc_cm example_config)) ''t''))) \<subseteq> set fetch_parameters
    \<and> nat 1 \<in> set (available_instance_numbers (sc_cm example_config))"
proof -
  obtain payload where ok: "snd (fetch_sessions_dashboard_data example_config steady_db example_call 1 ''master'' 15
      (VStr '' NO'') ''bob'' example_state) = Inr payload"
    using app_data_ok by (cases "snd (fetch_sessions_dashboard_data example_config steady_db example_call 1 ''master'' 15
      (VStr '' NO'') ''bob'' example_state)") auto
  note app = dashboard_app_consistent [of example_config "''t''", THEN conjunct2, THEN conjunct2]
  show ?thesis
    by (intro exI [of _ payload] conjI) (rule ok, rule app [THEN conjunct1], rule app [THEN conjunct2, rule_format, OF ok])
qed

end
