(* ===== verification/Dashboard_Log.thy ===== *)
theory Dashboard_Log
  imports Sessions_Dashboard
begin

text \<open>
  \<open>_sanitize_dashboard_url\<close> of \<open>src/tools/sql_tools.py\<close>: the form of a page's address that is logged.
  \<open>urlsplit\<close> and \<open>urlunsplit\<close> are those of the standard library; the checks of a bracketed or
  non-ASCII host, which only refuse an address, are an argument.
\<close>

section \<open>Splitting an address\<close>

definition clean_url :: "string \<Rightarrow> string" where
  "clean_url url = filter (\<lambda>c. c \<notin> {CHR 0x09, CHR 0x0A, CHR 0x0D})
     (dropWhile (\<lambda>c. (of_char c :: nat) \<le> 32) url)"

definition ascii_letter :: "char \<Rightarrow> bool" where
  "ascii_letter c = (let n = (of_char c :: nat) in (97 \<le> n \<and> n \<le> 122) \<or> (65 \<le> n \<and> n \<le> 90))"

definition scheme_char :: "char \<Rightarrow> bool" where
  "scheme_char c \<longleftrightarrow> ascii_letter c \<or> is_dec c \<or> c \<in> {CHR ''+'', CHR ''-'', CHR ''.''}"

definition split_scheme :: "string \<Rightarrow> string \<times> string" where
  "split_scheme url = (let pre = takeWhile (\<lambda>c. c \<noteq> CHR '':'') url in
     if length pre < length url \<and> pre \<noteq> [] \<and> ascii_letter (hd pre) \<and> list_all scheme_char pre
     then (py_lower pre, drop (Suc (length pre)) url) else ([], url))"

definition ends_netloc :: "char \<Rightarrow> bool" where
  "ends_netloc c \<longleftrightarrow> c \<in> {CHR ''/'', CHR ''?'', CHR ''#''}"

definition split_netloc :: "string \<Rightarrow> string \<times> string" where
  "split_netloc url = (if take 2 url = ''//''
     then (takeWhile (\<lambda>c. \<not> ends_netloc c) (drop 2 url), dropWhile (\<lambda>c. \<not> ends_netloc c) (drop 2 url))
     else ([], url))"

definition url_path :: "string \<Rightarrow> string" where
  "url_path url = takeWhile (\<lambda>c. c \<noteq> CHR ''?'') (takeWhile (\<lambda>c. c \<noteq> CHR ''#'') url)"

text \<open>\<open>urlsplit\<close>: scheme, host and path; the query and the fragment are not used.\<close>

definition urlsplit :: "(string \<Rightarrow> bool) \<Rightarrow> string \<Rightarrow> (string \<times> string \<times> string) option" where
  "urlsplit host_ok url =
     (let (scheme, rest) = split_scheme (clean_url url); (netloc, rest) = split_netloc rest
      in if (CHR ''['' \<in> set netloc) \<noteq> (CHR '']'' \<in> set netloc) \<or> \<not> host_ok netloc then None
         else Some (scheme, netloc, url_path rest))"

definition uses_netloc :: "string list" where
  "uses_netloc = ['''', ''ftp'', ''http'', ''gopher'', ''nntp'', ''telnet'', ''imap'', ''wais'', ''file'', ''mms'',
     ''https'', ''shttp'', ''snews'', ''prospero'', ''rtsp'', ''rtsps'', ''rtspu'', ''rsync'', ''svn'', ''svn+ssh'',
     ''sftp'', ''nfs'', ''git'', ''git+ssh'', ''ws'', ''wss'', ''itms-services'']"

text \<open>\<open>urlunsplit((scheme, netloc, path, "", ""))\<close> for a path that starts with a slash.\<close>

definition urlunsplit :: "string \<Rightarrow> string \<Rightarrow> string \<Rightarrow> string" where
  "urlunsplit scheme netloc path =
     (let url = (if netloc \<noteq> [] then ''//'' @ netloc @ path
            else if take 2 path = ''//'' then ''//'' @ path
            else if scheme \<noteq> [] \<and> scheme \<in> set uses_netloc then ''//'' @ path else path)
      in if scheme \<noteq> [] then scheme @ '':'' @ url else url)"

definition sanitize_dashboard_url :: "(string \<Rightarrow> bool) \<Rightarrow> string \<Rightarrow> string" where
  "sanitize_dashboard_url host_ok url =
     (case urlsplit host_ok url of None \<Rightarrow> ''<invalid-url>''
      | Some (scheme, netloc, path) \<Rightarrow>
          let parts = filter (\<lambda>p. p \<noteq> []) (split_on (CHR ''/'') path);
              parts = (if parts \<noteq> [] then butlast parts @ [''<request-id>''] else parts)
          in urlunsplit scheme netloc (if parts \<noteq> [] then CHR ''/'' # join_with ''/'' parts else ''/''))"

text \<open>The line that \<open>_sessions_dashboard\<close> writes with it.\<close>

definition dashboard_log_line :: "(string \<Rightarrow> bool) \<Rightarrow> string \<Rightarrow> string \<Rightarrow> nat \<Rightarrow> string \<Rightarrow> string" where
  "dashboard_log_line host_ok request_id tool sessions dashboard_url =
     ''Transaction '' @ request_id @ '': '' @ tool @ '' - '' @ nat_str sessions @ '' sessions analyzed - URL: ''
     @ sanitize_dashboard_url host_ok dashboard_url"

section \<open>What the log shows\<close>

definition plain :: "string \<Rightarrow> bool" where
  "plain i \<longleftrightarrow> i \<noteq> [] \<and> set i \<inter> {CHR '':'', CHR ''/'', CHR ''?'', CHR ''#''} = {}"

lemma takeWhile_at: "\<forall>y \<in> set a. P y \<Longrightarrow> \<not> P x \<Longrightarrow> takeWhile P (a @ x # b) = a"
  by (simp add: takeWhile_append2)

lemma dropWhile_at: "\<forall>y \<in> set a. P y \<Longrightarrow> \<not> P x \<Longrightarrow> dropWhile P (a @ x # b) = x # b"
  by (simp add: dropWhile_append2)

lemma takeWhile_all: "\<forall>y \<in> set a. P y \<Longrightarrow> takeWhile P a = a"
  by (simp add: takeWhile_eq_all_conv)

text \<open>
  The address up to the identifier ends in a slash, and so does what is left of it after each step
  of the split; the identifier stays behind it until the query or the fragment is cut off.
\<close>

lemma split_scheme_slash: "\<exists>sch q. \<forall>i. plain i \<longrightarrow> split_scheme (u @ ''s/'' @ i) = (sch, q @ ''s/'' @ i)"
proof (cases "CHR '':'' \<in> set u")
  case True
  then obtain a b where ab: "u = a @ CHR '':'' # b" "CHR '':'' \<notin> set a" using split_list_first by metis
  have pre: "takeWhile (\<lambda>c. c \<noteq> CHR '':'') (a @ CHR '':'' # ys) = a" for ys
    by (rule takeWhile_at) (use ab(2) in auto)
  let ?ok = "a \<noteq> [] \<and> ascii_letter (hd a) \<and> list_all scheme_char a"
  have "split_scheme (u @ ''s/'' @ i) = (if ?ok then py_lower a else [], (if ?ok then b else u) @ ''s/'' @ i)" for i
    by (simp add: split_scheme_def Let_def ab(1) pre)
  then show ?thesis by blast
next
  case False
  have "split_scheme (u @ ''s/'' @ i) = ([], u @ ''s/'' @ i)" if "plain i" for i
  proof -
    have "takeWhile (\<lambda>c. c \<noteq> CHR '':'') (u @ ''s/'' @ i) = u @ ''s/'' @ i"
      by (rule takeWhile_all) (use False that in \<open>auto simp: plain_def\<close>)
    then show ?thesis unfolding split_scheme_def by (simp only: Let_def less_irrefl simp_thms if_False)
  qed
  then show ?thesis by blast
qed

lemma split_netloc_slash: "\<exists>host q. \<forall>i. split_netloc (u @ ''s/'' @ i) = (host, q @ ''/'' @ i)"
proof (cases "\<exists>v. u = ''//'' @ v")
  case True
  then obtain v where v: "u = ''//'' @ v" by blast
  show ?thesis
  proof (cases "\<exists>x \<in> set v. ends_netloc x")
    case True
    then obtain a x b where ab: "v = a @ x # b" "ends_netloc x" "\<forall>y \<in> set a. \<not> ends_netloc y"
      using split_list_first_prop [OF True] by metis
    have "split_netloc (u @ ''s/'' @ i) = (a, (x # b @ ''s'') @ ''/'' @ i)" for i
      by (simp add: split_netloc_def v ab(1) takeWhile_at dropWhile_at ab(2,3))
    then show ?thesis by blast
  next
    case False
    have "ends_netloc (CHR ''/'')" "\<not> ends_netloc (CHR ''s'')" by (simp_all add: ends_netloc_def)
    with False have "split_netloc (u @ ''s/'' @ i) = (v @ ''s'', [] @ ''/'' @ i)" for i
      by (simp add: split_netloc_def v takeWhile_append2 dropWhile_append2)
    then show ?thesis by blast
  qed
next
  case False
  have "take 2 (u @ ''s/'' @ i) \<noteq> ''//''" for i
  proof
    assume two: "take 2 (u @ ''s/'' @ i) = ''//''"
    show False
    proof (cases u)
      case Nil
      with two show False by simp
    next
      case u: (Cons a u')
      with two False show False by (cases u') auto
    qed
  qed
  then have "split_netloc (u @ ''s/'' @ i) = ([], (u @ ''s'') @ ''/'' @ i)" for i by (simp add: split_netloc_def)
  then show ?thesis by blast
qed

lemma url_path_slash:
  "(\<exists>w. \<forall>i. url_path (q @ ''/'' @ i) = w) \<or> (\<forall>i. plain i \<longrightarrow> url_path (q @ ''/'' @ i) = q @ ''/'' @ i)"
proof (cases "\<exists>x \<in> set q. x = CHR ''?'' \<or> x = CHR ''#''")
  case True
  then obtain a x b where ab: "q = a @ x # b" "x = CHR ''?'' \<or> x = CHR ''#''" "\<forall>y \<in> set a. \<not> (y = CHR ''?'' \<or> y = CHR ''#'')"
    using split_list_first_prop [OF True] by metis
  have a: "takeWhile (\<lambda>c. c \<noteq> CHR ''?'') a = a" by (rule takeWhile_all) (use ab(3) in auto)
  have "url_path (q @ ''/'' @ i) = a" for i
  proof (cases "x = CHR ''#''")
    case True
    have "takeWhile (\<lambda>c. c \<noteq> CHR ''#'') (a @ x # b @ ''/'' @ i) = a" by (rule takeWhile_at) (use ab(3) True in auto)
    then show ?thesis by (simp add: url_path_def ab(1) a)
  next
    case False
    then have x: "x = CHR ''?''" using ab(2) by blast
    have "takeWhile (\<lambda>c. c \<noteq> CHR ''#'') (a @ x # b @ ''/'' @ i) = a @ takeWhile (\<lambda>c. c \<noteq> CHR ''#'') (x # b @ ''/'' @ i)"
      by (rule takeWhile_append2) (use ab(3) in auto)
    then have "url_path (q @ ''/'' @ i) = takeWhile (\<lambda>c. c \<noteq> CHR ''?'') (a @ x # takeWhile (\<lambda>c. c \<noteq> CHR ''#'') (b @ ''/'' @ i))"
      by (simp add: url_path_def ab(1) x)
    also have "\<dots> = a" by (rule takeWhile_at) (use ab(3) x in auto)
    finally show ?thesis .
  qed
  then show ?thesis by blast
next
  case False
  have "url_path (q @ ''/'' @ i) = q @ ''/'' @ i" if "plain i" for i
  proof -
    have "takeWhile (\<lambda>c. c \<noteq> CHR ''#'') (q @ ''/'' @ i) = q @ ''/'' @ i" "takeWhile (\<lambda>c. c \<noteq> CHR ''?'') (q @ ''/'' @ i) = q @ ''/'' @ i"
      by (rule takeWhile_all, use False that in \<open>auto simp: plain_def\<close>)+
    then show ?thesis unfolding url_path_def by (simp only:)
  qed
  then show ?thesis by blast
qed

lemma path_parts:
  assumes "plain i"
  shows "filter (\<lambda>p. p \<noteq> []) (split_on (CHR ''/'') (q @ ''/'' @ i)) = filter (\<lambda>p. p \<noteq> []) (split_on (CHR ''/'') q) @ [i]"
  using assms by (simp add: split_on_append split_on_notin plain_def)

lemma sanitize_plain:
  assumes "plain i" "plain j" "clean_url url = u @ ''s/'' @ i" "clean_url url' = u @ ''s/'' @ j"
  shows "sanitize_dashboard_url ok url = sanitize_dashboard_url ok url'"
proof -
  obtain sch q where sch: "\<And>i. plain i \<Longrightarrow> split_scheme (u @ ''s/'' @ i) = (sch, q @ ''s/'' @ i)"
    using split_scheme_slash by blast
  obtain host q' where host: "\<And>i. split_netloc (q @ ''s/'' @ i) = (host, q' @ ''/'' @ i)"
    using split_netloc_slash by blast
  have split: "urlsplit ok a = (if (CHR ''['' \<in> set host) \<noteq> (CHR '']'' \<in> set host) \<or> \<not> ok host then None
      else Some (sch, host, url_path (q' @ ''/'' @ k)))" if "clean_url a = u @ ''s/'' @ k" "plain k" for a k
    unfolding urlsplit_def that(1) sch [OF that(2)] Let_def prod.case host by simp
  from url_path_slash [of q'] show ?thesis
  proof
    assume "\<exists>w. \<forall>i. url_path (q' @ ''/'' @ i) = w"
    then show ?thesis unfolding sanitize_dashboard_url_def split [OF assms(3,1)] split [OF assms(4,2)] by auto
  next
    assume path: "\<forall>i. plain i \<longrightarrow> url_path (q' @ ''/'' @ i) = q' @ ''/'' @ i"
    then have "url_path (q' @ ''/'' @ k) = q' @ ''/'' @ k" if "plain k" for k using that by blast
    note path = this [OF assms(1)] this [OF assms(2)]
    show ?thesis
      unfolding sanitize_dashboard_url_def split [OF assms(3,1)] split [OF assms(4,2)] path
      by (simp only: path_parts [OF assms(1)] path_parts [OF assms(2)] Let_def prod.case option.case butlast_snoc
          split: if_split option.split) simp
  qed
qed

lemma clean_page_url:
  "\<exists>u. \<forall>i. clean_url (base @ ''/diagnostics/dashboards/'' @ i)
     = u @ ''s/'' @ filter (\<lambda>c. c \<notin> {CHR 0x09, CHR 0x0A, CHR 0x0D}) i"
proof -
  have keep: "\<not> (of_char (CHR ''/'') :: nat) \<le> 32" by simp
  obtain u where u: "\<And>i. dropWhile (\<lambda>c. (of_char c :: nat) \<le> 32) (base @ CHR ''/'' # i) = u @ CHR ''/'' # i"
  proof (cases "\<exists>x \<in> set base. \<not> (of_char x :: nat) \<le> 32")
    case True
    then obtain x where "x \<in> set base" "\<not> (of_char x :: nat) \<le> 32" by blast
    then show ?thesis by (intro that) (rule dropWhile_append1)
  next
    case False
    have "dropWhile (\<lambda>c. (of_char c :: nat) \<le> 32) (base @ CHR ''/'' # i) = [] @ CHR ''/'' # i" for i
      using dropWhile_at [of base "\<lambda>c. (of_char c :: nat) \<le> 32" "CHR ''/''" i] False keep by auto
    then show ?thesis by (rule that)
  qed
  have "clean_url (base @ ''/diagnostics/dashboards/'' @ i)
      = (filter (\<lambda>c. c \<notin> {CHR 0x09, CHR 0x0A, CHR 0x0D}) u @ ''/diagnostics/dashboard'') @ ''s/''
        @ filter (\<lambda>c. c \<notin> {CHR 0x09, CHR 0x0A, CHR 0x0D}) i" for i
    by (simp add: clean_url_def u)
  then show ?thesis by blast
qed

lemma id_char_plain: "id_char c \<Longrightarrow> c \<notin> {CHR 0x09, CHR 0x0A, CHR 0x0D, CHR '':'', CHR ''/'', CHR ''?'', CHR ''#''}"
  by (auto simp: id_char_def Let_def)

lemma id_pattern_plain:
  assumes "id_pattern i"
  shows "plain (filter (\<lambda>c. c \<notin> {CHR 0x09, CHR 0x0A, CHR 0x0D}) i)"
proof -
  define body where "body = (if i \<noteq> [] \<and> last i = CHR 0x0A then butlast i else i)"
  have body: "body \<noteq> []" "\<forall>c \<in> set body. id_char c"
    using assms by (auto simp: id_pattern_def Let_def body_def list_all_iff)
  have "i = body \<or> i = body @ [CHR 0x0A]" unfolding body_def by (metis append_butlast_last_id)
  then have "filter (\<lambda>c. c \<notin> {CHR 0x09, CHR 0x0A, CHR 0x0D}) i = filter (\<lambda>c. c \<notin> {CHR 0x09, CHR 0x0A, CHR 0x0D}) body"
    by auto
  also have "\<dots> = body" by (rule filter_True) (use body(2) id_char_plain in blast)
  finally show ?thesis using body id_char_plain unfolding plain_def by auto
qed

text \<open>
  The sanitized form of a page's address does not depend on the page: whatever the public base
  address, the addresses of two pages with different identifiers are sanitized to the same text.
\<close>

theorem logged_url_hides_page:
  assumes "register_dashboard_page_with_metadata env now i html ttl md pages = (Inr url, pages1)"
    and "register_dashboard_page_with_metadata env now' j html' ttl' md' pages' = (Inr url', pages1')"
  shows "sanitize_dashboard_url ok url = sanitize_dashboard_url ok url'"
proof -
  have reg: "url = public_base_url env @ ''/diagnostics/dashboards/'' @ i \<and> id_pattern i"
    if "register_dashboard_page_with_metadata env now i html ttl md pages = (Inr url, pages1)" for now i html ttl md pages url pages1
    using that by (auto simp: register_dashboard_page_with_metadata_def validate_request_id_def bind_res_Inr
        split: sum.splits if_splits)
  obtain u where "\<And>i. clean_url (public_base_url env @ ''/diagnostics/dashboards/'' @ i)
     = u @ ''s/'' @ filter (\<lambda>c. c \<notin> {CHR 0x09, CHR 0x0A, CHR 0x0D}) i"
    using clean_page_url by blast
  then show ?thesis
    using reg [OF assms(1)] reg [OF assms(2)] by (intro sanitize_plain [OF id_pattern_plain id_pattern_plain, of i j]) simp_all
qed

theorem logged_url_hides_page_witness:
  "\<exists>url url'. fst (register_dashboard_page_with_metadata None 0 ''a1'' ''<p>'' 900 None []) = Inr url
    \<and> fst (register_dashboard_page_with_metadata None 0 ''b2'' ''<p>'' 900 None []) = Inr url'
    \<and> sanitize_dashboard_url (\<lambda>_. True) url = sanitize_dashboard_url (\<lambda>_. True) url' \<and> url \<noteq> url'"
proof -
  obtain p1 p2 where r: "register_dashboard_page_with_metadata None 0 ''a1'' ''<p>'' 900 None []
      = (Inr ''http://localhost:8080/diagnostics/dashboards/a1'', p1)"
    "register_dashboard_page_with_metadata None 0 ''b2'' ''<p>'' 900 None []
      = (Inr ''http://localhost:8080/diagnostics/dashboards/b2'', p2)"
    by (simp add: register_dashboard_page_with_metadata_def validate_request_id_def id_pattern_def id_char_def validate_html_def
        validate_ttl_seconds_def max_ttl_seconds_def public_base_url_def bind_res_def Let_def py_def)
  from logged_url_hides_page [OF r] r show ?thesis by auto
qed

text \<open>
  The line names the request, whose identifier is the page's: the address can be read off it although
  the address itself is sanitized.
\<close>

lemma log_line_names_page:
  "sublist request_id (dashboard_log_line host_ok request_id tool n url)"
  unfolding dashboard_log_line_def by (intro sublist_appendI)

lemma example_sanitized:
  "sanitize_dashboard_url (\<lambda>_. True) ''HTTP://localhost:8080/diagnostics/dashboards/a1?x=1''
     = ''http://localhost:8080/diagnostics/dashboards/<request-id>''"
  by code_simp

end
