(* ===== verification/Traceability_Matrix.thy ===== *)
theory Traceability_Matrix
  imports Py_Values "HOL-Library.Multiset"
begin

text \<open>
  \<open>scripts/generate-traceability-matrix.py\<close>: the table of requirements and the pull requests that
  mention them.  The two answers of the GitHub API are an argument; a missing or empty field of an
  answer is \<open>None\<close> or the empty text.
\<close>

section \<open>What the script reads\<close>

record pull_request =
  pr_number :: int
  pr_body :: "string option"

record issue =
  is_number :: int
  is_title :: "string option"
  is_state :: "string option"
  is_pull_request :: bool

record requirement_row =
  req_id :: string
  req_title :: string
  req_state :: string
  linked_prs :: string

datatype api_error = Http_Status int | Http_Error string

record github =
  gh_issues :: "string \<Rightarrow> string \<Rightarrow> api_error + issue list"
  gh_pulls :: "string \<Rightarrow> string \<Rightarrow> api_error + pull_request list"

text \<open>\<open>re.findall(r"#(\d+)", text)\<close>.\<close>

function extract_refs :: "string \<Rightarrow> int list" where
  "extract_refs [] = []"
| "extract_refs (c # cs) =
     (if c = CHR ''#'' \<and> takeWhile is_dec cs \<noteq> []
      then int (digits_val (takeWhile is_dec cs)) # extract_refs (dropWhile is_dec cs)
      else extract_refs cs)"
  by pat_completeness auto

termination
  by (relation "measure length") (auto simp: le_imp_less_Suc length_dropWhile_le)

text \<open>\<open>re.search(r"\[(REQ-[^\]]+)\]", title)\<close>, its group.\<close>

fun search_req_id :: "string \<Rightarrow> string option" where
  "search_req_id [] = None"
| "search_req_id (c # cs) =
     (let body = takeWhile (\<lambda>x. x \<noteq> CHR '']'') (drop 4 cs) in
      if c = CHR ''['' \<and> prefix ''REQ-'' cs \<and> body \<noteq> [] \<and> length body < length (drop 4 cs)
      then Some (''REQ-'' @ body) else search_req_id cs)"

section \<open>The table\<close>

definition add_ref :: "int \<Rightarrow> int \<Rightarrow> (int \<times> int list) list \<Rightarrow> (int \<times> int list) list" where
  "add_ref n ref d = (case map_of d ref of None \<Rightarrow> d @ [(ref, [n])]
     | Some ns \<Rightarrow> map (\<lambda>(k, v). if k = ref then (k, v @ [n]) else (k, v)) d)"

definition req_to_prs :: "pull_request list \<Rightarrow> (int \<times> int list) list" where
  "req_to_prs prs = fold (\<lambda>pr. fold (add_ref (pr_number pr))
     (extract_refs (case pr_body pr of None \<Rightarrow> [] | Some b \<Rightarrow> b))) prs []"

definition pr_link :: "int \<Rightarrow> string" where
  "pr_link n = CHR ''#'' # int_str n"

definition linked_text :: "int list \<Rightarrow> string" where
  "linked_text ns = (if ns \<noteq> [] then join_with '', '' (map pr_link (sort (remdups ns))) else ''None'')"

definition prs_for :: "pull_request list \<Rightarrow> int \<Rightarrow> int list" where
  "prs_for prs k = (case map_of (req_to_prs prs) k of None \<Rightarrow> [] | Some ns \<Rightarrow> ns)"

definition requirement_of :: "pull_request list \<Rightarrow> issue \<Rightarrow> requirement_row" where
  "requirement_of prs i =
     (let title = (case is_title i of None \<Rightarrow> [] | Some t \<Rightarrow> t) in
      \<lparr>req_id = (case search_req_id title of None \<Rightarrow> pr_link (is_number i) | Some r \<Rightarrow> r), req_title = title,
       req_state = (case is_state i of None \<Rightarrow> ''unknown'' | Some s \<Rightarrow> s),
       linked_prs = linked_text (prs_for prs (is_number i))\<rparr>)"

definition matrix_rows :: "issue list \<Rightarrow> pull_request list \<Rightarrow> requirement_row list" where
  "matrix_rows issues prs =
     sort_key req_id (map (requirement_of prs) (filter (\<lambda>i. \<not> is_pull_request i) issues))"

definition safe_title :: "string \<Rightarrow> string" where
  "safe_title t = concat (map (\<lambda>c. if c = CHR ''|'' then [CHR 0x5C, CHR ''|''] else [c]) t)"

definition row_line :: "requirement_row \<Rightarrow> string" where
  "row_line r = ''| '' @ req_id r @ '' | '' @ safe_title (req_title r) @ '' | '' @ req_state r @ '' | ''
     @ linked_prs r @ '' |''"

text \<open>The printed lines; \<open>print\<close> of a text with a line feed gives two.\<close>

definition matrix_lines :: "requirement_row list \<Rightarrow> string list" where
  "matrix_lines rows =
     [''# Requirements Traceability Matrix'', [], ''| Req ID | Title | State | Implemented By |'', ''|---|---|---|---|'']
     @ map row_line rows
     @ [[], ''Total requirements: '' @ nat_str (length rows),
        ''Requirements with PR links: '' @ nat_str (length (filter (\<lambda>r. linked_prs r \<noteq> ''None'') rows))]"

text \<open>\<open>repo.split("/", 1)\<close>, unpacked to two names.\<close>

definition split_repo :: "string \<Rightarrow> (string \<times> string) result" where
  "split_repo repo = (if CHR ''/'' \<in> set repo
     then Inr (takeWhile (\<lambda>c. c \<noteq> CHR ''/'') repo, tl (dropWhile (\<lambda>c. c \<noteq> CHR ''/'') repo))
     else Inl (value_error ''not enough values to unpack (expected 2, got 1)''))"

definition api_failure :: "api_error \<Rightarrow> string" where
  "api_failure e = (case e of Http_Status n \<Rightarrow> ''ERROR: GitHub API request failed ('' @ int_str n @ '')''
     | Http_Error msg \<Rightarrow> ''ERROR: GitHub API request failed ('' @ msg @ '')'')"

definition matrix_run :: "github \<Rightarrow> string \<Rightarrow> string \<Rightarrow> int \<times> string list \<times> string list" where
  "matrix_run gh base token =
     (case gh_issues gh (base @ ''/issues?state=all&labels=requirement&per_page=100'') token of
        Inl e \<Rightarrow> (1, [], [api_failure e])
      | Inr issues \<Rightarrow>
          (case gh_pulls gh (base @ ''/pulls?state=all&per_page=100'') token of
             Inl e \<Rightarrow> (1, [], [api_failure e])
           | Inr prs \<Rightarrow> (0, matrix_lines (matrix_rows issues prs), [])))"

text \<open>\<open>main\<close>: the exit code, the lines of the standard output and those of the standard error.\<close>

definition matrix_main :: "string dict \<Rightarrow> github \<Rightarrow> (int \<times> string list \<times> string list) result" where
  "matrix_main environ gh =
     (let token = dict_get environ ''GITHUB_TOKEN'' []; repo = dict_get environ ''GITHUB_REPOSITORY'' [] in
      if token = [] \<or> repo = []
      then Inr (1, [], [''ERROR: GITHUB_TOKEN and GITHUB_REPOSITORY are required''])
      else bind_res (split_repo repo) (\<lambda>(owner, name).
        Inr (matrix_run gh (''/repos/'' @ owner @ ''/'' @ name) token)))"

section \<open>Which pull requests are linked\<close>

text \<open>A text mentions a number: a hash sign and the number's digits, up to a character that is none.\<close>

definition mentions :: "string \<Rightarrow> int \<Rightarrow> bool" where
  "mentions tx n \<longleftrightarrow> (\<exists>pre ds post. tx = pre @ CHR ''#'' # ds @ post \<and> ds \<noteq> [] \<and> (\<forall>c \<in> set ds. is_dec c)
     \<and> (\<forall>c rest. post = c # rest \<longrightarrow> \<not> is_dec c) \<and> n = int (digits_val ds))"

lemma mentions_Nil: "\<not> mentions [] n"
  by (simp add: mentions_def)

lemma takeWhile_digits:
  "\<forall>c \<in> set ds. P c \<Longrightarrow> (\<forall>c rest. post = c # rest \<longrightarrow> \<not> P c) \<Longrightarrow> takeWhile P (ds @ post) = ds"
  by (cases post) (auto simp: takeWhile_append)

lemma mentions_Cons:
  "mentions (c # cs) n \<longleftrightarrow> (c = CHR ''#'' \<and> takeWhile is_dec cs \<noteq> [] \<and> n = int (digits_val (takeWhile is_dec cs)))
     \<or> mentions cs n" (is "?L \<longleftrightarrow> ?R")
proof
  assume ?L
  then obtain pre ds post where m: "c # cs = pre @ CHR ''#'' # ds @ post" "ds \<noteq> []" "\<forall>c \<in> set ds. is_dec c"
    "\<forall>c rest. post = c # rest \<longrightarrow> \<not> is_dec c" "n = int (digits_val ds)"
    unfolding mentions_def by blast
  show ?R
  proof (cases pre)
    case Nil
    with m takeWhile_digits [OF m(3,4)] show ?thesis by simp
  next
    case (Cons a pre')
    then have "cs = pre' @ CHR ''#'' # ds @ post" using m(1) by simp
    then show ?thesis using m(2-5) unfolding mentions_def by blast
  qed
next
  assume ?R
  then show ?L
  proof
    assume h: "c = CHR ''#'' \<and> takeWhile is_dec cs \<noteq> [] \<and> n = int (digits_val (takeWhile is_dec cs))"
    have "c # cs = [] @ CHR ''#'' # takeWhile is_dec cs @ dropWhile is_dec cs" using h by simp
    moreover have "\<forall>x \<in> set (takeWhile is_dec cs). is_dec x" by (auto dest: set_takeWhileD)
    moreover have "\<forall>x rest. dropWhile is_dec cs = x # rest \<longrightarrow> \<not> is_dec x"
      by (metis dropWhile_eq_Cons_conv)
    ultimately show ?L using h unfolding mentions_def by blast
  next
    assume "mentions cs n"
    then obtain pre ds post where "cs = pre @ CHR ''#'' # ds @ post" "ds \<noteq> []" "\<forall>c \<in> set ds. is_dec c"
      "\<forall>c rest. post = c # rest \<longrightarrow> \<not> is_dec c" "n = int (digits_val ds)"
      unfolding mentions_def by blast
    moreover from this(1) have "c # cs = (c # pre) @ CHR ''#'' # ds @ post" by simp
    ultimately show ?L unfolding mentions_def by blast
  qed
qed

lemma mentions_digits:
  assumes "\<forall>c \<in> set ds. is_dec c"
  shows "mentions (ds @ post) n \<longleftrightarrow> mentions post n"
  using assms by (induction ds) (auto simp: mentions_Cons is_dec_def)

lemma extract_refs_mentions: "n \<in> set (extract_refs tx) \<longleftrightarrow> mentions tx n"
proof (induction tx rule: extract_refs.induct)
  case (2 c cs)
  show ?case
  proof (cases "c = CHR ''#'' \<and> takeWhile is_dec cs \<noteq> []")
    case True
    have "mentions (takeWhile is_dec cs @ dropWhile is_dec cs) n \<longleftrightarrow> mentions (dropWhile is_dec cs) n"
      by (rule mentions_digits) (auto dest: set_takeWhileD)
    then have "mentions (dropWhile is_dec cs) n \<longleftrightarrow> mentions cs n" by simp
    then show ?thesis using 2(1) [OF True] True by (auto simp: mentions_Cons)
  next
    case False
    then show ?thesis using 2(2) [OF False] by (auto simp: mentions_Cons)
  qed
qed (simp add: mentions_Nil)

text \<open>The dictionary collects, for every number, the requests that mention it.\<close>

lemma add_ref_lookup:
  "map_of (add_ref n ref d) k = (if k = ref
     then Some ((case map_of d ref of None \<Rightarrow> [] | Some ns \<Rightarrow> ns) @ [n]) else map_of d k)"
proof -
  have "map_of (map (\<lambda>(k, v). if k = ref then (k, v @ [n]) else (k, v)) d) k
      = map_option (\<lambda>v. if k = ref then v @ [n] else v) (map_of d k)"
    by (induction d) auto
  then show ?thesis by (auto simp: add_ref_def map_add_def split: option.splits)
qed

definition refs_in :: "(int \<times> int list) list \<Rightarrow> int \<Rightarrow> int list" where
  "refs_in d k = (case map_of d k of None \<Rightarrow> [] | Some ns \<Rightarrow> ns)"

lemma refs_in_add: "set (refs_in (add_ref n ref d) k) = set (refs_in d k) \<union> (if k = ref then {n} else {})"
  by (auto simp: refs_in_def add_ref_lookup split: option.splits)

lemma refs_in_refs: "set (refs_in (fold (add_ref n) refs d) k) = set (refs_in d k) \<union> (if k \<in> set refs then {n} else {})"
  by (induction refs arbitrary: d) (auto simp: refs_in_add)

definition body_of :: "pull_request \<Rightarrow> string" where
  "body_of pr = (case pr_body pr of None \<Rightarrow> [] | Some b \<Rightarrow> b)"

lemma refs_in_prs:
  "set (refs_in (fold (\<lambda>pr. fold (add_ref (pr_number pr)) (extract_refs (body_of pr))) prs d) k)
   = set (refs_in d k) \<union> pr_number ` {pr \<in> set prs. mentions (body_of pr) k}"
proof (induction prs arbitrary: d)
  case (Cons pr prs)
  then show ?case by (auto simp: refs_in_refs extract_refs_mentions)
qed simp

lemma prs_for_mentions: "set (prs_for prs k) = pr_number ` {pr \<in> set prs. mentions (body_of pr) k}"
  using refs_in_prs [of prs "[]" k]
  by (simp add: prs_for_def req_to_prs_def refs_in_def body_of_def)

lemma links_not_none: "ns \<noteq> [] \<Longrightarrow> join_with sep (map pr_link ns) \<noteq> ''None''"
proof (cases ns)
  case (Cons a l)
  then show ?thesis by (cases l) (simp_all add: pr_link_def)
qed simp

lemma matrix_run_ok:
  assumes "matrix_run gh path token = (0, out, err)"
  shows "\<exists>issues prs. gh_issues gh (path @ ''/issues?state=all&labels=requirement&per_page=100'') token = Inr issues
    \<and> gh_pulls gh (path @ ''/pulls?state=all&per_page=100'') token = Inr prs
    \<and> out = matrix_lines (matrix_rows issues prs) \<and> err = []"
  using assms by (auto simp: matrix_run_def split: sum.splits)

text \<open>
  A successful run prints one line for every issue that is no pull request and no other line,
  ordered by requirement; the line links exactly the pull requests whose description mentions the
  issue's number, each once and in ascending order; and the last line counts the linked ones.
\<close>

theorem matrix_exact:
  assumes "matrix_main environ gh = Inr (0, out, err)"
  shows "\<exists>path token issues prs rows.
      gh_issues gh (path @ ''/issues?state=all&labels=requirement&per_page=100'') token = Inr issues
    \<and> gh_pulls gh (path @ ''/pulls?state=all&per_page=100'') token = Inr prs
    \<and> out = matrix_lines rows \<and> err = []
    \<and> mset rows = image_mset (requirement_of prs) {#i \<in># mset issues. \<not> is_pull_request i#}
    \<and> sorted (map req_id rows)
    \<and> (\<forall>i. \<exists>ns. linked_prs (requirement_of prs i) = (if ns = [] then ''None'' else join_with '', '' (map pr_link ns))
         \<and> sorted ns \<and> distinct ns
         \<and> set ns = pr_number ` {pr \<in> set prs. mentions (body_of pr) (is_number i)}
         \<and> (linked_prs (requirement_of prs i) \<noteq> ''None'' \<longleftrightarrow> ns \<noteq> []))"
proof -
  obtain path token where run: "matrix_run gh path token = (0, out, err)"
    using assms by (auto simp: matrix_main_def Let_def bind_res_Inr split: if_splits)
  obtain issues prs where
    io: "gh_issues gh (path @ ''/issues?state=all&labels=requirement&per_page=100'') token = Inr issues"
      "gh_pulls gh (path @ ''/pulls?state=all&per_page=100'') token = Inr prs"
      "out = matrix_lines (matrix_rows issues prs)" "err = []"
    using matrix_run_ok [OF run] by blast
  have "mset (matrix_rows issues prs) = image_mset (requirement_of prs) {#i \<in># mset issues. \<not> is_pull_request i#}"
    "sorted (map req_id (matrix_rows issues prs))"
    by (simp_all add: matrix_rows_def)
  moreover have "\<exists>ns. linked_prs (requirement_of prs i) = (if ns = [] then ''None'' else join_with '', '' (map pr_link ns))
         \<and> sorted ns \<and> distinct ns
         \<and> set ns = pr_number ` {pr \<in> set prs. mentions (body_of pr) (is_number i)}
         \<and> (linked_prs (requirement_of prs i) \<noteq> ''None'' \<longleftrightarrow> ns \<noteq> [])" for i
  proof (intro exI conjI)
    let ?ns = "sort (remdups (prs_for prs (is_number i)))"
    have ne: "?ns = [] \<longleftrightarrow> prs_for prs (is_number i) = []" by (metis set_empty set_sort set_remdups)
    show lk: "linked_prs (requirement_of prs i) = (if ?ns = [] then ''None'' else join_with '', '' (map pr_link ?ns))"
      by (simp add: requirement_of_def Let_def linked_text_def ne)
    show "sorted ?ns" "distinct ?ns" by simp_all
    show "set ?ns = pr_number ` {pr \<in> set prs. mentions (body_of pr) (is_number i)}" by (simp add: prs_for_mentions)
    show "linked_prs (requirement_of prs i) \<noteq> ''None'' \<longleftrightarrow> ?ns \<noteq> []"
      unfolding lk using links_not_none by auto
  qed
  ultimately show ?thesis using io by blast
qed

definition example_github :: github where
  "example_github = \<lparr>gh_issues = (\<lambda>_ _. Inr [\<lparr>is_number = 7, is_title = Some ''[REQ-1] a|b'', is_state = Some ''open'',
       is_pull_request = False\<rparr>]),
     gh_pulls = (\<lambda>_ _. Inr [\<lparr>pr_number = 9, pr_body = Some ''see #7 and #70''\<rparr>])\<rparr>"

lemma example_matrix:
  "matrix_main [(''GITHUB_TOKEN'', ''t''), (''GITHUB_REPOSITORY'', ''o/r'')] example_github
   = Inr (0, [''# Requirements Traceability Matrix'', [], ''| Req ID | Title | State | Implemented By |'', ''|---|---|---|---|'',
       ''| REQ-1 | [REQ-1] a'' @ [CHR 0x5C] @ ''|b | open | #9 |'', [], ''Total requirements: 1'', ''Requirements with PR links: 1''], [])"
  by code_simp

theorem matrix_exact_witness:
  "\<exists>rows. mset rows = {#requirement_of [\<lparr>pr_number = 9, pr_body = Some ''see #7 and #70''\<rparr>]
      \<lparr>is_number = 7, is_title = Some ''[REQ-1] a|b'', is_state = Some ''open'', is_pull_request = False\<rparr>#}
    \<and> sorted (map req_id rows)"
proof -
  obtain path token issues prs rows where
    "gh_issues example_github (path @ ''/issues?state=all&labels=requirement&per_page=100'') token = Inr issues"
    "gh_pulls example_github (path @ ''/pulls?state=all&per_page=100'') token = Inr prs"
    "mset rows = image_mset (requirement_of prs) {#i \<in># mset issues. \<not> is_pull_request i#}" "sorted (map req_id rows)"
    using matrix_exact [OF example_matrix] by (elim exE conjE) (rule that)
  then show ?thesis by (intro exI [of _ rows]) (auto simp: example_github_def)
qed

end
