(* ===== verification/Concurrent_Calls.thy ===== *)
theory Concurrent_Calls
  imports Tool_Safety
begin

text \<open>
  Tool calls in flight together.  The handlers of \<open>src/tools/sql_tools.py\<close> are coroutines on one event
  loop: a call runs without interruption up to its next \<open>await\<close>, where it hands a message to the MCP
  client, and other calls run before it is resumed.  Here a handler is a \<open>segment\<close>, which runs up to
  the next \<open>await\<close>, and the server interleaves the segments of all calls.

  At an \<open>await\<close> three things can happen: the message is sent and the call is resumed; sending raises
  an exception; the call is cancelled (by the client's \<open>notifications/cancelled\<close> or the tool's
  timeout), which raises \<open>asyncio.CancelledError\<close>.  That is no \<open>Exception\<close>, so no \<open>except\<close> clause of
  a handler catches it, and only the \<open>finally\<close> clause runs.  \<open>_resolve_actor_and_authorize\<close> awaits only
  where authentication is enforced, and assigns nothing in its caller until it returns.
\<close>

section \<open>Handlers as segments\<close>

datatype 'a task = Returned "'a result" | Awaiting "tool_run \<Rightarrow> tool_run \<times> 'a task"

type_synonym 'a segment = "tool_run \<Rightarrow> tool_run \<times> 'a task"

definition seg_return :: "'a result \<Rightarrow> 'a segment" where
  "seg_return r t = (t, Returned r)"

definition seg_await :: "'a segment \<Rightarrow> 'a segment" where
  "seg_await k t = (t, Awaiting k)"

definition seg_op :: "'a tool_op \<Rightarrow> ('a \<Rightarrow> 'b segment) \<Rightarrow> 'b segment" where
  "seg_op m k t = (case m t of (t', Inl e) \<Rightarrow> (t', Returned (Inl e)) | (t', Inr x) \<Rightarrow> k x t')"

text \<open>\<open>actor, _auth_ctx = await _resolve_actor_and_authorize(...)\<close>\<close>

definition seg_authorize :: "server_config \<Rightarrow> call_context \<Rightarrow> string \<Rightarrow> 'a segment \<Rightarrow> 'a segment" where
  "seg_authorize cfg cc privilege k t =
     (case resolve_actor_and_authorize (sc_auth cfg) (cc_token cc) (run_actor t) privilege of
        Inl e \<Rightarrow> (t, Returned (Inl e))
      | Inr (actor, ctx) \<Rightarrow>
          let assigned = (\<lambda>t. k (t\<lparr>run_actor := actor, run_auth := Some ctx\<rparr>))
          in if auth_enforced (sc_auth cfg) then seg_await assigned t else assigned t)"

text \<open>
  All handlers but \<open>_run_read_tool\<close>: a message, authorization, then session, rate limit and the rest
  in one segment, a message, the answer.
\<close>

definition call_segments :: "server_config \<Rightarrow> call_context \<Rightarrow> string \<Rightarrow> 'a tool_op \<Rightarrow> 'a segment" where
  "call_segments cfg cc privilege rest =
     seg_authorize cfg cc privilege
       (seg_op (step_touch cc) (\<lambda>_. seg_op (step_rate cc) (\<lambda>_. seg_op rest (\<lambda>reply.
          seg_await (seg_return (Inr reply))))))"

definition select_segments ::
  "server_config \<Rightarrow> database \<Rightarrow> call_context \<Rightarrow> string \<Rightarrow> string \<Rightarrow> string \<Rightarrow> string \<Rightarrow> row segment" where
  "select_segments cfg db cc tool inst sql database_name =
     seg_await (call_segments cfg cc ''read'' (select_rest cfg db tool inst sql database_name))"

definition exec_proc_segments ::
  "server_config \<Rightarrow> database \<Rightarrow> call_context \<Rightarrow> string \<Rightarrow> string \<Rightarrow> string \<Rightarrow> pyval list \<Rightarrow> string
     \<Rightarrow> row segment" where
  "exec_proc_segments cfg db cc tool inst proc_name params database_name =
     seg_await (call_segments cfg cc ''write'' (exec_proc_rest cfg db tool inst proc_name params database_name))"

definition ping_segments ::
  "server_config \<Rightarrow> database \<Rightarrow> call_context \<Rightarrow> string \<Rightarrow> int \<Rightarrow> row segment" where
  "ping_segments cfg db cc inst instance_number =
     seg_await (call_segments cfg cc ''read'' (ping_rest cfg db inst instance_number))"

definition list_tools_segments ::
  "string list \<Rightarrow> server_config \<Rightarrow> database \<Rightarrow> call_context \<Rightarrow> string \<Rightarrow> int \<Rightarrow> row segment" where
  "list_tools_segments registered_tools cfg db cc inst instance_number =
     seg_await (call_segments cfg cc ''read'' (list_tools_rest registered_tools cfg db inst instance_number))"

definition list_object_segments ::
  "server_config \<Rightarrow> database \<Rightarrow> call_context \<Rightarrow> string \<Rightarrow> int \<Rightarrow> string \<Rightarrow> string \<Rightarrow> row segment" where
  "list_object_segments cfg db cc inst instance_number database_name object_type =
     seg_await (call_segments cfg cc ''read''
       (list_object_rest cfg db cc inst instance_number database_name object_type))"

definition execute_query_segments ::
  "(string \<Rightarrow> bool) \<Rightarrow> server_config \<Rightarrow> database \<Rightarrow> call_context \<Rightarrow> string \<Rightarrow> string \<Rightarrow> int
     \<Rightarrow> string \<Rightarrow> string \<Rightarrow> string \<Rightarrow> row segment" where
  "execute_query_segments float_text cfg db cc tool inst instance_number database_name sql view_mode =
     seg_await (seg_op (tool_return (validate_view_mode view_mode)) (\<lambda>normalized.
       call_segments cfg cc ''read''
         (execute_query_rest float_text cfg db cc tool inst instance_number database_name sql normalized)))"

text \<open>\<open>_run_read_tool\<close> awaits after the session, after the rate limit and after the write guard.\<close>

definition read_segments ::
  "server_config \<Rightarrow> database \<Rightarrow> call_context \<Rightarrow> string \<Rightarrow> string \<Rightarrow> string \<Rightarrow> int \<Rightarrow> string option
     \<Rightarrow> row segment" where
  "read_segments cfg db cc sql tool inst max_rows database_name =
     seg_await (seg_authorize cfg cc ''read'' (seg_op (step_touch cc) (\<lambda>_. seg_await
       (seg_op (step_rate cc) (\<lambda>_. seg_await
         (seg_op (tool_return (enforce (sc_guard cfg) tool sql)) (\<lambda>_. seg_await
           (seg_op (read_rows cfg db inst sql max_rows database_name) (\<lambda>result.
             seg_op (set_rows (length result)) (\<lambda>_. seg_await
               (seg_return (Inr ([(''instance'', VStr inst), (''tool'', VStr tool),
                 (''row_count'', VInt (int (length result))), (''rows'', rows_value result)]
                 @ (case database_name of
                      Some d \<Rightarrow> if d \<noteq> [] then [(''database_name'', VStr d)] else []
                    | None \<Rightarrow> []))))))))))))))"

section \<open>Calls in flight\<close>

text \<open>
  Where a call is suspended: in the \<open>try\<close> body, or in an \<open>except\<close> clause, whose message is being sent,
  with the error code and the exception raised (or the value returned) afterwards.
\<close>

datatype phase = Trying "row segment" | Excepting string "row result"

record in_flight =
  fl_request :: tool_request
  fl_caller :: string
  fl_cc :: call_context
  fl_tool :: string
  fl_instance :: string
  fl_sql :: string
  fl_errors :: "row on_error"
  fl_actor :: string
  fl_auth :: "auth_ctx option"
  fl_rows :: nat
  fl_phase :: phase

datatype wakeup = Resumed | Send_failed pyexc | Cancelled

text \<open>What a call does next: it is still in flight, it answers the client, or it ends without answer.\<close>

datatype outcome = Suspended in_flight | Answered "row result" | Abandoned

definition with_state :: "in_flight \<Rightarrow> server_state \<Rightarrow> tool_run" where
  "with_state c s = \<lparr>tr_state = s, run_actor = fl_actor c, run_auth = fl_auth c, run_rows = fl_rows c\<rparr>"

definition with_locals :: "in_flight \<Rightarrow> tool_run \<Rightarrow> phase \<Rightarrow> in_flight" where
  "with_locals c t ph = c\<lparr>fl_actor := run_actor t, fl_auth := run_auth t, fl_rows := run_rows t, fl_phase := ph\<rparr>"

text \<open>The \<open>finally\<close> clause.\<close>

definition finish_call :: "in_flight \<Rightarrow> string \<Rightarrow> string option \<Rightarrow> tool_run \<Rightarrow> server_state" where
  "finish_call c decision error_code t =
     finish (fl_cc c) (fl_tool c) (fl_instance c) (fl_sql c) decision error_code t"

text \<open>The start of an \<open>except\<close> clause, up to its message.\<close>

definition except_clause :: "in_flight \<Rightarrow> pyexc \<Rightarrow> tool_run \<Rightarrow> server_state \<times> outcome" where
  "except_clause c exc t =
     (let (counted, error_code, reply) = fl_errors c exc;
          s = tr_state t
      in (if counted then s\<lparr>ss_denied := ss_denied s + 1\<rparr> else s,
          Suspended (with_locals c t (Excepting error_code reply))))"

definition run_segment :: "in_flight \<Rightarrow> row segment \<Rightarrow> server_state \<Rightarrow> server_state \<times> outcome" where
  "run_segment c k s =
     (case k (with_state c s) of
        (t, Awaiting k') \<Rightarrow> (tr_state t, Suspended (with_locals c t (Trying k')))
      | (t, Returned (Inr x)) \<Rightarrow> (finish_call c ''allow'' None t, Answered (Inr x))
      | (t, Returned (Inl exc)) \<Rightarrow> except_clause c exc t)"

definition wake :: "wakeup \<Rightarrow> in_flight \<Rightarrow> server_state \<Rightarrow> server_state \<times> outcome" where
  "wake w c s =
     (case fl_phase c of
        Trying k \<Rightarrow> (case w of
            Resumed \<Rightarrow> run_segment c k s
          | Send_failed exc \<Rightarrow> except_clause c exc (with_state c s)
          | Cancelled \<Rightarrow> (finish_call c ''allow'' None (with_state c s), Abandoned))
      | Excepting error_code reply \<Rightarrow>
          (finish_call c ''deny'' (Some error_code) (with_state c s),
           case w of Resumed \<Rightarrow> Answered reply | Send_failed exc \<Rightarrow> Answered (Inl exc) | Cancelled \<Rightarrow> Abandoned))"

section \<open>Requests\<close>

text \<open>The coroutine of a request, before its first step.\<close>

definition new_call ::
  "tool_request \<Rightarrow> row on_error \<Rightarrow> call_context \<Rightarrow> tool_binding \<Rightarrow> string \<Rightarrow> string \<Rightarrow> row segment \<Rightarrow> in_flight" where
  "new_call req oe cc tb sql actor k =
     \<lparr>fl_request = req, fl_caller = actor, fl_cc = cc, fl_tool = tb_tool tb, fl_instance = tb_instance tb,
      fl_sql = sql, fl_errors = oe, fl_actor = actor, fl_auth = None, fl_rows = 0, fl_phase = Trying k\<rparr>"

definition request_segments ::
  "server_config \<Rightarrow> database \<Rightarrow> tool_binding \<Rightarrow> call_context \<Rightarrow> tool_request \<Rightarrow> row segment" where
  "request_segments cfg db tb cc req =
     (let tool = tb_tool tb; inst = tb_instance tb; nr = tb_number tb in
      case req of
        SelectReq sql d \<Rightarrow> select_segments cfg db cc tool inst sql d
      | ExecProcReq p ps d \<Rightarrow> exec_proc_segments cfg db cc tool inst p ps d
      | BlockReq d \<Rightarrow> read_segments cfg db cc block_report_sql tool inst 25 (or_none d)
      | TopQueriesReq n d \<Rightarrow>
          read_segments cfg db cc (top_queries_sql (max 1 (min n 100))) tool inst (max 1 (min n 100)) (or_none d)
      | ActiveSessionsReq n d \<Rightarrow>
          read_segments cfg db cc (active_sessions_sql (max 1 (min n 200))) tool inst (max 1 (min n 200)) (or_none d)
      | IndexHealthReq n d \<Rightarrow>
          read_segments cfg db cc (index_health_sql (max 1 (min n 200))) tool inst (max 1 (min n 200)) (or_none d)
      | PingReq \<Rightarrow> ping_segments cfg db cc inst nr
      | ListToolsReq \<Rightarrow> list_tools_segments (tb_registered tb) cfg db cc inst nr
      | ListObjectReq d ty \<Rightarrow> list_object_segments cfg db cc inst nr d ty
      | ExecuteQueryReq d sql vm \<Rightarrow> execute_query_segments (tb_float_text tb) cfg db cc tool inst nr d sql vm)"

text \<open>The statement of the audit event, and the handler's \<open>except\<close> clauses.\<close>

definition request_sql :: "tool_request \<Rightarrow> string" where
  "request_sql req = (case req of
       SelectReq sql d \<Rightarrow> sql
     | ExecProcReq p ps d \<Rightarrow> ''EXEC '' @ p
     | BlockReq d \<Rightarrow> block_report_sql
     | TopQueriesReq n d \<Rightarrow> top_queries_sql (max 1 (min n 100))
     | ActiveSessionsReq n d \<Rightarrow> active_sessions_sql (max 1 (min n 200))
     | IndexHealthReq n d \<Rightarrow> index_health_sql (max 1 (min n 200))
     | PingReq \<Rightarrow> ping_sql
     | ListToolsReq \<Rightarrow> list_tools_sql
     | ListObjectReq d ty \<Rightarrow> ''LIST_OBJECT database='' @ d @ '' type='' @ ty
     | ExecuteQueryReq d sql vm \<Rightarrow> sql)"

definition request_errors :: "tool_binding \<Rightarrow> call_context \<Rightarrow> tool_request \<Rightarrow> row on_error" where
  "request_errors tb cc req = (case req of
       PingReq \<Rightarrow> ping_errors cc (tb_number tb)
     | ListToolsReq \<Rightarrow> wrap_errors {}
     | ListObjectReq d ty \<Rightarrow> wrap_errors {ValueErr}
     | ExecuteQueryReq d sql vm \<Rightarrow> wrap_errors {ValueErr, PermissionErr}
     | _ \<Rightarrow> reraise_errors)"

definition request_call ::
  "server_config \<Rightarrow> database \<Rightarrow> tool_binding \<Rightarrow> call_context \<Rightarrow> string \<Rightarrow> tool_request \<Rightarrow> in_flight" where
  "request_call cfg db tb cc actor req =
     new_call req (request_errors tb cc req) cc tb (request_sql req) actor (request_segments cfg db tb cc req)"

section \<open>The event loop\<close>

record event_loop =
  el_server :: server_state
  el_calls :: "in_flight list"
  el_started :: nat

fun still_in_flight :: "outcome \<Rightarrow> in_flight list" where
  "still_in_flight (Suspended c) = [c]"
| "still_in_flight (Answered r) = []"
| "still_in_flight Abandoned = []"

text \<open>A call arrives and runs up to its first message; or a call in flight wakes up.\<close>

inductive loop_reach ::
  "server_config \<Rightarrow> database \<Rightarrow> session_manager \<Rightarrow> rate_limiter \<Rightarrow> event_loop \<Rightarrow> bool"
  for cfg db sm rl where
  loop_init: "loop_reach cfg db sm rl \<lparr>el_server = \<lparr>ss_sessions = sm, ss_rate = rl, ss_denied = 0,
     ss_history = [], ss_audit = [], ss_requests = []\<rparr>, el_calls = [], el_started = 0\<rparr>"
| loop_arrive: "loop_reach cfg db sm rl x \<Longrightarrow>
     wake Resumed (request_call cfg db tb cc actor req) (el_server x) = (s, out) \<Longrightarrow>
     loop_reach cfg db sm rl \<lparr>el_server = s, el_calls = el_calls x @ still_in_flight out,
       el_started = el_started x + 1\<rparr>"
| loop_wake: "loop_reach cfg db sm rl x \<Longrightarrow> el_calls x = cs @ c # ds \<Longrightarrow>
     wake w c (el_server x) = (s, out) \<Longrightarrow>
     loop_reach cfg db sm rl \<lparr>el_server = s, el_calls = cs @ still_in_flight out @ ds,
       el_started = el_started x\<rparr>"

section \<open>What every segment of a handler does\<close>

text \<open>
  \<open>every_segment R p t\<close>: each segment of the task \<open>p\<close>, suspended with the locals of \<open>t\<close>, is in the relation
  \<open>R\<close>, whatever the other calls did to the server in between.
\<close>

primrec every_segment :: "(tool_run \<Rightarrow> tool_run \<Rightarrow> bool) \<Rightarrow> 'a task \<Rightarrow> tool_run \<Rightarrow> bool" where
  "every_segment R (Returned r) = (\<lambda>t. True)"
| "every_segment R (Awaiting k) = (\<lambda>t. \<forall>s.
     R (t\<lparr>tr_state := s\<rparr>) (fst (k (t\<lparr>tr_state := s\<rparr>)))
     \<and> (case (map_prod id (every_segment R) \<circ> k) (t\<lparr>tr_state := s\<rparr>) of (t', safe) \<Rightarrow> safe t'))"

definition seg_ok :: "(tool_run \<Rightarrow> tool_run \<Rightarrow> bool) \<Rightarrow> 'a segment \<Rightarrow> tool_run \<Rightarrow> bool" where
  "seg_ok R k t \<longleftrightarrow> R t (fst (k t)) \<and> every_segment R (snd (k t)) (fst (k t))"

lemma every_segment_Awaiting: "every_segment R (Awaiting k) t \<longleftrightarrow> (\<forall>s. seg_ok R k (t\<lparr>tr_state := s\<rparr>))"
  by (simp add: seg_ok_def split_beta)

declare every_segment.simps(2) [simp del]

text \<open>What a relation has to satisfy to be judged segment by segment.\<close>

locale segment_relation =
  fixes R :: "tool_run \<Rightarrow> tool_run \<Rightarrow> bool"
  assumes refl: "R t t"
    and trans: "R t t' \<Longrightarrow> R t' t'' \<Longrightarrow> R t t''"
    and assign: "R t (t\<lparr>run_actor := a, run_auth := Some ctx\<rparr>)"
begin

lemma ok_answer: "seg_ok R (seg_return r) t"
  by (simp add: seg_ok_def seg_return_def refl)

lemma ok_await: "(\<And>s. seg_ok R k (t\<lparr>tr_state := s\<rparr>)) \<Longrightarrow> seg_ok R (seg_await k) t"
  by (simp add: seg_ok_def [of R "seg_await k"] seg_await_def refl every_segment_Awaiting)

lemma ok_op:
  assumes "R t (fst (m t))" "\<And>x t'. m t = (t', Inr x) \<Longrightarrow> seg_ok R (k x) t'"
  shows "seg_ok R (seg_op m k) t"
proof -
  obtain t' r where m: "m t = (t', r)" by force
  show ?thesis
  proof (cases r)
    case (Inl e)
    then show ?thesis using assms(1) m by (simp add: seg_ok_def seg_op_def)
  next
    case (Inr x)
    then have "seg_ok R (k x) t'" using assms(2) m by simp
    then show ?thesis using assms(1) m Inr by (auto simp: seg_ok_def seg_op_def intro: trans)
  qed
qed

lemma ok_assigned:
  "seg_ok R k (t\<lparr>run_actor := a, run_auth := Some ctx\<rparr>) \<Longrightarrow>
   seg_ok R (\<lambda>t. k (t\<lparr>run_actor := a, run_auth := Some ctx\<rparr>)) t"
  unfolding seg_ok_def using trans [OF assign] by blast

lemma ok_authorize:
  assumes "\<And>a ctx s. resolve_actor_and_authorize (sc_auth cfg) (cc_token cc) (run_actor t) p = Inr (a, ctx) \<Longrightarrow>
    seg_ok R k (t\<lparr>tr_state := s, run_actor := a, run_auth := Some ctx\<rparr>)"
  shows "seg_ok R (seg_authorize cfg cc p k) t"
proof (cases "resolve_actor_and_authorize (sc_auth cfg) (cc_token cc) (run_actor t) p")
  case (Inl e)
  then show ?thesis by (simp add: seg_ok_def seg_authorize_def refl)
next
  case (Inr actx)
  obtain a ctx where r: "actx = (a, ctx)" by force
  let ?k = "\<lambda>t. k (t\<lparr>run_actor := a, run_auth := Some ctx\<rparr>)"
  have ok: "seg_ok R ?k (t\<lparr>tr_state := s\<rparr>)" for s
    using assms [of a ctx s] Inr r by (intro ok_assigned) simp
  have "seg_authorize cfg cc p k t = (if auth_enforced (sc_auth cfg) then seg_await ?k t else ?k t)"
    using Inr r by (simp add: seg_authorize_def)
  moreover have "seg_ok R (seg_await ?k) t" using ok by (rule ok_await)
  moreover have "seg_ok R ?k t" using ok [of "tr_state t"] by simp
  ultimately show ?thesis by (simp add: seg_ok_def)
qed

lemma ok_call:
  assumes "\<And>t. R t (fst (step_touch cc t))" "\<And>t. R t (fst (step_rate cc t))"
    and "\<And>t' a. resolve_actor_and_authorize (sc_auth cfg) (cc_token cc) (run_actor t) p = Inr a \<Longrightarrow>
      R t' (fst (rest t'))"
  shows "seg_ok R (call_segments cfg cc p rest) t"
  unfolding call_segments_def
  by (rule ok_authorize, (rule ok_op, rule assms)+, assumption, rule ok_await, rule ok_answer)

lemma ok_read:
  assumes "\<And>t. R t (fst (step_touch cc t))" "\<And>t. R t (fst (step_rate cc t))"
    and "\<And>t' a. resolve_actor_and_authorize (sc_auth cfg) (cc_token cc) (run_actor t) ''read'' = Inr a \<Longrightarrow>
      R t' (fst (read_rows cfg db inst sql m d t'))"
    and "\<And>t n. R t (fst (set_rows n t))"
  shows "seg_ok R (read_segments cfg db cc sql tool inst m d) t"
  unfolding read_segments_def
  by (rule ok_await, rule ok_authorize)
    (assumption | rule ok_op ok_await ok_answer assms | simp add: tool_return_def refl)+

end

section \<open>Limits and audit over all interleavings\<close>

definition stable :: "int \<Rightarrow> int \<Rightarrow> int \<Rightarrow> tool_run \<Rightarrow> tool_run \<Rightarrow> bool" where
  "stable sl al gl t t' \<longleftrightarrow>
     (within_limits sl al gl (tr_state t) \<longrightarrow> within_limits sl al gl (tr_state t'))
     \<and> ss_audit (tr_state t') = ss_audit (tr_state t) \<and> ss_requests (tr_state t') = ss_requests (tr_state t)
     \<and> ss_denied (tr_state t') = ss_denied (tr_state t)"

interpretation limited: segment_relation "stable sl al gl" for sl al gl
  by unfold_locales (auto simp: stable_def)

lemma stable_op: "keeps (within_limits sl al gl) m \<Longrightarrow> quiet m \<Longrightarrow> stable sl al gl t (fst (m t))"
  unfolding stable_def keeps_def quiet_def by (metis prod.collapse)

lemma keeps_rests [keeps_ops]:
  "keeps (within_limits sl al gl) (read_rows cfg db inst sql m d')"
  "keeps (within_limits sl al gl) (select_rest cfg db tool inst sql d)"
  "keeps (within_limits sl al gl) (exec_proc_rest cfg db tool inst p ps d)"
  "keeps (within_limits sl al gl) (ping_rest cfg db inst nr)"
  "keeps (within_limits sl al gl) (list_tools_rest reg cfg db inst nr)"
  "keeps (within_limits sl al gl) (list_object_rest cfg db cc inst nr d ty)"
  "keeps (within_limits sl al gl) (execute_query_rest ft cfg db cc tool inst nr d sql vm)"
  unfolding read_rows_def select_rest_def exec_proc_rest_def ping_rest_def list_tools_rest_def
    list_object_rest_def execute_query_rest_def Let_def
  by (intro keeps_ops)+

lemma quiet_rests [quiet_ops]:
  "quiet (select_rest cfg db tool inst sql d)"
  "quiet (exec_proc_rest cfg db tool inst p ps d)"
  "quiet (ping_rest cfg db inst nr)"
  "quiet (list_tools_rest reg cfg db inst nr)"
  "quiet (list_object_rest cfg db cc inst nr d ty)"
  "quiet (execute_query_rest ft cfg db cc tool inst nr d sql vm)"
  unfolding select_rest_def exec_proc_rest_def ping_rest_def list_tools_rest_def
    list_object_rest_def execute_query_rest_def Let_def
  by (intro quiet_ops)+

lemmas segments_defs = select_segments_def exec_proc_segments_def ping_segments_def list_tools_segments_def
  list_object_segments_def execute_query_segments_def

lemma stable_request: "seg_ok (stable sl al gl) (request_segments cfg db tb cc req) t"
proof -
  have call: "seg_ok (stable sl al gl) (call_segments cfg cc p rest) t"
    if "keeps (within_limits sl al gl) rest" "quiet rest" for p and rest :: "row tool_op" and t
    by (rule limited.ok_call) (intro stable_op keeps_ops quiet_ops that)+
  have read: "seg_ok (stable sl al gl) (read_segments cfg db cc sql tool inst m d) t" for sql tool inst m d
    by (rule limited.ok_read) (intro stable_op keeps_ops quiet_ops)+
  show ?thesis
    unfolding request_segments_def Let_def
    by (cases req)
      (simp_all only: tool_request.simps segments_defs read,
        (rule limited.ok_await limited.ok_op call stable_op keeps_ops quiet_ops)+)
qed

definition call_ok :: "(tool_run \<Rightarrow> tool_run \<Rightarrow> bool) \<Rightarrow> in_flight \<Rightarrow> bool" where
  "call_ok R c \<longleftrightarrow> (case fl_phase c of Trying k \<Rightarrow> \<forall>s. seg_ok R k (with_state c s) | Excepting e r \<Rightarrow> True)"

definition excepting :: "in_flight \<Rightarrow> bool" where
  "excepting c \<longleftrightarrow> (case fl_phase c of Trying k \<Rightarrow> False | Excepting e r \<Rightarrow> True)"

lemma with_locals_simps [simp]:
  "with_state (with_locals c t ph) s = t\<lparr>tr_state := s\<rparr>" "fl_phase (with_locals c t ph) = ph"
  "fl_errors (with_locals c t ph) = fl_errors c" "fl_cc (with_locals c t ph) = fl_cc c"
  "fl_tool (with_locals c t ph) = fl_tool c" "fl_instance (with_locals c t ph) = fl_instance c"
  "fl_sql (with_locals c t ph) = fl_sql c" "fl_request (with_locals c t ph) = fl_request c"
  "fl_caller (with_locals c t ph) = fl_caller c" "tr_state (with_state c s) = s"
  by (simp_all add: with_state_def with_locals_def)

lemma call_ok_segment:
  "call_ok R c \<Longrightarrow> fl_phase c = Trying k \<Longrightarrow> k (with_state c s) = (t, p) \<Longrightarrow>
   R (with_state c s) t \<and> every_segment R p t"
  by (auto simp: call_ok_def seg_ok_def dest!: spec [of _ s])

lemma call_ok_suspended:
  "every_segment R (Awaiting k) t \<Longrightarrow> call_ok R (with_locals c t (Trying k))"
  "call_ok R (with_locals c t (Excepting e r))"
  by (simp_all add: call_ok_def every_segment_Awaiting)

lemma excepting_with_locals [simp]:
  "excepting (with_locals c t (Excepting e r))" "\<not> excepting (with_locals c t (Trying k))"
  by (simp_all add: excepting_def)

text \<open>
  One wake-up: the call stays in flight and writes nothing, or it ends and writes one audit event;
  it counts a denial only when it enters an \<open>except\<close> clause.
\<close>

definition call_step :: "in_flight \<Rightarrow> server_state \<Rightarrow> outcome \<Rightarrow> server_state \<Rightarrow> bool" where
  "call_step c s out s' \<longleftrightarrow>
     (case out of
        Suspended c' \<Rightarrow> ss_audit s' = ss_audit s \<and> ss_requests s' = ss_requests s \<and> \<not> excepting c
          \<and> ss_denied s' \<le> ss_denied s + (if excepting c' then 1 else 0)
      | _ \<Rightarrow> length (ss_audit s') = Suc (length (ss_audit s))
          \<and> length (ss_requests s') = Suc (length (ss_requests s)) \<and> ss_denied s' = ss_denied s)"

lemma finish_call_state [simp]:
  "length (ss_audit (finish_call c d e t)) = Suc (length (ss_audit (tr_state t)))"
  "length (ss_requests (finish_call c d e t)) = Suc (length (ss_requests (tr_state t)))"
  "ss_denied (finish_call c d e t) = ss_denied (tr_state t)"
  "ss_history (finish_call c d e t) = ss_history (tr_state t)"
  "within_limits sl al gl (finish_call c d e t) = within_limits sl al gl (tr_state t)"
  by (simp_all add: finish_call_def finish_def within_limits_def)

lemma except_clause_step:
  assumes "except_clause c exc t = (s', out)" "\<not> excepting c"
  shows "call_step c (tr_state t) out s'" "\<And>c'. out = Suspended c' \<Longrightarrow> call_ok R c'"
    "within_limits sl al gl (tr_state t) \<Longrightarrow> within_limits sl al gl s'"
  using assms
  by (auto simp: except_clause_def Let_def call_step_def call_ok_suspended within_limits_def
      split: prod.splits if_splits)

lemma run_segment_step:
  assumes ok: "call_ok (stable sl al gl) c" and k: "fl_phase c = Trying k"
    and run: "run_segment c k s = (s', out)"
  shows "call_step c s out s' \<and> (\<forall>c'. out = Suspended c' \<longrightarrow> call_ok (stable sl al gl) c')
    \<and> (within_limits sl al gl s \<longrightarrow> within_limits sl al gl s')"
proof -
  obtain t p where kt: "k (with_state c s) = (t, p)" by force
  have st: "stable sl al gl (with_state c s) t" "every_segment (stable sl al gl) p t"
    using call_ok_segment [OF ok k kt] by blast+
  have ne: "\<not> excepting c" using k by (simp add: excepting_def)
  show ?thesis
  proof (cases p)
    case (Awaiting k')
    then show ?thesis using run kt st ne
      by (auto simp: run_segment_def call_step_def excepting_def call_ok_suspended stable_def)
  next
    case (Returned r)
    show ?thesis
    proof (cases r)
      case (Inr x)
      then show ?thesis using run kt st ne Returned
        by (auto simp: run_segment_def call_step_def stable_def)
    next
      case (Inl exc)
      then have ex: "except_clause c exc t = (s', out)" using run kt Returned by (simp add: run_segment_def)
      show ?thesis
        using except_clause_step [OF ex ne] st(1) by (auto simp: call_step_def stable_def split: outcome.splits)
    qed
  qed
qed

lemma wake_step:
  assumes ok: "call_ok (stable sl al gl) c" and run: "wake w c s = (s', out)"
  shows "call_step c s out s' \<and> (\<forall>c'. out = Suspended c' \<longrightarrow> call_ok (stable sl al gl) c')
    \<and> (within_limits sl al gl s \<longrightarrow> within_limits sl al gl s')"
proof (cases "fl_phase c")
  case (Excepting e r)
  then show ?thesis using run
    by (cases w) (auto simp: wake_def call_step_def)
next
  case (Trying k)
  have ne: "\<not> excepting c" using Trying by (simp add: excepting_def)
  show ?thesis
  proof (cases w)
    case Resumed
    then show ?thesis using run Trying run_segment_step [OF ok Trying] by (simp add: wake_def)
  next
    case (Send_failed exc)
    then have ex: "except_clause c exc (with_state c s) = (s', out)" using run Trying by (simp add: wake_def)
    show ?thesis using except_clause_step [OF ex ne] by auto
  next
    case Cancelled
    then show ?thesis using run Trying by (auto simp: wake_def call_step_def)
  qed
qed

definition loop_ok :: "int \<Rightarrow> int \<Rightarrow> int \<Rightarrow> event_loop \<Rightarrow> bool" where
  "loop_ok sl al gl x \<longleftrightarrow>
     within_limits sl al gl (el_server x) \<and> (\<forall>c\<in>set (el_calls x). call_ok (stable sl al gl) c)
     \<and> length (ss_audit (el_server x)) + length (el_calls x) = el_started x
     \<and> length (ss_requests (el_server x)) = length (ss_audit (el_server x))
     \<and> ss_denied (el_server x) \<le> length (ss_audit (el_server x)) + length (filter excepting (el_calls x))"

lemma request_call_ok: "call_ok (stable sl al gl) (request_call cfg db tb cc actor req)"
  by (simp add: call_ok_def request_call_def new_call_def stable_request)

lemma request_call_trying [simp]: "\<not> excepting (request_call cfg db tb cc actor req)"
  by (simp add: excepting_def request_call_def new_call_def)

lemma loop_ok_step:
  assumes x: "within_limits sl al gl s" "\<forall>d\<in>set cs \<union> set ds. call_ok (stable sl al gl) d"
      "call_ok (stable sl al gl) c"
      "length (ss_audit s) + length cs + length ds + 1 = n"
      "length (ss_requests s) = length (ss_audit s)"
      "ss_denied s \<le> length (ss_audit s) + length (filter excepting (cs @ c # ds))"
    and run: "wake w c s = (s', out)"
  shows "loop_ok sl al gl \<lparr>el_server = s', el_calls = cs @ still_in_flight out @ ds, el_started = n\<rparr>"
  using wake_step [OF x(3) run] x
  by (cases out) (auto simp: loop_ok_def call_step_def split: if_splits)

lemma loop_reach_ok:
  assumes "loop_reach cfg db (session_manager_init ttl idle sl) (rate_limiter_init ar ab gr gb) x"
  shows "loop_ok sl (ar + ab) (gr + gb) x"
  using assms
proof (induction rule: loop_reach.induct)
  case loop_init
  show ?case
    by (simp add: loop_ok_def within_limits_def sm_wf_init)
      (simp add: session_manager_init_def rate_limiter_init_def sessions_of_def bucket_of_def dict_get_def
        actor_limit_def global_limit_def)
next
  case (loop_arrive x tb cc actor req s out)
  show ?case
    using loop_ok_step [where cs = "el_calls x" and ds = "[]", OF _ _ request_call_ok _ _ _ loop_arrive.hyps(2)]
      loop_arrive.IH
    by (auto simp: loop_ok_def)
next
  case (loop_wake x cs c ds w s out)
  show ?case
    using loop_wake.IH loop_wake.hyps(2)
    by (intro loop_ok_step [OF _ _ _ _ _ _ loop_wake.hyps(3)]) (auto simp: loop_ok_def)
qed

text \<open>
  C5: whatever calls of the ten tools of \<open>serve\<close> are in flight together (the event loop here has no
  calls of the analysis tools, of \<open>latency_report\<close> or of the dashboard app's data endpoint), in
  whatever order they are resumed, fail to reach their client or are cancelled, and whatever the
  clock readings and the answers of the database: no actor has more registered sessions than the
  limit and no more rate-limiter entries than its quota, the global deque stays within the global
  quota, every one of these calls that was started is either still in flight or has written one
  audit event and one metrics entry, and every counted denial belongs to one of them.
\<close>

theorem interleaved_calls_within_limits:
  assumes "loop_reach cfg db (session_manager_init ttl idle sl) (rate_limiter_init ar ab gr gb) x"
  shows "int (length (sessions_of a (ss_sessions (el_server x)))) \<le> max 0 sl
    \<and> int (length (bucket_of a (ss_rate (el_server x)))) \<le> max 0 (ar + ab)
    \<and> int (length (rl_global_events (ss_rate (el_server x)))) \<le> max 0 (gr + gb)
    \<and> length (ss_audit (el_server x)) + length (el_calls x) = el_started x
    \<and> length (ss_requests (el_server x)) = length (ss_audit (el_server x))
    \<and> ss_denied (el_server x) \<le> length (ss_audit (el_server x)) + length (filter excepting (el_calls x))"
  using loop_reach_ok [OF assms] unfolding loop_ok_def within_limits_def by blast

section \<open>Who uses the database\<close>

definition uses_db_if :: "bool \<Rightarrow> tool_run \<Rightarrow> tool_run \<Rightarrow> bool" where
  "uses_db_if B t t' \<longleftrightarrow> (sent t' \<noteq> sent t \<longrightarrow> B)"

interpretation gated: segment_relation "uses_db_if B" for B
  by unfold_locales (auto simp: uses_db_if_def sent_def)

lemma uses_db_silent: "silent m \<Longrightarrow> uses_db_if B t (fst (m t))"
  by (simp add: uses_db_if_def silent_def)

lemma gated_steps [simp]:
  "uses_db_if B t (fst (step_touch cc t))" "uses_db_if B t (fst (step_rate cc t))"
  "uses_db_if B t (fst (set_rows n t))"
  by (rule uses_db_silent, rule silent_ops)+

lemma uses_db_ifI: "B \<Longrightarrow> uses_db_if B t t'"
  by (simp add: uses_db_if_def)

lemma rest_used:
  "sent (fst (select_rest cfg db tool inst sql d t)) \<noteq> sent t \<Longrightarrow> is_ok (enforce (sc_guard cfg) tool sql)"
  "sent (fst (execute_query_rest ft cfg db cc tool inst nr d sql vm t)) \<noteq> sent t \<Longrightarrow>
   is_ok (enforce (sc_guard cfg) tool sql)"
  "sent (fst (exec_proc_rest cfg db tool inst p ps d t)) \<noteq> sent t \<Longrightarrow>
   is_ok (validate_procedure (sc_guard cfg) tool p) \<and> is_ok (enforce (sc_guard cfg) tool ''EXEC __policy_probe__'')"
  unfolding select_rest_def execute_query_rest_def exec_proc_rest_def
  by (drule used_return, force) (drule used_return, force, drule used_return, elim exE conjE,
    drule used_return, force)

text \<open>The caller was authorized for the tool, and the guard accepts what the caller wrote.\<close>

definition cleared :: "server_config \<Rightarrow> row option \<Rightarrow> string \<Rightarrow> string \<Rightarrow> tool_request \<Rightarrow> bool" where
  "cleared cfg token actor tool req \<longleftrightarrow>
     is_ok (resolve_actor_and_authorize (sc_auth cfg) token actor (required_privilege req))
     \<and> guard_passes cfg tool req"

lemma gated_request:
  assumes "run_actor t = actor"
  shows "seg_ok (uses_db_if (cleared cfg (cc_token cc) actor (tb_tool tb) req))
    (request_segments cfg db tb cc req) t"
proof -
  let ?may = "\<lambda>p. is_ok (resolve_actor_and_authorize (sc_auth cfg) (cc_token cc) actor p)"
  have call: "seg_ok (uses_db_if B) (call_segments cfg cc p rest) t"
    if "run_actor t = actor" "\<And>t. ?may p \<Longrightarrow> uses_db_if B t (fst (rest t))"
    for B p and rest :: "row tool_op" and t
    by (rule gated.ok_call) (use that in auto)
  have read: "seg_ok (uses_db_if B) (read_segments cfg db cc sql tool inst m d) t" if "?may ''read'' \<Longrightarrow> B"
    for B sql tool inst m d
    by (rule gated.ok_read) (use that assms in \<open>auto intro: uses_db_ifI\<close>)
  show ?thesis
  proof (cases req)
    case (SelectReq sql d)
    then show ?thesis
      by (auto simp: request_segments_def segments_defs uses_db_if_def cleared_def required_privilege_def
          guard_passes_def assms intro!: gated.ok_await call dest: rest_used)
  next
    case (ExecProcReq p ps d)
    then show ?thesis
      by (auto simp: request_segments_def segments_defs uses_db_if_def cleared_def required_privilege_def
          guard_passes_def assms intro!: gated.ok_await call dest: rest_used)
  next
    case (ExecuteQueryReq d sql vm)
    then show ?thesis
      by (auto simp: request_segments_def segments_defs uses_db_if_def cleared_def required_privilege_def
          guard_passes_def assms tool_return_def intro!: gated.ok_await gated.ok_op call dest: rest_used)
  qed (auto simp: request_segments_def segments_defs uses_db_if_def cleared_def required_privilege_def
      guard_passes_def assms intro!: gated.ok_await call read)
qed

lemma wake_call_ok:
  assumes ok: "call_ok R c" and run: "wake w c s = (s', Suspended c')"
  shows "call_ok R c' \<and> fl_cc c' = fl_cc c \<and> fl_caller c' = fl_caller c \<and> fl_tool c' = fl_tool c
    \<and> fl_request c' = fl_request c"
proof (cases "fl_phase c")
  case (Trying k)
  obtain t p where kt: "k (with_state c s) = (t, p)" by force
  have "every_segment R p t" using call_ok_segment [OF ok Trying kt] by blast
  then show ?thesis
    using run Trying kt
    by (auto simp: wake_def run_segment_def except_clause_def call_ok_suspended Let_def
        split: wakeup.splits task.splits sum.splits prod.splits)
next
  case (Excepting e r)
  then show ?thesis using run by (auto simp: wake_def split: wakeup.splits)
qed

abbreviation cleared_call :: "server_config \<Rightarrow> in_flight \<Rightarrow> bool" where
  "cleared_call cfg c \<equiv> cleared cfg (cc_token (fl_cc c)) (fl_caller c) (fl_tool c) (fl_request c)"

lemma request_call_gated: "call_ok (uses_db_if (cleared_call cfg (request_call cfg db tb cc actor req)))
  (request_call cfg db tb cc actor req)"
  using gated_request
  by (simp add: call_ok_def request_call_def new_call_def with_state_def)

lemma loop_calls_gated:
  assumes "loop_reach cfg db sm rl x"
  shows "\<forall>c\<in>set (el_calls x). call_ok (uses_db_if (cleared_call cfg c)) c"
  using assms
proof (induction rule: loop_reach.induct)
  case loop_init
  then show ?case by simp
next
  case (loop_arrive x tb cc actor req s out)
  show ?case
    using loop_arrive.IH loop_arrive.hyps(2) wake_call_ok [OF request_call_gated]
    by (cases out) (fastforce)+
next
  case (loop_wake x cs c ds w s out)
  have "call_ok (uses_db_if (cleared_call cfg c)) c" using loop_wake.IH loop_wake.hyps(2) by simp
  from wake_call_ok [OF this] show ?case
    using loop_wake.IH loop_wake.hyps(2,3) by (cases out) (fastforce)+
qed

lemma except_clause_history: "ss_history (fst (except_clause c exc t)) = ss_history (tr_state t)"
  by (simp add: except_clause_def Let_def split_beta)

text \<open>
  C6: whatever other calls of the ten tools of \<open>serve\<close> are in flight, a step of such a call that uses
  a database is a resumption in its \<open>try\<close> body, the call was authorized under its own token and the
  write guard accepts its own statement or procedure; neither the \<open>except\<close> clauses nor a
  cancellation send anything.  Where authentication is enforced, the call carries a token, and the
  groups of that token (any token, where group authorization is off) give the privilege its tool
  needs; where it is not enforced, no token is needed.
\<close>

theorem interleaved_database_use_cleared:
  assumes "loop_reach cfg db sm rl x" and "c \<in> set (el_calls x)"
    and "wake w c (el_server x) = (s', out)" and "ss_history s' \<noteq> ss_history (el_server x)"
  shows "w = Resumed \<and> \<not> excepting c
    \<and> is_ok (resolve_actor_and_authorize (sc_auth cfg) (cc_token (fl_cc c)) (fl_caller c)
        (required_privilege (fl_request c)))
    \<and> entitled (sc_auth cfg) (cc_token (fl_cc c)) (required_privilege (fl_request c))
    \<and> guard_passes cfg (fl_tool c) (fl_request c)"
proof -
  have ok: "call_ok (uses_db_if (cleared_call cfg c)) c" using loop_calls_gated assms(1,2) by blast
  obtain k where k: "fl_phase c = Trying k" and w: "w = Resumed"
    using assms(3,4) except_clause_history [of c _ "with_state c (el_server x)"]
    by (auto simp: wake_def split: phase.splits wakeup.splits) (metis fst_conv)
  obtain t p where kt: "k (with_state c (el_server x)) = (t, p)" by force
  have "ss_history s' = sent t"
    using assms(3) k w kt except_clause_history [of c _ t]
    by (auto simp: wake_def run_segment_def sent_def split: task.splits sum.splits) (metis fst_conv)
  then have "sent t \<noteq> sent (with_state c (el_server x))" using assms(4) by (simp add: sent_def)
  then have cleared: "cleared_call cfg c" using call_ok_segment [OF ok k kt] by (simp add: uses_db_if_def)
  then have "entitled (sc_auth cfg) (cc_token (fl_cc c)) (required_privilege (fl_request c))"
    using resolved_entitled [OF _ required_privileges]
    by (cases "resolve_actor_and_authorize (sc_auth cfg) (cc_token (fl_cc c)) (fl_caller c)
      (required_privilege (fl_request c))") (auto simp: cleared_def)
  with cleared show ?thesis using w k by (simp add: cleared_def excepting_def)
qed

section \<open>A call on its own\<close>

primrec task_run :: "'a task \<Rightarrow> 'a tool_op" where
  "task_run (Returned r) = (\<lambda>t. (t, r))"
| "task_run (Awaiting k) = (\<lambda>t. case (map_prod id task_run \<circ> k) t of (t', run) \<Rightarrow> run t')"

definition seg_run :: "'a segment \<Rightarrow> 'a tool_op" where
  "seg_run k t = (case k t of (t', p) \<Rightarrow> task_run p t')"

lemma task_run_Awaiting: "task_run (Awaiting k) = seg_run k"
  by (rule ext) (simp add: seg_run_def split_beta)

declare task_run.simps(2) [simp del]

lemma seg_run_simps [simp]:
  "seg_run (seg_return r) = tool_return r"
  "seg_run (seg_await k) = seg_run k"
  "seg_run (seg_op m f) = tool_bind m (\<lambda>x. seg_run (f x))"
  "seg_run (seg_authorize cfg cc p k) = tool_bind (step_authorize cfg cc p) (\<lambda>_. seg_run k)"
  by (auto simp: fun_eq_iff seg_run_def [of "seg_return r"] seg_run_def [of "seg_await k"]
      seg_run_def [of "seg_op m f"] seg_run_def [of "seg_authorize cfg cc p k"] seg_return_def seg_await_def
      seg_op_def seg_authorize_def tool_return_def tool_bind_def step_authorize_def task_run_Awaiting
      Let_def split: sum.splits prod.splits)
    (simp_all add: seg_run_def)

lemma seg_run_call [simp]:
  "seg_run (call_segments cfg cc p rest) = tool_bind (admit_call cfg cc p) (\<lambda>_. rest)"
  by (simp add: call_segments_def admit_call_def tool_bind_assoc tool_bind_return)

lemma seg_run_read [simp]:
  "seg_run (read_segments cfg db cc sql tool inst m d) = read_body cfg db cc sql tool inst m d"
  by (simp add: read_segments_def read_body_def admit_call_def tool_bind_assoc)

lemma seg_run_request:
  "serve cfg db tb cc actor req = run_tool (request_errors tb cc req) cc (tb_tool tb) (tb_instance tb)
     (request_sql req) actor (seg_run (request_segments cfg db tb cc req))"
  by (cases req)
    (simp_all add: fun_eq_iff serve_defs request_errors_def request_sql_def request_segments_def segments_defs
      select_body_def exec_proc_body_def ping_body_def list_tools_body_def list_object_body_def
      execute_query_body_def)

text \<open>A call resumed as soon as it waits, with \<open>n\<close> steps.\<close>

fun drive :: "nat \<Rightarrow> in_flight \<Rightarrow> server_state \<Rightarrow> (server_state \<times> row result) option" where
  "drive 0 c s = None"
| "drive (Suc n) c s = (case wake Resumed c s of
     (s', Suspended c') \<Rightarrow> drive n c' s'
   | (s', Answered r) \<Rightarrow> Some (s', r)
   | (s', Abandoned) \<Rightarrow> None)"

text \<open>The task waits at most \<open>n\<close> times.\<close>

primrec waits_within :: "nat \<Rightarrow> 'a task \<Rightarrow> bool" where
  "waits_within 0 p = (case p of Returned r \<Rightarrow> True | Awaiting k \<Rightarrow> False)"
| "waits_within (Suc n) p = (case p of Returned r \<Rightarrow> True | Awaiting k \<Rightarrow> \<forall>t. waits_within n (snd (k t)))"

lemma waits_within_Returned [simp]: "waits_within n (Returned r)"
  by (cases n) simp_all

lemma waits_within_seg:
  "waits_within n (snd (seg_return r t))"
  "(\<And>t. waits_within n (snd (k t))) \<Longrightarrow> waits_within (Suc n) (snd (seg_await k t))"
  "(\<And>x t. waits_within n (snd (f x t))) \<Longrightarrow> waits_within n (snd (seg_op m f t))"
  "(\<And>t. waits_within n (snd (k t))) \<Longrightarrow> (\<And>t. waits_within (Suc n) (snd (k t))) \<Longrightarrow>
     waits_within (Suc n) (snd (seg_authorize cfg cc p k t))"
  by (auto simp: seg_return_def seg_await_def seg_op_def seg_authorize_def Let_def
      split: sum.splits prod.splits)

lemma waits_within_Suc: "waits_within n p \<Longrightarrow> waits_within (Suc n) p"
proof (induction n arbitrary: p)
  case 0
  then show ?case by (cases p) simp_all
next
  case (Suc n)
  then show ?case by (cases p) (auto simp del: waits_within.simps(1) intro: Suc.IH)
qed

lemma waits_within_authorize:
  "(\<And>t. waits_within n (snd (k t))) \<Longrightarrow> waits_within (Suc n) (snd (seg_authorize cfg cc p k t))"
  by (intro waits_within_seg(4) waits_within_Suc)

lemma waits_within_call: "waits_within 2 (snd (call_segments cfg cc p rest t))"
  unfolding call_segments_def numeral_2_eq_2
  by (intro waits_within_authorize waits_within_seg)

lemma waits_within_read: "waits_within 6 (snd (read_segments cfg db cc sql tool inst m d t))"
proof -
  have six: "6 = Suc (Suc (Suc (Suc (Suc (Suc 0)))))" by simp
  show ?thesis
    unfolding read_segments_def six by (intro waits_within_authorize waits_within_seg)
qed

lemma waits_within_request: "waits_within 6 (snd (request_segments cfg db tb cc req t))"
proof -
  have more: "waits_within n p \<Longrightarrow> waits_within (n + m) p" for n m and p :: "row task"
    by (induction m) (simp_all only: add_0_right add_Suc_right waits_within_Suc)
  have call: "waits_within 5 (snd (call_segments cfg cc p rest t))" for p and rest :: "row tool_op" and t
    using more [OF waits_within_call, of 3] by simp
  have await: "waits_within 6 (snd (seg_await k t))" if "\<And>t. waits_within 5 (snd (k t))"
    for k :: "row segment"
    using waits_within_seg(2) [of 5 k t] that by simp
  show ?thesis
    by (cases req) (simp_all only: request_segments_def segments_defs Let_def tool_request.simps waits_within_read,
      (rule await waits_within_seg(3) call)+)
qed

text \<open>The end of a call that is not cancelled.\<close>

definition call_result :: "in_flight \<Rightarrow> tool_run \<times> row result \<Rightarrow> server_state \<times> row result" where
  "call_result c tr = (case tr of
       (t, Inr x) \<Rightarrow> (finish_call c ''allow'' None t, Inr x)
     | (t, Inl exc) \<Rightarrow>
         let (counted, error_code, reply) = fl_errors c exc;
             t1 = (if counted
                   then t\<lparr>tr_state := (tr_state t)\<lparr>ss_denied := ss_denied (tr_state t) + 1\<rparr>\<rparr> else t)
         in (finish_call c ''deny'' (Some error_code) t1, reply))"

lemma call_result_locals [simp]: "call_result (with_locals c t ph) = call_result c"
  by (simp add: fun_eq_iff call_result_def finish_call_def)

lemma finish_call_locals [simp]: "finish_call (with_locals c t ph) = finish_call c"
  by (simp add: fun_eq_iff finish_call_def)

lemma drive_raised:
  "except_clause c exc t = (s', Suspended c') \<Longrightarrow> drive (Suc n) c' s' = Some (call_result c (t, Inl exc))"
  by (auto simp: except_clause_def call_result_def wake_def Let_def split: prod.splits)

lemma except_clause_suspended: "\<exists>c'. snd (except_clause c exc t) = Suspended c'"
  by (simp add: except_clause_def Let_def split_beta)

lemma drive_returned:
  assumes "fl_phase c = Trying k" "k (with_state c s) = (t, Returned r)"
  shows "drive (Suc (Suc n)) c s = Some (call_result c (seg_run k (with_state c s)))"
proof (cases r)
  case (Inr x)
  then show ?thesis using assms
    by (simp add: wake_def run_segment_def call_result_def seg_run_def)
next
  case (Inl exc)
  obtain s' c' where ex: "except_clause c exc t = (s', Suspended c')"
    using except_clause_suspended [of c exc t] by (cases "except_clause c exc t") auto
  show ?thesis
    using assms Inl ex drive_raised [OF ex]
    by (simp add: wake_def run_segment_def seg_run_def del: drive.simps(2))
      (simp add: wake_def run_segment_def)
qed

lemma drive_trying:
  assumes "fl_phase c = Trying k" "\<And>t. waits_within n (snd (k t))"
  shows "drive (Suc (Suc n)) c s = Some (call_result c (seg_run k (with_state c s)))"
  using assms
proof (induction n arbitrary: c k s)
  case 0
  obtain t p where kt: "k (with_state c s) = (t, p)" by force
  moreover have "waits_within 0 p" using "0.prems"(2) kt by (metis snd_conv)
  then obtain r where "p = Returned r" by (cases p) auto
  ultimately show ?case using drive_returned [OF "0.prems"(1)] by blast
next
  case (Suc n)
  obtain t p where kt: "k (with_state c s) = (t, p)" by force
  show ?case
  proof (cases p)
    case (Returned r)
    then show ?thesis using drive_returned [OF Suc.prems(1)] kt by blast
  next
    case (Awaiting k')
    have w: "waits_within n (snd (k' t'))" for t'
      using Suc.prems(2) kt Awaiting by (metis snd_conv task.simps(6) waits_within.simps(2))
    have "wake Resumed c s = (tr_state t, Suspended (with_locals c t (Trying k')))"
      using Suc.prems(1) kt Awaiting by (simp add: wake_def run_segment_def)
    moreover have "seg_run k (with_state c s) = seg_run k' t"
      using kt Awaiting by (simp add: seg_run_def [of k] task_run_Awaiting)
    ultimately show ?thesis
      using Suc.IH [of "with_locals c t (Trying k')" k' "tr_state t"] w
      by (subst drive.simps(2)) simp
  qed
qed

text \<open>
  Interleaving adds nothing to a call of the ten tools that runs alone: resumed as soon as it waits,
  it ends within eight steps, and leaves the server and its caller as the handler without a client
  context does.
\<close>

lemma drive_serve:
  "drive 8 (request_call cfg db tb cc actor req) s = Some (serve cfg db tb cc actor req s)"
proof -
  have "drive 8 (request_call cfg db tb cc actor req) s
      = Some (call_result (request_call cfg db tb cc actor req)
          (seg_run (request_segments cfg db tb cc req) (start_run s actor)))"
    using drive_trying [where n = 6 and c = "request_call cfg db tb cc actor req"
        and k = "request_segments cfg db tb cc req" and s = s] waits_within_request
    by (simp add: request_call_def new_call_def with_state_def start_run_def numeral_eq_Suc del: drive.simps)
  then show ?thesis
    by (simp add: seg_run_request run_tool_def start_run_def call_result_def request_call_def new_call_def
        finish_call_def split: prod.splits sum.splits)
qed

section \<open>What a select answers\<close>

text \<open>The call is let in under the name \<open>a\<close>; nothing but the sessions and the quotas changes.\<close>

lemma admit_call_passes:
  assumes "resolve_actor_and_authorize (sc_auth cfg) (cc_token cc) actor p = Inr (a, ctx)"
    and "is_ok (fst (touch \<lparr>tr_actor = a, tr_request_id = cc_request_id cc, tr_mcp_session_id = cc_session_id cc,
        tr_now = cc_touch_now cc, tr_cleanup_now = cc_cleanup_now cc\<rparr> (ss_sessions s)))"
    and "is_ok (fst (allow (a, cc_rate_now cc) (ss_rate s)))"
  obtains sm rl where "admit_call cfg cc p (start_run s actor) =
    (\<lparr>tr_state = s\<lparr>ss_sessions := sm, ss_rate := rl\<rparr>, run_actor = a, run_auth = Some ctx, run_rows = 0\<rparr>, Inr ())"
proof -
  obtain u sm where touch: "touch \<lparr>tr_actor = a, tr_request_id = cc_request_id cc, tr_mcp_session_id = cc_session_id cc,
        tr_now = cc_touch_now cc, tr_cleanup_now = cc_cleanup_now cc\<rparr> (ss_sessions s) = (u, sm)" by force
  obtain v rl where allow: "allow (a, cc_rate_now cc) (ss_rate s) = (v, rl)" by force
  have "u = Inr ()" "v = Inr ()" using assms(2,3) touch allow by (cases u; cases v; simp)+
  with that [where sm = sm and rl = rl] show ?thesis
    using assms(1) touch allow
    by (simp add: admit_call_def tool_bind_def step_authorize_def step_touch_def step_rate_def start_run_def)
qed

lemma read_answers:
  assumes "map_of (cm_instances cm) iid = Some inst" "connection_string cm inst ov = Inr conn"
    and "db h (DbConnect conn) = Inr opened" "db (h @ [DbConnect conn]) (DbExec conn sql []) = Inr cur"
    and "normalize_column_names (cur_description cur) = Inr cols"
  shows "run_read_operation cm db iid (\<lambda>conn. db_bind (db_do db (DbExec conn sql []))
      (\<lambda>cur. db_return (fetch_many m cur))) ov h
    = (h @ [DbConnect conn, DbExec conn sql []], Inr (cols, map (zip cols) (take (nat m) (cur_rows cur))))"
    and "run_read_operation cm db iid (\<lambda>conn. db_bind (db_do db (DbExec conn sql []))
      (\<lambda>cur. db_bind (db_return (fetch_many m cur)) (\<lambda>(_, rows). db_return (Inr rows)))) ov h
    = (h @ [DbConnect conn, DbExec conn sql []], Inr (map (zip cols) (take (nat m) (cur_rows cur))))"
proof -
  have "fetch_many m cur = Inr (cols, map (zip cols) (take (nat m) (cur_rows cur)))"
    using assms(5) fetch_table_Inr [of "take (nat m)" cur cols]
    by (auto simp: fetch_many_def fetch_table_def)
  with assms show
    "run_read_operation cm db iid (\<lambda>conn. db_bind (db_do db (DbExec conn sql []))
      (\<lambda>cur. db_return (fetch_many m cur))) ov h
    = (h @ [DbConnect conn, DbExec conn sql []], Inr (cols, map (zip cols) (take (nat m) (cur_rows cur))))"
    "run_read_operation cm db iid (\<lambda>conn. db_bind (db_do db (DbExec conn sql []))
      (\<lambda>cur. db_bind (db_return (fetch_many m cur)) (\<lambda>(_, rows). db_return (Inr rows)))) ov h
    = (h @ [DbConnect conn, DbExec conn sql []], Inr (map (zip cols) (take (nat m) (cur_rows cur))))"
    by (simp_all add: run_read_operation_def read_retry_attempts_def numeral_2_eq_2 with_connection_def
        db_do_def db_bind_def db_return_def)
qed

text \<open>The database a select goes to: the instance's own, or the validated one.\<close>

definition chosen_database :: "string \<Rightarrow> string option \<Rightarrow> bool" where
  "chosen_database given ov \<longleftrightarrow> (if given = [] then ov = None
     else \<exists>name. validate_database_name given = Inr name \<and> ov = Some name)"

lemma select_rest_answers:
  assumes "enforce (sc_guard cfg) tool sql = Inr ()" "chosen_database d ov"
    and "map_of (cm_instances (sc_cm cfg)) iid = Some inst" "connection_string (sc_cm cfg) inst ov = Inr conn"
    and "db (sent t) (DbConnect conn) = Inr opened"
    and "db (sent t @ [DbConnect conn]) (DbExec conn sql []) = Inr cur"
    and "normalize_column_names (cur_description cur) = Inr cols"
    and rows: "rows = map (zip cols) (take (nat (max_result_rows (sc_policy cfg))) (cur_rows cur))"
  shows "select_rest cfg db tool iid sql d t =
    (t\<lparr>tr_state := (tr_state t)\<lparr>ss_history := sent t @ [DbConnect conn, DbExec conn sql []]\<rparr>, run_rows := length rows\<rparr>,
     Inr [(''instance'', VStr iid), (''rows'', VList (map VDict rows)), (''row_count'', VInt (int (length rows)))])"
proof (cases "d = []")
  case True
  then show ?thesis
    using assms read_answers(2) [OF assms(3-7), of "max_result_rows (sc_policy cfg)"]
    by (simp add: select_rest_def chosen_database_def execute_read_def tool_bind_def tool_return_def step_db_def
        sent_def set_rows_def rows_value_def)
next
  case False
  then obtain name where name: "validate_database_name d = Inr name" "ov = Some name"
    using assms(2) by (auto simp: chosen_database_def)
  with False show ?thesis
    using assms(1) rows read_answers(1) [OF assms(3-7), of "max_result_rows (sc_policy cfg)"]
    by (simp add: select_rest_def execute_read_in_database_def tool_bind_def tool_return_def step_db_def
        sent_def set_rows_def rows_value_def)
qed

text \<open>
  C7: a \<open>select\<close> that is authorized, keeps its session and quota and passes the write guard, on an
  instance that can be connected to and answers the statement with a table, and that is resumed
  whenever it waits: it opens one connection, to the instance's own database or the named one, sends
  the statement as it was written, once, and answers with the instance, the first rows of the table,
  as many as the policy allows, each as a dictionary from the normalized column names to its values,
  and their number; it writes one audit event that allows it, with the resolved actor, the statement
  and that number.
\<close>

theorem select_answers_exactly:
  assumes "resolve_actor_and_authorize (sc_auth cfg) (cc_token cc) actor ''read'' = Inr (a, ctx)"
    and "is_ok (fst (touch \<lparr>tr_actor = a, tr_request_id = cc_request_id cc, tr_mcp_session_id = cc_session_id cc,
        tr_now = cc_touch_now cc, tr_cleanup_now = cc_cleanup_now cc\<rparr> (ss_sessions s)))"
    and "is_ok (fst (allow (a, cc_rate_now cc) (ss_rate s)))"
    and "enforce (sc_guard cfg) (tb_tool tb) sql = Inr ()" "chosen_database d ov"
    and "map_of (cm_instances (sc_cm cfg)) (tb_instance tb) = Some inst"
    and "connection_string (sc_cm cfg) inst ov = Inr conn"
    and "db (ss_history s) (DbConnect conn) = Inr opened"
    and "db (ss_history s @ [DbConnect conn]) (DbExec conn sql []) = Inr cur"
    and "normalize_column_names (cur_description cur) = Inr cols"
  shows "\<exists>s' rows e. drive 8 (request_call cfg db tb cc actor (SelectReq sql d)) s =
      Some (s', Inr [(''instance'', VStr (tb_instance tb)), (''rows'', VList (map VDict rows)),
        (''row_count'', VInt (int (length rows)))])
    \<and> rows = map (zip cols) (take (nat (max_result_rows (sc_policy cfg))) (cur_rows cur))
    \<and> ss_history s' = ss_history s @ [DbConnect conn, DbExec conn sql []]
    \<and> ss_audit s' = ss_audit s @ [e]
    \<and> e = \<lparr>ae_request_id = cc_request_id cc, ae_actor = a, ae_tool = tb_tool tb, ae_instance = tb_instance tb,
        ae_sql = sql, ae_decision = ''allow'', ae_rows = length rows, ae_error_code = None, ae_auth = Some ctx\<rparr>
    \<and> ss_denied s' = ss_denied s"
proof -
  obtain sm rl where admit: "admit_call cfg cc ''read'' (start_run s actor) =
      (\<lparr>tr_state = s\<lparr>ss_sessions := sm, ss_rate := rl\<rparr>, run_actor = a, run_auth = Some ctx, run_rows = 0\<rparr>, Inr ())"
    by (rule admit_call_passes [OF assms(1-3)])
  let ?t = "\<lparr>tr_state = s\<lparr>ss_sessions := sm, ss_rate := rl\<rparr>, run_actor = a, run_auth = Some ctx, run_rows = 0\<rparr> :: tool_run"
  define rows where "rows = map (zip cols) (take (nat (max_result_rows (sc_policy cfg))) (cur_rows cur))"
  have sent: "sent ?t = ss_history s" by (simp add: sent_def)
  note rest = select_rest_answers [OF assms(4-7), of db ?t, unfolded sent, OF assms(8-10) rows_def]
  show ?thesis
    unfolding drive_serve
    using admit rest
    by (simp add: serve_defs select_body_def run_tool_def start_run_def tool_bind_def finish_def log_audit_event_def
        flip: rows_def)
qed

text \<open>The steps of one call, each with the server as it finds it.\<close>

fun steps_of :: "(wakeup \<times> server_state) list \<Rightarrow> in_flight \<Rightarrow> outcome" where
  "steps_of [] c = Suspended c"
| "steps_of ((w, s) # ws) c = (case snd (wake w c s) of Suspended c' \<Rightarrow> steps_of ws c' | out \<Rightarrow> out)"

lemma steps_of_excepting: "excepting c \<Longrightarrow> ws \<noteq> [] \<Longrightarrow> steps_of ws c \<noteq> Suspended c'"
  by (cases ws) (auto simp: excepting_def wake_def split: phase.splits wakeup.splits)

lemma wake_suspended:
  assumes "fl_phase c = Trying k" "wake w c s = (s', Suspended c')"
  shows "excepting c' \<or> (\<exists>t k'. k (with_state c s) = (t, Awaiting k') \<and> c' = with_locals c t (Trying k'))"
proof -
  have raised: "excepting c'" if "except_clause c exc t = (s', Suspended c')" for exc t
    using that by (auto simp: except_clause_def Let_def split: prod.splits)
  show ?thesis
    using assms raised
    by (cases w) (auto simp: wake_def run_segment_def split: prod.splits task.splits sum.splits)
qed

lemma steps_of_trying:
  assumes "fl_phase c = Trying k" "\<And>t. waits_within n (snd (k t))" "n + 2 \<le> length ws"
  shows "steps_of ws c \<noteq> Suspended c'"
  using assms
proof (induction n arbitrary: c k ws)
  case 0
  obtain w s ws' where ws: "ws = (w, s) # ws'" "ws' \<noteq> []"
    using "0.prems"(3) by (cases ws) (auto simp: Suc_le_length_iff)
  have "excepting d" if "snd (wake w c s) = Suspended d" for d
    using wake_suspended [OF "0.prems"(1), of w s "fst (wake w c s)" d] that "0.prems"(2)
    by (metis prod.collapse snd_conv task.simps(6) waits_within.simps(1))
  then show ?case using ws steps_of_excepting by (auto split: outcome.splits)
next
  case (Suc n)
  obtain w s ws' where ws: "ws = (w, s) # ws'" "n + 2 \<le> length ws'"
    using Suc.prems(3) by (cases ws) auto
  have "steps_of ws' d \<noteq> Suspended c'" if d: "snd (wake w c s) = Suspended d" for d
  proof (cases "excepting d")
    case True
    then show ?thesis using ws(2) steps_of_excepting [of d ws'] by (cases ws') auto
  next
    case False
    then obtain t k' where k': "k (with_state c s) = (t, Awaiting k')" "d = with_locals c t (Trying k')"
      using wake_suspended [OF Suc.prems(1), of w s "fst (wake w c s)" d] d by (metis prod.collapse)
    have "waits_within n (snd (k' t'))" for t'
      using Suc.prems(2) k'(1) by (metis snd_conv task.simps(6) waits_within.simps(2))
    then show ?thesis using Suc.IH [of d k' ws'] k'(2) ws(2) by simp
  qed
  then show ?case using ws by (auto split: outcome.splits)
qed

text \<open>
  C18: no call of the ten tools of \<open>serve\<close> stays in flight for good: whatever the other calls do to
  the server in between, and whatever happens to its messages, it ends at its eighth step at the
  latest.  (The analysis tools wait more often and are not among these calls.)
\<close>

theorem call_ends_within_eight_steps:
  assumes "8 \<le> length ws"
  shows "steps_of ws (request_call cfg db tb cc actor req) \<noteq> Suspended c"
  using steps_of_trying [where n = 6 and c = "request_call cfg db tb cc actor req"
      and k = "request_segments cfg db tb cc req"] waits_within_request assms
  by (simp add: request_call_def new_call_def)

section \<open>Cancellation\<close>

lemma request_starts_suspended:
  "\<exists>k. request_segments cfg db tb cc req = seg_await k"
  by (cases req) (auto simp: request_segments_def segments_defs read_segments_def Let_def)

lemma arrival:
  "\<exists>c k. wake Resumed (request_call cfg db tb cc actor req) s = (s, Suspended c) \<and> fl_phase c = Trying k
     \<and> fl_actor c = actor \<and> fl_auth c = None \<and> fl_rows c = 0 \<and> fl_cc c = cc \<and> fl_tool c = tb_tool tb
     \<and> fl_instance c = tb_instance tb \<and> fl_sql c = request_sql req"
proof -
  obtain k where "request_segments cfg db tb cc req = seg_await k" using request_starts_suspended by blast
  then show ?thesis
    by (simp add: wake_def run_segment_def request_call_def new_call_def seg_await_def with_state_def
        with_locals_def)
qed

lemma unauthenticated_denied:
  assumes "auth_enforced (sc_auth cfg)" "cc_token cc = None"
    and "serve cfg db tb cc actor req s = (s', r)"
  shows "audited (tb_tool tb) (tb_instance tb) False s s'"
proof -
  obtain auth where auth: "sc_auth cfg = Some auth"
    using assms(1) by (cases "sc_auth cfg") (auto simp: auth_enforced_def)
  have admit: "\<not> is_ok (snd (tool_bind (admit_call cfg cc p) f t))" for p and f :: "unit \<Rightarrow> row tool_op" and t
    using assms auth
    by (simp add: admit_call_def tool_bind_def step_authorize_def resolve_actor_and_authorize_def)
  have "\<not> is_ok (snd (seg_run (request_segments cfg db tb cc req) t))" for t
    using admit by (cases req)
      (auto simp: request_segments_def segments_defs read_body_def tool_bind_def [of "tool_return v" for v]
        tool_return_def split: sum.splits)
  moreover have "quiet (seg_run (request_segments cfg db tb cc req))"
    by (cases req)
      (auto simp: request_segments_def segments_defs intro!: quiet_ops)
  ultimately show ?thesis
    using run_tool_audited [OF _ assms(3) [unfolded seg_run_request]] by (metis (full_types))
qed

text \<open>
  C22: on a server that enforces authentication, a call without a token that is cancelled before it was
  authorized is recorded as allowed, without an error and under the name the caller chose, although the
  same call, left alone, is recorded as denied.
\<close>

theorem cancelled_call_recorded_allowed:
  assumes "auth_enforced (sc_auth cfg)" "cc_token cc = None"
  shows "\<exists>c e e'. wake Resumed (request_call cfg db tb cc actor req) s = (s, Suspended c)
    \<and> ss_audit (fst (wake Cancelled c s)) = ss_audit s @ [e]
    \<and> ae_decision e = ''allow'' \<and> ae_error_code e = None \<and> ae_actor e = actor
    \<and> ss_audit (fst (serve cfg db tb cc actor req s)) = ss_audit s @ [e'] \<and> ae_decision e' = ''deny''"
proof -
  obtain c k where c: "wake Resumed (request_call cfg db tb cc actor req) s = (s, Suspended c)"
    "fl_phase c = Trying k" "fl_actor c = actor"
    using arrival [of cfg db tb cc actor req s] by blast
  have "audited (tb_tool tb) (tb_instance tb) False s (fst (serve cfg db tb cc actor req s))"
    using unauthenticated_denied [OF assms] by (metis prod.collapse)
  moreover have "\<exists>e. ss_audit (fst (wake Cancelled c s)) = ss_audit s @ [e]
      \<and> ae_decision e = ''allow'' \<and> ae_error_code e = None \<and> ae_actor e = actor"
    using c(2,3) by (simp add: wake_def finish_call_def finish_def log_audit_event_def with_state_def)
  ultimately show ?thesis using c(1) unfolding audited_def by auto
qed

section \<open>A concrete event loop\<close>

abbreviation example_select_call :: in_flight where
  "example_select_call \<equiv> request_call example_config steady_db (example_binding ''db_primary_sql2019_select'')
     example_call ''bob'' (SelectReq ''SELECT 1'' [])"

definition waiting_call :: "outcome \<Rightarrow> in_flight" where
  "waiting_call out = (case out of Suspended c \<Rightarrow> c | _ \<Rightarrow> example_select_call)"

lemma example_arrival:
  "wake Resumed example_select_call example_state
     = (example_state, Suspended (waiting_call (snd (wake Resumed example_select_call example_state))))"
  using arrival [of example_config steady_db "example_binding ''db_primary_sql2019_select''" example_call "''bob''"
      "SelectReq ''SELECT 1'' []" example_state]
  by (auto simp: waiting_call_def)

lemma example_loop:
  "loop_reach example_config steady_db (session_manager_init 60 30 2) (rate_limiter_init 5 0 10 0)
     \<lparr>el_server = example_state,
      el_calls = [waiting_call (snd (wake Resumed example_select_call example_state))], el_started = 1\<rparr>"
proof -
  let ?x = "\<lparr>el_server = example_state, el_calls = [], el_started = 0\<rparr> :: event_loop"
  have x: "loop_reach example_config steady_db (session_manager_init 60 30 2) (rate_limiter_init 5 0 10 0) ?x"
    using loop_init unfolding example_state_def .
  have w: "wake Resumed example_select_call (el_server ?x)
      = (example_state, Suspended (waiting_call (snd (wake Resumed example_select_call example_state))))"
    using example_arrival by simp
  show ?thesis using loop_arrive [OF x w] by simp
qed

lemma example_resumed:
  "length (ss_history (fst (wake Resumed (waiting_call (snd (wake Resumed example_select_call example_state)))
     example_state))) = 2"
  by code_simp

theorem interleaved_calls_within_limits_witness:
  "int (length (bucket_of ''bob'' (ss_rate example_state))) \<le> 5"
  using interleaved_calls_within_limits [OF example_loop, of "''bob''"] by simp

text \<open>A server that demands tokens, and a reader's call.\<close>

definition guarded_config :: server_config where
  "guarded_config = example_config\<lparr>sc_auth := Some (default_auth\<lparr>azure_auth_enabled := True,
     azure_group_authorization_enabled := True, azure_group_claim_name := ''groups'',
     azure_read_groups := [''readers'']\<rparr>)\<rparr>"

definition reader_call :: call_context where
  "reader_call = example_call\<lparr>cc_token := Some [(''groups'', VList [VStr ''readers'']), (''oid'', VStr ''o1'')]\<rparr>"

abbreviation guarded_select :: in_flight where
  "guarded_select \<equiv> request_call guarded_config steady_db (example_binding ''db_primary_sql2019_select'')
     reader_call ''bob'' (SelectReq ''SELECT 1'' [])"

definition next_of :: "in_flight \<Rightarrow> in_flight" where
  "next_of c = (case snd (wake Resumed c example_state) of Suspended c' \<Rightarrow> c' | _ \<Rightarrow> c)"

fun waits :: "outcome \<Rightarrow> bool" where
  "waits (Suspended c) = True"
| "waits _ = False"

lemma wake_next:
  "fst (wake Resumed c example_state) = example_state \<Longrightarrow> waits (snd (wake Resumed c example_state)) \<Longrightarrow>
   wake Resumed c example_state = (example_state, Suspended (next_of c))"
  by (cases "wake Resumed c example_state"; cases "snd (wake Resumed c example_state)") (simp_all add: next_of_def)

text \<open>Its first two steps end at the first message and at the end of its authorization; the third reads.\<close>

lemma guarded_steps:
  "wake Resumed guarded_select example_state = (example_state, Suspended (next_of guarded_select))"
  "wake Resumed (next_of guarded_select) example_state
     = (example_state, Suspended (next_of (next_of guarded_select)))"
  "length (ss_history (fst (wake Resumed (next_of (next_of guarded_select)) example_state))) = 2"
  by ((rule wake_next; code_simp) | code_simp)+

lemma guarded_loop:
  "loop_reach guarded_config steady_db (session_manager_init 60 30 2) (rate_limiter_init 5 0 10 0)
     \<lparr>el_server = example_state, el_calls = [next_of (next_of guarded_select)], el_started = 1\<rparr>"
proof -
  let ?x = "\<lparr>el_server = example_state, el_calls = [], el_started = 0\<rparr> :: event_loop"
  have x: "loop_reach guarded_config steady_db (session_manager_init 60 30 2) (rate_limiter_init 5 0 10 0) ?x"
    using loop_init unfolding example_state_def .
  have "wake Resumed guarded_select (el_server ?x) = (example_state, Suspended (next_of guarded_select))"
    using guarded_steps(1) by simp
  from loop_arrive [OF x this] have one: "loop_reach guarded_config steady_db (session_manager_init 60 30 2)
      (rate_limiter_init 5 0 10 0)
      \<lparr>el_server = example_state, el_calls = [next_of guarded_select], el_started = 1\<rparr>" by simp
  from loop_wake [OF one, of "[]" "next_of guarded_select" "[]" Resumed example_state
      "Suspended (next_of (next_of guarded_select))"] guarded_steps(2)
  show ?thesis by simp
qed

theorem interleaved_database_use_cleared_witness:
  "\<exists>privilege matches. resolve_group_privilege (VList [VStr ''readers'']) [''readers''] [] True = Inr (privilege, matches)
     \<and> (privilege = ''write'' \<or> privilege = ''read'')
   \<and> is_ok (enforce (sc_guard guarded_config) ''db_primary_sql2019_select'' ''SELECT 1'')"
proof -
  let ?c = "next_of (next_of guarded_select)"
  obtain s out where w: "wake Resumed ?c example_state = (s, out)" by force
  have h: "ss_history s \<noteq> ss_history example_state"
    using guarded_steps(3) w by (auto simp: example_state_def)
  have c: "fl_request ?c = SelectReq ''SELECT 1'' []" "fl_tool ?c = ''db_primary_sql2019_select''"
    "cc_token (fl_cc ?c) = Some [(''groups'', VList [VStr ''readers'']), (''oid'', VStr ''o1'')]"
    by code_simp+
  have "entitled (sc_auth guarded_config) (Some [(''groups'', VList [VStr ''readers'']), (''oid'', VStr ''o1'')]) ''read''"
    "is_ok (enforce (sc_guard guarded_config) ''db_primary_sql2019_select'' ''SELECT 1'')"
    using interleaved_database_use_cleared [OF guarded_loop, of ?c Resumed s out] w h
    by (simp_all add: c required_privilege_def guard_passes_def)
  then show ?thesis
    by (simp add: entitled_def guarded_config_def auth_enforced_def row_get_or_def dict_get_def default_auth_def)
qed

text \<open>A table of two rows, of which the policy lets one through.\<close>

definition one_row_config :: server_config where
  "one_row_config = example_config\<lparr>sc_policy := default_policy\<lparr>max_result_rows := 1\<rparr>\<rparr>"

theorem select_answers_exactly_witness:
  "\<exists>s' cols. drive 8 (request_call one_row_config steady_db (example_binding ''db_primary_sql2019_select'')
        example_call ''bob'' (SelectReq ''SELECT 1'' ''sales'')) example_state =
      Some (s', Inr [(''instance'', VStr ''primary''), (''rows'', VList [VDict (zip cols [VInt 1, VInt 2])]),
        (''row_count'', VInt 1)])
    \<and> length (ss_history s') = 2"
proof -
  let ?c = "''DRIVER={drv};SERVER=h,1433;DATABASE=sales;UID=u;PWD={p};Encrypt=no;TrustServerCertificate=yes;''"
  let ?tb = "example_binding ''db_primary_sql2019_select''"
  obtain a ctx where auth: "resolve_actor_and_authorize (sc_auth one_row_config) (cc_token example_call) ''bob'' ''read''
      = Inr (a, ctx)" "a = ''bob''"
    by (simp add: one_row_config_def example_config_def resolve_actor_and_authorize_def)
  have touch: "is_ok (fst (touch \<lparr>tr_actor = ''bob'', tr_request_id = cc_request_id example_call,
        tr_mcp_session_id = cc_session_id example_call, tr_now = cc_touch_now example_call,
        tr_cleanup_now = cc_cleanup_now example_call\<rparr> (ss_sessions example_state)))"
    and rate: "is_ok (fst (allow (''bob'', cc_rate_now example_call) (ss_rate example_state)))"
    and guard: "enforce (sc_guard one_row_config) (tb_tool ?tb) ''SELECT 1'' = Inr ()"
    and name: "validate_database_name ''sales'' = Inr ''sales''"
    and inst: "map_of (cm_instances (sc_cm one_row_config)) (tb_instance ?tb) = Some example_instance"
    and conn: "connection_string (sc_cm one_row_config) example_instance (Some ''sales'') = Inr ?c"
    and names: "is_ok (normalize_column_names (cur_description example_cursor))"
    by code_simp+
  obtain cols where cols: "normalize_column_names (cur_description example_cursor) = Inr cols"
    using names by (cases "normalize_column_names (cur_description example_cursor)") simp_all
  have db: "chosen_database ''sales'' (Some ''sales'')" using name by (simp add: chosen_database_def)
  have steady: "steady_db h ev = Inr example_cursor" for h ev by (simp add: steady_db_def)
  have vals: "tb_instance ?tb = ''primary''" "max_result_rows (sc_policy one_row_config) = 1"
    "cur_rows example_cursor = [[VInt 1, VInt 2], [VInt 3, VInt 4]]" "ss_history example_state = []"
    by code_simp+
  show ?thesis
    using select_answers_exactly [where db = steady_db and tb = ?tb, OF auth(1) touch [folded auth(2)]
        rate [folded auth(2)] guard db inst conn steady steady cols] unfolding vals by auto
qed

theorem call_ends_within_eight_steps_witness:
  "steps_of (replicate 8 (Resumed, example_state)) example_select_call \<noteq> Suspended example_select_call"
  by (rule call_ends_within_eight_steps) simp

theorem cancelled_call_recorded_allowed_witness:
  "\<exists>c e. wake Resumed (request_call (example_config\<lparr>sc_auth := Some (default_auth\<lparr>azure_auth_enabled := True\<rparr>)\<rparr>)
      steady_db (example_binding ''exec'') example_call ''admin'' (ExecProcReq ''dbo.usp_X'' [] [])) example_state
        = (example_state, Suspended c)
    \<and> ss_audit (fst (wake Cancelled c example_state)) = [e] \<and> ae_decision e = ''allow'' \<and> ae_actor e = ''admin''"
  using cancelled_call_recorded_allowed [of "example_config\<lparr>sc_auth := Some (default_auth\<lparr>azure_auth_enabled := True\<rparr>)\<rparr>"
      example_call steady_db "example_binding ''exec''" "''admin''" "ExecProcReq ''dbo.usp_X'' [] []" example_state]
  by (auto simp: auth_enforced_def example_call_def example_state_def)

end
