(* ===== verification/Connection_Fields.thy ===== *)
theory Connection_Fields
  imports Tool_Safety
begin

text \<open>
  What a caller's database name does to the connection string of \<open>ConnectionManager._connection_string\<close>
  (\<open>src/db/connection_manager.py\<close>): \<open>select\<close> validates the name, \<open>execute_query\<close> hands it on as it is.
  The string is cut at its semicolons, where the ODBC driver separates attributes.
\<close>

section \<open>The attributes of a connection string\<close>

definition attributes_before :: "connection_manager \<Rightarrow> sql_instance_config \<Rightarrow> string list" where
  "attributes_before cm inst =
     [''DRIVER={'' @ cm_odbc_driver cm @ ''}'', ''SERVER='' @ inst_host inst @ '','' @ int_str (inst_port inst)]"

definition attributes_after :: "row \<Rightarrow> string list" where
  "attributes_after creds =
     [''UID='' @ py_str (row_get creds ''username''), ''PWD={'' @ py_str (row_get creds ''password'') @ ''}'',
      ''Encrypt=no'', ''TrustServerCertificate=yes'', []]"

text \<open>The settings of the server contain no semicolon themselves.\<close>

definition plain_settings :: "connection_manager \<Rightarrow> sql_instance_config \<Rightarrow> row \<Rightarrow> bool" where
  "plain_settings cm inst creds \<longleftrightarrow>
     cm_secret_resolver cm (auth_secret_ref inst) = Inr creds
     \<and> CHR '';'' \<notin> set (cm_odbc_driver cm) \<and> CHR '';'' \<notin> set (inst_host inst)
     \<and> CHR '';'' \<notin> set (py_str (row_get creds ''username''))
     \<and> CHR '';'' \<notin> set (py_str (row_get creds ''password''))"

lemma split_around_database:
  assumes "c \<notin> set a" "c \<notin> set b" "c \<notin> set u" "c \<notin> set p" "c \<notin> set e" "c \<notin> set v"
  shows "split_on c (a @ c # b @ c # m @ c # u @ c # p @ c # e @ c # v @ [c])
    = [a, b] @ split_on c m @ [u, p, e, v, []]"
  using assms by (simp add: split_on_append split_on_notin)

lemma connection_attributes:
  assumes "plain_settings cm inst creds" "d \<noteq> []" "connection_string cm inst (Some d) = Inr conn"
  shows "split_on (CHR '';'') conn
    = attributes_before cm inst @ split_on (CHR '';'') (''DATABASE='' @ d) @ attributes_after creds"
proof -
  let ?a = "''DRIVER={'' @ cm_odbc_driver cm @ ''}''"
  let ?b = "''SERVER='' @ inst_host inst @ '','' @ int_str (inst_port inst)"
  let ?u = "''UID='' @ py_str (row_get creds ''username'')"
  let ?p = "''PWD={'' @ py_str (row_get creds ''password'') @ ''}''"
  have conn: "conn = ?a @ CHR '';'' # ?b @ CHR '';'' # (''DATABASE='' @ d) @ CHR '';'' # ?u @ CHR '';'' # ?p
      @ CHR '';'' # ''Encrypt=no'' @ CHR '';'' # ''TrustServerCertificate=yes'' @ [CHR '';'']"
    using assms by (simp add: connection_string_def plain_settings_def bind_res_Inr Let_def)
  have plain: "CHR '';'' \<notin> set ?a" "CHR '';'' \<notin> set ?b" "CHR '';'' \<notin> set ?u" "CHR '';'' \<notin> set ?p"
    "CHR '';'' \<notin> set ''Encrypt=no''" "CHR '';'' \<notin> set ''TrustServerCertificate=yes''"
    using assms(1) int_str_no_semicolon by (auto simp: plain_settings_def)
  show ?thesis
    unfolding conn split_around_database [OF plain] attributes_before_def attributes_after_def by simp
qed

section \<open>The first event of a call\<close>

lemma connection_first:
  assumes "\<And>conn. sends (body conn) (B conn)" "run_read_operation cm db iid body ov h = (h', r)" "h' \<noteq> h"
  shows "\<exists>inst conn evs. map_of (cm_instances cm) iid = Some inst \<and> connection_string cm inst ov = Inr conn
    \<and> h' = h @ DbConnect conn # evs"
proof -
  let ?op = "with_connection cm db iid ov body"
  let ?first = "\<lambda>h1. \<exists>inst conn evs. map_of (cm_instances cm) iid = Some inst
    \<and> connection_string cm inst ov = Inr conn \<and> h1 = h @ DbConnect conn # evs"
  have first: "?first h1" if run: "?op h = (h1, r1)" "h1 \<noteq> h" for h1 r1
  proof -
    obtain inst where inst: "map_of (cm_instances cm) iid = Some inst"
      using run by (cases "map_of (cm_instances cm) iid") (auto simp: with_connection_def)
    obtain conn where conn: "connection_string cm inst ov = Inr conn"
      using run inst by (cases "connection_string cm inst ov") (auto simp: with_connection_def)
    obtain h2 r2 where b: "body conn (h @ [DbConnect conn]) = (h2, r2)" by force
    then obtain bs where "h2 = h @ DbConnect conn # bs" using sendsD [OF assms(1)] by fastforce
    then have "\<exists>evs. h1 = h @ DbConnect conn # evs"
      using run inst conn b by (auto simp: with_connection_def db_do_def split: sum.splits)
    then show ?thesis using inst conn by blast
  qed
  obtain h1 r1 where a: "?op h = (h1, r1)" by force
  obtain h2 r2 where b: "?op h1 = (h2, r2)" by force
  obtain cs where cs: "h2 = h1 @ cs"
    using sendsD [OF sends_connection [OF assms(1), where cm = cm and db = db and iid = iid and ov = ov] b] by blast
  have "h' = h1 \<or> h' = h2"
    using assms(2) a b
    by (auto simp: run_read_operation_def read_retry_attempts_def numeral_2_eq_2 split: sum.splits if_splits)
  then have ne: "h1 \<noteq> h" using assms(3) a b by auto
  show ?thesis using first [OF a ne] \<open>h' = h1 \<or> h' = h2\<close> cs by auto
qed

text \<open>Operations that only append to what was sent.\<close>

definition appends :: "'a tool_op \<Rightarrow> bool" where
  "appends op \<longleftrightarrow> (\<forall>t. \<exists>evs. sent (fst (op t)) = sent t @ evs)"

named_theorems append_ops \<open>operations that only append events\<close>

lemma appends_silent: "silent op \<Longrightarrow> appends op"
  by (simp add: appends_def silent_def)

lemma appends_steps [append_ops]: "appends (tool_return r)" "appends (set_rows n)"
  by (rule appends_silent, rule silent_ops)+

lemma appends_bind [append_ops]: "appends m \<Longrightarrow> (\<And>x. appends (f x)) \<Longrightarrow> appends (tool_bind m f)"
  unfolding appends_def tool_bind_def
  by (intro allI) (simp split: prod.splits sum.splits; metis append.assoc fst_conv)

lemma appends_if [append_ops]: "appends a \<Longrightarrow> appends b \<Longrightarrow> appends (if c then a else b)"
  by simp

lemma appends_explain [append_ops]: "appends (explain_step ft cfg db inst d sql)"
  unfolding appends_def
proof
  fix t :: tool_run
  obtain h r where run: "explain_query ft (sc_cm cfg) db inst d sql (ss_history (tr_state t)) = (h, r)" by force
  then have "\<exists>evs. h = ss_history (tr_state t) @ evs" using explain_never_executes [OF run] by blast
  then show "\<exists>evs. sent (fst (explain_step ft cfg db inst d sql t)) = sent t @ evs"
    using run by (simp add: explain_step_def sent_def)
qed

text \<open>A database step that is followed by appending operations decides the first event.\<close>

lemma first_event:
  assumes "sent (fst (tool_bind (step_db op) f t)) \<noteq> sent t" "\<And>x. appends (f x)"
    and "\<And>h h' r. op h = (h', r) \<Longrightarrow> h' \<noteq> h \<Longrightarrow> \<exists>evs. h' = h @ ev # evs"
    and "\<And>h h' x. op h = (h', Inr x) \<Longrightarrow> h' \<noteq> h"
  shows "\<exists>evs. sent (fst (tool_bind (step_db op) f t)) = sent t @ ev # evs"
proof -
  obtain h r where op: "op (sent t) = (h, r)" by force
  show ?thesis
  proof (cases r)
    case (Inl e)
    then show ?thesis using op assms(1) assms(3) [OF op]
      by (simp add: tool_bind_def step_db_def sent_def)
  next
    case (Inr x)
    obtain evs where evs: "h = sent t @ ev # evs" using assms(3) [OF op] assms(4) op Inr by blast
    let ?t = "t\<lparr>tr_state := (tr_state t)\<lparr>ss_history := h\<rparr>\<rparr>"
    obtain more where "sent (fst (f x ?t)) = sent ?t @ more" using assms(2) unfolding appends_def by blast
    then show ?thesis using op Inr evs by (simp add: tool_bind_def step_db_def sent_def)
  qed
qed

lemma read_first:
  assumes "map_of (cm_instances cm) iid = Some inst" "connection_string cm inst (Some d) = Inr conn"
    and run: "execute_read_in_database cm db iid d sql m h = (h', r)"
  shows "h' \<noteq> h \<Longrightarrow> \<exists>evs. h' = h @ DbConnect conn # evs" and "is_ok r \<Longrightarrow> h' \<noteq> h"
proof -
  note sent = read_body_sends [where db = db and sql = sql and ps = "[]" and m = m]
  show "\<exists>evs. h' = h @ DbConnect conn # evs" if "h' \<noteq> h"
    using connection_first [OF sent run [unfolded execute_read_in_database_def] that] assms(1,2) by auto
  obtain evs where "h' = h @ evs" "retried (session (\<lambda>c evs r. evs = [DbExec c sql []] \<and> table_ok (nat m) r)) evs r"
    using sendsD [OF sends_read_operation [OF sent] run [unfolded execute_read_in_database_def]] by blast
  then show "h' \<noteq> h" if "is_ok r"
    using that unfolding retried_def session_def by auto
qed

section \<open>What a caller adds\<close>

lemma rest_first:
  assumes "\<And>x. appends (f x)" "sent (fst (tool_bind (step_db op) f t)) \<noteq> sent t"
    and "op = execute_read_in_database cm db iid d sql m"
    and "map_of (cm_instances cm) iid = Some inst" "connection_string cm inst (Some d) = Inr conn"
  shows "\<exists>evs. sent (fst (tool_bind (step_db op) f t)) = sent t @ DbConnect conn # evs"
  using first_event [OF assms(2,1)] read_first [OF assms(4,5)] unfolding assms(3)
  by (metis is_ok_simps(2))

lemma select_first:
  assumes "sent (fst (select_rest cfg db tool iid sql d t)) \<noteq> sent t" "d \<noteq> []"
    and "validate_database_name d = Inr d'" "map_of (cm_instances (sc_cm cfg)) iid = Some inst"
    and "connection_string (sc_cm cfg) inst (Some d') = Inr conn"
  shows "\<exists>evs. sent (fst (select_rest cfg db tool iid sql d t)) = sent t @ DbConnect conn # evs"
proof -
  obtain u where u: "enforce (sc_guard cfg) tool sql = Inr u"
    using used_return [OF assms(1) [unfolded select_rest_def]] by blast
  show ?thesis
    using assms(1-3) unfolding select_rest_def u tool_return_bind
    by (simp add: tool_return_bind tool_bind_assoc)
      (rule rest_first [OF _ _ HOL.refl assms(4,5)], auto intro!: append_ops simp: case_prod_beta)
qed

lemma execute_query_first:
  assumes "sent (fst (execute_query_rest ft cfg db cc tool iid nr d sql vm t)) \<noteq> sent t"
    and "map_of (cm_instances (sc_cm cfg)) iid = Some inst"
    and "connection_string (sc_cm cfg) inst (Some d) = Inr conn"
  shows "\<exists>evs. sent (fst (execute_query_rest ft cfg db cc tool iid nr d sql vm t)) = sent t @ DbConnect conn # evs"
proof -
  obtain u where u: "enforce (sc_guard cfg) tool sql = Inr u"
    using used_return [OF assms(1) [unfolded execute_query_rest_def]] by blast
  show ?thesis
    using assms(1) unfolding execute_query_rest_def u tool_return_bind
    by (rule rest_first [OF _ _ HOL.refl assms(2,3), rotated])
      (auto intro!: append_ops simp: case_prod_beta)
qed


lemma example_injection: "ss_history (fst (serve example_config steady_db
    (example_binding ''db_1_sql2019_execute_query'') example_call ''bob''
    (ExecuteQueryReq ''db;UID=me'' ''SELECT 1'' ''COMPACT'') example_state)) \<noteq> []"
  by code_simp


end
