(* ===== verification/Server_Lifecycle.thy ===== *)
theory Server_Lifecycle
  imports Server_Assembly Connection_Pool
begin

text \<open>
  The process around the server of \<open>src/server.py\<close>: \<open>main\<close>, the root route, and \<open>app_lifespan\<close>, which
  closes the connection pools and the shared HTTP client when the application stops; and the \<open>/pool\<close>
  route of \<open>src/diagnostics/routes.py\<close>.  The environment is the one after \<open>load_dotenv\<close>.  Serving
  itself (the parent lifespan of the mounted application included) is a result, as is closing the
  HTTP client, whose \<open>aclose\<close> may raise.
\<close>

section \<open>Start\<close>

definition bind_address :: "string dict \<Rightarrow> (string \<times> int) result" where
  "bind_address environ =
     (let host = dict_get environ ''FASTMCP_HOST'' ''0.0.0.0'';
          port = dict_get environ ''FASTMCP_PORT'' ''8080''
      in case parse_int port of
           Some i \<Rightarrow> Inr (host, i)
         | None \<Rightarrow> Inl (value_error (''invalid literal for int() with base 10: '' @ str_repr port)))"

text \<open>\<open>main\<close> up to the call of \<open>uvicorn.run\<close>; the address is read before the application is built.\<close>

definition main :: "startup \<Rightarrow> http_client \<times> (server_runtime \<times> string \<times> int) result" where
  "main su = (case bind_address (su_environ su) of
       Inl e \<Rightarrow> (Not_Opened, Inl e)
     | Inr (host, port) \<Rightarrow>
         (let (client, built) = build_fastapi_app su
          in (client, bind_res built (\<lambda>rt. Inr (rt, host, port)))))"

definition root_route :: "server_runtime \<Rightarrow> row" where
  "root_route rt = [(''service'', VStr ''fastmcp-sql2019''), (''status'', VStr ''ok''),
     (''tools'', VList (map VStr (rt_registered rt)))]"

section \<open>Pools of all instances\<close>

type_synonym pools = "(sql_instance_config \<times> pool_state) dict"

definition pool_entry :: "pool_diagnostics \<Rightarrow> row" where
  "pool_entry d = [(''enabled'', VBool (diag_enabled d)), (''pool_max'', VInt (diag_pool_max d)),
     (''pool_size'', VInt (int (diag_pool_size d))), (''in_use'', VInt (int (diag_in_use d))),
     (''available'', VInt (int (diag_available d))), (''created_total'', VInt (int (diag_created d))),
     (''reused_total'', VInt (int (diag_reused d))), (''discarded_total'', VInt (int (diag_discarded d)))]"

definition pool_route :: "pools \<Rightarrow> row" where
  "pool_route ps = [(''instances'', VDict (map (\<lambda>(instance_id, inst, state).
     (instance_id, VDict (pool_entry (get_pool_diagnostics inst state)))) ps))]"

definition close_pools :: "pools \<Rightarrow> pools" where
  "close_pools = map (\<lambda>(instance_id, inst, state). (instance_id, inst, fst (close_all_pools state)))"

section \<open>Stop\<close>

text \<open>
  The \<open>finally\<close> clause of \<open>app_lifespan\<close>.  \<open>pools_failure\<close> is an exception raised by closing the pools,
  \<open>aclose\<close> the outcome of closing the client: both are attempted, and the first failure is raised.
\<close>

definition app_shutdown ::
  "pyexc option \<Rightarrow> unit result \<Rightarrow> pools \<times> http_client \<Rightarrow> (pools \<times> http_client) \<times> unit result" where
  "app_shutdown pools_failure aclose s =
     (let ps = (case pools_failure of None \<Rightarrow> close_pools (fst s) | Some e \<Rightarrow> fst s);
          client = (case aclose of Inr _ \<Rightarrow> Closed | Inl e \<Rightarrow> snd s)
      in ((ps, client), case pools_failure of Some e \<Rightarrow> Inl e | None \<Rightarrow> aclose))"

text \<open>\<open>app_lifespan\<close>: whatever serving raised, the clause runs, and its exception replaces the other.\<close>

definition app_lifespan ::
  "unit result \<Rightarrow> pyexc option \<Rightarrow> unit result \<Rightarrow> pools \<times> http_client \<Rightarrow> (pools \<times> http_client) \<times> unit result" where
  "app_lifespan served pools_failure aclose s =
     (let (s', r) = app_shutdown pools_failure aclose s in (s', if is_ok r then served else r))"

text \<open>
  However serving ended, the pools are emptied unless closing them raises and the client is closed
  unless closing it raises, each whatever happens to the other; a failure to clean up is never lost,
  and without one the process ends as serving did.
\<close>

theorem shutdown_complete:
  assumes "app_lifespan served pools_failure aclose s = (s', r)"
  shows "(pools_failure = None \<longrightarrow> (\<forall>p \<in> set (fst s'). pool_size (snd (snd p)) = 0))
    \<and> map fst (fst s') = map fst (fst s)
    \<and> (is_ok aclose \<longrightarrow> snd s' = Closed)
    \<and> (is_ok r \<longleftrightarrow> pools_failure = None \<and> is_ok aclose \<and> is_ok served)"
  using assms
  by (auto simp: app_lifespan_def app_shutdown_def close_pools_def close_all_pools_def pool_size_def
      split: option.splits sum.splits if_splits)

theorem shutdown_complete_witness:
  "snd (fst (app_lifespan (Inl (value_error ''stopped'')) None (Inr ()) ([], Opened 10 5 30))) = Closed"
  using shutdown_complete [of "Inl (value_error ''stopped'')" None "Inr ()" "([], Opened 10 5 30)"
      "fst (app_lifespan (Inl (value_error ''stopped'')) None (Inr ()) ([], Opened 10 5 30))"
      "snd (app_lifespan (Inl (value_error ''stopped'')) None (Inr ()) ([], Opened 10 5 30))"]
  by simp

text \<open>
  No client stays open when the start fails, unless closing it or the code after the \<open>try\<close> statement
  of \<open>build_fastapi_app\<close> raised; and a server that starts listens on the configured address with the
  tools it registered.
\<close>

theorem main_outcomes:
  "case main su of
     (client, Inl e) \<Rightarrow> client = Not_Opened \<or> client = Closed \<or> \<not> is_ok (su_aclose su)
       \<or> (\<exists>tools exc. su_mount su tools = Inl exc)
   | (client, Inr (rt, host, port)) \<Rightarrow> (\<exists>a b c. client = Opened a b c)
       \<and> bind_address (su_environ su) = Inr (host, port) \<and> snd (build_fastapi_app su) = Inr rt
       \<and> row_get (root_route rt) ''tools'' = VList (map VStr (rt_registered rt))"
proof -
  obtain client built where b: "build_fastapi_app su = (client, built)" by force
  show ?thesis
  proof (cases built)
    case (Inl e)
    with b build_app_Inl [of su client e] show ?thesis
      by (auto simp: main_def bind_res_def split: sum.splits prod.splits)
  next
    case (Inr rt)
    with b build_app_Inr [of su client rt] have "\<exists>m k t. client = Opened m k t" by metis
    with b Inr show ?thesis
      by (auto simp: main_def bind_res_def root_route_def row_get_def dict_get_def split: sum.splits prod.splits)
  qed
qed

end
