(* ===== verification/Spec2Isabelle.thy ===== *)
theory Spec2Isabelle
  imports Connection_Pool Tool_Safety Config_Loader Dashboard_Html Query_Catalog Usage_Summary
    Dashboard_Store Column_Names Model_Graph Analysis_Contracts Auth_Provider Sessions_Dashboard
    Top_Statements Model_Report Security_Report Table_Health Audit_Log Diagnostics Redis_Limiter
    Pool_Liveness Server_Assembly Dashboard_App Dashboard_Log Traceability_Matrix
    Concurrent_Calls Connection_Fields Server_Lifecycle
begin

text \<open>
  A model of the MCP server for SQL Server (\<open>src/\<close>): tools through which language-model clients
  read two SQL Server instances, under authentication, session and rate limits and a write guard.

  The program's parts and their theories.  A tool call is authorized (\<open>auth_provider.py\<close>,
  \<open>privilege_mapper.py\<close>), charged to a session (\<open>session_manager.py\<close>) and to the rate limiter
  (\<open>rate_limiter.py\<close>), its statement passes the write guard (\<open>write_guard.py\<close>), it runs on a pooled
  or a private connection (\<open>connection_manager.py\<close>), and the \<open>finally\<close> clause writes one audit event
  (\<open>sql_tools.py\<close>).  Reports read the statements of \<open>query_catalog.py\<close>; the sessions dashboard is
  rendered by \<open>dashboard_payloads.py\<close> and kept by \<open>dashboard_page_store.py\<close>; the audit log is rolled
  up by \<open>usage_summary.py\<close>.

  \<^item> \<open>Py_Prelude\<close>, \<open>Py_Values\<close>: Python strings (code points 0 to 255), numerals, dictionaries as
    association lists in insertion order, dynamically typed values, exceptions as values of a sum
    type, and the lemmas the components share.
  \<^item> \<open>Input_Validation\<close>, \<open>Config_Models\<close>, \<open>Config_Loader\<close>: \<open>input_validation.py\<close>, \<open>models.py\<close>,
    \<open>tool_flags.py\<close>, \<open>tool_registry.py\<close>, \<open>config_loader.py\<close>.  Environment overrides are a list of
    field assignments applied in order; the lemmas show that every setting is what its own variable
    says and nothing else moves.
  \<^item> \<open>Write_Guard\<close>: \<open>WriteGuard\<close>.  Comment stripping is two recursive functions with a measure; the
    compiled deny-list patterns are predicates.  The lemmas relate the guard to the first word of the
    statement behind the comments it strips, and say which texts it lets through (also which comments
    hide a verb).
  \<^item> \<open>Privilege_Mapper\<close>, \<open>Auth_Provider\<close>: \<open>resolve_group_privilege\<close>, and the token verifier with its
    two caches, whose documents are shown to come from the tenant's own endpoints.  HTTP and the JWT
    library are parameters.
  \<^item> \<open>Admission\<close>: the locale \<open>admission_control\<close>, the contract that \<open>Session_Manager\<close> (interpretation
    \<open>sessions\<close>) and \<open>Rate_Limiter\<close> (\<open>actor_quota\<close>, \<open>global_quota\<close>) share: whatever the sequence of
    calls, the load of a key stays within its cap.  The limiter also refines the abstract
    sliding-window specification \<open>spec_run\<close>.
  \<^item> \<open>Connection_Pool\<close>: every critical section of the pool is a function on \<open>pool_state\<close>; threads are
    a list of phases and \<open>pool_step\<close> interleaves them.  Mutual exclusion and the balance of the counters
    are invariants by rule induction; a reachable state shows that the cap is not one.
    \<open>Pool_Liveness\<close>: the acquisition loop ends, by a rank of the thread's phase and the
    idle connections, whatever the other threads do between its steps.
  \<^item> \<open>Query_Execution\<close>, \<open>Column_Names\<close>: the operations of \<open>ConnectionManager\<close> on a database that is a
    function of the events sent so far, so every theorem says what is sent, committed and rolled back.
    The retry loop has fuel \<open>read_retry_attempts = 2\<close>, the code's own bound.
  \<^item> \<open>Tool_Execution\<close>, \<open>Tool_Safety\<close>: the handlers of \<open>register_sql_tools\<close> as functions on a record
    of the server's mutable state, composed from authorization, admission, guard and database steps;
    \<open>serve\<close> dispatches a request to one of ten tools (select, exec_proc, the four reports, ping,
    list_tools, list_object, execute_query), and \<open>server_reach\<close> is the set of states such calls reach.
    \<open>latency_report\<close>, which uses nothing of the server, is a function of its own; the analysis tools
    and the routes are in the theories below.
  \<^item> \<open>Concurrent_Calls\<close>: the same handlers as coroutines, cut at their \<open>await\<close>s into segments, and
    the event loop that interleaves, resumes, fails and cancels them (\<open>loop_reach\<close>, of calls of the
    ten tools).  The locale
    \<open>segment_relation\<close> judges a handler segment by segment, with the interpretations \<open>limited\<close> and \<open>gated\<close>;
    a call that runs alone is the call \<open>serve\<close> answers, within eight steps (the longest handler waits
    six times, its \<open>except\<close> clause once).
  \<^item> \<open>Connection_Fields\<close>: the attributes of the connection string a caller's database name leads to.
  \<^item> \<open>Query_Catalog\<close>: every statement of the catalogue, verbatim, and its argument checks; a statement
    is read outside its string literals to see that names cannot end it.
  \<^item> \<open>Model_Graph\<close>, \<open>Analysis_Contracts\<close>: the foreign-key graph against the transitive closure; findings,
    the report envelope, redaction.
  \<^item> \<open>Dashboard_Html\<close>, \<open>Dashboard_Store\<close>: the pages, whose markup does not depend on the data shown,
    and the store (locale \<open>expiring_store\<close>, interpretation \<open>page_store\<close>).
  \<^item> \<open>Catalog_Reads\<close>, \<open>Report_Tools\<close>: what the analysis tools share.  \<open>reads_only\<close>, \<open>sends_at_most\<close>
    and \<open>never_ok\<close> are closed under sequencing and exception handlers, so that a whole handler is
    judged from its steps.
  \<^item> \<open>Top_Statements\<close>, \<open>Model_Report\<close>, \<open>Table_Health\<close>, \<open>Security_Report\<close>: the four analysis tools.
    Each theory says which findings a report has in terms of the rows read, that findings and
    recommendations match, and which statements a call can send.
  \<^item> \<open>Sessions_Dashboard\<close>: the dashboard tool, the page and refresh routes and the data endpoint of
    the app, on one page store.
  \<^item> \<open>Dashboard_App\<close>: the interface of the app as a tree of components, and what it binds to.
    \<open>Dashboard_Log\<close>: the address of a page as it is logged.
  \<^item> \<open>Server_Assembly\<close>: \<open>register_sql_tools\<close>, which tools exist, and \<open>build_fastapi_app\<close>, which
    builds the components from the loaded configuration; its theorems carry the limits and the guard
    of the components over to the configured server.
    \<open>Server_Lifecycle\<close>: \<open>main\<close>, the root and \<open>/pool\<close> routes and the clean-up when the server stops.
  \<^item> \<open>Traceability_Matrix\<close>: \<open>scripts/generate-traceability-matrix.py\<close>.
  \<^item> \<open>Audit_Log\<close>, \<open>Usage_Summary\<close>: \<open>AuditLogger.log_event\<close> appends a line, \<open>summarize_audit_events\<close>
    reads the lines back; the counts of the summary are those of the handlers' events.
  \<^item> \<open>Diagnostics\<close>: the health check of the instances, the health, readiness and security routes, the
    audit routes and the secret resolver.
  \<^item> \<open>Redis_Limiter\<close>: the Lua script and \<open>allow\<close> of the shared limiter on a Redis given by its
    commands.  \<open>redis_laws\<close> is what the commands are documented to do; \<open>list_redis\<close> is an
    instance.  The relation \<open>redis_rel\<close> says what the keys hold; the script refines the window
    specification \<open>redis_spec\<close>, and the two limiters admit the same calls.

  Conventions.  A function that may raise returns \<open>pyexc + 'a\<close>; clock readings, secrets, the
  environment and the answers of the database are arguments.  Loops are structural or have a measure;
  the only other bound is the depth 17 of a blocking chain, which is the code's.

  Floats are exact real numbers; \<open>float\<close> on text and \<open>round\<close> are arguments where they are used.

  Not modelled: Prometheus metrics and the \<open>/metrics\<close> route, the text of log and progress messages,
  the rendering of the dashboard app, the web applications that \<open>server.py\<close> builds and mounts (an
  argument that may raise), the failure of writing an audit line (\<open>finish\<close> always writes it), the calls
  of the analysis tools in \<open>Concurrent_Calls\<close> (they run one at a time, in their own theories), and the
  load test and test runners, which drive the server from outside.
\<close>

section \<open>The report tools together\<close>

text \<open>
  C8: whatever its arguments, its caller and the answers of the database, a call of a report tool
  (top statements, data model, security configuration, table health, sessions dashboard) writes exactly one audit
  event, with the decision \<open>allow\<close> exactly when it succeeds; it uses the database only if the caller
  was admitted with read privilege; and all it then does is read, without parameters and without a
  commit, with statements of the fixed set that belongs to the tool.
\<close>

theorem report_tools_only_read:
  "catalogue_call_ok cfg cc tool actor (top_statement_sql n l)
     (is_ok (snd (top_statements_tool ft sa cfg db cc tool inst nr d n l vm actor s))) s
     (fst (top_statements_tool ft sa cfg db cc tool inst nr d n l vm actor s))
   \<and> catalogue_call_ok cfg cc tool actor model_statements
     (is_ok (snd (analyze_db_data_model_tool cfg db cc tool inst nr d sf m actor s))) s
     (fst (analyze_db_data_model_tool cfg db cc tool inst nr d sf m actor s))
   \<and> catalogue_call_ok cfg cc tool actor security_statements
     (is_ok (snd (analyze_sec_config_tool cfg db cc tool inst nr d scope actor s))) s
     (fst (analyze_sec_config_tool cfg db cc tool inst nr d scope actor s))
   \<and> catalogue_call_ok cfg cc tool actor (table_statements n)
     (is_ok (snd (analyze_tab_health_tool nc cfg db cc tool inst nr d sn tn ii is ih hn n actor s))) s
     (fst (analyze_tab_health_tool nc cfg db cc tool inst nr d sn tn ii is ih hn n actor s))
   \<and> catalogue_call_ok cfg cc tool actor dashboard_statements
     (is_ok (snd (snd (sessions_dashboard_tool cfg db sx cc tool inst nr d l locks actor pages s)))) s
     (fst (sessions_dashboard_tool cfg db sx cc tool inst nr d l locks actor pages s))"
proof (intro conjI)
  show "catalogue_call_ok cfg cc tool actor dashboard_statements
     (is_ok (snd (snd (sessions_dashboard_tool cfg db sx cc tool inst nr d l locks actor pages s)))) s
     (fst (sessions_dashboard_tool cfg db sx cc tool inst nr d l locks actor pages s))"
    unfolding catalogue_call_ok_def
    using dashboard_call_safe [of cfg db sx cc tool inst nr d l locks actor pages s] by (metis prod.collapse)
qed (rule top_statements_call_safe model_call_safe security_call_safe table_call_safe, rule surjective_pairing)+

end
